(* ===== verification/Go_Prelude.thy ===== *)
theory Go_Prelude
  imports Main "HOL-Library.Word" "HOL-Library.Signed_Division"
begin

text \<open>
  The prelude of the development: the parts of the Go language and of its standard library
  that every component relies on, with the lemmas the component proofs share.
  \<^item> Bytes are \<open>8 word\<close>; a Go \<open>int\<close> is an \<open>int\<close> where its sign matters and a \<open>nat\<close> where it
    is a length or an offset of a slice in memory (such values are far below \<open>2^63\<close>, so the
    64-bit arithmetic of the source on them does not wrap).
  \<^item> \<open>le_uint\<close> and \<open>put_le\<close> are the little-endian readers and writers of \<open>encoding/binary\<close>.
  \<^item> Instants are nanoseconds since Go's zero time (\<open>int\<close>); \<open>time.Time.IsZero\<close> is \<open>t = 0\<close>.
  \<^item> \<open>collect_unique\<close> is the loop shape "transform, skip blanks, skip keys already seen,
    append" that the source repeats in many packages.
\<close>

section \<open>Types and collections of facts\<close>

type_synonym byte = "8 word"
type_synonym sample = "16 word"
type_synonym instant = int
type_synonym duration = int

named_theorems byte_simps \<open>lengths, prefixes and values of byte strings\<close>
named_theorems prep_simps \<open>field equations of the preparation state\<close>

abbreviation (input) isZero :: "instant \<Rightarrow> bool" where
  "isZero t \<equiv> t = 0"

definition second :: duration where
  "second = 1000000000"

definition minute :: duration where
  "minute = 60 * second"

definition millisecond :: duration where
  "millisecond = 1000000"

section \<open>Byte strings\<close>

text \<open>The bytes of a Go string literal.\<close>

definition bytes :: "string \<Rightarrow> byte list" where
  "bytes s = map of_char s"

lemma length_bytes [simp, byte_simps]: "length (bytes s) = length s"
  by (simp add: bytes_def)

text \<open>The slice expression \<open>raw[a:b]\<close>, for bounds inside the slice.\<close>

definition slice :: "'a list \<Rightarrow> nat \<Rightarrow> nat \<Rightarrow> 'a list" where
  "slice xs a b = take (b - a) (drop a xs)"

lemma length_slice [simp]: "length (slice xs a b) = min (b - a) (length xs - a)"
  by (simp add: slice_def min_def)

lemma slice_append_right:
  "length xs \<le> a \<Longrightarrow> slice (xs @ ys) a b = slice ys (a - length xs) (b - length xs)"
  by (simp add: slice_def)

lemma slice_append_left: "b \<le> length xs \<Longrightarrow> slice (xs @ ys) a b = slice xs a b"
  by (simp add: slice_def)

lemma slice_all: "length xs \<le> b \<Longrightarrow> slice xs 0 b = xs"
  by (simp add: slice_def)

section \<open>Bounds of integer quotients\<close>

lemma int_div_less:
  fixes p d b :: int
  assumes "0 < d" and "p < b * d"
  shows "p div d < b"
proof (rule ccontr)
  assume "\<not> p div d < b"
  then have "b * d \<le> (p div d) * d"
    using assms(1) by (simp add: mult_right_mono)
  also have "\<dots> \<le> p"
    using assms(1) by (metis div_mult_mod_eq le_add_same_cancel1 pos_mod_sign)
  finally show False using assms(2) by simp
qed

lemma int_le_div:
  fixes p d a :: int
  assumes "0 < d" and "a * d \<le> p"
  shows "a \<le> p div d"
  using zdiv_mono1 [OF assms(2,1)] assms(1) by simp

section \<open>Little-endian integers\<close>

text \<open>\<open>binary.LittleEndian.Uint16\<close> and \<open>Uint32\<close> read the bytes they are given.\<close>

fun le_uint :: "byte list \<Rightarrow> int" where
  "le_uint [] = 0"
| "le_uint (b # bs) = uint b + 256 * le_uint bs"

text \<open>
  \<open>PutUint16\<close>, \<open>PutUint32\<close> and \<open>binary.Write\<close> with a little-endian order write the \<open>n\<close> low
  bytes of an integer; the conversions \<open>uint16(v)\<close> and \<open>uint32(v)\<close> of the source are the
  truncation to these bytes.
\<close>

fun put_le :: "nat \<Rightarrow> int \<Rightarrow> byte list" where
  "put_le 0 v = []"
| "put_le (Suc n) v = word_of_int v # put_le n (v div 256)"

lemma length_put_le [simp, byte_simps]: "length (put_le n v) = n"
  by (induction n arbitrary: v) auto

lemma le_uint_put_le: "le_uint (put_le n v) = v mod 256 ^ n"
proof (induction n arbitrary: v)
  case 0
  then show ?case by simp
next
  case (Suc n)
  have "le_uint (put_le (Suc n) v) = v mod 256 + 256 * ((v div 256) mod 256 ^ n)"
    by (simp add: Suc.IH uint_word_of_int)
  also have "\<dots> = v mod 256 ^ Suc n"
    by (simp add: zmod_zmult2_eq)
  finally show ?case .
qed

lemma le_uint_put_le_id: "0 \<le> v \<Longrightarrow> v < 256 ^ n \<Longrightarrow> le_uint (put_le n v) = v"
  by (simp add: le_uint_put_le)

lemma le_uint_nonneg [simp]: "0 \<le> le_uint bs"
  by (induction bs) auto

lemma le_uint_less: "le_uint bs < 256 ^ length bs"
proof (induction bs)
  case Nil
  then show ?case by simp
next
  case (Cons b bs)
  have "uint b < 256"
    using uint_lt2p [of b] by simp
  with Cons.IH show ?case by simp
qed

lemma put_le_le_uint: "length bs = n \<Longrightarrow> put_le n (le_uint bs) = bs"
proof (induction bs arbitrary: n)
  case Nil
  then show ?case by simp
next
  case (Cons b bs)
  have lt: "uint b < 256"
    using uint_lt2p [of b] by simp
  have "(uint b + 256 * le_uint bs) div 256 = le_uint bs"
    using lt by simp
  moreover have "word_of_int (uint b + 256 * le_uint bs) = b"
  proof -
    have "(uint b + 256 * le_uint bs) mod 256 = uint b"
      using lt by simp
    then have "uint (word_of_int (uint b + 256 * le_uint bs) :: byte) = uint b"
      by (simp only: uint_word_of_int) simp
    then show ?thesis by (simp only: word_uint_eq_iff)
  qed
  ultimately show ?case using Cons by auto
qed

section \<open>The de-duplicating collection loop\<close>

text \<open>
  \<^verbatim>\<open>
  out := []T{}; seen := map[K]struct{}{}
  for _, value := range values {
      y := f(value); if blank(y) { continue }
      if _, ok := seen[key(y)]; ok { continue }
      seen[key(y)] = struct{}{}; out = append(out, y)
  }
  \<close>
  \<open>f\<close> gives \<open>None\<close> where the source skips the value.
\<close>

fun collect_unique :: "('a \<Rightarrow> 'b option) \<Rightarrow> ('b \<Rightarrow> 'k) \<Rightarrow> 'k list \<Rightarrow> 'a list \<Rightarrow> 'b list" where
  "collect_unique f key seen [] = []"
| "collect_unique f key seen (x # xs) =
     (case f x of
        None \<Rightarrow> collect_unique f key seen xs
      | Some y \<Rightarrow>
          if key y \<in> set seen then collect_unique f key seen xs
          else y # collect_unique f key (key y # seen) xs)"

lemma collect_unique_fresh:
  "y \<in> set (collect_unique f key seen xs) \<Longrightarrow> key y \<notin> set seen"
proof (induction xs arbitrary: seen)
  case (Cons x xs)
  then show ?case by (fastforce split: option.splits if_splits)
qed simp

lemma collect_unique_distinct: "distinct (map key (collect_unique f key seen xs))"
proof (induction xs arbitrary: seen)
  case Nil
  then show ?case by simp
next
  case (Cons x xs)
  show ?case
    using Cons.IH by (auto split: option.splits dest: collect_unique_fresh)
qed

lemma collect_unique_from:
  "y \<in> set (collect_unique f key seen xs) \<Longrightarrow> \<exists>x\<in>set xs. f x = Some y"
  by (induction xs arbitrary: seen) (auto split: option.splits if_splits)

lemma collect_unique_complete:
  "x \<in> set xs \<Longrightarrow> f x = Some y \<Longrightarrow>
   key y \<in> set seen \<or> (\<exists>z\<in>set (collect_unique f key seen xs). key z = key y)"
proof (induction xs arbitrary: seen)
  case (Cons a xs)
  show ?case
  proof (cases "x = a")
    case True
    with Cons.prems show ?thesis by auto
  next
    case False
    with Cons.prems have "x \<in> set xs" by simp
    from Cons.IH [OF this \<open>f x = Some y\<close>] show ?thesis
      by (auto split: option.splits) (metis list.set_intros(1,2) set_ConsD)
  qed
qed simp

lemma collect_unique_length: "length (collect_unique f key seen xs) \<le> length xs"
proof (induction xs arbitrary: seen)
  case (Cons x xs)
  then show ?case by (auto split: option.splits intro: le_SucI)
qed simp

text \<open>A list that is already clean is left as it is, so a second pass changes nothing.\<close>

lemma collect_unique_id:
  assumes "\<And>y. y \<in> set ys \<Longrightarrow> f y = Some y"
    and "distinct (map key ys)"
    and "set (map key ys) \<inter> set seen = {}"
  shows "collect_unique f key seen ys = ys"
  using assms by (induction ys arbitrary: seen) auto

text \<open>The contract of a cleaning loop whose transformation leaves clean values alone.\<close>

locale cleaner =
  fixes f :: "'a \<Rightarrow> 'a option" and key :: "'a \<Rightarrow> 'k"
  assumes again: "f x = Some y \<Longrightarrow> f y = Some y"
begin

lemma members_clean: "y \<in> set (collect_unique f key [] xs) \<Longrightarrow> f y = Some y"
  using collect_unique_from again by fastforce

lemma keys_distinct: "distinct (map key (collect_unique f key [] xs))"
  by (rule collect_unique_distinct)

lemma idem: "collect_unique f key [] (collect_unique f key [] xs) = collect_unique f key [] xs"
  by (rule collect_unique_id) (simp_all add: members_clean keys_distinct)

lemma represented: "x \<in> set xs \<Longrightarrow> f x = Some y \<Longrightarrow> \<exists>z\<in>set (collect_unique f key [] xs). key z = key y"
  using collect_unique_complete [of x xs f y key "[]"] by simp

end

section \<open>Searching\<close>

lemma find_SomeD: "find P xs = Some x \<Longrightarrow> x \<in> set xs \<and> P x"
  by (auto simp: find_Some_iff)

end
