(* ===== verification/Wave_Audio.thy ===== *)
theory Wave_Audio
  imports Go_Prelude
begin

text \<open>
  RIFF/WAVE containers of 16-bit PCM. Three services read them and three write them:
  \<^item> \<open>internal/playlist/audio.go\<close>: \<open>wavPCM16\<close>, \<open>wavInfo\<close>, \<open>pcmInfo\<close>, and the streaming writer
    \<open>pcm16WAVStream\<close> (\<open>newPCM16WAVStream\<close>, \<open>Append\<close>, \<open>Commit\<close>, \<open>Abort\<close>, \<open>writeHeader\<close>);
  \<^item> \<open>internal/tts/audio.go\<close>: \<open>pcm16WAV\<close> and \<open>encodePCM16WAV\<close>;
  \<^item> \<open>internal/ivr/audio.go\<close>: \<open>readWAVPCM16\<close>, \<open>writeWAV\<close> and \<open>pcm16LE\<close>.
  A parser is a loop over the chunks of the file, a function on the file's bytes; an error
  return is \<open>Inl\<close> with the source's message. The chunk loops terminate because every chunk
  advances the offset by its 8 header bytes at least. The streaming writer passes the files
  explicitly (a map from paths to contents) and takes the outcome of each system call as an
  argument, so that every error return of the source is a branch of the model.
\<close>

section \<open>Chunk scanning\<close>

type_synonym go_error = string

text \<open>The local variables the three parsers fill in while they walk over the chunks.\<close>

record wav_scan =
  scan_format :: int
  scan_channels :: int
  scan_rate :: int
  scan_bits :: int
  scan_data :: "byte list"

definition scan_start :: wav_scan where
  "scan_start = \<lparr>scan_format = 0, scan_channels = 0, scan_rate = 0, scan_bits = 0, scan_data = []\<rparr>"

definition scan_fmt :: "byte list \<Rightarrow> wav_scan \<Rightarrow> wav_scan" where
  "scan_fmt chunk acc = acc\<lparr>
     scan_format := le_uint (slice chunk 0 2),
     scan_channels := le_uint (slice chunk 2 4),
     scan_rate := le_uint (slice chunk 4 8),
     scan_bits := le_uint (slice chunk 14 16)\<rparr>"

definition chunk_id :: "byte list \<Rightarrow> nat \<Rightarrow> byte list" where
  "chunk_id raw offset = slice raw offset (offset + 4)"

definition chunk_size :: "byte list \<Rightarrow> nat \<Rightarrow> nat" where
  "chunk_size raw offset = nat (le_uint (slice raw (offset + 4) (offset + 8)))"

definition riff_wave :: "byte list \<Rightarrow> bool" where
  "riff_wave raw \<longleftrightarrow> slice raw 0 4 = bytes ''RIFF'' \<and> slice raw 8 12 = bytes ''WAVE''"

section \<open>The playlist service\<close>

record audioInfo =
  ai_sampleRate :: int
  ai_channels :: int
  ai_durationMS :: int
  ai_bytes :: int

function wavPCM16_loop :: "byte list \<Rightarrow> nat \<Rightarrow> wav_scan \<Rightarrow> go_error + wav_scan" where
  "wavPCM16_loop raw offset acc =
     (if offset + 8 \<le> length raw then
        (let id = chunk_id raw offset;
             size = chunk_size raw offset;
             start = offset + 8
         in if start + size > length raw then Inl ''invalid WAV chunk size''
            else
              (let chunk = slice raw start (start + size)
               in if id = bytes ''fmt '' \<and> length chunk < 16 then Inl ''invalid WAV fmt chunk''
                  else
                    (let acc' = (if id = bytes ''fmt '' then scan_fmt chunk acc
                                 else if id = bytes ''data'' then acc\<lparr>scan_data := chunk\<rparr>
                                 else acc);
                         next = start + size
                     in wavPCM16_loop raw (if next mod 2 = 1 then next + 1 else next) acc')))
      else Inr acc)"
  by pat_completeness auto
termination
  by (relation "measure (\<lambda>(raw, offset, acc). length raw - offset)") (auto simp: Let_def)

declare wavPCM16_loop.simps [simp del]

definition wavPCM16 :: "byte list \<Rightarrow> go_error + (byte list \<times> audioInfo)" where
  "wavPCM16 raw =
     (if length raw < 44 \<or> \<not> riff_wave raw then Inl ''not a RIFF/WAVE file''
      else
        (case wavPCM16_loop raw 12 scan_start of
           Inl e \<Rightarrow> Inl e
         | Inr acc \<Rightarrow>
             if scan_format acc \<noteq> 1 \<or> scan_bits acc \<noteq> 16 \<or> scan_rate acc \<le> 0 \<or>
                scan_channels acc \<le> 0 \<or> length (scan_data acc) = 0
             then Inl ''WAV is not PCM s16le''
             else
               (let bytesPerSecond = scan_rate acc * scan_channels acc * 2
                in Inr (scan_data acc,
                     \<lparr>ai_sampleRate = scan_rate acc, ai_channels = scan_channels acc,
                      ai_durationMS = int (length (scan_data acc)) * 1000 div bytesPerSecond,
                      ai_bytes = int (length (scan_data acc))\<rparr>))))"

text \<open>
  \<open>wavInfo\<close> reads the same container from a file, 8 header bytes at a time, and stops at the
  first \<open>data\<close> chunk that follows a complete \<open>fmt\<close> chunk. \<open>pos\<close> is the file offset and
  \<open>remaining\<close> the source's variable of that name; \<open>io.ReadFull\<close> fails at the end of the file.
  The product of rate, channels and bits is a 64-bit \<open>int\<close> of the source, which wraps.
\<close>

record wav_file_scan =
  fs_rate :: int
  fs_channels :: int
  fs_bits :: int
  fs_dataBytes :: int

definition go_int64 :: "int \<Rightarrow> int" where
  "go_int64 v = sint (word_of_int v :: 64 word)"

function wavInfo_loop ::
  "byte list \<Rightarrow> nat \<Rightarrow> nat \<Rightarrow> wav_file_scan \<Rightarrow> go_error + wav_file_scan" where
  "wavInfo_loop file pos remaining acc =
     (if remaining \<ge> 8 then
        (if pos + 8 > length file then Inl ''unexpected EOF''
         else
           (let id = chunk_id file pos;
                size = chunk_size file pos;
                remaining' = remaining - 8;
                padded = size + size mod 2;
                start = pos + 8
            in if padded > remaining' then Inl ''invalid WAV chunk size''
               else if id = bytes ''fmt '' then
                 (if size < 16 then Inl ''invalid WAV fmt chunk''
                  else if start + 16 > length file then Inl ''unexpected EOF''
                  else
                    (let format = slice file start (start + 16)
                     in wavInfo_loop file (start + padded) (remaining' - padded)
                          (acc\<lparr>fs_channels := le_uint (slice format 2 4),
                               fs_rate := le_uint (slice format 4 8),
                               fs_bits := le_uint (slice format 14 16)\<rparr>)))
               else if id = bytes ''data'' then
                 (let acc' = acc\<lparr>fs_dataBytes := int size\<rparr>
                  in if fs_rate acc' > 0 \<and> fs_channels acc' > 0 \<and> fs_bits acc' > 0 then Inr acc'
                     else wavInfo_loop file (start + padded) (remaining' - padded) acc')
               else wavInfo_loop file (start + padded) (remaining' - padded) acc))
      else Inr acc)"
  by pat_completeness auto
termination
  by (relation "measure (\<lambda>(file, pos, remaining, acc). remaining)") (auto simp: Let_def)

declare wavInfo_loop.simps [simp del]

definition wavInfo :: "byte list \<Rightarrow> go_error + audioInfo" where
  "wavInfo file =
     (if length file < 12 \<or> \<not> riff_wave file then Inl ''not a RIFF/WAVE file''
      else
        (case wavInfo_loop file 12 (length file - 12)
                \<lparr>fs_rate = 0, fs_channels = 0, fs_bits = 0, fs_dataBytes = 0\<rparr> of
           Inl e \<Rightarrow> Inl e
         | Inr acc \<Rightarrow>
             if fs_rate acc \<le> 0 \<or> fs_channels acc \<le> 0 \<or> fs_bits acc \<le> 0 \<or> fs_dataBytes acc \<le> 0
             then Inl ''WAV format is incomplete''
             else
               (let bytesPerSecond = go_int64 (fs_rate acc * fs_channels acc * fs_bits acc) sdiv 8
                in if bytesPerSecond \<le> 0 then Inl ''invalid WAV byte rate''
                   else Inr \<lparr>ai_sampleRate = fs_rate acc, ai_channels = fs_channels acc,
                             ai_durationMS = fs_dataBytes acc * 1000 div bytesPerSecond,
                             ai_bytes = fs_dataBytes acc\<rparr>)))"

definition pcmInfo :: "byte list \<Rightarrow> int \<Rightarrow> int \<Rightarrow> go_error + audioInfo" where
  "pcmInfo file sampleRate channels =
     (let rate = (if sampleRate \<le> 0 then 48000 else sampleRate);
          ch = (if channels \<le> 0 then 1 else channels);
          bytesPerSecond = go_int64 (rate * ch * 2)
      in if bytesPerSecond \<le> 0 then Inl ''invalid PCM byte rate''
         else Inr \<lparr>ai_sampleRate = rate, ai_channels = ch,
                   ai_durationMS = int (length file) * 1000 div bytesPerSecond,
                   ai_bytes = int (length file)\<rparr>)"

section \<open>The text-to-speech service\<close>

function pcm16WAV_loop :: "byte list \<Rightarrow> nat \<Rightarrow> wav_scan \<Rightarrow> go_error + wav_scan" where
  "pcm16WAV_loop raw offset acc =
     (if offset + 8 \<le> length raw then
        (let size = chunk_size raw offset;
             start = offset + 8;
             stop = start + size;
             id = chunk_id raw offset
         in if stop > length raw then Inl ''invalid WAV chunk length''
            else if id = bytes ''fmt '' \<and> size < 16 then Inl ''invalid WAV fmt chunk''
            else
              (let acc' = (if id = bytes ''fmt '' then
                             acc\<lparr>scan_format := le_uint (slice raw start (start + 2)),
                                 scan_channels := le_uint (slice raw (start + 2) (start + 4)),
                                 scan_rate := le_uint (slice raw (start + 4) (start + 8)),
                                 scan_bits := le_uint (slice raw (start + 14) (start + 16))\<rparr>
                           else if id = bytes ''data'' then acc\<lparr>scan_data := slice raw start stop\<rparr>
                           else acc)
               in pcm16WAV_loop raw (stop + size mod 2) acc'))
      else Inr acc)"
  by pat_completeness auto
termination
  by (relation "measure (\<lambda>(raw, offset, acc). length raw - offset)") (auto simp: Let_def)

declare pcm16WAV_loop.simps [simp del]

definition pcm16WAV :: "byte list \<Rightarrow> go_error + (byte list \<times> int \<times> int)" where
  "pcm16WAV raw =
     (if length raw < 12 \<or> \<not> riff_wave raw then Inl ''not a RIFF/WAVE file''
      else
        (case pcm16WAV_loop raw 12 scan_start of
           Inl e \<Rightarrow> Inl e
         | Inr acc \<Rightarrow>
             if scan_format acc \<noteq> 1 \<or> scan_bits acc \<noteq> 16 \<or> scan_rate acc \<le> 0 \<or>
                scan_channels acc \<le> 0 \<or> length (scan_data acc) = 0
             then Inl ''WAV is not PCM s16le''
             else if int (length (scan_data acc)) mod (scan_channels acc * 2) \<noteq> 0
             then Inl ''WAV contains an incomplete PCM frame''
             else Inr (scan_data acc, scan_rate acc, scan_channels acc)))"

text \<open>
  The encoder. \<open>channels * 2 = 0\<close> makes the source's \<open>%\<close> panic; the short-circuit of the
  source tests the length first.
\<close>

definition encodePCM16WAV :: "byte list \<Rightarrow> int \<Rightarrow> int \<Rightarrow> go_error + byte list" where
  "encodePCM16WAV pcm sampleRate channels =
     (if length pcm = 0 then Inl ''invalid PCM payload for WAV''
      else if channels * 2 = 0 then Inl ''panic: integer divide by zero''
      else if int (length pcm) smod (channels * 2) \<noteq> 0 \<or> int (length pcm) > 2 ^ 32 - 1 - 36
      then Inl ''invalid PCM payload for WAV''
      else Inr (bytes ''RIFF'' @ put_le 4 (36 + int (length pcm)) @ bytes ''WAVEfmt '' @
                put_le 4 16 @ put_le 2 1 @ put_le 2 channels @ put_le 4 sampleRate @
                put_le 4 (sampleRate * channels * 2) @ put_le 2 (channels * 2) @ put_le 2 16 @
                bytes ''data'' @ put_le 4 (int (length pcm)) @ pcm))"

section \<open>The IVR service\<close>

record wavPCM =
  wp_sampleRate :: int
  wp_channels :: int
  wp_samples :: "sample list"

text \<open>\<open>int16(binary.LittleEndian.Uint16(data[index*2 : index*2+2]))\<close> for every whole sample.\<close>

fun pcm_samples :: "byte list \<Rightarrow> sample list" where
  "pcm_samples (a # b # rest) = word_of_int (le_uint [a, b]) # pcm_samples rest"
| "pcm_samples _ = []"

text \<open>\<open>readWAVPCM16\<close> stops at a chunk that runs past the end instead of failing.\<close>

function readWAVPCM16_loop :: "byte list \<Rightarrow> nat \<Rightarrow> wav_scan \<Rightarrow> go_error + wav_scan" where
  "readWAVPCM16_loop raw offset acc =
     (if offset + 8 \<le> length raw then
        (let id = chunk_id raw offset;
             size = chunk_size raw offset;
             start = offset + 8
         in if start + size > length raw then Inr acc
            else
              (let chunk = slice raw start (start + size)
               in if id = bytes ''fmt '' \<and> length chunk < 16 then Inl ''short wav fmt chunk''
                  else if id = bytes ''fmt '' \<and> le_uint (slice chunk 0 2) \<noteq> 1
                  then Inl ''unsupported wav format''
                  else
                    (let acc' = (if id = bytes ''fmt '' then scan_fmt chunk acc
                                 else if id = bytes ''data'' then acc\<lparr>scan_data := chunk\<rparr>
                                 else acc);
                         next = start + size
                     in readWAVPCM16_loop raw (if next mod 2 \<noteq> 0 then next + 1 else next) acc')))
      else Inr acc)"
  by pat_completeness auto
termination
  by (relation "measure (\<lambda>(raw, offset, acc). length raw - offset)") (auto simp: Let_def)

declare readWAVPCM16_loop.simps [simp del]

definition readWAVPCM16 :: "byte list \<Rightarrow> go_error + wavPCM" where
  "readWAVPCM16 raw =
     (if length raw < 44 \<or> \<not> riff_wave raw then Inl ''unsupported wav container''
      else
        (case readWAVPCM16_loop raw 12 scan_start of
           Inl e \<Rightarrow> Inl e
         | Inr acc \<Rightarrow>
             if scan_rate acc \<le> 0 \<or> scan_channels acc \<le> 0 \<or> scan_bits acc \<noteq> 16 \<or>
                length (scan_data acc) = 0
             then Inl ''wav must be 16-bit PCM''
             else Inr \<lparr>wp_sampleRate = scan_rate acc, wp_channels = scan_channels acc,
                       wp_samples = pcm_samples (scan_data acc)\<rparr>))"

definition writeWAV :: "int \<Rightarrow> sample list \<Rightarrow> byte list" where
  "writeWAV sampleRate samples =
     (let dataSize = int (length samples) * 2
      in bytes ''RIFF'' @ put_le 4 (36 + dataSize) @ bytes ''WAVEfmt '' @ put_le 4 16 @
         put_le 2 1 @ put_le 2 1 @ put_le 4 sampleRate @ put_le 4 (sampleRate * 2) @
         put_le 2 2 @ put_le 2 16 @ bytes ''data'' @ put_le 4 dataSize @
         concat (map (\<lambda>s. put_le 2 (sint s)) samples))"

definition pcm16LE :: "byte list \<Rightarrow> int \<Rightarrow> int \<Rightarrow> go_error + wavPCM" where
  "pcm16LE raw sampleRate channels =
     (if sampleRate \<le> 0 then Inl ''pcm sample rate is required''
      else
        (let ch = (if channels \<le> 0 then 1 else channels)
         in if length raw = 0 \<or> length raw mod 2 \<noteq> 0
            then Inl ''pcm data must be non-empty 16-bit little-endian samples''
            else Inr \<lparr>wp_sampleRate = sampleRate, wp_channels = ch,
                      wp_samples = pcm_samples raw\<rparr>))"


section \<open>The streaming writer of the playlist service\<close>

text \<open>
  The stream owns the temporary file \<open>path.tmp\<close>; \<open>Commit\<close> rewrites the header and renames it.
  \<open>st_open\<close> is \<open>file \<noteq> nil\<close>. System calls are arguments: a \<open>bool\<close> says whether a call
  succeeds, a \<open>nat\<close> how many bytes a write transfers before it fails (a header write succeeds
  when all 44 bytes are transferred).
\<close>

type_synonym files = "string \<rightharpoonup> byte list"

record pcm16WAVStream =
  st_path :: string
  st_tmp :: string
  st_open :: bool
  st_sampleRate :: int
  st_channels :: int
  st_dataBytes :: "64 word"

definition writeHeader :: "pcm16WAVStream \<Rightarrow> int \<Rightarrow> byte list" where
  "writeHeader s dataSize =
     bytes ''RIFF'' @ put_le 4 (36 + dataSize) @ bytes ''WAVEfmt '' @ put_le 4 16 @ put_le 2 1 @
     put_le 2 (st_channels s) @ put_le 4 (st_sampleRate s) @
     put_le 4 (st_sampleRate s * st_channels s * 2) @ put_le 2 (st_channels s * 2) @
     put_le 2 16 @ bytes ''data'' @ put_le 4 dataSize"

definition contents :: "files \<Rightarrow> string \<Rightarrow> byte list" where
  "contents fs path = (case fs path of None \<Rightarrow> [] | Some c \<Rightarrow> c)"

definition newPCM16WAVStream ::
  "string \<Rightarrow> int \<Rightarrow> int \<Rightarrow> bool \<Rightarrow> bool \<Rightarrow> nat \<Rightarrow> files \<Rightarrow> files \<times> (go_error + pcm16WAVStream)" where
  "newPCM16WAVStream path sampleRate channels mkdirOK createOK headerBytes fs =
     (let rate = (if sampleRate \<le> 0 then 48000 else sampleRate);
          ch = (if channels \<le> 0 then 1 else channels);
          tmp = path @ ''.tmp''
      in if \<not> mkdirOK then (fs, Inl ''mkdir failed'')
         else if \<not> createOK then (fs, Inl ''create failed'')
         else
           (let s = \<lparr>st_path = path, st_tmp = tmp, st_open = True, st_sampleRate = rate,
                     st_channels = ch, st_dataBytes = 0\<rparr>;
                header = writeHeader s 0
            in if headerBytes < length header then (fs(tmp := None), Inl ''header write failed'')
               else (fs(tmp \<mapsto> header), Inr s)))"

definition stream_Append ::
  "pcm16WAVStream \<Rightarrow> byte list \<Rightarrow> nat \<Rightarrow> bool \<Rightarrow> files \<Rightarrow> files \<times> pcm16WAVStream \<times> go_error option" where
  "stream_Append s pcm transfer writeOK fs =
     (if \<not> st_open s then (fs, s, Some ''PCM WAV stream is closed'')
      else if int (length pcm) mod (st_channels s * 2) \<noteq> 0
      then (fs, s, Some ''PCM payload must contain complete s16le frames'')
      else if of_nat (length pcm) > 4294967295 - st_dataBytes s
      then (fs, s, Some ''PCM WAV payload exceeds RIFF size limit'')
      else
        (let written = (if writeOK then length pcm else min transfer (length pcm));
             fs' = fs(st_tmp s \<mapsto> contents fs (st_tmp s) @ take written pcm);
             s' = s\<lparr>st_dataBytes := st_dataBytes s + of_nat written\<rparr>
         in if \<not> writeOK then (fs', s', Some ''write failed'') else (fs', s', None)))"

definition stream_Commit ::
  "pcm16WAVStream \<Rightarrow> bool \<Rightarrow> nat \<Rightarrow> bool \<Rightarrow> bool \<Rightarrow> files \<Rightarrow> files \<times> pcm16WAVStream \<times> go_error option" where
  "stream_Commit s seekOK headerBytes closeOK renameOK fs =
     (if \<not> st_open s then (fs, s, Some ''PCM WAV stream is closed'')
      else if \<not> seekOK then (fs, s, Some ''seek failed'')
      else
        (let header = writeHeader s (uint (ucast (st_dataBytes s) :: 32 word));
             content = take headerBytes header @ drop (min headerBytes (length header))
                         (contents fs (st_tmp s));
             fs1 = fs(st_tmp s \<mapsto> content)
         in if headerBytes < length header then (fs1, s, Some ''header write failed'')
            else if \<not> closeOK then (fs1, s\<lparr>st_open := False\<rparr>, Some ''close failed'')
            else if \<not> renameOK
            then (fs1(st_tmp s := None), s\<lparr>st_open := False\<rparr>, Some ''rename failed'')
            else (fs1(st_tmp s := None, st_path s \<mapsto> content), s\<lparr>st_open := False\<rparr>, None)))"

definition stream_Abort :: "pcm16WAVStream \<Rightarrow> files \<Rightarrow> files \<times> pcm16WAVStream" where
  "stream_Abort s fs = (fs(st_tmp s := None), s\<lparr>st_open := False\<rparr>)"

text \<open>\<open>writePCM16WAV\<close> with its deferred \<open>Abort\<close>, on the path where every call succeeds.\<close>

definition writePCM16WAV ::
  "string \<Rightarrow> byte list \<Rightarrow> int \<Rightarrow> int \<Rightarrow> files \<Rightarrow> files \<times> go_error option" where
  "writePCM16WAV path pcm sampleRate channels fs =
     (case newPCM16WAVStream path sampleRate channels True True 44 fs of
        (fs1, Inl e) \<Rightarrow> (fs1, Some e)
      | (fs1, Inr s) \<Rightarrow>
          (case stream_Append s pcm 0 True fs1 of
             (fs2, s2, Some e) \<Rightarrow> (fst (stream_Abort s2 fs2), Some e)
           | (fs2, s2, None) \<Rightarrow>
               (case stream_Commit s2 True 44 True True fs2 of
                  (fs3, s3, r) \<Rightarrow> (fst (stream_Abort s3 fs3), r))))"

section \<open>The canonical image\<close>

text \<open>
  Every writer of the three services produces the same 44-byte header followed by the data:
  \<open>wav_image\<close>. Its layout is computed once, here; the round trips follow from it.
\<close>

definition wav_image :: "int \<Rightarrow> int \<Rightarrow> int \<Rightarrow> byte list \<Rightarrow> byte list" where
  "wav_image n rate ch data =
     bytes ''RIFF'' @ put_le 4 (36 + n) @ bytes ''WAVE'' @ bytes ''fmt '' @ put_le 4 16 @
     put_le 2 1 @ put_le 2 ch @ put_le 4 rate @ put_le 4 (rate * ch * 2) @ put_le 2 (ch * 2) @
     put_le 2 16 @ bytes ''data'' @ put_le 4 n @ data"

lemma bytes_append [simp]: "bytes (s @ t) = bytes s @ bytes t"
  by (simp add: bytes_def)

lemma bytes_WAVEfmt: "bytes ''WAVEfmt '' = bytes ''WAVE'' @ bytes ''fmt ''"
  using bytes_append [of "''WAVE''" "''fmt ''"] by simp

lemma bytes_fmt_data [simp]: "bytes ''fmt '' \<noteq> bytes ''data''" "bytes ''data'' \<noteq> bytes ''fmt ''"
  by (simp_all add: bytes_def)

lemma le_uint_put_le2 [simp]: "0 \<le> v \<Longrightarrow> v < 65536 \<Longrightarrow> le_uint (put_le 2 v) = v"
  by (rule le_uint_put_le_id) simp_all

lemma le_uint_put_le4 [simp]: "0 \<le> v \<Longrightarrow> v < 4294967296 \<Longrightarrow> le_uint (put_le 4 v) = v"
  by (rule le_uint_put_le_id) simp_all

lemmas image_layout = wav_image_def chunk_id_def chunk_size_def riff_wave_def slice_def

lemma length_wav_image [simp, byte_simps]: "length (wav_image n rate ch data) = 44 + length data"
  by (simp add: wav_image_def)

lemma riff_wave_image [simp]: "riff_wave (wav_image n rate ch data)"
  by (simp add: image_layout)

lemma image_fmt_id [simp]: "chunk_id (wav_image n rate ch data) 12 = bytes ''fmt ''"
  by (simp add: image_layout)

lemma image_fmt_size [simp]: "chunk_size (wav_image n rate ch data) 12 = 16"
  by (simp add: image_layout)

lemma image_data_id [simp]: "chunk_id (wav_image n rate ch data) 36 = bytes ''data''"
  by (simp add: image_layout)

lemma image_data_size [simp]:
  "0 \<le> n \<Longrightarrow> n < 4294967296 \<Longrightarrow> chunk_size (wav_image n rate ch data) 36 = nat n"
  by (simp add: image_layout)

lemma image_fmt_fields [simp]:
  "slice (wav_image n rate ch data) 20 22 = put_le 2 1"
  "slice (wav_image n rate ch data) 22 24 = put_le 2 ch"
  "slice (wav_image n rate ch data) 24 28 = put_le 4 rate"
  "slice (wav_image n rate ch data) 34 36 = put_le 2 16"
  by (simp_all add: image_layout)

lemma image_fmt_chunk [simp]:
  "slice (slice (wav_image n rate ch data) 20 36) 0 2 = put_le 2 1"
  "slice (slice (wav_image n rate ch data) 20 36) 2 4 = put_le 2 ch"
  "slice (slice (wav_image n rate ch data) 20 36) 4 8 = put_le 4 rate"
  "slice (slice (wav_image n rate ch data) 20 36) 14 16 = put_le 2 16"
  by (simp_all add: image_layout)

lemma image_data [simp]:
  "slice (wav_image n rate ch data) 44 (44 + length data) = data"
  by (simp add: image_layout)

lemma image_riff_size: "le_uint (slice (wav_image n rate ch data) 4 8) = (36 + n) mod 2 ^ 32"
  by (simp add: image_layout le_uint_put_le)

section \<open>Reading a canonical image\<close>

definition image_scan :: "int \<Rightarrow> int \<Rightarrow> byte list \<Rightarrow> wav_scan" where
  "image_scan rate ch data =
     \<lparr>scan_format = 1, scan_channels = ch, scan_rate = rate, scan_bits = 16, scan_data = data\<rparr>"

lemma wavPCM16_loop_image:
  assumes "0 \<le> ch" "ch < 65536" "0 \<le> rate" "rate < 4294967296" "length data < 4294967296"
  shows "wavPCM16_loop (wav_image (int (length data)) rate ch data) 12 scan_start =
           Inr (image_scan rate ch data)"
  using assms
  by (simp add: wavPCM16_loop.simps [of _ 12] wavPCM16_loop.simps [of _ 36] Let_def
      wavPCM16_loop.simps [of _ "44 + length data"] wavPCM16_loop.simps [of _ "45 + length data"]
      scan_fmt_def scan_start_def image_scan_def)

lemma pcm16WAV_loop_image:
  assumes "0 \<le> ch" "ch < 65536" "0 \<le> rate" "rate < 4294967296" "length data < 4294967296"
  shows "pcm16WAV_loop (wav_image (int (length data)) rate ch data) 12 scan_start =
           Inr (image_scan rate ch data)"
  using assms
  by (simp add: pcm16WAV_loop.simps [of _ 12] pcm16WAV_loop.simps [of _ 36] Let_def
      pcm16WAV_loop.simps [of _ "44 + length data + length data mod 2"]
      scan_start_def image_scan_def)

lemma readWAVPCM16_loop_image:
  assumes "0 \<le> ch" "ch < 65536" "0 \<le> rate" "rate < 4294967296" "length data < 4294967296"
  shows "readWAVPCM16_loop (wav_image (int (length data)) rate ch data) 12 scan_start =
           Inr (image_scan rate ch data)"
  using assms
  by (simp add: readWAVPCM16_loop.simps [of _ 12] readWAVPCM16_loop.simps [of _ 36] Let_def
      readWAVPCM16_loop.simps [of _ "44 + length data"]
      readWAVPCM16_loop.simps [of _ "45 + length data"]
      scan_fmt_def scan_start_def image_scan_def)


lemma wavInfo_loop_image:
  assumes "0 < ch" "ch < 65536" "0 < rate" "rate < 4294967296" "length data < 4294967296"
    and "even (length data)"
  shows "wavInfo_loop (wav_image (int (length data)) rate ch data) 12 (32 + length data)
           \<lparr>fs_rate = 0, fs_channels = 0, fs_bits = 0, fs_dataBytes = 0\<rparr> =
           Inr \<lparr>fs_rate = rate, fs_channels = ch, fs_bits = 16, fs_dataBytes = int (length data)\<rparr>"
proof -
  have [simp]: "length data mod 2 = 0"
    using assms(6) by presburger
  show ?thesis
    using assms
    by (simp add: wavInfo_loop.simps [of _ 12] wavInfo_loop.simps [of _ 36] Let_def)
qed

lemma pcm_samples_encode [simp]:
  "pcm_samples (concat (map (\<lambda>s. put_le 2 (sint s)) samples)) = samples"
proof (induction samples)
  case Nil
  then show ?case by simp
next
  case (Cons x xs)
  have two: "put_le 2 (sint x) = [word_of_int (sint x), word_of_int (sint x div 256)]"
    by (simp add: numeral_2_eq_2)
  have "word_of_int (le_uint (put_le 2 (sint x))) = x"
  proof -
    have "le_uint (put_le 2 (sint x)) = sint x mod 65536"
      by (simp add: le_uint_put_le)
    also have "\<dots> = uint x"
      using uint_sint [of x] by (simp add: take_bit_eq_mod)
    finally show ?thesis by simp
  qed
  with Cons.IH show ?case by (simp add: two)
qed

lemma length_pcm_encode [simp]:
  "length (concat (map (\<lambda>s. put_le 2 (sint s)) samples)) = 2 * length samples"
  by (induction samples) auto

section \<open>The parsers agree\<close>

lemma slice_slice: "b \<le> n \<Longrightarrow> slice (slice xs s (s + n)) a b = slice xs (s + a) (s + b)"
  by (simp add: slice_def drop_take min_def add.commute)

lemma chunk_loops_agree:
  "even offset \<Longrightarrow> pcm16WAV_loop raw offset acc = Inr r \<longleftrightarrow> wavPCM16_loop raw offset acc = Inr r"
proof (induction "length raw - offset" arbitrary: offset acc rule: less_induct)
  case less
  define size where "size = chunk_size raw offset"
  define chunk where "chunk = slice raw (offset + 8) (offset + 8 + size)"
  define acc' where
    "acc' = (if chunk_id raw offset = bytes ''fmt '' then scan_fmt chunk acc
             else if chunk_id raw offset = bytes ''data'' then acc\<lparr>scan_data := chunk\<rparr> else acc)"
  define nxt where "nxt = offset + 8 + size + size mod 2"
  have pad: "(if (offset + 8 + size) mod 2 = 1 then offset + 8 + size + 1 else offset + 8 + size) = nxt"
    using less.prems unfolding nxt_def by presburger
  have even_nxt: "even nxt"
    using less.prems unfolding nxt_def by presburger
  show ?case
  proof (cases "offset + 8 \<le> length raw \<and> offset + 8 + size \<le> length raw \<and>
      \<not> (chunk_id raw offset = bytes ''fmt '' \<and> size < 16)")
    case True
    then have len: "length chunk = size"
      unfolding chunk_def length_slice by linarith
    have IH: "pcm16WAV_loop raw nxt acc' = Inr r \<longleftrightarrow> wavPCM16_loop raw nxt acc' = Inr r"
      using True even_nxt by (intro less.hyps) (auto simp: nxt_def)
    have L: "wavPCM16_loop raw offset acc = wavPCM16_loop raw nxt acc'"
      unfolding wavPCM16_loop.simps [of raw offset acc] Let_def size_def [symmetric]
        chunk_def [symmetric] acc'_def [symmetric] pad
      using True len by auto
    have fields: "chunk_id raw offset = bytes ''fmt '' \<Longrightarrow> scan_fmt chunk acc =
        acc\<lparr>scan_format := le_uint (slice raw (offset + 8) (offset + 8 + 2)),
            scan_channels := le_uint (slice raw (offset + 8 + 2) (offset + 8 + 4)),
            scan_rate := le_uint (slice raw (offset + 8 + 4) (offset + 8 + 8)),
            scan_bits := le_uint (slice raw (offset + 8 + 14) (offset + 8 + 16))\<rparr>"
      using True unfolding scan_fmt_def chunk_def by (simp add: slice_slice)
    have R: "pcm16WAV_loop raw offset acc = pcm16WAV_loop raw nxt acc'"
      unfolding pcm16WAV_loop.simps [of raw offset acc] Let_def size_def [symmetric]
        chunk_def [symmetric] acc'_def nxt_def
      using True fields by auto
    show ?thesis by (simp only: L R IH)
  next
    case False
    then show ?thesis
      by (subst wavPCM16_loop.simps, subst pcm16WAV_loop.simps)
        (auto simp: Let_def size_def [symmetric])
  qed
qed


text \<open>
  A successful scan that found both chunks saw at least the 8+16 bytes of one and the 8 bytes
  and the payload of the other, so the 44-byte test of the playlist service rejects no file
  the text-to-speech service accepts.
\<close>

lemma wavPCM16_loop_length:
  "wavPCM16_loop raw offset acc = Inr r \<Longrightarrow>
   (scan_format r \<noteq> scan_format acc \<longrightarrow> offset + 24 \<le> length raw) \<and>
   (scan_data r \<noteq> scan_data acc \<longrightarrow> offset + 8 + length (scan_data r) \<le> length raw) \<and>
   (scan_format r \<noteq> scan_format acc \<and> scan_data r \<noteq> scan_data acc \<longrightarrow>
      offset + 32 + length (scan_data r) \<le> length raw)"
proof (induction "length raw - offset" arbitrary: offset acc rule: less_induct)
  case less
  define size where "size = chunk_size raw offset"
  define chunk where "chunk = slice raw (offset + 8) (offset + 8 + size)"
  define acc' where
    "acc' = (if chunk_id raw offset = bytes ''fmt '' then scan_fmt chunk acc
             else if chunk_id raw offset = bytes ''data'' then acc\<lparr>scan_data := chunk\<rparr> else acc)"
  define nxt where
    "nxt = (if (offset + 8 + size) mod 2 = 1 then offset + 8 + size + 1 else offset + 8 + size)"
  have unf: "wavPCM16_loop raw offset acc =
     (if offset + 8 \<le> length raw then
        (if offset + 8 + size > length raw then Inl ''invalid WAV chunk size''
         else if chunk_id raw offset = bytes ''fmt '' \<and> length chunk < 16
         then Inl ''invalid WAV fmt chunk'' else wavPCM16_loop raw nxt acc')
      else Inr acc)"
    unfolding wavPCM16_loop.simps [of raw offset acc] Let_def size_def [symmetric]
      chunk_def [symmetric] acc'_def [symmetric] nxt_def [symmetric] ..
  show ?case
  proof (cases "offset + 8 \<le> length raw")
    case False
    with less.prems unf show ?thesis by simp
  next
    case True
    with less.prems unf have fit: "offset + 8 + size \<le> length raw"
      and fmt: "chunk_id raw offset = bytes ''fmt '' \<longrightarrow> 16 \<le> length chunk"
      and rest: "wavPCM16_loop raw nxt acc' = Inr r"
      by (auto split: if_splits)
    have len: "length chunk = size"
      using fit unfolding chunk_def length_slice by linarith
    have far: "offset + 8 + size \<le> nxt"
      by (simp add: nxt_def)
    with True have "length raw - nxt < length raw - offset" by linarith
    from less.hyps [OF this rest] far fit fmt len show ?thesis
      by (cases "chunk_id raw offset = bytes ''fmt ''";
          cases "chunk_id raw offset = bytes ''data''")
        (auto simp: acc'_def scan_fmt_def)
  qed
qed

lemma wavPCM16_Inr:
  assumes "wavPCM16 raw = Inr (pcm, info)"
  shows "\<exists>acc. \<not> length raw < 44 \<and> riff_wave raw \<and> wavPCM16_loop raw 12 scan_start = Inr acc \<and>
           scan_format acc = 1 \<and> scan_bits acc = 16 \<and> scan_rate acc > 0 \<and> scan_channels acc > 0 \<and>
           scan_data acc \<noteq> [] \<and> pcm = scan_data acc \<and> ai_sampleRate info = scan_rate acc \<and>
           ai_channels info = scan_channels acc"
proof (cases "wavPCM16_loop raw 12 scan_start")
  case (Inl e)
  with assms show ?thesis
    by (simp add: wavPCM16_def split: if_splits)
next
  case (Inr acc)
  with assms show ?thesis
    by (simp add: wavPCM16_def Let_def split: if_splits) (metis audioInfo.select_convs(1,2))
qed

text \<open>The text-to-speech parser and the playlist parser accept the same PCM files: one returns
  the samples, rate and channels exactly when the other returns them and the payload is made of
  complete frames, although one tests for 12 bytes and pads by the chunk size while the other
  tests for 44 bytes and pads by the parity of the offset.\<close>

theorem wav_parsers_agree:
  "pcm16WAV raw = Inr (pcm, rate, ch) \<longleftrightarrow>
   (\<exists>info. wavPCM16 raw = Inr (pcm, info) \<and> ai_sampleRate info = rate \<and> ai_channels info = ch \<and>
           int (length pcm) mod (ch * 2) = 0)"
  (is "?tts \<longleftrightarrow> ?playlist")
proof
  assume ?tts
  then obtain acc where riff: "riff_wave raw" and loop: "pcm16WAV_loop raw 12 scan_start = Inr acc"
    and ok: "scan_format acc = 1" "scan_bits acc = 16" "scan_rate acc > 0" "scan_channels acc > 0"
      "scan_data acc \<noteq> []" "int (length (scan_data acc)) mod (scan_channels acc * 2) = 0"
    and res: "pcm = scan_data acc" "rate = scan_rate acc" "ch = scan_channels acc"
    by (auto simp: pcm16WAV_def split: if_splits sum.splits)
  from loop have loop': "wavPCM16_loop raw 12 scan_start = Inr acc"
    using chunk_loops_agree [of 12 raw scan_start acc] by simp
  have "12 + 32 + length (scan_data acc) \<le> length raw"
    using wavPCM16_loop_length [OF loop'] ok by (simp add: scan_start_def)
  with riff loop' ok res show ?playlist
    by (auto simp: wavPCM16_def Let_def)
next
  assume ?playlist
  then obtain info where info: "wavPCM16 raw = Inr (pcm, info)" "ai_sampleRate info = rate"
      "ai_channels info = ch" and frames: "int (length pcm) mod (ch * 2) = 0"
    by (elim exE conjE) (rule that)
  from wavPCM16_Inr [OF info(1)] obtain acc where acc: "\<not> length raw < 44" "riff_wave raw"
      "wavPCM16_loop raw 12 scan_start = Inr acc"
      "scan_format acc = 1" "scan_bits acc = 16" "scan_rate acc > 0" "scan_channels acc > 0"
      "scan_data acc \<noteq> []"
    and res: "pcm = scan_data acc" "ai_sampleRate info = scan_rate acc"
      "ai_channels info = scan_channels acc"
    by blast
  moreover from acc have "pcm16WAV_loop raw 12 scan_start = Inr acc"
    using chunk_loops_agree [of 12 raw scan_start acc] by simp
  ultimately show ?tts
    using info(2,3) frames res by (simp add: pcm16WAV_def)
qed

section \<open>Round trips\<close>

lemma encodePCM16WAV_image:
  assumes "encodePCM16WAV pcm rate ch = Inr out" and "0 < ch"
  shows "out = wav_image (int (length pcm)) rate ch pcm" and "0 < length pcm"
    and "length pcm < 4294967296 - 36" and "int (length pcm) mod (ch * 2) = 0"
proof -
  from assms have "int (length pcm) smod (ch * 2) = 0"
    by (auto simp: encodePCM16WAV_def split: if_splits)
  with assms(2) show "int (length pcm) mod (ch * 2) = 0"
    by (simp add: signed_modulo_int_def signed_divide_int_def sgn_if minus_mod_eq_mult_div [symmetric]
        split: if_splits)
  show "out = wav_image (int (length pcm)) rate ch pcm" and "0 < length pcm"
    and "length pcm < 4294967296 - 36"
    using assms by (auto simp: encodePCM16WAV_def wav_image_def bytes_WAVEfmt split: if_splits)
qed

lemma wavPCM16_image:
  assumes "0 < rate" "rate < 4294967296" "0 < ch" "ch < 65536"
    and "0 < length data" "length data < 4294967296"
  shows "wavPCM16 (wav_image (int (length data)) rate ch data) =
           Inr (data, \<lparr>ai_sampleRate = rate, ai_channels = ch,
             ai_durationMS = int (length data) * 1000 div (rate * ch * 2),
             ai_bytes = int (length data)\<rparr>)"
  using assms by (simp add: wavPCM16_def wavPCM16_loop_image image_scan_def Let_def)

lemma readWAVPCM16_image:
  assumes "0 < rate" "rate < 4294967296" "0 < ch" "ch < 65536"
    and "0 < length data" "length data < 4294967296"
  shows "readWAVPCM16 (wav_image (int (length data)) rate ch data) =
           Inr \<lparr>wp_sampleRate = rate, wp_channels = ch, wp_samples = pcm_samples data\<rparr>"
  using assms by (simp add: readWAVPCM16_def readWAVPCM16_loop_image image_scan_def)

lemma go_int64_id:
  "- 9223372036854775808 \<le> v \<Longrightarrow> v < 9223372036854775808 \<Longrightarrow> go_int64 v = v"
  by (simp add: go_int64_def sint_sbintrunc' signed_take_bit_int_eq_self)

lemma wavInfo_image:
  assumes "0 < rate" "rate < 4294967296" "0 < ch" "ch < 65536"
    and "0 < length data" "length data < 4294967296" "even (length data)"
  shows "wavInfo (wav_image (int (length data)) rate ch data) =
           Inr \<lparr>ai_sampleRate = rate, ai_channels = ch,
             ai_durationMS = int (length data) * 1000 div (rate * ch * 2),
             ai_bytes = int (length data)\<rparr>"
proof -
  have "rate * ch \<le> 4294967296 * 65536"
    using assms by (intro mult_mono) auto
  then have small: "rate * ch * 16 < 9223372036854775808" by linarith
  have pos: "0 < rate * ch"
    using assms by simp
  then have posc: "\<not> ch * rate \<le> 0"
    by (simp add: mult.commute not_le)
  have rate8: "go_int64 (rate * ch * 16) sdiv 8 = rate * ch * 2"
  proof -
    have "go_int64 (rate * ch * 16) = rate * ch * 16"
      using small pos by (intro go_int64_id) linarith+
    then show ?thesis
      using pos by (simp add: signed_divide_int_def sgn_if)
  qed
  show ?thesis
    using assms posc by (simp add: wavInfo_def wavInfo_loop_image rate8 Let_def)
qed


text \<open>C32: A WAV file the text-to-speech service encodes is read back without loss by every reader
  of the system: its own parser, the playlist parser, the playlist's file probe (which also
  computes the same duration) and the IVR reader.\<close>

theorem encoded_wav_read_by_all_services:
  assumes "encodePCM16WAV pcm rate ch = Inr out"
    and "0 < rate" and "rate < 2 ^ 32" and "0 < ch" and "ch < 2 ^ 16"
  shows "pcm16WAV out = Inr (pcm, rate, ch) \<and>
         (\<exists>info. wavPCM16 out = Inr (pcm, info) \<and> wavInfo out = Inr info \<and>
                 ai_sampleRate info = rate \<and> ai_channels info = ch \<and>
                 ai_bytes info = int (length pcm)) \<and>
         readWAVPCM16 out = Inr \<lparr>wp_sampleRate = rate, wp_channels = ch,
                                 wp_samples = pcm_samples pcm\<rparr>"
proof -
  note image = encodePCM16WAV_image [OF assms(1) assms(4)]
  have bounds: "rate < 4294967296" "ch < 65536" "length pcm < 4294967296"
    using assms image(3) by simp_all
  have "2 dvd int (length pcm)"
    using image(4) by (metis dvd_mult_right dvd_eq_mod_eq_0)
  then have ev: "even (length pcm)" by simp
  have playlist: "wavPCM16 out = Inr (pcm, \<lparr>ai_sampleRate = rate, ai_channels = ch,
             ai_durationMS = int (length pcm) * 1000 div (rate * ch * 2),
             ai_bytes = int (length pcm)\<rparr>)"
    unfolding image(1) using assms bounds image(2) by (intro wavPCM16_image) auto
  moreover have "pcm16WAV out = Inr (pcm, rate, ch)"
    using assms bounds image
    by (simp add: pcm16WAV_def pcm16WAV_loop_image image_scan_def)
  moreover have "wavInfo out = Inr \<lparr>ai_sampleRate = rate, ai_channels = ch,
             ai_durationMS = int (length pcm) * 1000 div (rate * ch * 2),
             ai_bytes = int (length pcm)\<rparr>"
    unfolding image(1) using assms bounds image(2) ev by (intro wavInfo_image) auto
  moreover have "readWAVPCM16 out = Inr \<lparr>wp_sampleRate = rate, wp_channels = ch,
                                         wp_samples = pcm_samples pcm\<rparr>"
    unfolding image(1) using assms bounds image(2) by (intro readWAVPCM16_image) auto
  ultimately show ?thesis by simp
qed

theorem encoded_wav_read_by_all_services_witness:
  "encodePCM16WAV [1, 2, 3, 4] 8000 2 = Inr (the (case encodePCM16WAV [1, 2, 3, 4] 8000 2 of
      Inl e \<Rightarrow> None | Inr out \<Rightarrow> Some out)) \<and>
   pcm16WAV (the (case encodePCM16WAV [1, 2, 3, 4] 8000 2 of Inl e \<Rightarrow> None | Inr out \<Rightarrow> Some out)) =
     Inr ([1, 2, 3, 4], 8000, 2)"
proof -
  have "\<exists>out. encodePCM16WAV [1, 2, 3, 4] 8000 2 = Inr out"
    by (simp add: encodePCM16WAV_def)
  then obtain out where out: "encodePCM16WAV [1, 2, 3, 4] 8000 2 = Inr out" ..
  from encoded_wav_read_by_all_services [OF this] out show ?thesis by simp
qed

text \<open>The recording the IVR writes is the recording it reads: every non-empty list of samples
  that fits a RIFF chunk survives \<open>writeWAV\<close> followed by \<open>readWAVPCM16\<close>, sign included.\<close>

theorem writeWAV_roundtrip:
  assumes "0 < rate" and "rate < 2 ^ 32" and "samples \<noteq> []" and "2 * length samples < 2 ^ 32"
  shows "readWAVPCM16 (writeWAV rate samples) =
           Inr \<lparr>wp_sampleRate = rate, wp_channels = 1, wp_samples = samples\<rparr>"
proof -
  let ?data = "concat (map (\<lambda>s. put_le 2 (sint s)) samples)"
  have "writeWAV rate samples = wav_image (int (length ?data)) rate 1 ?data"
    unfolding length_pcm_encode
    by (simp add: writeWAV_def wav_image_def bytes_WAVEfmt Let_def mult.commute)
  moreover have "readWAVPCM16 (wav_image (int (length ?data)) rate 1 ?data) =
      Inr \<lparr>wp_sampleRate = rate, wp_channels = 1, wp_samples = pcm_samples ?data\<rparr>"
    using assms by (intro readWAVPCM16_image) simp_all
  ultimately show ?thesis by simp
qed

theorem writeWAV_roundtrip_witness:
  "readWAVPCM16 (writeWAV 8000 [-1, 0, 32767]) =
     Inr \<lparr>wp_sampleRate = 8000, wp_channels = 1, wp_samples = [-1, 0, 32767]\<rparr>"
  by (rule writeWAV_roundtrip) simp_all

section \<open>The streaming writer\<close>

text \<open>
  While the stream is open, the temporary file is a header placeholder followed by exactly the
  \<open>dataBytes\<close> payload bytes written so far, a count that stays within 32 bits.
\<close>

definition stream_inv :: "files \<Rightarrow> pcm16WAVStream \<Rightarrow> byte list \<Rightarrow> bool" where
  "stream_inv fs s payload \<longleftrightarrow>
     (\<exists>header. length header = 44 \<and> fs (st_tmp s) = Some (header @ payload)) \<and>
     unat (st_dataBytes s) = length payload \<and> length payload \<le> 4294967295 \<and>
     st_tmp s = st_path s @ ''.tmp'' \<and> 0 < st_channels s \<and> 0 < st_sampleRate s"

lemma length_writeHeader [simp, byte_simps]: "length (writeHeader s n) = 44"
  by (simp add: writeHeader_def)

lemma newPCM16WAVStream_inv:
  "newPCM16WAVStream path rate ch mk cr hb fs = (fs', Inr s) \<Longrightarrow>
   stream_inv fs' s [] \<and> st_open s \<and> st_path s = path \<and>
   st_sampleRate s = (if rate \<le> 0 then 48000 else rate) \<and>
   st_channels s = (if ch \<le> 0 then 1 else ch)"
  by (auto simp: newPCM16WAVStream_def stream_inv_def Let_def split: if_splits)

lemma append_limit:
  fixes d :: "64 word"
  assumes "unat d \<le> 4294967295" and "n < 2 ^ 64" and "\<not> of_nat n > 4294967295 - d"
  shows "unat d + n \<le> 4294967295"
proof -
  have "d \<le> 4294967295"
    using assms(1) by (simp add: word_le_nat_alt)
  then have "unat (4294967295 - d) = 4294967295 - unat d"
    using assms(1) by (simp add: unat_sub_if')
  moreover have "unat (of_nat n :: 64 word) = n"
    using assms(2) by (simp add: unat_of_nat)
  ultimately show ?thesis
    using assms(1,3) by (simp add: word_less_nat_alt)
qed

text \<open>Every call of \<open>Append\<close>, failed writes included, keeps the invariant.\<close>

lemma stream_Append_inv:
  assumes "stream_inv fs s payload" and "length pcm < 2 ^ 64"
    and "stream_Append s pcm transfer writeOK fs = (fs', s', err)"
  shows "\<exists>k. stream_inv fs' s' (payload @ take k pcm) \<and> (err = None \<longrightarrow> k = length pcm) \<and>
             st_open s' = st_open s \<and> st_path s' = st_path s \<and> st_channels s' = st_channels s \<and>
             st_sampleRate s' = st_sampleRate s"
proof (cases "\<not> st_open s \<or> int (length pcm) mod (st_channels s * 2) \<noteq> 0 \<or>
    of_nat (length pcm) > 4294967295 - st_dataBytes s")
  case True
  with assms show ?thesis
    by (intro exI [of _ 0]) (auto simp: stream_Append_def split: if_splits)
next
  case False
  define k where "k = (if writeOK then length pcm else min transfer (length pcm))"
  have le: "unat (st_dataBytes s) + length pcm \<le> 4294967295"
    using assms(1,2) False by (intro append_limit) (auto simp: stream_inv_def)
  have k: "k \<le> length pcm"
    by (simp add: k_def)
  have "unat (st_dataBytes s + of_nat k) = unat (st_dataBytes s) + k"
    using le k by (simp add: unat_word_ariths unat_of_nat)
  moreover have "fs' = fs(st_tmp s \<mapsto> contents fs (st_tmp s) @ take k pcm)"
    and "s' = s\<lparr>st_dataBytes := st_dataBytes s + of_nat k\<rparr>" and "err = None \<longrightarrow> writeOK"
    using assms(3) False by (auto simp: stream_Append_def Let_def k_def split: if_splits)
  ultimately show ?thesis
    using assms(1) le k
    by (intro exI [of _ k]) (auto simp: stream_inv_def contents_def k_def)
qed

lemma stream_Commit_image:
  assumes "stream_inv fs s payload" and "stream_Commit s sk hb cl rn fs = (fs', s', None)"
  shows "fs' (st_path s) =
           Some (wav_image (int (length payload)) (st_sampleRate s) (st_channels s) payload) \<and>
         fs' (st_tmp s) = None"
proof -
  have n: "uint (ucast (st_dataBytes s) :: 32 word) = int (length payload)"
  proof -
    have "uint (ucast (st_dataBytes s) :: 32 word) = uint (st_dataBytes s) mod 2 ^ 32"
      by (simp add: unsigned_ucast_eq take_bit_eq_mod)
    also have "\<dots> = int (length payload)"
      using assms(1) by (simp add: stream_inv_def uint_nat)
    finally show ?thesis .
  qed
  have "writeHeader s (int (length payload)) @ payload =
      wav_image (int (length payload)) (st_sampleRate s) (st_channels s) payload"
    by (simp add: writeHeader_def wav_image_def bytes_WAVEfmt)
  then show ?thesis
    using assms unfolding stream_Commit_def Let_def n
    by (auto simp: stream_inv_def contents_def split: if_splits)
qed


text \<open>A caller that appends several payloads and stops at the first error, as
  \<open>buildSegmentedProductItem\<close> does with the segments of a product.\<close>

fun append_all ::
  "pcm16WAVStream \<Rightarrow> byte list list \<Rightarrow> files \<Rightarrow> files \<times> pcm16WAVStream \<times> go_error option" where
  "append_all s [] fs = (fs, s, None)"
| "append_all s (pcm # rest) fs =
     (case stream_Append s pcm 0 True fs of
        (fs', s', None) \<Rightarrow> append_all s' rest fs'
      | (fs', s', Some e) \<Rightarrow> (fs', s', Some e))"

lemma append_all_inv:
  assumes "stream_inv fs s payload" and "\<forall>pcm\<in>set pcms. length pcm < 2 ^ 64"
    and "append_all s pcms fs = (fs', s', None)"
  shows "stream_inv fs' s' (payload @ concat pcms) \<and> st_path s' = st_path s \<and>
         st_sampleRate s' = st_sampleRate s \<and> st_channels s' = st_channels s"
  using assms
proof (induction pcms arbitrary: s fs payload)
  case Nil
  then show ?case by simp
next
  case (Cons pcm pcms)
  obtain fs1 s1 err where step: "stream_Append s pcm 0 True fs = (fs1, s1, err)"
    by (metis prod_cases3)
  with Cons.prems(3) have ok: "err = None" and rest: "append_all s1 pcms fs1 = (fs', s', None)"
    by (auto split: option.splits)
  from stream_Append_inv [OF Cons.prems(1) _ step] Cons.prems(2) ok
  have inv: "stream_inv fs1 s1 (payload @ pcm)" and same: "st_path s1 = st_path s"
      "st_sampleRate s1 = st_sampleRate s" "st_channels s1 = st_channels s"
    by auto
  from Cons.IH [OF inv _ rest] Cons.prems(2) same show ?case by simp
qed

text \<open>A product streamed in segments is stored whole: after a successful commit the target file
  parses as PCM with the requested format and its payload is the concatenation of the appended
  segments, byte for byte, and no temporary file is left.\<close>

theorem committed_stream_readable:
  assumes "newPCM16WAVStream path rate ch mk cr hb fs = (fs1, Inr s)"
    and "append_all s pcms fs1 = (fs2, s2, None)"
    and "stream_Commit s2 sk hb' cl rn fs2 = (fs3, s3, None)"
    and "0 < rate" and "rate < 2 ^ 32" and "0 < ch" and "ch < 2 ^ 16"
    and "\<forall>pcm\<in>set pcms. length pcm < 2 ^ 64" and "concat pcms \<noteq> []"
  shows "\<exists>file info. fs3 path = Some file \<and> wavPCM16 file = Inr (concat pcms, info) \<and>
           ai_sampleRate info = rate \<and> ai_channels info = ch \<and> fs3 (path @ ''.tmp'') = None"
proof -
  from newPCM16WAVStream_inv [OF assms(1)] assms(4,6)
  have inv1: "stream_inv fs1 s []" and s: "st_path s = path" "st_sampleRate s = rate" "st_channels s = ch"
    by simp_all
  from append_all_inv [OF inv1 assms(8,2)] s
  have inv2: "stream_inv fs2 s2 (concat pcms)" and s2: "st_path s2 = path" "st_sampleRate s2 = rate"
      "st_channels s2 = ch"
    by simp_all
  have len: "0 < length (concat pcms)" "length (concat pcms) < 4294967296"
    using inv2 assms(9) by (auto simp: stream_inv_def)
  have tmp: "st_tmp s2 = path @ ''.tmp''"
    using inv2 s2 by (simp add: stream_inv_def)
  let ?file = "wav_image (int (length (concat pcms))) rate ch (concat pcms)"
  from stream_Commit_image [OF inv2 assms(3)] s2 tmp
  have "fs3 path = Some ?file" and "fs3 (path @ ''.tmp'') = None"
    by simp_all
  moreover have "wavPCM16 ?file = Inr (concat pcms, \<lparr>ai_sampleRate = rate, ai_channels = ch,
       ai_durationMS = int (length (concat pcms)) * 1000 div (rate * ch * 2),
       ai_bytes = int (length (concat pcms))\<rparr>)"
    using assms(4-7) len by (intro wavPCM16_image) simp_all
  ultimately show ?thesis by force
qed

theorem committed_stream_readable_witness:
  "\<exists>fs1 s fs2 s2 fs3 s3 file info.
     newPCM16WAVStream ''a.wav'' 8000 1 True True 44 Map.empty = (fs1, Inr s) \<and>
     append_all s [[1, 2], [3, 4]] fs1 = (fs2, s2, None) \<and>
     stream_Commit s2 True 44 True True fs2 = (fs3, s3, None) \<and>
     fs3 ''a.wav'' = Some file \<and> wavPCM16 file = Inr ([1, 2, 3, 4], info)"
proof -
  obtain fs1 s where new: "newPCM16WAVStream ''a.wav'' 8000 1 True True 44 Map.empty = (fs1, Inr s)"
    and s: "s = \<lparr>st_path = ''a.wav'', st_tmp = ''a.wav.tmp'', st_open = True, st_sampleRate = 8000,
                st_channels = 1, st_dataBytes = 0\<rparr>"
    by (simp add: newPCM16WAVStream_def Let_def)
  obtain fs2 s2 where app: "append_all s [[1, 2], [3, 4]] fs1 = (fs2, s2, None)" and s2: "st_open s2"
    by (simp add: s stream_Append_def Let_def)
  obtain fs3 s3 where com: "stream_Commit s2 True 44 True True fs2 = (fs3, s3, None)"
    using s2 by (simp add: stream_Commit_def Let_def)
  from committed_stream_readable [OF new app com] new app com show ?thesis by auto
qed

text \<open>\<open>Append\<close> admits payloads up to \<open>2^32 - 1\<close> bytes, but the RIFF chunk also counts the 36 bytes
  of the header: for the last 36 admitted sizes the size field written by \<open>writeHeader\<close> wraps
  around and announces a file of fewer than 36 bytes.\<close>

theorem stream_riff_size_wraps:
  assumes "2 ^ 32 - 36 \<le> n" and "n < 2 ^ 32"
    and "st_open s" and "st_channels s = 1" and "even (length pcm)"
    and "int (unat (st_dataBytes s)) + int (length pcm) = n"
  shows "snd (snd (stream_Append s pcm 0 True fs)) = None \<and>
         le_uint (slice (writeHeader s n) 4 8) = n + 36 - 2 ^ 32"
proof
  have bounds: "4294967260 \<le> n" "n < 4294967296"
    using assms(1,2) by simp_all
  have fit: "unat (st_dataBytes s) \<le> 4294967295" "length pcm \<le> 4294967295 - unat (st_dataBytes s)"
    using bounds(2) assms(6) by linarith+
  then have "st_dataBytes s \<le> 4294967295"
    by (simp add: word_le_nat_alt)
  then have sub: "unat (4294967295 - st_dataBytes s) = 4294967295 - unat (st_dataBytes s)"
    using fit(1) by (simp add: unat_sub_if')
  have "unat (of_nat (length pcm) :: 64 word) = length pcm"
    using fit by (simp add: unat_of_nat)
  then have "\<not> of_nat (length pcm) > 4294967295 - st_dataBytes s"
    using fit(2) sub by (simp add: word_less_nat_alt not_less)
  then show "snd (snd (stream_Append s pcm 0 True fs)) = None"
    using assms(3-5) by (simp add: stream_Append_def Let_def)
  have "le_uint (slice (writeHeader s n) 4 8) = (36 + n) mod 2 ^ 32"
    by (simp add: writeHeader_def slice_def le_uint_put_le)
  also have "\<dots> = n + 36 - 2 ^ 32"
  proof -
    have "36 + n = (n - 4294967260) + 4294967296"
      by simp
    then have "(36 + n) mod 4294967296 = (n - 4294967260) mod 4294967296"
      by (metis mod_add_self2)
    also have "\<dots> = n - 4294967260"
      using bounds by simp
    finally show ?thesis by simp
  qed
  finally show "le_uint (slice (writeHeader s n) 4 8) = n + 36 - 2 ^ 32" .
qed

theorem stream_riff_size_wraps_witness:
  "le_uint (slice (writeHeader \<lparr>st_path = [], st_tmp = [], st_open = True, st_sampleRate = 8000,
     st_channels = 1, st_dataBytes = 4294967260\<rparr> 4294967260) 4 8) = 0"
  using stream_riff_size_wraps [of 4294967260 "\<lparr>st_path = [], st_tmp = [], st_open = True,
      st_sampleRate = 8000, st_channels = 1, st_dataBytes = 4294967260\<rparr>" "[]"]
  by simp

end
