(* ===== verification/Go_Strings.thy ===== *)
theory Go_Strings
  imports Go_Prelude
begin

text \<open>
  The functions of Go's \<open>strings\<close> and \<open>strconv\<close> packages that the services use.
  A Go string is a byte sequence, here a \<open>string\<close> (a list of 8-bit characters).
  \<open>TrimSpace\<close> is exact on bytes: the UTF-8 encodings of every Unicode space are recognised.
  \<open>ToLower\<close>, \<open>ToUpper\<close> and \<open>EqualFold\<close> are those of ASCII text; the Unicode case tables are
  not modelled and the bytes of a non-ASCII character are left as they are. Predicates on
  runes that only ask for ASCII classes (digits, letters) give the same result on bytes.
\<close>

section \<open>Trimming\<close>

text \<open>The length of the space character at the start of a string, 0 if there is none: the ASCII
  spaces, U+0085, U+00A0, U+1680, U+2000 to U+200A, U+2028, U+2029, U+202F, U+205F, U+3000.\<close>

definition space1 :: "char \<Rightarrow> bool" where
  "space1 a \<longleftrightarrow> a \<in> {CHR 0x09, CHR 0x0A, CHR 0x0B, CHR 0x0C, CHR 0x0D, CHR 0x20}"

definition space2 :: "char \<Rightarrow> char \<Rightarrow> bool" where
  "space2 a b \<longleftrightarrow> a = CHR 0xC2 \<and> (b = CHR 0x85 \<or> b = CHR 0xA0)"

definition space3 :: "char \<Rightarrow> char \<Rightarrow> char \<Rightarrow> bool" where
  "space3 a b c \<longleftrightarrow>
     (a = CHR 0xE1 \<and> b = CHR 0x9A \<and> c = CHR 0x80) \<or>
     (a = CHR 0xE2 \<and> b = CHR 0x80 \<and>
        c \<in> {CHR 0x80, CHR 0x81, CHR 0x82, CHR 0x83, CHR 0x84, CHR 0x85, CHR 0x86, CHR 0x87,
             CHR 0x88, CHR 0x89, CHR 0x8A, CHR 0xA8, CHR 0xA9, CHR 0xAF}) \<or>
     (a = CHR 0xE2 \<and> b = CHR 0x81 \<and> c = CHR 0x9F) \<or>
     (a = CHR 0xE3 \<and> b = CHR 0x80 \<and> c = CHR 0x80)"

fun space_len :: "string \<Rightarrow> nat" where
  "space_len [] = 0"
| "space_len [a] = (if space1 a then 1 else 0)"
| "space_len [a, b] = (if space1 a then 1 else if space2 a b then 2 else 0)"
| "space_len (a # b # c # s) =
     (if space1 a then 1 else if space2 a b then 2 else if space3 a b c then 3 else 0)"

text \<open>The same for a space at the end, on the reversed string.\<close>

fun space_len_rev :: "string \<Rightarrow> nat" where
  "space_len_rev [] = 0"
| "space_len_rev [a] = (if space1 a then 1 else 0)"
| "space_len_rev [a, b] = (if space1 a then 1 else if space2 b a then 2 else 0)"
| "space_len_rev (a # b # c # s) =
     (if space1 a then 1 else if space2 b a then 2 else if space3 c b a then 3 else 0)"

function drop_space :: "(string \<Rightarrow> nat) \<Rightarrow> string \<Rightarrow> string" where
  "drop_space len s = (if len s = 0 \<or> s = [] then s else drop_space len (drop (len s) s))"
  by pat_completeness auto
termination
  by (relation "measure (\<lambda>(len, s). length s)") auto

declare drop_space.simps [simp del]

definition trimSpace :: "string \<Rightarrow> string" where
  "trimSpace s = rev (drop_space space_len_rev (rev (drop_space space_len s)))"

section \<open>Case, search and splitting\<close>

definition lower_char :: "char \<Rightarrow> char" where
  "lower_char c = (let n = of_char c :: nat in if 65 \<le> n \<and> n \<le> 90 then char_of (n + 32) else c)"

definition upper_char :: "char \<Rightarrow> char" where
  "upper_char c = (let n = of_char c :: nat in if 97 \<le> n \<and> n \<le> 122 then char_of (n - 32) else c)"

definition toLower :: "string \<Rightarrow> string" where
  "toLower s = map lower_char s"

definition toUpper :: "string \<Rightarrow> string" where
  "toUpper s = map upper_char s"

definition equalFold :: "string \<Rightarrow> string \<Rightarrow> bool" where
  "equalFold s t \<longleftrightarrow> toLower s = toLower t"

fun hasPrefix :: "string \<Rightarrow> string \<Rightarrow> bool" where
  "hasPrefix s [] = True"
| "hasPrefix [] (p # ps) = False"
| "hasPrefix (c # s) (p # ps) = (c = p \<and> hasPrefix s ps)"

definition hasSuffix :: "string \<Rightarrow> string \<Rightarrow> bool" where
  "hasSuffix s t = hasPrefix (rev s) (rev t)"

fun containsStr :: "string \<Rightarrow> string \<Rightarrow> bool" where
  "containsStr [] t = (t = [])"
| "containsStr (c # s) t = (hasPrefix (c # s) t \<or> containsStr s t)"

definition char_between :: "char \<Rightarrow> char \<Rightarrow> char \<Rightarrow> bool" where
  "char_between lo hi c \<longleftrightarrow> (of_char lo :: nat) \<le> of_char c \<and> (of_char c :: nat) \<le> of_char hi"

definition is_digit :: "char \<Rightarrow> bool" where
  "is_digit c = char_between CHR ''0'' CHR ''9'' c"

definition is_upper :: "char \<Rightarrow> bool" where
  "is_upper c = char_between CHR ''A'' CHR ''Z'' c"

definition is_lower :: "char \<Rightarrow> bool" where
  "is_lower c = char_between CHR ''a'' CHR ''z'' c"

text \<open>\<open>strings.FieldsFunc\<close>: the maximal runs of characters that are not separators.\<close>

fun fields_acc :: "(char \<Rightarrow> bool) \<Rightarrow> string \<Rightarrow> string \<Rightarrow> string list" where
  "fields_acc sep cur [] = (if cur = [] then [] else [rev cur])"
| "fields_acc sep cur (c # s) =
     (if sep c then (if cur = [] then fields_acc sep [] s else rev cur # fields_acc sep [] s)
      else fields_acc sep (c # cur) s)"

definition fieldsFunc :: "(char \<Rightarrow> bool) \<Rightarrow> string \<Rightarrow> string list" where
  "fieldsFunc sep s = fields_acc sep [] s"

text \<open>\<open>strings.Split\<close> on a one-character separator.\<close>

fun split_acc :: "char \<Rightarrow> string \<Rightarrow> string \<Rightarrow> string list" where
  "split_acc sep cur [] = [rev cur]"
| "split_acc sep cur (c # s) =
     (if c = sep then rev cur # split_acc sep [] s else split_acc sep (c # cur) s)"

definition splitOn :: "char \<Rightarrow> string \<Rightarrow> string list" where
  "splitOn sep s = split_acc sep [] s"

fun join :: "string \<Rightarrow> string list \<Rightarrow> string" where
  "join sep [] = []"
| "join sep [s] = s"
| "join sep (s # t # ss) = s @ sep @ join sep (t # ss)"

text \<open>\<open>strconv.Itoa\<close> on a non-negative integer.\<close>

fun itoa :: "nat \<Rightarrow> string" where
  "itoa n = (if n < 10 then [char_of (48 + n)] else itoa (n div 10) @ [char_of (48 + n mod 10)])"

declare itoa.simps [simp del]

text \<open>The services' \<open>firstNonBlank\<close>, \<open>firstNonBlankText\<close>: the first value that is not blank, trimmed.\<close>

fun firstNonBlank :: "string list \<Rightarrow> string" where
  "firstNonBlank [] = []"
| "firstNonBlank (v # vs) = (if trimSpace v \<noteq> [] then trimSpace v else firstNonBlank vs)"

section \<open>Decimal numbers and searches\<close>

text \<open>\<open>strconv.Atoi\<close>: an optional sign and at least one digit, with a value of 64 bits.\<close>

fun digits_value :: "int \<Rightarrow> string \<Rightarrow> int" where
  "digits_value acc [] = acc"
| "digits_value acc (c # cs) = digits_value (acc * 10 + (of_char c - 48)) cs"

definition atoi :: "string \<Rightarrow> int option" where
  "atoi s =
     (let negative = hasPrefix s ''-'';
          digits = (if negative \<or> hasPrefix s ''+'' then tl s else s);
          v = (if negative then - digits_value 0 digits else digits_value 0 digits)
      in if digits = [] \<or> \<not> list_all is_digit digits then None
         else if - 9223372036854775808 \<le> v \<and> v \<le> 9223372036854775807 then Some v
         else None)"

definition itoaInt :: "int \<Rightarrow> string" where
  "itoaInt v = (if v < 0 then CHR ''-'' # itoa (nat (- v)) else itoa (nat v))"

text \<open>\<open>strings.ReplaceAll\<close> of one byte by another, and \<open>strings.LastIndex\<close>.\<close>

definition replaceByte :: "char \<Rightarrow> char \<Rightarrow> string \<Rightarrow> string" where
  "replaceByte old new s = map (\<lambda>c. if c = old then new else c) s"

fun lastIndex :: "string \<Rightarrow> string \<Rightarrow> nat option" where
  "lastIndex [] sub = (if sub = [] then Some 0 else None)"
| "lastIndex (c # s) sub =
     (case lastIndex s sub of
        Some i \<Rightarrow> Some (Suc i)
      | None \<Rightarrow> if hasPrefix (c # s) sub then Some 0 else None)"

section \<open>Lemmas on trimming\<close>

lemma space_len_le: "space_len s \<le> length s"
  by (induction s rule: space_len.induct) auto

lemma drop_space_stop: "len (drop_space len s) = 0 \<or> drop_space len s = []"
proof (induction len s rule: drop_space.induct)
  case (1 len s)
  then show ?case
    by (cases "len s = 0 \<or> s = []") (auto simp: drop_space.simps [of len s])
qed

lemma drop_space_id: "len s = 0 \<Longrightarrow> drop_space len s = s"
  by (simp add: drop_space.simps)

lemma drop_space_Nil [simp]: "drop_space len [] = []"
  by (simp add: drop_space.simps)

lemma drop_space_idem: "drop_space len (drop_space len s) = drop_space len s"
  using drop_space_stop [of len s] by (auto simp: drop_space_id)

lemma drop_space_suffix: "\<exists>w. s = w @ drop_space len s"
proof (induction len s rule: drop_space.induct)
  case (1 len s)
  show ?case
  proof (cases "len s = 0 \<or> s = []")
    case True
    then show ?thesis by (simp add: drop_space.simps [of len s])
  next
    case False
    with 1 obtain w where "drop (len s) s = w @ drop_space len (drop (len s) s)" by blast
    with False have "s = (take (len s) s @ w) @ drop_space len s"
      by (simp add: drop_space.simps [of len s])
    then show ?thesis ..
  qed
qed

lemma space_len_append: "space_len r \<noteq> 0 \<Longrightarrow> space_len (r @ w) = space_len r"
proof (induction r rule: space_len.induct)
  case (2 a)
  then show ?case by (cases w rule: space_len.cases) (auto split: if_splits)
next
  case (3 a b)
  then show ?case by (cases w) (auto split: if_splits)
qed auto

lemma trimSpace_left: "space_len (trimSpace s) = 0"
proof -
  let ?t = "drop_space space_len s"
  obtain w where "rev ?t = w @ drop_space space_len_rev (rev ?t)"
    using drop_space_suffix by blast
  then have "?t = trimSpace s @ rev w"
    by (metis rev_append rev_rev_ident trimSpace_def)
  moreover have "space_len ?t = 0"
    using drop_space_stop [of space_len s] by auto
  ultimately show ?thesis
    using space_len_append by metis
qed

lemma trimSpace_idem [simp]: "trimSpace (trimSpace s) = trimSpace s"
proof -
  have "trimSpace (trimSpace s) = rev (drop_space space_len_rev (rev (trimSpace s)))"
    unfolding trimSpace_def [of "trimSpace s"] by (simp add: drop_space_id trimSpace_left)
  also have "\<dots> = trimSpace s"
    by (simp add: trimSpace_def drop_space_idem)
  finally show ?thesis .
qed

lemma trimSpace_Nil [simp]: "trimSpace [] = []"
  by (simp add: trimSpace_def)

section \<open>Lemmas on case\<close>

lemma of_char_char_of_small: "n < 256 \<Longrightarrow> (of_char (char_of n) :: nat) = n"
  by (simp add: of_char_of)

lemma lower_char_idem [simp]: "lower_char (lower_char c) = lower_char c"
  by (simp add: lower_char_def Let_def of_char_char_of_small)

lemma upper_char_idem [simp]: "upper_char (upper_char c) = upper_char c"
proof (cases "97 \<le> (of_char c :: nat) \<and> (of_char c :: nat) \<le> 122")
  case True
  then have "(of_char (char_of (of_char c - 32 :: nat)) :: nat) = of_char c - 32"
    by (intro of_char_char_of_small) linarith
  moreover have "\<not> 97 \<le> (of_char c :: nat) - 32"
    using True by linarith
  ultimately show ?thesis using True by (simp add: upper_char_def Let_def)
next
  case False
  then show ?thesis by (auto simp: upper_char_def Let_def)
qed

lemma toLower_idem [simp]: "toLower (toLower s) = toLower s"
  by (simp add: toLower_def)

lemma toUpper_idem [simp]: "toUpper (toUpper s) = toUpper s"
  by (simp add: toUpper_def)

lemma length_toLower [simp]: "length (toLower s) = length s"
  by (simp add: toLower_def)

lemma length_toUpper [simp]: "length (toUpper s) = length s"
  by (simp add: toUpper_def)

lemma toLower_Nil_iff [simp]: "toLower s = [] \<longleftrightarrow> s = []"
  by (simp add: toLower_def)

lemma toUpper_Nil_iff [simp]: "toUpper s = [] \<longleftrightarrow> s = []"
  by (simp add: toUpper_def)

lemma toLower_Nil [simp]: "toLower [] = []"
  by (simp add: toLower_def)

lemma toUpper_Nil [simp]: "toUpper [] = []"
  by (simp add: toUpper_def)

text \<open>A character outside the letters is the image of itself only, so case conversion commutes
  with trimming.\<close>

lemma lower_char_fix:
  assumes "(of_char d :: nat) < 65 \<or> (90 < (of_char d :: nat) \<and> (of_char d :: nat) < 97) \<or> 122 < (of_char d :: nat)"
  shows "lower_char c = d \<longleftrightarrow> c = d"
proof
  assume "lower_char c = d"
  then have "(of_char (lower_char c) :: nat) = of_char d" by simp
  with assms show "c = d"
    using \<open>lower_char c = d\<close>
    by (auto simp: lower_char_def Let_def of_char_char_of_small split: if_splits)
next
  assume "c = d"
  with assms show "lower_char c = d"
    by (auto simp: lower_char_def Let_def)
qed

lemma upper_char_fix:
  assumes "(of_char d :: nat) < 65 \<or> (90 < (of_char d :: nat) \<and> (of_char d :: nat) < 97) \<or> 122 < (of_char d :: nat)"
  shows "upper_char c = d \<longleftrightarrow> c = d"
proof
  assume "upper_char c = d"
  then have "(of_char (upper_char c) :: nat) = of_char d" by simp
  with assms show "c = d"
    using \<open>upper_char c = d\<close>
    by (auto simp: upper_char_def Let_def of_char_char_of_small split: if_splits)
next
  assume "c = d"
  with assms show "upper_char c = d"
    by (auto simp: upper_char_def Let_def)
qed

lemma spaces_case:
  "space1 (lower_char a) = space1 a" "space2 (lower_char a) (lower_char b) = space2 a b"
  "space3 (lower_char a) (lower_char b) (lower_char c) = space3 a b c"
  "space1 (upper_char a) = space1 a" "space2 (upper_char a) (upper_char b) = space2 a b"
  "space3 (upper_char a) (upper_char b) (upper_char c) = space3 a b c"
  by (simp_all add: space1_def space2_def space3_def lower_char_fix upper_char_fix)

lemma space_len_map:
  assumes "\<And>a. space1 (f a) = space1 a" and "\<And>a b. space2 (f a) (f b) = space2 a b"
    and "\<And>a b c. space3 (f a) (f b) (f c) = space3 a b c"
  shows "space_len (map f s) = space_len s" and "space_len_rev (map f s) = space_len_rev s"
proof -
  show "space_len (map f s) = space_len s"
    by (cases s rule: space_len.cases) (simp_all add: assms)
  show "space_len_rev (map f s) = space_len_rev s"
    by (cases s rule: space_len_rev.cases) (simp_all add: assms)
qed

lemma drop_space_map:
  assumes "\<And>s. len (map f s) = len s"
  shows "drop_space len (map f s) = map f (drop_space len s)"
proof (induction s rule: length_induct)
  case (1 s)
  show ?case
  proof (cases "len s = 0 \<or> s = []")
    case True
    then show ?thesis
      by (auto simp: drop_space.simps [of len s] drop_space.simps [of len "map f s"] assms)
  next
    case False
    then have "drop_space len (map f (drop (len s) s)) = map f (drop_space len (drop (len s) s))"
      using 1 by simp
    with False show ?thesis
      by (simp add: drop_space.simps [of len s] drop_space.simps [of len "map f s"] assms drop_map)
  qed
qed

lemma trimSpace_toLower: "trimSpace (toLower s) = toLower (trimSpace s)"
  by (simp add: trimSpace_def toLower_def drop_space_map space_len_map spaces_case
      rev_map)

lemma trimSpace_toUpper: "trimSpace (toUpper s) = toUpper (trimSpace s)"
  by (simp add: trimSpace_def toUpper_def drop_space_map space_len_map spaces_case
      rev_map)

lemma trimSpace_toLower_trimSpace [simp]: "trimSpace (toLower (trimSpace s)) = toLower (trimSpace s)"
  by (simp add: trimSpace_toLower)

lemma trimSpace_toUpper_trimSpace [simp]: "trimSpace (toUpper (trimSpace s)) = toUpper (trimSpace s)"
  by (simp add: trimSpace_toUpper)

lemma trimSpace_firstNonBlank [simp]: "trimSpace (firstNonBlank vs) = firstNonBlank vs"
  by (induction vs) auto

lemma firstNonBlank_Nil_iff: "firstNonBlank vs = [] \<longleftrightarrow> (\<forall>v\<in>set vs. trimSpace v = [])"
  by (induction vs) auto

section \<open>Texts without spaces\<close>

definition solid :: "char \<Rightarrow> bool" where
  "solid c \<longleftrightarrow> \<not> space1 c \<and> (of_char c :: nat) < 128"

lemma solid_not: "solid c \<Longrightarrow> \<not> space1 c \<and> \<not> space2 c d \<and> \<not> space3 c d e"
  by (auto simp: solid_def space2_def space3_def)

lemma solid_space_len: "list_all solid s \<Longrightarrow> space_len s = 0"
  by (cases s rule: space_len.cases) (simp_all add: solid_not)

lemma solid_space_len_rev: "list_all solid s \<Longrightarrow> space_len_rev s = 0"
  by (cases s rule: space_len_rev.cases) (simp_all add: solid_not)

lemma trimSpace_solid: "list_all solid s \<Longrightarrow> trimSpace s = s"
  by (simp add: trimSpace_def drop_space_id solid_space_len solid_space_len_rev)

end
