(* ===== verification/Telephone_Audio.thy ===== *)
theory Telephone_Audio
  imports Wave_Audio Go_Strings
begin

unbundle bit_operations_syntax

text \<open>
  Telephone audio of the IVR service: the G.711 mu-law codec (\<open>linearToULaw\<close> of
  \<open>internal/ivr/audio.go\<close>, \<open>uLawToLinear\<close> of \<open>internal/ivr/sip_media.go\<close>), the down-mix
  \<open>monoSamples\<close>, and the decoder of inbound RTP packets \<open>sipInboundDecoder\<close> with its DTMF path
  (\<open>rtpDTMFDigit\<close>, \<open>normalizeDTMFDigit\<close> of \<open>internal/ivr/sip.go\<close>).
  The RTP parser (\<open>pion/rtp\<close>) and the G.722 codec (\<open>gotranspile/g722\<close>) are third-party code:
  they are arguments of the decoder (\<open>unmarshal\<close>, \<open>g722new\<close>, \<open>g722dec\<close>).
\<close>

section \<open>Mu-law\<close>

text \<open>The loop that looks for the highest set bit: \<open>exponent\<close> counts down while \<open>mask\<close> shifts right.\<close>

fun ulaw_exponent :: "nat \<Rightarrow> int \<Rightarrow> int \<Rightarrow> nat" where
  "ulaw_exponent 0 m pcm = 0"
| "ulaw_exponent (Suc exponent) m pcm =
     (if pcm AND m = 0 then ulaw_exponent exponent (drop_bit 1 m) pcm else Suc exponent)"

definition linearToULaw :: "sample \<Rightarrow> byte" where
  "linearToULaw sample =
     (let pcm = sint sample;
          sign = (if pcm < 0 then 0x80 else 0);
          pcm = (if pcm < 0 then - pcm else pcm);
          pcm = (if pcm > 32635 then 32635 else pcm);
          pcm = pcm + 0x84;
          exponent = ulaw_exponent 7 0x4000 pcm;
          mantissa = drop_bit (exponent + 3) pcm AND 0x0F
      in NOT (word_of_int (sign OR push_bit 4 (int exponent) OR mantissa)))"

definition uLawToLinear :: "byte \<Rightarrow> sample" where
  "uLawToLinear byte =
     (let value = NOT byte;
          sign = value AND 0x80;
          exponent = drop_bit 4 value AND 0x07;
          mantissa = value AND 0x0F;
          sample = push_bit (unat exponent) (push_bit 3 (uint mantissa) + 0x84);
          sample = sample - 0x84
      in word_of_int (if sign \<noteq> 0 then - sample else sample))"

section \<open>Down-mix\<close>

text \<open>
  \<open>channels \<le> 1\<close> returns the samples unchanged. \<open>frame * channels + ch\<close> is always in range
  because \<open>frame < length samples div channels\<close>. The sum is a 64-bit \<open>int\<close> that cannot
  overflow; the division truncates towards zero.
\<close>

definition frame_sum :: "sample list \<Rightarrow> nat \<Rightarrow> nat \<Rightarrow> int" where
  "frame_sum samples channels frame =
     (\<Sum>ch\<leftarrow>[0..<channels]. sint (samples ! (frame * channels + ch)))"

definition monoSamples :: "sample list \<Rightarrow> int \<Rightarrow> sample list" where
  "monoSamples samples channels =
     (if channels \<le> 1 then samples
      else map (\<lambda>frame. word_of_int (frame_sum samples (nat channels) frame sdiv channels))
             [0..<length samples div nat channels])"

section \<open>Inbound RTP\<close>

datatype sipAudioCodec = PCMU | G722

record rtp_packet =
  rtp_payloadType :: "8 word"
  rtp_sequenceNumber :: "16 word"
  rtp_timestamp :: "32 word"
  rtp_payload :: "byte list"

record pcmFrame =
  frame_samples :: "sample list"
  frame_at :: instant

record 'g sipInboundDecoder =
  dec_codec :: sipAudioCodec
  dec_audioPT :: "8 word"
  dec_dtmfPT :: "8 word"
  dec_g722 :: "'g option"
  dec_initialized :: bool
  dec_lastSeq :: "16 word"

definition newSIPInboundDecoder :: "'g \<Rightarrow> sipAudioCodec \<Rightarrow> int \<Rightarrow> int \<Rightarrow> 'g sipInboundDecoder" where
  "newSIPInboundDecoder g722new codec audioPayload dtmfPayload =
     \<lparr>dec_codec = codec, dec_audioPT = word_of_int audioPayload,
      dec_dtmfPT = word_of_int dtmfPayload,
      dec_g722 = (if codec = G722 then Some g722new else None),
      dec_initialized = False, dec_lastSeq = 0\<rparr>"

definition normalizeDTMFDigit :: "string \<Rightarrow> string" where
  "normalizeDTMFDigit raw =
     (let value = trimSpace raw
      in if value \<in> {''0'', ''1'', ''2'', ''3'', ''4'', ''5'', ''6'', ''7'', ''8'', ''9''} then value
         else if value = ''10'' \<or> value = ''*'' then ''*''
         else if value = ''11'' \<or> value = ''#'' then ''#''
         else '''')"

definition rtpDTMFDigit ::
  "(byte list \<Rightarrow> rtp_packet option) \<Rightarrow> byte list \<Rightarrow> int \<Rightarrow> string \<times> string" where
  "rtpDTMFDigit unmarshal packet payloadType =
     (case unmarshal packet of
        None \<Rightarrow> ('''', '''')
      | Some decoded \<Rightarrow>
          if uint (rtp_payloadType decoded) \<noteq> payloadType \<or> length (rtp_payload decoded) < 4
          then ('''', '''')
          else
            (let event = unat (rtp_payload decoded ! 0);
                 digit = normalizeDTMFDigit (itoa event)
             in if digit = '''' then ('''', '''')
                else (digit, itoa event @ '':'' @ itoa (unat (rtp_timestamp decoded)))))"

definition sipG722FrameSamples :: nat where
  "sipG722FrameSamples = 16000 div 50"

text \<open>For PCMU each byte gives two equal samples (8 kHz to 16 kHz). A G.722 decoder always holds
  its codec state (\<open>newSIPInboundDecoder\<close> sets it and \<open>Decode\<close> only replaces it).\<close>

definition decodePayload ::
  "('g \<Rightarrow> byte list \<Rightarrow> sample list \<times> 'g) \<Rightarrow> 'g sipInboundDecoder \<Rightarrow> byte list \<Rightarrow>
   sample list \<times> 'g sipInboundDecoder" where
  "decodePayload g722dec decoder payload =
     (case dec_codec decoder of
        G722 \<Rightarrow>
          (case dec_g722 decoder of
             None \<Rightarrow> ([], decoder)
           | Some g \<Rightarrow> (case g722dec g payload of (out, g') \<Rightarrow> (out, decoder\<lparr>dec_g722 := Some g'\<rparr>)))
      | PCMU \<Rightarrow> (concat (map (\<lambda>value. [uLawToLinear value, uLawToLinear value]) payload), decoder))"

text \<open>The silence frames inserted for lost packets, 20 ms apart, the oldest first.\<close>

definition concealment :: "nat \<Rightarrow> instant \<Rightarrow> pcmFrame list" where
  "concealment missing at =
     map (\<lambda>index. \<lparr>frame_samples = replicate sipG722FrameSamples 0,
                   frame_at = at - int (missing - index) * 20 * millisecond\<rparr>) [0..<missing]"

definition decoder_Decode ::
  "(byte list \<Rightarrow> rtp_packet option) \<Rightarrow> 'g \<Rightarrow> ('g \<Rightarrow> byte list \<Rightarrow> sample list \<times> 'g) \<Rightarrow>
   'g sipInboundDecoder \<Rightarrow> byte list \<Rightarrow> instant \<Rightarrow>
   'g sipInboundDecoder \<times> pcmFrame list \<times> string \<times> string \<times> bool" where
  "decoder_Decode unmarshal g722new g722dec decoder raw at =
     (case unmarshal raw of
        None \<Rightarrow> (decoder, [], '''', '''', False)
      | Some packet \<Rightarrow>
          if rtp_payloadType packet = dec_dtmfPT decoder then
            (case rtpDTMFDigit unmarshal raw (uint (dec_dtmfPT decoder)) of
               (digit, key) \<Rightarrow> (decoder, [], digit, key, digit \<noteq> ''''))
          else if rtp_payloadType packet \<noteq> dec_audioPT decoder \<or> length (rtp_payload packet) = 0
          then (decoder, [], '''', '''', False)
          else
            (let delta = rtp_sequenceNumber packet - dec_lastSeq decoder
             in if dec_initialized decoder \<and> (delta = 0 \<or> delta > 0x8000)
                then (decoder, [], '''', '''', False)
                else
                  (let missing = (if dec_initialized decoder \<and> delta > 1
                                  then min (unat delta - 1) 3 else 0);
                       decoder = (if dec_initialized decoder \<and> delta > 1 \<and> dec_codec decoder = G722
                                  then decoder\<lparr>dec_g722 := Some g722new\<rparr> else decoder);
                       decoder = decoder\<lparr>dec_initialized := True,
                                         dec_lastSeq := rtp_sequenceNumber packet\<rparr>
                   in case decodePayload g722dec decoder (rtp_payload packet) of
                        (samples, decoder) \<Rightarrow>
                          let frames = concealment missing at @
                                (if length samples > 0
                                 then [\<lparr>frame_samples = samples, frame_at = at\<rparr>] else [])
                          in (decoder, frames, '''', '''', length frames > 0))))"

section \<open>Correctness of the codec\<close>

text \<open>All 256 code words, evaluated.\<close>

lemma uLaw_roundtrip_table:
  "\<forall>n\<in>set [0..<256]. n = 127 \<or> linearToULaw (uLawToLinear (of_nat n)) = of_nat n"
  by code_simp

lemma uLaw_fields_table:
  "\<forall>e\<in>set [0..<8]. \<forall>m\<in>set [0..<16]. \<forall>sign\<in>{0, 0x80}.
     sint (uLawToLinear (NOT (word_of_int (sign OR push_bit 4 (int e) OR int m)))) =
       (if sign = (0::int) then 1 else - 1) * ((int m * 8 + 132) * 2 ^ e - 132)"
  by code_simp


text \<open>Decoding a mu-law byte and encoding it again gives the same byte, for all 256 code words but
  negative zero, which becomes positive zero.\<close>

theorem uLaw_roundtrip: "linearToULaw (uLawToLinear b) = (if b = 0x7F then 0xFF else b)"
proof (cases "b = 0x7F")
  case True
  have "linearToULaw (uLawToLinear 0x7F) = 0xFF"
    by code_simp
  with True show ?thesis by simp
next
  case False
  have "unat b < 256"
    using unsigned_less [of b, where ?'a = nat] by simp
  then have "unat b = 127 \<or> linearToULaw (uLawToLinear (of_nat (unat b))) = of_nat (unat b)"
    using uLaw_roundtrip_table [THEN bspec, of "unat b"] by simp
  moreover have "unat b \<noteq> 127"
  proof
    assume "unat b = 127"
    then have "of_nat (unat b) = (127 :: byte)" by simp
    with False show False by simp
  qed
  ultimately show ?thesis using False by simp
qed

lemma and_power_eq_0_iff:
  fixes pcm :: int
  assumes "0 \<le> pcm" and "pcm < 2 ^ Suc n"
  shows "pcm AND 2 ^ n = 0 \<longleftrightarrow> pcm < 2 ^ n"
proof -
  have "pcm AND 2 ^ n = 0 \<longleftrightarrow> \<not> bit pcm n"
    by (simp add: bit_iff_and_push_bit_not_eq_0 push_bit_eq_mult)
  also have "\<dots> \<longleftrightarrow> even (pcm div 2 ^ n)"
    by (simp add: bit_iff_odd)
  also have "\<dots> \<longleftrightarrow> pcm < 2 ^ n"
  proof -
    have "pcm div 2 ^ n < 2"
      using assms by (intro int_div_less) simp_all
    moreover have "0 \<le> pcm div 2 ^ n"
      using assms by (simp add: pos_imp_zdiv_nonneg_iff)
    ultimately have "pcm div 2 ^ n = 0 \<or> pcm div 2 ^ n = 1" by linarith
    moreover have "pcm div 2 ^ n = 0 \<longleftrightarrow> pcm < 2 ^ n"
      using assms by (simp add: zdiv_eq_0_iff not_less) linarith
    ultimately show ?thesis by auto
  qed
  finally show ?thesis .
qed

lemma ulaw_exponent_spec:
  assumes "0 \<le> pcm" and "pcm < 2 ^ (e + 8)" and "128 \<le> pcm"
  shows "ulaw_exponent e (2 ^ (e + 7)) pcm \<le> e \<and>
         2 ^ (ulaw_exponent e (2 ^ (e + 7)) pcm + 7) \<le> pcm \<and>
         pcm < 2 ^ (ulaw_exponent e (2 ^ (e + 7)) pcm + 8)"
  using assms
proof (induction e)
  case 0
  then show ?case by simp
next
  case (Suc e)
  have msk: "drop_bit 1 (2 ^ (Suc e + 7)) = (2 ^ (e + 7) :: int)"
    by (simp add: drop_bit_eq_div power_add)
  have test: "pcm AND 2 ^ (Suc e + 7) = 0 \<longleftrightarrow> pcm < 2 ^ (Suc e + 7)"
    using Suc.prems by (intro and_power_eq_0_iff) simp_all
  show ?case
  proof (cases "pcm < 2 ^ (Suc e + 7)")
    case True
    then have "pcm < 2 ^ (e + 8)" by (simp add: add.commute)
    with Suc.IH Suc.prems(1,3) True test msk show ?thesis by auto
  next
    case False
    with Suc.prems(2) test show ?thesis by simp
  qed
qed

text \<open>Companding error: a sample that goes through the telephone codec keeps its sign and its
  magnitude changes by at most one part in 32 of the biased magnitude, after clipping at 32635.\<close>

theorem uLaw_quantization_error:
  "let c = min \<bar>sint s\<bar> 32635; d = sint (uLawToLinear (linearToULaw s))
   in 32 * \<bar>\<bar>d\<bar> - c\<bar> \<le> c + 132 \<and> (if sint s < 0 then d \<le> 0 else 0 \<le> d)"
proof -
  define c where "c = min \<bar>sint s\<bar> 32635"
  define pcm where "pcm = c + 132"
  define e where "e = ulaw_exponent 7 0x4000 pcm"
  define q where "q = pcm div 2 ^ (e + 3)"
  define m where "m = nat (q - 16)"
  define sign :: int where "sign = (if sint s < 0 then 0x80 else 0)"
  have pcm: "0 \<le> pcm" "128 \<le> pcm" "pcm < 2 ^ (7 + 8)"
    by (auto simp: pcm_def c_def)
  have e: "e \<le> 7" "2 ^ (e + 7) \<le> pcm" "pcm < 2 ^ (e + 8)"
    using ulaw_exponent_spec [OF pcm(1) pcm(3) pcm(2)] by (simp_all add: e_def)
  have p7: "(2::int) ^ (e + 7) = 16 * 2 ^ (e + 3)" and p8: "(2::int) ^ (e + 8) = 32 * 2 ^ (e + 3)"
    by (simp_all add: power_add)
  have q: "16 \<le> q" "q < 32"
  proof -
    show "16 \<le> q"
      using e(2) unfolding q_def p7 by (intro int_le_div) simp_all
    show "q < 32"
      using e(3) unfolding q_def p8 by (intro int_div_less) simp_all
  qed
  have m: "m < 16" "int m = q - 16"
    using q by (auto simp: m_def)
  have mantissa: "drop_bit (e + 3) pcm AND 0x0F = int m"
  proof -
    have "q AND 15 = take_bit 4 q"
      using take_bit_eq_mask [of 4 q] by (simp add: mask_eq_exp_minus_1)
    also have "\<dots> = int m"
      using q m(2) by (simp add: take_bit_eq_mod) presburger
    finally show ?thesis by (simp add: drop_bit_eq_div q_def)
  qed
  have code: "linearToULaw s = NOT (word_of_int (sign OR push_bit 4 (int e) OR int m))"
  proof -
    have "(let v = (if sint s < 0 then - sint s else sint s) in
        (if v > 32635 then 32635 else v) + 0x84) = pcm"
      by (simp add: pcm_def c_def Let_def min_def)
    then show ?thesis
      using mantissa by (simp add: linearToULaw_def Let_def sign_def e_def)
  qed
  define d where "d = sint (uLawToLinear (linearToULaw s))"
  have d: "d = (if sign = 0 then 1 else - 1) * ((int m * 8 + 132) * 2 ^ e - 132)"
    using uLaw_fields_table e(1) m(1) unfolding d_def code by (auto simp: sign_def)
  have scaled: "(int m * 8 + 132) * 2 ^ e = q * 2 ^ (e + 3) + 2 ^ (e + 2)"
    by (simp add: m(2) power_add algebra_simps)
  have rest: "pcm = q * 2 ^ (e + 3) + pcm mod 2 ^ (e + 3)" "0 \<le> pcm mod 2 ^ (e + 3)"
      "pcm mod 2 ^ (e + 3) < 2 * 2 ^ (e + 2)"
  proof -
    show "pcm mod 2 ^ (e + 3) < 2 * 2 ^ (e + 2)"
      using pos_mod_bound [of "2 ^ (e + 3)" pcm] by (simp add: power_add mult.commute)
    show "pcm = q * 2 ^ (e + 3) + pcm mod 2 ^ (e + 3)"
      unfolding q_def by (rule div_mult_mod_eq [symmetric])
  qed simp
  have "32 * (2::int) ^ (e + 2) = 2 ^ (e + 7)"
    by (simp add: power_add)
  then have big: "32 * (2::int) ^ (e + 2) \<le> c + 132"
    using e(2) by (simp add: pcm_def)
  have nonneg: "0 \<le> (int m * 8 + 132) * 2 ^ e - 132"
  proof -
    have "(132::int) * 1 \<le> (int m * 8 + 132) * 2 ^ e"
      by (intro mult_mono) simp_all
    then show ?thesis by simp
  qed
  then have "\<bar>d\<bar> = q * 2 ^ (e + 3) + 2 ^ (e + 2) - 132"
    using scaled by (simp add: d abs_mult)
  then have "\<bar>\<bar>d\<bar> - c\<bar> \<le> 2 ^ (e + 2)"
    using rest unfolding pcm_def by linarith
  then have "32 * \<bar>\<bar>d\<bar> - c\<bar> \<le> 32 * 2 ^ (e + 2)"
    by simp
  then have "32 * \<bar>\<bar>d\<bar> - c\<bar> \<le> c + 132"
    using big by (rule order_trans)
  moreover have "sint s < 0 \<longrightarrow> d \<le> 0" and "0 \<le> sint s \<longrightarrow> 0 \<le> d"
    using nonneg by (simp_all add: d sign_def)
  ultimately show ?thesis
    by (simp add: Let_def c_def d_def)
qed


section \<open>Correctness of the down-mix\<close>

lemma sint_sample_bounds: "- 32768 \<le> sint (x :: sample)" "sint (x :: sample) \<le> 32767"
  using sint_ge [of x] sint_lt [of x] by simp_all

lemma sum_list_bounds:
  fixes f :: "'a \<Rightarrow> int"
  assumes "\<And>x. x \<in> set xs \<Longrightarrow> lo \<le> f x \<and> f x \<le> hi"
  shows "int (length xs) * lo \<le> (\<Sum>x\<leftarrow>xs. f x) \<and> (\<Sum>x\<leftarrow>xs. f x) \<le> int (length xs) * hi"
  using assms
proof (induction xs)
  case Nil
  then show ?case by simp
next
  case (Cons x xs)
  then have "lo \<le> f x \<and> f x \<le> hi"
    and "int (length xs) * lo \<le> (\<Sum>x\<leftarrow>xs. f x) \<and> (\<Sum>x\<leftarrow>xs. f x) \<le> int (length xs) * hi"
    by simp_all
  then show ?case by (simp add: algebra_simps)
qed

lemma sdiv_bounds:
  fixes v c lo hi :: int
  assumes "0 < c" and "c * lo \<le> v" and "v \<le> c * hi" and "lo \<le> 0" and "0 \<le> hi"
  shows "lo \<le> v sdiv c \<and> v sdiv c \<le> hi"
proof (cases "0 \<le> v")
  case True
  then have "v sdiv c = v div c"
    using assms(1) by (simp add: signed_divide_int_def sgn_if)
  moreover have "0 \<le> v div c"
    using True assms(1) by (simp add: pos_imp_zdiv_nonneg_iff)
  moreover have "v div c < hi + 1"
    using assms(1,3) by (intro int_div_less) (auto simp: algebra_simps)
  ultimately show ?thesis using assms(4) by simp
next
  case False
  then have "v sdiv c = - (- v div c)"
    using assms(1) by (simp add: signed_divide_int_def sgn_if)
  moreover have "0 \<le> - v div c"
    using False assms(1) by (simp add: pos_imp_zdiv_nonneg_iff)
  moreover have "- v div c < - lo + 1"
    using assms(1,2) by (intro int_div_less) (auto simp: algebra_simps)
  ultimately show ?thesis using assms(5) by simp
qed

text \<open>Mixing down never wraps: every mono sample is exactly the truncated mean of the samples of
  its frame, because that mean lies in the 16-bit range again.\<close>

theorem monoSamples_exact:
  assumes "1 < channels" and "frame < length (monoSamples samples channels)"
  shows "length (monoSamples samples channels) = length samples div nat channels \<and>
         sint (monoSamples samples channels ! frame) =
           frame_sum samples (nat channels) frame sdiv channels"
proof -
  let ?v = "frame_sum samples (nat channels) frame"
  have frames: "monoSamples samples channels =
      map (\<lambda>frame. word_of_int (frame_sum samples (nat channels) frame sdiv channels))
        [0..<length samples div nat channels]"
    using assms(1) by (simp add: monoSamples_def)
  then have idx: "frame < length samples div nat channels"
    using assms(2) by simp
  have "int (nat channels) * - 32768 \<le> ?v \<and> ?v \<le> int (nat channels) * 32767"
    using sum_list_bounds [of "[0..<nat channels]" "- 32768"
        "\<lambda>ch. sint (samples ! (frame * nat channels + ch))" 32767]
    by (simp add: frame_sum_def sint_sample_bounds)
  then have "- 32768 \<le> ?v sdiv channels \<and> ?v sdiv channels \<le> 32767"
    using assms(1) by (intro sdiv_bounds) (auto simp: algebra_simps)
  then have "sint (word_of_int (?v sdiv channels) :: sample) = ?v sdiv channels"
    by (simp add: sint_sbintrunc' signed_take_bit_int_eq_self)
  then show ?thesis
    using frames idx by simp
qed

theorem monoSamples_exact_witness:
  "sint (monoSamples [-32768, -32768, 5, -8] 2 ! 1) = -1"
proof -
  have "1 < length (monoSamples [-32768, -32768, 5, -8] 2)"
    by (simp add: monoSamples_def)
  moreover have "frame_sum [-32768, -32768, 5, -8] 2 1 = -3"
    by code_simp
  ultimately show ?thesis
    using monoSamples_exact [of 2 1 "[-32768, -32768, 5, -8]"] by (simp add: signed_divide_int_def)
qed

section \<open>Correctness of the inbound decoder\<close>

definition audio_packet :: "'g sipInboundDecoder \<Rightarrow> rtp_packet \<Rightarrow> bool" where
  "audio_packet decoder packet \<longleftrightarrow>
     rtp_payloadType packet = dec_audioPT decoder \<and> rtp_payloadType packet \<noteq> dec_dtmfPT decoder \<and>
     rtp_payload packet \<noteq> []"

lemma decodePayload_keeps:
  "decodePayload g722dec decoder payload = (samples, decoder') \<Longrightarrow>
   dec_codec decoder' = dec_codec decoder \<and> dec_audioPT decoder' = dec_audioPT decoder \<and>
   dec_dtmfPT decoder' = dec_dtmfPT decoder \<and> dec_initialized decoder' = dec_initialized decoder \<and>
   dec_lastSeq decoder' = dec_lastSeq decoder"
  by (auto simp: decodePayload_def split: sipAudioCodec.splits option.splits prod.splits)

lemma Decode_lastSeq:
  assumes "unmarshal raw = Some packet" and "audio_packet decoder packet"
    and "decoder_Decode unmarshal g722new g722dec decoder raw t = (decoder', frames, digit, key, ok)"
  shows "dec_audioPT decoder' = dec_audioPT decoder \<and> dec_dtmfPT decoder' = dec_dtmfPT decoder \<and>
         dec_initialized decoder' \<and>
         (decoder' = decoder \<and> (rtp_sequenceNumber packet - dec_lastSeq decoder = 0 \<or>
                               rtp_sequenceNumber packet - dec_lastSeq decoder > 0x8000) \<or>
          dec_lastSeq decoder' = rtp_sequenceNumber packet)"
  using assms
  by (auto simp: decoder_Decode_def audio_packet_def Let_def split: if_splits prod.splits
      dest!: decodePayload_keeps)

text \<open>C35: Replayed audio packets are never played twice: whatever the state of the decoder, decoding
  the packet it has just seen again yields no frame and leaves the decoder as it is.\<close>

theorem Decode_replay_dropped:
  assumes "unmarshal raw = Some packet" and "audio_packet decoder packet"
    and "decoder_Decode unmarshal g722new g722dec decoder raw t = (decoder', frames, digit, key, ok)"
  shows "decoder_Decode unmarshal g722new g722dec decoder' raw t' = (decoder', [], [], [], False)"
  using Decode_lastSeq [OF assms] assms(1,2)
  by (auto simp: decoder_Decode_def audio_packet_def)

text \<open>A toy RTP format for the witnesses: the first byte is the sequence number, the rest the payload.\<close>

definition toy_unmarshal :: "byte list \<Rightarrow> rtp_packet option" where
  "toy_unmarshal raw = (case raw of [] \<Rightarrow> None
     | b # payload \<Rightarrow> Some \<lparr>rtp_payloadType = 0, rtp_sequenceNumber = ucast b, rtp_timestamp = 0,
                            rtp_payload = payload\<rparr>)"

definition toy_decoder :: "unit sipInboundDecoder" where
  "toy_decoder = (newSIPInboundDecoder () PCMU 0 101)\<lparr>dec_initialized := True, dec_lastSeq := 5\<rparr>"

theorem Decode_replay_dropped_witness:
  "decoder_Decode toy_unmarshal () (\<lambda>_ _. ([], ()))
     (fst (decoder_Decode toy_unmarshal () (\<lambda>_ _. ([], ())) toy_decoder [9, 255] 0)) [9, 255] 7 =
   (fst (decoder_Decode toy_unmarshal () (\<lambda>_ _. ([], ())) toy_decoder [9, 255] 0), [], [], [], False)"
proof -
  have um: "toy_unmarshal [9, 255] = Some \<lparr>rtp_payloadType = 0, rtp_sequenceNumber = ucast (9 :: byte),
      rtp_timestamp = 0, rtp_payload = [255]\<rparr>"
    by (simp add: toy_unmarshal_def)
  have audio: "audio_packet toy_decoder \<lparr>rtp_payloadType = 0, rtp_sequenceNumber = ucast (9 :: byte),
      rtp_timestamp = 0, rtp_payload = [255]\<rparr>"
    by (simp add: audio_packet_def toy_decoder_def newSIPInboundDecoder_def)
  obtain d frames digit key ok where
    run: "decoder_Decode toy_unmarshal () (\<lambda>_ _. ([], ())) toy_decoder [9, 255] 0 =
      (d, frames, digit, key, ok)"
    by (metis prod_cases5)
  from Decode_replay_dropped [OF um audio run, of 7] run show ?thesis by simp
qed

lemma length_doubled: "length (concat (map (\<lambda>v. [f v, f v]) xs)) = 2 * length xs"
  by (induction xs) auto

text \<open>Loss concealment is bounded and ordered: an accepted mu-law packet yields at most three
  silence frames before the decoded one, one per lost packet, their time stamps 20 ms apart and
  ending at the arrival time, and the decoded frame has two samples per payload byte.\<close>

theorem Decode_concealment:
  assumes "unmarshal raw = Some packet" and "audio_packet decoder packet"
    and "dec_codec decoder = PCMU" and "dec_initialized decoder"
    and "delta = unat (rtp_sequenceNumber packet - dec_lastSeq decoder)"
    and "0 < delta" and "delta \<le> 0x8000"
    and "decoder_Decode unmarshal g722new g722dec decoder raw t = (decoder', frames, digit, key, ok)"
  shows "ok \<and> length frames = min (delta - 1) 3 + 1 \<and>
         map frame_at frames = map (\<lambda>i. t - int (length frames - 1 - i) * 20 * millisecond)
                                 [0..<length frames] \<and>
         length (frame_samples (last frames)) = 2 * length (rtp_payload packet) \<and>
         dec_lastSeq decoder' = rtp_sequenceNumber packet"
proof -
  let ?d = "rtp_sequenceNumber packet - dec_lastSeq decoder"
  have nz: "?d \<noteq> 0" and fwd: "\<not> ?d > 0x8000"
    using assms(5-7) by (auto simp: word_less_nat_alt not_less)
  have gap: "?d > 1 \<longleftrightarrow> delta > 1"
    using assms(5) by (simp add: word_less_nat_alt)
  define missing where "missing = min (delta - 1) 3"
  have mis: "(if ?d > 1 then min (unat ?d - 1) 3 else 0) = missing"
    using gap assms(5,6) by (auto simp: missing_def)
  let ?s = "concat (map (\<lambda>value. [uLawToLinear value, uLawToLinear value]) (rtp_payload packet))"
  have len: "length ?s = 2 * length (rtp_payload packet)"
    by (rule length_doubled)
  have ne: "rtp_payload packet \<noteq> []"
    using assms(2) by (simp add: audio_packet_def)
  have res: "frames = concealment missing t @ [\<lparr>frame_samples = ?s, frame_at = t\<rparr>] \<and> ok \<and>
      dec_lastSeq decoder' = rtp_sequenceNumber packet"
    using assms(1-4,8) nz fwd mis len ne
    by (auto simp: decoder_Decode_def audio_packet_def decodePayload_def Let_def)
  then have "length frames = missing + 1"
    by (simp add: concealment_def)
  moreover have "map frame_at frames =
      map (\<lambda>i. t - int (length frames - 1 - i) * 20 * millisecond) [0..<length frames]"
    using res by (simp add: concealment_def)
  ultimately show ?thesis
    using res len by (simp add: missing_def)
qed

theorem Decode_concealment_witness:
  "length (fst (snd (decoder_Decode toy_unmarshal () (\<lambda>_ _. ([], ())) toy_decoder [9, 255] 0))) = 4"
proof -
  have um: "toy_unmarshal [9, 255] = Some \<lparr>rtp_payloadType = 0, rtp_sequenceNumber = ucast (9 :: byte),
      rtp_timestamp = 0, rtp_payload = [255]\<rparr>"
    by (simp add: toy_unmarshal_def)
  have audio: "audio_packet toy_decoder \<lparr>rtp_payloadType = 0, rtp_sequenceNumber = ucast (9 :: byte),
      rtp_timestamp = 0, rtp_payload = [255]\<rparr>"
    and "dec_codec toy_decoder = PCMU" and "dec_initialized toy_decoder" and "dec_lastSeq toy_decoder = 5"
    by (simp_all add: audio_packet_def toy_decoder_def newSIPInboundDecoder_def)
  moreover obtain d frames digit key ok where
    "decoder_Decode toy_unmarshal () (\<lambda>_ _. ([], ())) toy_decoder [9, 255] 0 =
      (d, frames, digit, key, ok)"
    by (metis prod_cases5)
  ultimately show ?thesis
    using Decode_concealment [where unmarshal = toy_unmarshal and raw = "[9, 255]" and delta = 4 and
        g722new = "()" and g722dec = "\<lambda>_ _. ([], ())" and t = 0, OF um audio]
    by simp
qed

end
