(* ===== verification/Go_Values.thy ===== *)
theory Go_Values
  imports Go_Strings
begin

text \<open>
  The dynamic values of the event bus: a decoded JSON message is a \<open>map[string]any\<close>, and the
  accessors of \<open>internal/playlist/bridge.go\<close> read it. A map is an association list with distinct
  keys in ascending order (the order in which \<open>fmt.Sprint\<close> prints it); a number is kept as the
  text \<open>fmt.Sprint\<close> prints for it.
\<close>

section \<open>Values\<close>

datatype any =
    NilV
  | BoolV bool
  | NumV string
  | StrV string
  | ArrV "any list"
  | ObjV "(string \<times> any) list"

type_synonym message = "(string \<times> any) list"

definition msg_get :: "message \<Rightarrow> string \<Rightarrow> any" where
  "msg_get source key = (case map_of source key of None \<Rightarrow> NilV | Some v \<Rightarrow> v)"

text \<open>\<open>fmt.Sprint\<close>.\<close>

fun sprint :: "any \<Rightarrow> string" where
  "sprint NilV = ''<nil>''"
| "sprint (BoolV b) = (if b then ''true'' else ''false'')"
| "sprint (NumV n) = n"
| "sprint (StrV s) = s"
| "sprint (ArrV vs) = ''['' @ join '' '' (map sprint vs) @ '']''"
| "sprint (ObjV kvs) = ''map['' @ join '' '' (map (\<lambda>(k, v). k @ '':'' @ sprint v) kvs) @ '']''"

section \<open>Accessors\<close>

definition stringAt :: "message \<Rightarrow> string \<Rightarrow> string" where
  "stringAt source key = (case msg_get source key of StrV s \<Rightarrow> trimSpace s | _ \<Rightarrow> [])"

definition mapAt :: "message \<Rightarrow> string \<Rightarrow> message" where
  "mapAt source key = (case msg_get source key of ObjV kvs \<Rightarrow> kvs | _ \<Rightarrow> [])"

fun firstText :: "message \<Rightarrow> message \<Rightarrow> string list \<Rightarrow> string" where
  "firstText msg data [] = []"
| "firstText msg data (key # keys) =
     (if stringAt msg key \<noteq> [] then stringAt msg key
      else if stringAt data key \<noteq> [] then stringAt data key
      else firstText msg data keys)"

fun firstValue :: "message \<Rightarrow> message \<Rightarrow> string list \<Rightarrow> any" where
  "firstValue msg data [] = NilV"
| "firstValue msg data (key # keys) =
     (if msg_get msg key \<noteq> NilV then msg_get msg key
      else if msg_get data key \<noteq> NilV then msg_get data key
      else firstValue msg data keys)"

definition boolAny :: "any \<Rightarrow> bool" where
  "boolAny v =
     (case v of
        BoolV b \<Rightarrow> b
      | StrV s \<Rightarrow> toLower (trimSpace s) \<in>
          {''1'', ''true'', ''yes'', ''y'', ''on'', ''broadcast immediate''}
      | _ \<Rightarrow> False)"

definition stringListAny :: "any \<Rightarrow> string list" where
  "stringListAny v =
     (case v of
        ArrV items \<Rightarrow> filter (\<lambda>text. text \<noteq> []) (map (\<lambda>item. trimSpace (sprint item)) items)
      | StrV s \<Rightarrow> if trimSpace s \<noteq> [] then [trimSpace s] else []
      | _ \<Rightarrow> [])"

text \<open>Byte-wise comparison of Go strings, and \<open>m[k] = v\<close>, which keeps the keys ascending.\<close>

fun msg_less :: "string \<Rightarrow> string \<Rightarrow> bool" where
  "msg_less [] [] = False"
| "msg_less [] (d # t) = True"
| "msg_less (c # s) [] = False"
| "msg_less (c # s) (d # t) =
     ((of_char c :: nat) < of_char d \<or> (c = d \<and> msg_less s t))"

fun msg_set :: "string \<Rightarrow> any \<Rightarrow> message \<Rightarrow> message" where
  "msg_set key v [] = [(key, v)]"
| "msg_set key v ((k, w) # rest) =
     (if k = key then (key, v) # rest
      else if msg_less key k then (key, v) # (k, w) # rest
      else (k, w) # msg_set key v rest)"

section \<open>Facts\<close>

lemma msg_get_set: "msg_get (msg_set key v m) k = (if k = key then v else msg_get m k)"
proof (induction m)
  case Nil
  then show ?case by (simp add: msg_get_def)
next
  case (Cons kw m)
  then show ?case by (cases kw) (auto simp: msg_get_def)
qed

lemma stringAt_trimmed [simp]: "trimSpace (stringAt m key) = stringAt m key"
  by (simp add: stringAt_def split: any.splits)

lemma firstText_trimmed [simp]: "trimSpace (firstText msg data keys) = firstText msg data keys"
  by (induction keys) simp_all

lemma stringListAny_clean:
  "text \<in> set (stringListAny v) \<Longrightarrow> text \<noteq> [] \<and> trimSpace text = text"
  by (auto simp: stringListAny_def split: any.splits if_splits)

end
