(* ===== verification/Playlist_Data.thy ===== *)
theory Playlist_Data
  imports Wave_Audio Go_Values
begin

text \<open>
  The data of the playlist service: queue items, rendered products, the planner of a feed
  (\<open>feedPlanner\<close> of \<open>internal/playlist/service.go\<close>), the languages of a feed and the timeline of its
  queue.
  \<^item> The time stamps of a \<open>playlistItem\<close> are RFC 3339 strings in UTC with nanoseconds; the model
    keeps the instants they denote, the zero time for the empty string (\<open>parseTime\<close> gives the
    zero time there).
  \<^item> \<open>planner_env\<close> is what one call of a planner operation reads from outside: the configuration,
    the clock (\<open>env_clock\<close> is \<open>time.Now()\<close>), and the outcomes of the calls that leave the process
    (event bridge, renderer, synthesizer, file system).
  \<^item> The events handed to \<open>bridge.Publish\<close> are recorded in \<open>pl_events\<close>, oldest first; \<open>pl_draws\<close> counts
    the identifiers drawn by \<open>queueID\<close>, whose random parts are \<open>env_unique\<close>.
  \<^item> \<open>writeState\<close> only writes the status file of the web panel and the fields that throttle it; it is
    not part of the model.
\<close>

section \<open>Records\<close>

record playlistItem =
  it_queueID :: string
  it_feedID :: string
  it_kind :: string
  it_packageID :: string
  it_title :: string
  it_audioPath :: string
  it_durationMS :: int
  it_queuedAt :: instant
  it_targetStartAt :: instant
  it_predictedStartAt :: instant
  it_predictedFinishAt :: instant
  it_status :: string
  it_source :: string

record renderedSegment =
  sg_kind :: string
  sg_label :: string
  sg_text :: string
  sg_audioPath :: string

text \<open>\<open>rp_metadata\<close> lists the metadata map in the order in which the iteration visits it.\<close>

record renderedProduct =
  rp_id :: string
  rp_feedID :: string
  rp_packageID :: string
  rp_title :: string
  rp_text :: string
  rp_readerID :: string
  rp_language :: string
  rp_segments :: "renderedSegment list"
  rp_metadata :: "(string \<times> string) list"

record synthJob =
  sj_ID :: string
  sj_Text :: string
  sj_ReaderID :: string
  sj_Language :: string
  sj_OutputPath :: string
  sj_TargetSampleRate :: int
  sj_TargetChannels :: int
  sj_Priority :: string

record fixedEvent =
  fx_kind :: string
  fx_packageID :: string
  fx_title :: string
  fx_target :: instant

datatype bridge_event = PlaylistControl string string | ItemReady playlistItem

text \<open>A directory entry: name, directory flag, and the modification time \<open>entry.Info()\<close> gives.\<close>

record dirEntry =
  de_name :: string
  de_isDir :: bool
  de_mod :: "instant option"

text \<open>A key of \<open>lastFixed\<close> is the event's kind and its target, formatted to the second; targets are
  whole minutes, so the pair is the key.\<close>

record feedPlanner =
  pl_feedID :: string
  pl_mode :: string
  pl_modeBeforePriority :: string
  pl_priorityActive :: nat
  pl_startupPrimerAt :: instant
  pl_startupPrimerPending :: bool
  pl_pendingAfterCurrent :: string
  pl_cursor :: nat
  pl_routineLanguageCount :: nat
  pl_routineAltLangIndex :: nat
  pl_nextRoutineRetryAt :: instant
  pl_lastPendingReplayAt :: instant
  pl_queue :: "playlistItem list"
  pl_current :: "playlistItem option"
  pl_lastFixed :: "string \<times> instant \<rightharpoonup> instant"
  pl_lastError :: string
  pl_events :: "bridge_event list"
  pl_draws :: nat

record planner_env =
  env_clock :: instant
  env_formatTime :: "instant \<Rightarrow> string"
  env_unique :: "nat \<Rightarrow> string"
  env_bridge :: bool
  env_publish :: "bridge_event \<Rightarrow> go_error option"
  env_outputDir :: string
  env_baseDir :: string
  env_sampleRate :: int
  env_channels :: int
  env_packageGapNS :: duration
  env_order :: "string list"
  env_hasRoutineAlerts :: bool
  env_langs :: "(string \<times> string) list"
  env_routineEnabled :: bool
  env_maxQueued :: nat
  env_fixedToleranceS :: int
  env_stationIDMinutes :: "int list"
  env_dateTimeMinutes :: "int list"
  env_chimeMinutes :: "int list"
  env_hourStart :: "instant \<Rightarrow> instant"
  env_stationText :: string
  env_dateTimeText :: "instant \<Rightarrow> string \<Rightarrow> string"
  env_render :: "string \<Rightarrow> string \<Rightarrow> string \<Rightarrow> string \<Rightarrow> go_error + renderedProduct"
  env_synthesize :: "duration \<Rightarrow> synthJob \<Rightarrow> go_error + string"
  env_readFile :: "string \<Rightarrow> go_error + byte list"
  env_readDir :: "string \<Rightarrow> dirEntry list option"
  env_downloadAudio :: "string \<Rightarrow> string \<Rightarrow> string \<Rightarrow> go_error + string"
  env_prepareAudio :: "string \<Rightarrow> string \<Rightarrow> go_error + string"
  env_segmentAudio :: "nat \<Rightarrow> string \<Rightarrow> go_error + byte list"
  env_segmentText :: "nat \<Rightarrow> string \<Rightarrow> go_error + byte list"
  env_schedule :: "nat \<Rightarrow> nat \<Rightarrow> nat"
  env_silence :: "duration \<Rightarrow> byte list"
  env_newStream :: "string \<Rightarrow> go_error option"
  env_append :: "byte list list \<Rightarrow> byte list \<Rightarrow> go_error option"
  env_commit :: "byte list list \<Rightarrow> go_error option"

definition newFeedPlanner :: "string \<Rightarrow> planner_env \<Rightarrow> feedPlanner" where
  "newFeedPlanner feedID env =
     \<lparr>pl_feedID = feedID, pl_mode = ''running'', pl_modeBeforePriority = [], pl_priorityActive = 0,
      pl_startupPrimerAt = env_clock env + 2 * second, pl_startupPrimerPending = True,
      pl_pendingAfterCurrent = [], pl_cursor = 0, pl_routineLanguageCount = 0,
      pl_routineAltLangIndex = 0, pl_nextRoutineRetryAt = 0, pl_lastPendingReplayAt = 0,
      pl_queue = [], pl_current = None, pl_lastFixed = Map.empty, pl_lastError = [],
      pl_events = [], pl_draws = 0\<rparr>"

section \<open>Texts and identifiers\<close>

definition fallbackText :: "string \<Rightarrow> string \<Rightarrow> string" where
  "fallbackText val fallback = (if trimSpace val = [] then trimSpace fallback else trimSpace val)"

text \<open>\<open>UnixNano\<close>: the zero time is 62135596800 seconds before the epoch.\<close>

definition unixNano :: "instant \<Rightarrow> int" where
  "unixNano t = t - 62135596800 * second"

definition safe_char :: "char \<Rightarrow> bool" where
  "safe_char ch \<longleftrightarrow> is_lower ch \<or> is_upper ch \<or> is_digit ch \<or> ch = CHR ''-'' \<or> ch = CHR ''_'' \<or>
     ch = CHR ''.''"

definition safeID :: "string \<Rightarrow> string" where
  "safeID v = (if filter safe_char v = [] then ''item'' else filter safe_char v)"

definition uniqueStrings :: "string list \<Rightarrow> string list" where
  "uniqueStrings vals =
     collect_unique (\<lambda>v. if trimSpace v = [] then None else Some (trimSpace v)) (\<lambda>v. v) [] vals"

text \<open>\<open>queueID\<close> joins the prefix, the clock and random bytes.\<close>

definition queueID :: "planner_env \<Rightarrow> string \<Rightarrow> feedPlanner \<Rightarrow> string \<times> feedPlanner" where
  "queueID env prefix p =
     (safeID (prefix @ ''-'' @ env_unique env (pl_draws p)), p\<lparr>pl_draws := pl_draws p + 1\<rparr>)"

text \<open>\<open>filepath.Join\<close> of parts without dots, blanks or doubled separators.\<close>

definition joinPath :: "string list \<Rightarrow> string" where
  "joinPath parts = join ''/'' (filter (\<lambda>part. part \<noteq> []) parts)"

section \<open>Languages of a feed\<close>

definition normalizeLangKey :: "string \<Rightarrow> string" where
  "normalizeLangKey lang = toLower (replaceByte (CHR ''_'') (CHR ''-'') (trimSpace lang))"

definition feedLanguages :: "planner_env \<Rightarrow> (string \<times> string) list" where
  "feedLanguages env =
     collect_unique
       (\<lambda>(code, interval). if trimSpace code = [] then None else Some (trimSpace code, trimSpace interval))
       (\<lambda>(code, interval). normalizeLangKey code) [] (env_langs env)"

definition feedLanguage :: "planner_env \<Rightarrow> string" where
  "feedLanguage env = (case feedLanguages env of (code, interval) # rest \<Rightarrow> code | [] \<Rightarrow> ''en-US'')"

definition languageInterval :: "string \<Rightarrow> int" where
  "languageInterval raw =
     (case atoi (trimSpace raw) of
        None \<Rightarrow> 1
      | Some interval \<Rightarrow> if interval < 1 then 1 else interval)"

definition nextRoutineLanguage :: "planner_env \<Rightarrow> feedPlanner \<Rightarrow> string \<times> feedPlanner" where
  "nextRoutineLanguage env p =
     (case feedLanguages env of
        [] \<Rightarrow> (''en-US'', p)
      | [(code, interval)] \<Rightarrow> (code, p)
      | (code, interval) # rest \<Rightarrow>
          (let count = pl_routineLanguageCount p + 1;
               p = p\<lparr>pl_routineLanguageCount := count\<rparr>;
               due = filter (\<lambda>(c, i). int count mod (languageInterval i + 1) = 0) rest
           in if due = [] then (code, p)
              else (fst (due ! (pl_routineAltLangIndex p mod length due)),
                    p\<lparr>pl_routineAltLangIndex := pl_routineAltLangIndex p + 1\<rparr>)))"

definition productLanguageForBuild :: "planner_env \<Rightarrow> string \<Rightarrow> feedPlanner \<Rightarrow> string \<times> feedPlanner" where
  "productLanguageForBuild env source p =
     (if \<not> equalFold source ''routine'' then (feedLanguage env, p)
      else nextRoutineLanguage env p)"

definition productQueuePrefix :: "string \<Rightarrow> string \<Rightarrow> string" where
  "productQueuePrefix pkgID language =
     (if normalizeLangKey language = [] then pkgID else pkgID @ ''-'' @ normalizeLangKey language)"

section \<open>Timeline\<close>

definition queuedCount :: "feedPlanner \<Rightarrow> nat" where
  "queuedCount p = (if pl_current p \<noteq> None then length (pl_queue p) + 1 else length (pl_queue p))"

text \<open>\<open>env_packageGapNS\<close> is the configured gap in nanoseconds (the product of two floats in the code).\<close>

definition packageGap :: "planner_env \<Rightarrow> duration" where
  "packageGap env = (if env_packageGapNS env \<le> 0 then 0 else env_packageGapNS env)"

definition itemScheduleDuration :: "planner_env \<Rightarrow> int \<Rightarrow> duration" where
  "itemScheduleDuration env durationMS = durationMS * millisecond + packageGap env"

text \<open>\<open>parseTime(...)\<close> of an unset finish is the zero time, which is not after \<open>end\<close>.\<close>

definition later :: "instant \<Rightarrow> playlistItem \<Rightarrow> instant" where
  "later end item = (if it_predictedFinishAt item > end then it_predictedFinishAt item else end)"

definition timelineEnd :: "feedPlanner \<Rightarrow> instant \<Rightarrow> instant" where
  "timelineEnd p now =
     (let end = (case pl_current p of None \<Rightarrow> now | Some item \<Rightarrow> later now item)
      in foldl later end (pl_queue p))"

definition predictedStart :: "instant \<Rightarrow> instant \<Rightarrow> instant \<Rightarrow> instant" where
  "predictedStart now tlEnd target =
     (let start = (if tlEnd < now then now else tlEnd)
      in if \<not> isZero target \<and> start < target then target else start)"

definition rebasePreparedItem ::
  "planner_env \<Rightarrow> feedPlanner \<Rightarrow> playlistItem \<Rightarrow> instant \<Rightarrow> playlistItem" where
  "rebasePreparedItem env p item now =
     (let start = predictedStart now (timelineEnd p now) (it_targetStartAt item)
      in item\<lparr>it_queuedAt := now, it_predictedStartAt := start,
              it_predictedFinishAt := start + itemScheduleDuration env (it_durationMS item),
              it_status := ''queued''\<rparr>)"

section \<open>Facts on the timeline\<close>

lemma later_max: "later e item = max e (it_predictedFinishAt item)"
  by (simp add: later_def max_def)

lemma foldl_later_ge: "e \<le> foldl later e items"
proof (induction items arbitrary: e)
  case (Cons i items)
  have "e \<le> later e i" by (simp add: later_max)
  also have "\<dots> \<le> foldl later (later e i) items" by (rule Cons.IH)
  finally show ?case by simp
qed simp

lemma foldl_later_ge_item: "item \<in> set items \<Longrightarrow> it_predictedFinishAt item \<le> foldl later e items"
proof (induction items arbitrary: e)
  case (Cons i items)
  have "it_predictedFinishAt i \<le> later e i" by (simp add: later_max)
  also have "\<dots> \<le> foldl later (later e i) items" by (rule foldl_later_ge)
  finally show ?case using Cons by auto
qed simp

lemma foldl_later_attained:
  "foldl later e items = e \<or> (\<exists>item\<in>set items. foldl later e items = it_predictedFinishAt item)"
proof (induction items arbitrary: e)
  case (Cons i items)
  then show ?case
    using Cons.IH [of "later e i"] by (auto simp: later_max max_def)
qed simp

text \<open>The items that have a place on the timeline: the one on air and the queue.\<close>

definition on_air :: "feedPlanner \<Rightarrow> playlistItem list" where
  "on_air p = (case pl_current p of None \<Rightarrow> [] | Some item \<Rightarrow> [item])"

definition scheduled :: "feedPlanner \<Rightarrow> playlistItem list" where
  "scheduled p = on_air p @ pl_queue p"

lemma queuedCount_scheduled: "queuedCount p = length (scheduled p)"
  by (simp add: queuedCount_def scheduled_def on_air_def split: option.splits)

lemma timelineEnd_foldl: "timelineEnd p now = foldl later now (scheduled p)"
  by (simp add: timelineEnd_def scheduled_def on_air_def split: option.splits)

lemma timelineEnd_ge_now: "now \<le> timelineEnd p now"
  by (simp add: timelineEnd_foldl foldl_later_ge)

lemma timelineEnd_ge_item: "item \<in> set (scheduled p) \<Longrightarrow> it_predictedFinishAt item \<le> timelineEnd p now"
  by (simp add: timelineEnd_foldl foldl_later_ge_item)

lemma predictedStart_ge: "now \<le> predictedStart now tlEnd target" "tlEnd \<le> predictedStart now tlEnd target"
  by (auto simp: predictedStart_def Let_def)

lemma packageGap_nonneg: "0 \<le> packageGap env"
  by (simp add: packageGap_def)

lemma itemScheduleDuration_nonneg: "0 \<le> d \<Longrightarrow> 0 \<le> itemScheduleDuration env d"
  using packageGap_nonneg [of env] by (simp add: itemScheduleDuration_def millisecond_def)

section \<open>The schedule invariant\<close>

text \<open>
  Two items are apart when one finishes before the other starts. In a well-formed schedule no
  item ends before it starts or has a negative length and every two items are apart: the queue never asks the playout to
  air two items at the same time.
\<close>

definition apart :: "playlistItem \<Rightarrow> playlistItem \<Rightarrow> bool" where
  "apart a b \<longleftrightarrow> it_predictedFinishAt a \<le> it_predictedStartAt b \<or>
                it_predictedFinishAt b \<le> it_predictedStartAt a"

definition forward :: "playlistItem \<Rightarrow> bool" where
  "forward item \<longleftrightarrow> it_predictedStartAt item \<le> it_predictedFinishAt item \<and> 0 \<le> it_durationMS item"

definition schedule_ok :: "playlistItem list \<Rightarrow> bool" where
  "schedule_ok items \<longleftrightarrow> sorted_wrt apart items \<and> list_all forward items"

definition timeline_ok :: "feedPlanner \<Rightarrow> bool" where
  "timeline_ok p \<longleftrightarrow> schedule_ok (scheduled p)"

lemma schedule_ok_Nil [simp]: "schedule_ok []"
  by (simp add: schedule_ok_def)

lemma schedule_ok_append:
  "schedule_ok (xs @ ys) \<longleftrightarrow>
   schedule_ok xs \<and> schedule_ok ys \<and> (\<forall>x\<in>set xs. \<forall>y\<in>set ys. apart x y)"
  by (auto simp: schedule_ok_def sorted_wrt_append list_all_iff)

lemma schedule_ok_Cons:
  "schedule_ok (x # xs) \<longleftrightarrow> forward x \<and> schedule_ok xs \<and> (\<forall>y\<in>set xs. apart x y)"
  by (auto simp: schedule_ok_def)

lemma apart_sym: "apart a b \<longleftrightarrow> apart b a"
  by (auto simp: apart_def)

lemma schedule_ok_filter: "schedule_ok xs \<Longrightarrow> schedule_ok (filter P xs)"
  by (auto simp: schedule_ok_def sorted_wrt_filter list_all_iff)

lemma schedule_ok_rotate: "schedule_ok (xs @ y # zs) \<longleftrightarrow> schedule_ok (y # xs @ zs)"
  by (auto simp: schedule_ok_append schedule_ok_Cons apart_sym)

lemma apart_update_status [simp]:
  "apart (a\<lparr>it_status := s\<rparr>) b = apart a b" "apart a (b\<lparr>it_status := s\<rparr>) = apart a b"
  "forward (a\<lparr>it_status := s\<rparr>) = forward a"
  by (simp_all add: apart_def forward_def)

text \<open>An item placed at or after the end of the timeline fits behind the whole schedule.\<close>

definition placed :: "instant \<Rightarrow> instant \<Rightarrow> playlistItem \<Rightarrow> bool" where
  "placed tlEnd now item \<longleftrightarrow> now \<le> it_predictedStartAt item \<and> tlEnd \<le> it_predictedStartAt item \<and> forward item"

lemma timeline_ok_append:
  assumes "timeline_ok p" and "placed (timelineEnd p now) now item"
  shows "timeline_ok (p\<lparr>pl_queue := pl_queue p @ [item]\<rparr>)"
proof -
  have "apart x item" if "x \<in> set (scheduled p)" for x
    using timelineEnd_ge_item [OF that, of now] assms(2) by (auto simp: apart_def placed_def)
  moreover have "scheduled (p\<lparr>pl_queue := pl_queue p @ [item]\<rparr>) = scheduled p @ [item]"
    by (simp add: scheduled_def on_air_def)
  ultimately show ?thesis
    using assms by (auto simp: timeline_ok_def schedule_ok_append schedule_ok_Cons placed_def)
qed

lemma rebasePreparedItem_placed:
  "forward item \<Longrightarrow> placed (timelineEnd p now) now (rebasePreparedItem env p item now)"
  using itemScheduleDuration_nonneg [of "it_durationMS item" env]
  by (simp add: placed_def rebasePreparedItem_def Let_def predictedStart_ge forward_def)

section \<open>The interface of the item sources\<close>

text \<open>
  The part of the planner that planning and publishing never touch: the schedule and the mode
  machine.
\<close>

definition core ::
  "feedPlanner \<Rightarrow> playlistItem list \<times> playlistItem option \<times> string \<times> string \<times> nat \<times> string \<times> string \<times> bool \<times> instant" where
  "core p = (pl_queue p, pl_current p, pl_mode p, pl_modeBeforePriority p, pl_priorityActive p, pl_feedID p,
     pl_pendingAfterCurrent p, pl_startupPrimerPending p, pl_startupPrimerAt p)"

lemma core_update [simp]:
  "core (p\<lparr>pl_lastError := e\<rparr>) = core p" "core (p\<lparr>pl_draws := n\<rparr>) = core p"
  "core (p\<lparr>pl_routineLanguageCount := c\<rparr>) = core p" "core (p\<lparr>pl_routineAltLangIndex := c\<rparr>) = core p"
  "core (p\<lparr>pl_events := es\<rparr>) = core p" "core (p\<lparr>pl_lastPendingReplayAt := t\<rparr>) = core p"
  "core (p\<lparr>pl_cursor := c\<rparr>) = core p" "core (p\<lparr>pl_lastFixed := f\<rparr>) = core p"
  "core (p\<lparr>pl_nextRoutineRetryAt := t\<rparr>) = core p"
  by (simp_all add: core_def)

lemma core_fields:
  assumes "core q = core p"
  shows "pl_queue q = pl_queue p" "pl_current q = pl_current p" "pl_mode q = pl_mode p"
    "pl_modeBeforePriority q = pl_modeBeforePriority p" "pl_priorityActive q = pl_priorityActive p"
    "pl_feedID q = pl_feedID p" "pl_pendingAfterCurrent q = pl_pendingAfterCurrent p"
    "pl_startupPrimerPending q = pl_startupPrimerPending p" "pl_startupPrimerAt q = pl_startupPrimerAt p"
  using assms by (simp_all add: core_def)

lemma core_scheduled: "core q = core p \<Longrightarrow> scheduled q = scheduled p"
  by (frule core_fields(1), drule core_fields(2)) (simp add: scheduled_def on_air_def)

lemma core_timelineEnd: "core q = core p \<Longrightarrow> timelineEnd q now = timelineEnd p now"
  by (drule core_scheduled) (simp add: timelineEnd_foldl)

lemma core_timeline_ok: "core q = core p \<Longrightarrow> timeline_ok q = timeline_ok p"
  by (drule core_scheduled) (simp add: timeline_ok_def)

text \<open>
  An item source leaves the core alone, and an item it returns is placed behind the timeline. The
  queueing code relies on nothing else: the client lemmas show that queueing what a source
  returns keeps the schedule free of overlaps and adds exactly one item.
\<close>

locale item_source =
  fixes source :: "planner_env \<Rightarrow> instant \<Rightarrow> feedPlanner \<Rightarrow> feedPlanner \<times> playlistItem option"
  assumes frame: "source env now p = (q, r) \<Longrightarrow> core q = core p"
    and placed: "source env now p = (q, Some item) \<Longrightarrow> placed (timelineEnd p now) now item"
begin

lemma queueing_keeps_timeline:
  assumes "timeline_ok p" and "source env now p = (q, Some item)"
  shows "timeline_ok (q\<lparr>pl_queue := pl_queue q @ [item]\<rparr>)"
proof (rule timeline_ok_append)
  from frame [OF assms(2)] show "timeline_ok q"
    using assms(1) core_timeline_ok by blast
  show "placed (timelineEnd q now) now item"
    using placed [OF assms(2)] core_timelineEnd [OF frame [OF assms(2)]] by simp
qed

lemma queueing_count:
  assumes "source env now p = (q, Some item)"
  shows "queuedCount (q\<lparr>pl_queue := pl_queue q @ [item]\<rparr>) = queuedCount p + 1"
  using core_fields(1,2) [OF frame [OF assms]] by (simp add: queuedCount_def)

end

text \<open>A builder that reports errors is a source that returns nothing on an error.\<close>

definition built :: "feedPlanner \<times> (go_error + playlistItem) \<Rightarrow> feedPlanner \<times> playlistItem option" where
  "built r = (fst r, case snd r of Inl e \<Rightarrow> None | Inr item \<Rightarrow> Some item)"

lemma built_eq [simp]:
  "built r = (q, Some item) \<longleftrightarrow> r = (q, Inr item)" "built r = (q, None) \<longleftrightarrow> (\<exists>e. r = (q, Inl e))"
  by (cases r; auto simp: built_def split: sum.splits)+

lemma item_source_builtI:
  assumes "\<And>env now p q r. build env now p = (q, r) \<Longrightarrow> core q = core p"
    and "\<And>env now p q item. build env now p = (q, Inr item) \<Longrightarrow> placed (timelineEnd p now) now item"
  shows "item_source (\<lambda>env now p. built (build env now p))"
proof
  fix env now p q r
  assume "built (build env now p) = (q, r)"
  then show "core q = core p" using assms(1) by (cases r) auto
next
  fix env now p q item
  assume "built (build env now p) = (q, Some item)"
  then show "placed (timelineEnd p now) now item" using assms(2) by auto
qed

end
