(* ===== verification/Segment_Pool.thy ===== *)
theory Segment_Pool
  imports Playlist_Data
begin

text \<open>
  The worker pool of \<open>prepareProductSegments\<close> (\<open>internal/playlist/service.go\<close>): the goroutine that sends
  the jobs and collects the results, the workers, and the two channels between them. The moves of
  the goroutines interleave in every way: whenever several can move, \<open>env_schedule\<close> picks one. The
  lemmas show that the pool always runs to its end and that what it returns does not depend on the
  choice.
\<close>

section \<open>One segment\<close>

record preparedProductSegment =
  ps_audioPCM :: "byte list"
  ps_textPCM :: "byte list"
  ps_err :: "go_error option"

definition zero_segment :: preparedProductSegment where
  "zero_segment = \<lparr>ps_audioPCM = [], ps_textPCM = [], ps_err = None\<rparr>"

text \<open>One worker's work on a segment: its recording, then its text.\<close>

definition prepare_segment :: "planner_env \<Rightarrow> nat \<Rightarrow> renderedSegment \<Rightarrow> preparedProductSegment" where
  "prepare_segment env index segment =
     (let audioPath = trimSpace (sg_audioPath segment); spoken = trimSpace (sg_text segment);
          prepared = (if audioPath \<noteq> [] then
                        (case env_segmentAudio env index audioPath of
                           Inl e \<Rightarrow> zero_segment\<lparr>ps_err := Some e\<rparr>
                         | Inr pcm \<Rightarrow> zero_segment\<lparr>ps_audioPCM := pcm\<rparr>)
                      else zero_segment)
      in if ps_err prepared = None \<and> spoken \<noteq> [] then
           (case env_segmentText env index spoken of
              Inl e \<Rightarrow> prepared\<lparr>ps_err := Some e\<rparr>
            | Inr pcm \<Rightarrow> prepared\<lparr>ps_textPCM := pcm\<rparr>)
         else prepared)"

section \<open>The pool\<close>

text \<open>
  \<open>sp_todo\<close> are the jobs not yet sent, \<open>sp_jobs\<close> and \<open>sp_results\<close> the contents of the channels,
  \<open>sp_busy\<close> the jobs the workers hold, \<open>sp_prepared\<close> the slice the results are written to and
  \<open>sp_err\<close> is \<open>preparationErr\<close>; the context is cancelled exactly when it is set.
\<close>

record segment_pool =
  sp_todo :: "(nat \<times> renderedSegment) list"
  sp_jobs :: "(nat \<times> renderedSegment) list"
  sp_busy :: "(nat \<times> renderedSegment) list"
  sp_results :: "(nat \<times> preparedProductSegment) list"
  sp_prepared :: "preparedProductSegment list"
  sp_err :: "go_error option"

datatype pool_move = SubmitJob | TakeJob | FinishJob nat | AbortJob nat | CollectResult

text \<open>
  What can happen next. The jobs channel has room for one job per worker and the results channel for
  one result per segment; the results are collected once all jobs are sent. A worker whose
  context is cancelled may return the context's error in place of its work.
\<close>

definition pool_moves :: "nat \<Rightarrow> nat \<Rightarrow> segment_pool \<Rightarrow> pool_move list" where
  "pool_moves workers count pool =
     (if sp_todo pool \<noteq> [] \<and> length (sp_jobs pool) < workers then [SubmitJob] else []) @
     (if sp_jobs pool \<noteq> [] \<and> length (sp_busy pool) < workers then [TakeJob] else []) @
     (if length (sp_results pool) < count
      then map FinishJob [0..<length (sp_busy pool)] @
           (if sp_err pool \<noteq> None then map AbortJob [0..<length (sp_busy pool)] else [])
      else []) @
     (if sp_todo pool = [] \<and> sp_results pool \<noteq> [] then [CollectResult] else [])"

definition finish_job :: "nat \<Rightarrow> preparedProductSegment \<Rightarrow> segment_pool \<Rightarrow> segment_pool" where
  "finish_job k prepared pool =
     pool\<lparr>sp_busy := take k (sp_busy pool) @ drop (Suc k) (sp_busy pool),
          sp_results := sp_results pool @ [(fst (sp_busy pool ! k), prepared)]\<rparr>"

definition collect_result :: "nat \<Rightarrow> preparedProductSegment \<Rightarrow> segment_pool \<Rightarrow> segment_pool" where
  "collect_result index prepared pool =
     pool\<lparr>sp_prepared := (sp_prepared pool)[index := prepared],
          sp_err := (if ps_err prepared \<noteq> None \<and> sp_err pool = None then ps_err prepared else sp_err pool)\<rparr>"

definition pool_step :: "planner_env \<Rightarrow> nat \<Rightarrow> pool_move \<Rightarrow> segment_pool \<Rightarrow> segment_pool" where
  "pool_step env indexOffset move pool =
     (case move of
        SubmitJob \<Rightarrow> pool\<lparr>sp_todo := tl (sp_todo pool), sp_jobs := sp_jobs pool @ [hd (sp_todo pool)]\<rparr>
      | TakeJob \<Rightarrow> pool\<lparr>sp_jobs := tl (sp_jobs pool), sp_busy := sp_busy pool @ [hd (sp_jobs pool)]\<rparr>
      | FinishJob k \<Rightarrow>
          (case sp_busy pool ! k of
             (index, segment) \<Rightarrow> finish_job k (prepare_segment env (indexOffset + index) segment) pool)
      | AbortJob k \<Rightarrow> finish_job k (zero_segment\<lparr>ps_err := Some ''context canceled''\<rparr>) pool
      | CollectResult \<Rightarrow>
          (case hd (sp_results pool) of
             (index, prepared) \<Rightarrow> collect_result index prepared (pool\<lparr>sp_results := tl (sp_results pool)\<rparr>)))"

definition pool_work :: "segment_pool \<Rightarrow> nat" where
  "pool_work pool = 4 * length (sp_todo pool) + 3 * length (sp_jobs pool) + 2 * length (sp_busy pool) +
     length (sp_results pool)"

lemma pool_step_work:
  "move \<in> set (pool_moves workers count pool) \<Longrightarrow> pool_work (pool_step env indexOffset move pool) < pool_work pool"
  by (auto simp: pool_moves_def pool_step_def pool_work_def finish_job_def collect_result_def neq_Nil_conv
      split: if_splits prod.splits)

function run_pool :: "planner_env \<Rightarrow> nat \<Rightarrow> nat \<Rightarrow> nat \<Rightarrow> nat \<Rightarrow> segment_pool \<Rightarrow> segment_pool" where
  "run_pool env indexOffset workers count n pool =
     (let moves = pool_moves workers count pool
      in if moves = [] then pool
         else run_pool env indexOffset workers count (n + 1)
                (pool_step env indexOffset (moves ! (env_schedule env indexOffset n mod length moves)) pool))"
  by pat_completeness auto
termination
  by (relation "measure (\<lambda>(env, indexOffset, workers, count, n, pool). pool_work pool)")
    (auto intro!: pool_step_work nth_mem mod_less_divisor)

declare run_pool.simps [simp del]

definition productSegmentWorkerLimit :: nat where
  "productSegmentWorkerLimit = 4"

definition new_pool :: "renderedSegment list \<Rightarrow> segment_pool" where
  "new_pool segments =
     \<lparr>sp_todo = enumerate 0 segments, sp_jobs = [], sp_busy = [], sp_results = [],
      sp_prepared = replicate (length segments) zero_segment, sp_err = None\<rparr>"

definition prepareProductSegments ::
  "planner_env \<Rightarrow> renderedSegment list \<Rightarrow> nat \<Rightarrow> go_error + preparedProductSegment list" where
  "prepareProductSegments env segments indexOffset =
     (let workerCount = min (length segments) productSegmentWorkerLimit;
          pool = run_pool env indexOffset workerCount (length segments) 0 (new_pool segments)
      in case sp_err pool of Some e \<Rightarrow> Inl e | None \<Rightarrow> Inr (sp_prepared pool))"

section \<open>The outcome does not depend on the schedule\<close>

text \<open>The reference: the segments prepared one after the other.\<close>

definition prepared_in_order :: "planner_env \<Rightarrow> nat \<Rightarrow> renderedSegment list \<Rightarrow> preparedProductSegment list" where
  "prepared_in_order env indexOffset segments =
     map (\<lambda>(i, segment). prepare_segment env (indexOffset + i) segment) (enumerate 0 segments)"

lemma prepared_in_order_length [simp]: "length (prepared_in_order env indexOffset segments) = length segments"
  by (simp add: prepared_in_order_def)

lemma prepared_in_order_nth:
  "i < length segments \<Longrightarrow>
   prepared_in_order env indexOffset segments ! i = prepare_segment env (indexOffset + i) (segments ! i)"
  by (simp add: prepared_in_order_def nth_enumerate_eq)

text \<open>
  The invariant: every job in the pool is one of the batch; every result is that of its segment,
  unless an error has been collected; every index is still outstanding or its result is in place;
  the collected error is that of a segment; there is room for every result.
\<close>

definition waiting :: "segment_pool \<Rightarrow> (nat \<times> renderedSegment) list" where
  "waiting pool = sp_todo pool @ sp_jobs pool @ sp_busy pool"

definition pool_ok :: "planner_env \<Rightarrow> nat \<Rightarrow> renderedSegment list \<Rightarrow> segment_pool \<Rightarrow> bool" where
  "pool_ok env indexOffset segments pool \<longleftrightarrow>
     length (sp_prepared pool) = length segments \<and>
     length (waiting pool) + length (sp_results pool) \<le> length segments \<and>
     set (waiting pool) \<subseteq> set (enumerate 0 segments) \<and>
     (\<forall>(i, r) \<in> set (sp_results pool). i < length segments \<and>
        (sp_err pool = None \<longrightarrow> r = prepared_in_order env indexOffset segments ! i)) \<and>
     (sp_err pool = None \<longrightarrow>
        (\<forall>i < length segments. i \<in> fst ` set (waiting pool) \<union> fst ` set (sp_results pool) \<or>
           sp_prepared pool ! i = prepared_in_order env indexOffset segments ! i \<and>
           ps_err (prepared_in_order env indexOffset segments ! i) = None)) \<and>
     (\<forall>e. sp_err pool = Some e \<longrightarrow>
        (\<exists>i < length segments. ps_err (prepared_in_order env indexOffset segments ! i) = Some e))"

lemma pool_ok_new: "pool_ok env indexOffset segments (new_pool segments)"
proof -
  have "fst ` set (enumerate 0 segments) = {0..<length segments}"
    by (metis add_0 map_fst_enumerate set_map set_upt)
  then show ?thesis by (simp add: pool_ok_def new_pool_def waiting_def)
qed

lemma set_remove_nth:
  "k < length xs \<Longrightarrow> insert (xs ! k) (set (take k xs @ drop (Suc k) xs)) = set xs"
  by (subst (4) id_take_nth_drop [of k xs]) auto

lemma pool_ok_finish:
  assumes "pool_ok env indexOffset segments pool" and "k < length (sp_busy pool)"
    and "sp_err pool = None \<Longrightarrow>
      prepared = prepare_segment env (indexOffset + fst (sp_busy pool ! k)) (snd (sp_busy pool ! k))"
  shows "pool_ok env indexOffset segments (finish_job k prepared pool)"
proof -
  let ?q = "finish_job k prepared pool"
  obtain i segment where job: "sp_busy pool ! k = (i, segment)" by (cases "sp_busy pool ! k")
  have "sp_busy pool ! k \<in> set (waiting pool)" using assms(2) by (simp add: waiting_def)
  with assms(1) job have known: "i < length segments" "segment = segments ! i"
    by (auto simp: pool_ok_def in_set_enumerate_eq)
  have waits: "insert (sp_busy pool ! k) (set (waiting ?q)) = set (waiting pool)"
    using set_remove_nth [OF assms(2)] by (auto simp: waiting_def finish_job_def)
  then have sub: "set (waiting ?q) \<subseteq> set (waiting pool)"
    and out: "fst ` set (waiting pool) = insert i (fst ` set (waiting ?q))"
    using job by (auto simp: image_iff) (metis fst_conv insertE insertI1 insert_iff)+
  have count: "length (waiting ?q) + length (sp_results ?q) = length (waiting pool) + length (sp_results pool)"
    using assms(2) by (simp add: waiting_def finish_job_def)
  have "prepared = prepared_in_order env indexOffset segments ! i" if "sp_err pool = None"
    using assms(3) [OF that] job known by (simp add: prepared_in_order_nth)
  with assms(1) sub out count known show ?thesis
    unfolding pool_ok_def by (auto simp: finish_job_def job) 
qed

lemma pool_ok_collect:
  assumes "pool_ok env indexOffset segments pool" and "sp_results pool = (i, prepared) # rest"
  shows "pool_ok env indexOffset segments (collect_result i prepared (pool\<lparr>sp_results := rest\<rparr>))"
proof -
  have same: "waiting (collect_result i prepared (pool\<lparr>sp_results := rest\<rparr>)) = waiting pool"
    by (simp add: waiting_def collect_result_def)
  show ?thesis
    using assms unfolding pool_ok_def same
    by (auto simp: collect_result_def nth_list_update)
qed

lemma pool_ok_step:
  assumes "pool_ok env indexOffset segments pool" and "move \<in> set (pool_moves workers count pool)"
  shows "pool_ok env indexOffset segments (pool_step env indexOffset move pool)"
proof (cases move)
  case SubmitJob
  with assms(2) obtain j js where "sp_todo pool = j # js"
    by (auto simp: pool_moves_def neq_Nil_conv split: if_splits)
  with assms(1) SubmitJob show ?thesis by (auto simp: pool_ok_def pool_step_def waiting_def)
next
  case TakeJob
  with assms(2) obtain j js where "sp_jobs pool = j # js"
    by (auto simp: pool_moves_def neq_Nil_conv split: if_splits)
  with assms(1) TakeJob show ?thesis by (auto simp: pool_ok_def pool_step_def waiting_def)
next
  case (FinishJob k)
  with assms(2) have "k < length (sp_busy pool)" by (auto simp: pool_moves_def split: if_splits)
  with assms(1) FinishJob show ?thesis
    by (auto simp: pool_step_def intro!: pool_ok_finish split: prod.splits)
next
  case (AbortJob k)
  with assms(2) have "k < length (sp_busy pool)" "sp_err pool \<noteq> None"
    by (auto simp: pool_moves_def split: if_splits)
  with assms(1) AbortJob show ?thesis by (auto simp: pool_step_def intro!: pool_ok_finish)
next
  case CollectResult
  with assms(2) obtain i r rs where "sp_results pool = (i, r) # rs"
    by (auto simp: pool_moves_def neq_Nil_conv split: if_splits)
  with pool_ok_collect [OF assms(1) this] CollectResult show ?thesis by (simp add: pool_step_def)
qed

text \<open>A pool in which nothing can move is done: no goroutine is left blocked at a channel.\<close>

lemma pool_not_stuck:
  assumes "pool_ok env indexOffset segments pool" and "pool_moves workers (length segments) pool = []"
    and "segments \<noteq> [] \<Longrightarrow> 0 < workers"
  shows "waiting pool = [] \<and> sp_results pool = []"
proof -
  have room: "length (waiting pool) + length (sp_results pool) \<le> length segments"
    using assms(1) by (simp add: pool_ok_def)
  have busy: "sp_busy pool = []"
  proof (rule ccontr)
    assume "sp_busy pool \<noteq> []"
    with room have "length (sp_results pool) < length segments"
      by (cases "sp_busy pool") (auto simp: waiting_def)
    with assms(2) \<open>sp_busy pool \<noteq> []\<close> show False by (simp add: pool_moves_def split: if_splits)
  qed
  with assms(2,3) room have jobs: "sp_jobs pool = []"
    by (cases "segments = []") (auto simp: pool_moves_def waiting_def split: if_splits)
  with assms(2,3) room have todo: "sp_todo pool = []"
    by (cases "segments = []") (auto simp: pool_moves_def waiting_def split: if_splits)
  with assms(2) busy jobs show ?thesis by (auto simp: pool_moves_def waiting_def split: if_splits)
qed

lemma run_pool_ok:
  assumes "pool_ok env indexOffset segments pool" and "segments \<noteq> [] \<Longrightarrow> 0 < workers"
  shows "pool_ok env indexOffset segments (run_pool env indexOffset workers (length segments) n pool) \<and>
    waiting (run_pool env indexOffset workers (length segments) n pool) = [] \<and>
    sp_results (run_pool env indexOffset workers (length segments) n pool) = []"
  using assms(1)
proof (induction "pool_work pool" arbitrary: n pool rule: less_induct)
  case less
  let ?moves = "pool_moves workers (length segments) pool"
  show ?case
  proof (cases "?moves = []")
    case True
    with less.prems pool_not_stuck [OF less.prems True assms(2)] show ?thesis by (simp add: run_pool.simps)
  next
    case False
    define move where "move = ?moves ! (env_schedule env indexOffset n mod length ?moves)"
    have move: "move \<in> set ?moves" using False by (simp add: move_def)
    have "run_pool env indexOffset workers (length segments) n pool =
        run_pool env indexOffset workers (length segments) (n + 1) (pool_step env indexOffset move pool)"
      using False by (subst run_pool.simps) (simp add: Let_def move_def)
    with less.hyps [OF pool_step_work [OF move] pool_ok_step [OF less.prems move]] show ?thesis by simp
  qed
qed

lemma prepareProductSegments_outcome:
  "case prepareProductSegments env segments indexOffset of
     Inr prepared \<Rightarrow> prepared = prepared_in_order env indexOffset segments \<and> list_all (\<lambda>s. ps_err s = None) prepared
   | Inl e \<Rightarrow> \<exists>s\<in>set (prepared_in_order env indexOffset segments). ps_err s = Some e"
proof -
  define workers where "workers = min (length segments) productSegmentWorkerLimit"
  define final where "final = run_pool env indexOffset workers (length segments) 0 (new_pool segments)"
  have some: "segments \<noteq> [] \<Longrightarrow> 0 < workers" by (simp add: workers_def productSegmentWorkerLimit_def)
  from run_pool_ok [OF pool_ok_new [of env indexOffset segments] some, of 0]
  have ok: "pool_ok env indexOffset segments final" and empty: "waiting final = []" "sp_results final = []"
    by (auto simp: final_def)
  show ?thesis
  proof (cases "sp_err final")
    case None
    with ok empty have "sp_prepared final = prepared_in_order env indexOffset segments"
      and "\<forall>i<length segments. ps_err (prepared_in_order env indexOffset segments ! i) = None"
      by (auto simp: pool_ok_def intro!: nth_equalityI)
    with None show ?thesis
      by (simp add: prepareProductSegments_def Let_def workers_def [symmetric] final_def [symmetric] list_all_length)
  next
    case (Some e)
    with ok obtain i where "i < length segments" "ps_err (prepared_in_order env indexOffset segments ! i) = Some e"
      by (auto simp: pool_ok_def)
    with Some show ?thesis
      by (auto simp: prepareProductSegments_def Let_def workers_def [symmetric] final_def [symmetric]
          intro!: bexI [of _ "prepared_in_order env indexOffset segments ! i"])
  qed
qed

text \<open>So a batch is prepared exactly when each of its segments can be, and in their order.\<close>

lemma prepareProductSegments_iff:
  "prepareProductSegments env segments indexOffset = Inr prepared \<longleftrightarrow>
   prepared = prepared_in_order env indexOffset segments \<and> list_all (\<lambda>s. ps_err s = None) prepared"
  using prepareProductSegments_outcome [of env indexOffset segments]
  by (auto simp: list_all_iff split: sum.splits)

end
