(* ===== verification/Product_Build.thy ===== *)
theory Product_Build
  imports Segment_Pool
begin

text \<open>
  How the playlist service turns a package into a queue item with audio: \<open>buildProduct\<close> of
  \<open>internal/playlist/service.go\<close> with its branches (declared audio, segmented products, plain
  synthesis, cached audio as a fallback), the chime and the operator's text and audio items.
  The renderer, the synthesizer, downloads, conversions and the file system are the functions of
  \<open>planner_env\<close>. Every builder fills in the same structure literal, \<open>scheduled_item\<close>.
\<close>

section \<open>Scheduled items\<close>

definition scheduled_item ::
  "planner_env \<Rightarrow> string \<Rightarrow> string \<Rightarrow> string \<Rightarrow> string \<Rightarrow> string \<Rightarrow> string \<Rightarrow> int \<Rightarrow> instant \<Rightarrow>
   instant \<Rightarrow> instant \<Rightarrow> string \<Rightarrow> playlistItem" where
  "scheduled_item env feedID qid kind pkgID title path durationMS target tlEnd now source =
     (let start = predictedStart now tlEnd target
      in \<lparr>it_queueID = qid, it_feedID = feedID, it_kind = kind, it_packageID = pkgID,
          it_title = title, it_audioPath = path, it_durationMS = durationMS, it_queuedAt = now,
          it_targetStartAt = target, it_predictedStartAt = start,
          it_predictedFinishAt = start + itemScheduleDuration env durationMS,
          it_status = ''queued'', it_source = source\<rparr>)"

definition wavInfo_at :: "planner_env \<Rightarrow> string \<Rightarrow> go_error + audioInfo" where
  "wavInfo_at env path =
     (case env_readFile env path of Inl e \<Rightarrow> Inl e | Inr file \<Rightarrow> wavInfo file)"

definition output_path :: "planner_env \<Rightarrow> feedPlanner \<Rightarrow> string \<Rightarrow> string" where
  "output_path env p qid = joinPath [env_outputDir env, safeID (pl_feedID p), qid @ ''.wav'']"

section \<open>Cached audio\<close>

definition cachedRoutineFallbackMaxAge :: duration where
  "cachedRoutineFallbackMaxAge = 15 * minute"

definition cachedStartupFallbackMaxAge :: duration where
  "cachedStartupFallbackMaxAge = 30 * minute"

definition cachedProductAudioEligible :: "string \<Rightarrow> bool" where
  "cachedProductAudioEligible pkgID \<longleftrightarrow> toLower (trimSpace pkgID) \<notin> {''alerts'', ''date_time''}"

definition scratch_marker :: "string \<Rightarrow> string \<Rightarrow> bool" where
  "scratch_marker base marker =
     (case lastIndex base marker of
        None \<Rightarrow> False
      | Some index \<Rightarrow>
          (let suffix = drop (index + length marker) base
           in length suffix \<ge> 2 \<and> list_all is_digit suffix))"

definition isProductSegmentScratchName :: "string \<Rightarrow> bool" where
  "isProductSegmentScratchName name =
     (let lower = toLower (trimSpace name);
          base = (if hasSuffix lower ''.wav'' then take (length lower - 4) lower else lower)
      in list_ex (scratch_marker base) [''-text-'', ''-audio-''])"

text \<open>The loop of \<open>latestCachedProductAudioPath\<close>: \<open>best\<close> is the pair of \<open>bestPath\<close> and \<open>bestMod\<close>.\<close>

fun latest_cached_loop ::
  "instant \<Rightarrow> string \<Rightarrow> string \<Rightarrow> duration \<Rightarrow> dirEntry list \<Rightarrow> (string \<times> instant) option \<Rightarrow>
   (string \<times> instant) option" where
  "latest_cached_loop clock dir prefix maxAge [] best = best"
| "latest_cached_loop clock dir prefix maxAge (entry # entries) best =
     latest_cached_loop clock dir prefix maxAge entries
       (if de_isDir entry then best
        else if \<not> hasPrefix (de_name entry) prefix \<or> \<not> hasSuffix (toLower (de_name entry)) ''.wav'' then best
        else if isProductSegmentScratchName (de_name entry) then best
        else
          (case de_mod entry of
             None \<Rightarrow> best
           | Some mtime \<Rightarrow>
               if maxAge > 0 \<and> clock - mtime > maxAge then best
               else
                 (case best of
                    None \<Rightarrow> Some (joinPath [dir, de_name entry], mtime)
                  | Some (path, bestMod) \<Rightarrow>
                      if mtime > bestMod then Some (joinPath [dir, de_name entry], mtime) else best)))"

definition latestCachedProductAudioPath ::
  "planner_env \<Rightarrow> string \<Rightarrow> dirEntry list \<Rightarrow> string \<Rightarrow> duration \<Rightarrow> string option" where
  "latestCachedProductAudioPath env dir entries prefix maxAge =
     map_option fst (latest_cached_loop (env_clock env) dir prefix maxAge entries None)"

fun cached_from_prefixes ::
  "planner_env \<Rightarrow> string \<Rightarrow> dirEntry list \<Rightarrow> duration \<Rightarrow> string list \<Rightarrow> (string \<times> audioInfo) option" where
  "cached_from_prefixes env dir entries maxAge [] = None"
| "cached_from_prefixes env dir entries maxAge (prefix # prefixes) =
     (case latestCachedProductAudioPath env dir entries prefix maxAge of
        None \<Rightarrow> cached_from_prefixes env dir entries maxAge prefixes
      | Some path \<Rightarrow>
          (case wavInfo_at env path of
             Inl e \<Rightarrow> cached_from_prefixes env dir entries maxAge prefixes
           | Inr info \<Rightarrow>
               if ai_sampleRate info \<noteq> env_sampleRate env \<or> ai_channels info \<noteq> env_channels env
               then cached_from_prefixes env dir entries maxAge prefixes
               else Some (path, info)))"

definition latestCachedProductAudio ::
  "planner_env \<Rightarrow> feedPlanner \<Rightarrow> string \<Rightarrow> string \<Rightarrow> duration \<Rightarrow> (string \<times> audioInfo) option" where
  "latestCachedProductAudio env p pkgID language maxAge =
     (let dir = joinPath [env_outputDir env, safeID (pl_feedID p)]
      in case env_readDir env dir of
           None \<Rightarrow> None
         | Some entries \<Rightarrow>
             (let first = safeID (productQueuePrefix pkgID language) @ ''-'';
                  legacy = safeID pkgID @ ''-'';
                  prefixes = (if normalizeLangKey language = normalizeLangKey (feedLanguage env) \<and>
                                 legacy \<noteq> first
                              then [first, legacy] else [first])
              in cached_from_prefixes env dir entries maxAge prefixes))"

definition cachedProductItem ::
  "planner_env \<Rightarrow> string \<Rightarrow> renderedProduct \<Rightarrow> string \<Rightarrow> instant \<Rightarrow> instant \<Rightarrow> instant \<Rightarrow> duration \<Rightarrow>
   feedPlanner \<Rightarrow> (playlistItem \<times> feedPlanner) option" where
  "cachedProductItem env pkgID product source target tlEnd now maxAge p =
     (if \<not> cachedProductAudioEligible pkgID then None
      else
        (case latestCachedProductAudio env p pkgID (rp_language product) maxAge of
           None \<Rightarrow> None
         | Some (path, info) \<Rightarrow>
             (case queueID env (productQueuePrefix pkgID (rp_language product)) p of
                (qid, p) \<Rightarrow>
                  Some (scheduled_item env (pl_feedID p) qid ''product'' pkgID
                          (fallbackText (rp_title product) pkgID) path (ai_durationMS info)
                          target tlEnd now (fallbackText source ''cached''), p))))"

definition startupCachedProductItem ::
  "planner_env \<Rightarrow> string \<Rightarrow> renderedProduct \<Rightarrow> string \<Rightarrow> instant \<Rightarrow> instant \<Rightarrow> instant \<Rightarrow>
   feedPlanner \<Rightarrow> (playlistItem \<times> feedPlanner) option" where
  "startupCachedProductItem env pkgID product source target tlEnd now p =
     (if \<not> equalFold source ''startup'' \<or> equalFold pkgID ''date_time'' then None
      else cachedProductItem env pkgID product source target tlEnd now cachedStartupFallbackMaxAge p)"

definition cacheFallbackMaxAge :: "string \<Rightarrow> duration" where
  "cacheFallbackMaxAge source =
     (if equalFold source ''startup'' then cachedStartupFallbackMaxAge else cachedRoutineFallbackMaxAge)"

definition synthesisTimeoutForBuild :: "planner_env \<Rightarrow> feedPlanner \<Rightarrow> string \<Rightarrow> string \<Rightarrow> string \<Rightarrow> duration" where
  "synthesisTimeoutForBuild env p pkgID source language =
     (if equalFold source ''startup'' then 8 * second
      else if cachedProductAudioEligible pkgID \<and>
              latestCachedProductAudio env p pkgID language cachedRoutineFallbackMaxAge \<noteq> None
      then 12 * second
      else 90 * second)"

section \<open>Rendering\<close>

text \<open>The two announcements the service can phrase itself; \<open>env_stationText\<close> and
  \<open>env_dateTimeText\<close> are their sentences.\<close>

definition staticProduct ::
  "planner_env \<Rightarrow> feedPlanner \<Rightarrow> string \<Rightarrow> string \<Rightarrow> instant \<Rightarrow> go_error + renderedProduct" where
  "staticProduct env p pkgID lang now =
     (let language = fallbackText lang (feedLanguage env);
          product = (\<lambda>title text.
            \<lparr>rp_id = pl_feedID p @ ''-'' @ pkgID @ ''-'' @ itoaInt (unixNano now),
             rp_feedID = pl_feedID p, rp_packageID = pkgID, rp_title = title, rp_text = text,
             rp_readerID = ''00'', rp_language = language, rp_segments = [], rp_metadata = []\<rparr>)
      in if toLower (trimSpace pkgID) = ''station_id''
         then Inr (product ''Station Identification'' (env_stationText env))
         else if toLower (trimSpace pkgID) = ''date_time''
         then Inr (product ''Date and Time'' (env_dateTimeText env now language))
         else Inl (''no static fallback for '' @ pkgID))"

definition renderProductForBuild ::
  "planner_env \<Rightarrow> feedPlanner \<Rightarrow> string \<Rightarrow> string \<Rightarrow> string \<Rightarrow> string \<Rightarrow> instant \<Rightarrow>
   go_error + renderedProduct" where
  "renderProductForBuild env p qid pkgID source language now =
     (if source = ''startup'' \<and> (pkgID = ''station_id'' \<or> pkgID = ''date_time'')
      then staticProduct env p pkgID language now
      else
        (case env_render env qid (pl_feedID p) pkgID language of
           Inr product \<Rightarrow> Inr product
         | Inl err \<Rightarrow>
             (case staticProduct env p pkgID language now of
                Inl e \<Rightarrow> Inl err
              | Inr fallback \<Rightarrow> Inr fallback)))"

definition metadataText :: "(string \<times> string) list \<Rightarrow> string \<Rightarrow> string" where
  "metadataText metadata key =
     (case find (\<lambda>(rawKey, v). equalFold (trimSpace rawKey) key) metadata of
        None \<Rightarrow> []
      | Some (rawKey, v) \<Rightarrow> trimSpace v)"

text \<open>The result of the builders that decline (\<open>ok\<close> is false) is \<open>None\<close>.\<close>

definition buildProductAudioItem ::
  "planner_env \<Rightarrow> feedPlanner \<Rightarrow> renderedProduct \<Rightarrow> string \<Rightarrow> string \<Rightarrow> instant \<Rightarrow> instant \<Rightarrow> instant \<Rightarrow>
   string \<Rightarrow> (go_error + playlistItem) option" where
  "buildProductAudioItem env p product pkgID source target tlEnd now qid =
     (if \<not> equalFold (metadataText (rp_metadata product) ''content_type'') ''audio'' then None
      else
        (let audioPath = metadataText (rp_metadata product) ''audio_path'';
             audioURL = metadataText (rp_metadata product) ''audio_url'';
             outputPath = output_path env p qid
         in if audioPath = [] \<and> audioURL = []
            then Some (Inl (''product '' @ pkgID @ '' declared audio content without audio_path or audio_url''))
            else
              (case (if audioURL \<noteq> [] then env_downloadAudio env audioURL qid outputPath
                     else env_prepareAudio env audioPath outputPath) of
                 Inl e \<Rightarrow> Some (Inl e)
               | Inr finalPath \<Rightarrow>
                   (case wavInfo_at env finalPath of
                      Inl e \<Rightarrow> Some (Inl e)
                    | Inr info \<Rightarrow>
                        Some (Inr (scheduled_item env (pl_feedID p) qid ''audio'' pkgID
                                     (fallbackText (rp_title product) pkgID) finalPath
                                     (ai_durationMS info) target tlEnd now source))))))"

section \<open>Segmented products\<close>

definition playableProductSegments :: "renderedProduct \<Rightarrow> renderedSegment list" where
  "playableProductSegments product =
     filter (\<lambda>segment. \<not> (trimSpace (sg_audioPath segment) = [] \<and> trimSpace (sg_text segment) = []))
       (rp_segments product)"

definition productShouldUseSegments :: "renderedSegment list \<Rightarrow> bool" where
  "productShouldUseSegments segments \<longleftrightarrow>
     length segments > 1 \<or> (length segments = 1 \<and> trimSpace (sg_audioPath (segments ! 0)) \<noteq> [])"

definition productContainsAudioSegment :: "renderedProduct \<Rightarrow> bool" where
  "productContainsAudioSegment product \<longleftrightarrow>
     list_ex (\<lambda>segment. trimSpace (sg_audioPath segment) \<noteq> []) (rp_segments product)"

definition productSegmentPause :: "renderedSegment \<Rightarrow> duration" where
  "productSegmentPause segment =
     (let kind = toLower (trimSpace (sg_kind segment))
      in if kind = ''audio'' \<or> kind = ''opener'' then 400 * millisecond
         else if kind = ''warning'' then 350 * millisecond
         else if kind = ''closure'' then 300 * millisecond
         else 240 * millisecond)"

text \<open>The stream is the list of chunks appended so far.\<close>

fun append_chunks :: "planner_env \<Rightarrow> byte list list \<Rightarrow> byte list list \<Rightarrow> go_error + byte list list" where
  "append_chunks env [] chunks = Inr chunks"
| "append_chunks env (pcm # pcms) chunks =
     (case env_append env chunks pcm of
        Some e \<Rightarrow> Inl e
      | None \<Rightarrow> append_chunks env pcms (chunks @ [pcm]))"

text \<open>The chunks one segment contributes: recording and text if they have any bytes, and the pause
  unless it is the last segment.\<close>

definition segment_chunks ::
  "planner_env \<Rightarrow> nat \<Rightarrow> nat \<Rightarrow> renderedSegment \<Rightarrow> preparedProductSegment \<Rightarrow> byte list list" where
  "segment_chunks env count index segment prepared =
     filter (\<lambda>pcm. pcm \<noteq> []) [ps_audioPCM prepared, ps_textPCM prepared] @
     (if index < count - 1 then [env_silence env (productSegmentPause segment)] else [])"

fun append_segments ::
  "planner_env \<Rightarrow> nat \<Rightarrow> nat \<Rightarrow> (renderedSegment \<times> preparedProductSegment) list \<Rightarrow> byte list list \<Rightarrow>
   go_error + byte list list" where
  "append_segments env count index [] chunks = Inr chunks"
| "append_segments env count index ((segment, prepared) # rest) chunks =
     (case append_chunks env (segment_chunks env count index segment prepared) chunks of
        Inl e \<Rightarrow> Inl e
      | Inr chunks' \<Rightarrow> append_segments env count (index + 1) rest chunks')"

definition has_audio :: "preparedProductSegment \<Rightarrow> bool" where
  "has_audio prepared \<longleftrightarrow> ps_audioPCM prepared \<noteq> [] \<or> ps_textPCM prepared \<noteq> []"

text \<open>The batches of \<open>productSegmentWorkerLimit\<close> segments; \<open>hasAudio\<close> is carried along.\<close>

function segment_batches ::
  "planner_env \<Rightarrow> nat \<Rightarrow> nat \<Rightarrow> renderedSegment list \<Rightarrow> bool \<Rightarrow> byte list list \<Rightarrow>
   go_error + (bool \<times> byte list list)" where
  "segment_batches env count batchStart segments hasAudio chunks =
     (if segments = [] then Inr (hasAudio, chunks)
      else
        (let batch = take productSegmentWorkerLimit segments
         in case prepareProductSegments env batch batchStart of
              Inl e \<Rightarrow> Inl e
            | Inr prepared \<Rightarrow>
                (case append_segments env count batchStart (zip batch prepared) chunks of
                   Inl e \<Rightarrow> Inl e
                 | Inr chunks' \<Rightarrow>
                     segment_batches env count (batchStart + productSegmentWorkerLimit)
                       (drop productSegmentWorkerLimit segments)
                       (hasAudio \<or> list_ex has_audio prepared) chunks')))"
  by pat_completeness auto
termination
  by (relation "measure (\<lambda>(env, count, batchStart, segments, hasAudio, chunks). length segments)")
    (auto simp: productSegmentWorkerLimit_def)

declare segment_batches.simps [simp del]

definition buildSegmentedProductItem ::
  "planner_env \<Rightarrow> feedPlanner \<Rightarrow> renderedProduct \<Rightarrow> string \<Rightarrow> string \<Rightarrow> instant \<Rightarrow> instant \<Rightarrow> instant \<Rightarrow>
   string \<Rightarrow> (go_error + playlistItem) option" where
  "buildSegmentedProductItem env p product pkgID source target tlEnd now qid =
     (let segments = playableProductSegments product;
          outputPath = output_path env p qid
      in if \<not> productShouldUseSegments segments then None
         else
           (case env_newStream env outputPath of
              Some e \<Rightarrow> Some (Inl e)
            | None \<Rightarrow>
                (case segment_batches env (length segments) 0 segments False [] of
                   Inl e \<Rightarrow> Some (Inl e)
                 | Inr (hasAudio, chunks) \<Rightarrow>
                     if \<not> hasAudio
                     then Some (Inl (''product '' @ pkgID @ '' rendered no playable segments''))
                     else
                       (case env_commit env chunks of
                          Some e \<Rightarrow> Some (Inl e)
                        | None \<Rightarrow>
                            (case wavInfo_at env outputPath of
                               Inl e \<Rightarrow> Some (Inl e)
                             | Inr info \<Rightarrow>
                                 Some (Inr (scheduled_item env (pl_feedID p) qid ''product'' pkgID
                                   (fallbackText (rp_title product) pkgID) outputPath
                                   (ai_durationMS info) target tlEnd now source)))))))"

section \<open>Building an item\<close>

text \<open>The fallback to cached audio after a failure, shared by three branches of \<open>buildProduct\<close>.\<close>

definition cached_or_error ::
  "planner_env \<Rightarrow> string \<Rightarrow> renderedProduct \<Rightarrow> string \<Rightarrow> instant \<Rightarrow> instant \<Rightarrow> instant \<Rightarrow> string \<Rightarrow>
   go_error \<Rightarrow> feedPlanner \<Rightarrow> feedPlanner \<times> (go_error + playlistItem)" where
  "cached_or_error env pkgID product source target tlEnd now reason err p =
     (case cachedProductItem env pkgID product source target tlEnd now (cacheFallbackMaxAge source) p of
        Some (cached, p) \<Rightarrow>
          (p\<lparr>pl_lastError := ''using cached '' @ pkgID @ '' audio after '' @ reason @ '': '' @ err\<rparr>, Inr cached)
      | None \<Rightarrow> (p, Inl err))"

definition synth_product ::
  "planner_env \<Rightarrow> feedPlanner \<Rightarrow> renderedProduct \<Rightarrow> string \<Rightarrow> string \<Rightarrow> string \<Rightarrow> go_error + string" where
  "synth_product env p product pkgID source qid =
     env_synthesize env (synthesisTimeoutForBuild env p pkgID source (rp_language product))
       \<lparr>sj_ID = qid, sj_Text = rp_text product, sj_ReaderID = rp_readerID product,
        sj_Language = fallbackText (rp_language product) (feedLanguage env),
        sj_OutputPath = output_path env p qid, sj_TargetSampleRate = env_sampleRate env,
        sj_TargetChannels = env_channels env, sj_Priority = ''normal''\<rparr>"

text \<open>The part of \<open>buildProduct\<close> after the declared-audio and the segmented branches.\<close>

definition build_plain ::
  "planner_env \<Rightarrow> renderedProduct \<Rightarrow> string \<Rightarrow> string \<Rightarrow> instant \<Rightarrow> instant \<Rightarrow> instant \<Rightarrow> string \<Rightarrow>
   feedPlanner \<Rightarrow> feedPlanner \<times> (go_error + playlistItem)" where
  "build_plain env product pkgID source target tlEnd now qid p =
     (if trimSpace (rp_text product) = []
      then (p, Inl (''product '' @ pkgID @ '' rendered empty text''))
      else
        (case startupCachedProductItem env pkgID product source target tlEnd now p of
           Some (cached, p) \<Rightarrow> (p, Inr cached)
         | None \<Rightarrow>
             (case synth_product env p product pkgID source qid of
                Inl err \<Rightarrow> cached_or_error env pkgID product source target tlEnd now
                             ''synthesis failed'' err p
              | Inr wavPath \<Rightarrow>
                  (case wavInfo_at env wavPath of
                     Inl err \<Rightarrow> cached_or_error env pkgID product source target tlEnd now
                                  ''synthesized WAV could not be read'' err p
                   | Inr info \<Rightarrow>
                       (p, Inr (scheduled_item env (pl_feedID p) qid ''product'' pkgID
                             (fallbackText (rp_title product) pkgID) wavPath (ai_durationMS info)
                             target tlEnd now source))))))"

definition build_rendered ::
  "planner_env \<Rightarrow> renderedProduct \<Rightarrow> string \<Rightarrow> string \<Rightarrow> instant \<Rightarrow> instant \<Rightarrow> instant \<Rightarrow> string \<Rightarrow>
   feedPlanner \<Rightarrow> feedPlanner \<times> (go_error + playlistItem)" where
  "build_rendered env product pkgID source target tlEnd now qid p =
     (case buildProductAudioItem env p product pkgID source target tlEnd now qid of
        Some result \<Rightarrow> (p, result)
      | None \<Rightarrow>
          (case (if productContainsAudioSegment product then None
                 else startupCachedProductItem env pkgID product source target tlEnd now p) of
             Some (cached, p) \<Rightarrow> (p, Inr cached)
           | None \<Rightarrow>
               (case buildSegmentedProductItem env p product pkgID source target tlEnd now qid of
                  Some (Inr item) \<Rightarrow> (p, Inr item)
                | Some (Inl segmentErr) \<Rightarrow>
                    cached_or_error env pkgID product source target tlEnd now
                      ''segmented synthesis failed'' segmentErr p
                | None \<Rightarrow> build_plain env product pkgID source target tlEnd now qid p)))"

definition buildProduct ::
  "planner_env \<Rightarrow> string \<Rightarrow> string \<Rightarrow> instant \<Rightarrow> instant \<Rightarrow> instant \<Rightarrow> feedPlanner \<Rightarrow>
   feedPlanner \<times> (go_error + playlistItem)" where
  "buildProduct env pkgID source target tlEnd now p =
     (case productLanguageForBuild env source p of
        (language, p) \<Rightarrow>
          (case queueID env (productQueuePrefix pkgID language) p of
             (qid, p) \<Rightarrow>
               (case renderProductForBuild env p qid pkgID source language now of
                  Inl err \<Rightarrow> (p, Inl err)
                | Inr product \<Rightarrow> build_rendered env product pkgID source target tlEnd now qid p)))"

definition buildChime ::
  "planner_env \<Rightarrow> fixedEvent \<Rightarrow> instant \<Rightarrow> instant \<Rightarrow> feedPlanner \<Rightarrow> feedPlanner \<times> (go_error + playlistItem)" where
  "buildChime env event tlEnd now p =
     (let source = joinPath [env_baseDir env, ''audio'', ''8-step_chime.wav'']
      in case wavInfo_at env source of
           Inl e \<Rightarrow> (p, Inl e)
         | Inr info \<Rightarrow>
             (case queueID env ''chime'' p of
                (qid, p) \<Rightarrow>
                  (p, Inr (scheduled_item env (pl_feedID p) qid ''audio'' ''chime'' ''Chime'' source
                        (ai_durationMS info) (fx_target event) tlEnd now ''fixed''))))"

definition buildFixed ::
  "planner_env \<Rightarrow> fixedEvent \<Rightarrow> instant \<Rightarrow> instant \<Rightarrow> feedPlanner \<Rightarrow> feedPlanner \<times> (go_error + playlistItem)" where
  "buildFixed env event tlEnd now p =
     (if fx_kind event = ''chime'' then buildChime env event tlEnd now p
      else buildProduct env (fx_packageID event) ''fixed'' (fx_target event) tlEnd now p)"

definition buildTextItem ::
  "planner_env \<Rightarrow> string \<Rightarrow> string \<Rightarrow> instant \<Rightarrow> feedPlanner \<Rightarrow> feedPlanner \<times> (go_error + playlistItem)" where
  "buildTextItem env title text now p =
     (if trimSpace text = [] then (p, Inl ''text is required'')
      else
        (case queueID env ''operator_text'' p of
           (qid, p) \<Rightarrow>
             (case env_synthesize env 0
                     \<lparr>sj_ID = qid, sj_Text = text, sj_ReaderID = [], sj_Language = feedLanguage env,
                      sj_OutputPath = output_path env p qid, sj_TargetSampleRate = env_sampleRate env,
                      sj_TargetChannels = env_channels env, sj_Priority = ''normal''\<rparr> of
                Inl e \<Rightarrow> (p, Inl e)
              | Inr wavPath \<Rightarrow>
                  (case wavInfo_at env wavPath of
                     Inl e \<Rightarrow> (p, Inl e)
                   | Inr info \<Rightarrow>
                       (p, Inr (scheduled_item env (pl_feedID p) qid ''tts'' []
                             (fallbackText title ''Operator Text'') wavPath (ai_durationMS info)
                             0 (timelineEnd p now) now ''operator''))))))"

text \<open>\<open>filepath.Base\<close> of a path without a trailing separator.\<close>

definition basePath :: "string \<Rightarrow> string" where
  "basePath path = last (splitOn (CHR ''/'') path)"

definition buildAudioItem ::
  "planner_env \<Rightarrow> string \<Rightarrow> string \<Rightarrow> instant \<Rightarrow> feedPlanner \<Rightarrow> feedPlanner \<times> (go_error + playlistItem)" where
  "buildAudioItem env title rawPath now p =
     (if trimSpace rawPath = [] then (p, Inl ''audio path is required'')
      else
        (let path = (if hasPrefix rawPath ''/'' then rawPath else joinPath [env_baseDir env, rawPath])
         in case wavInfo_at env path of
              Inl e \<Rightarrow> (p, Inl e)
            | Inr info \<Rightarrow>
                (case queueID env ''operator_audio'' p of
                   (qid, p) \<Rightarrow>
                     (p, Inr (scheduled_item env (pl_feedID p) qid ''audio'' []
                           (fallbackText title (basePath path)) path (ai_durationMS info)
                           0 (timelineEnd p now) now ''operator'')))))"

section \<open>Every builder places its item behind the timeline\<close>

lemma wavInfo_duration_nonneg: "wavInfo file = Inr info \<Longrightarrow> 0 \<le> ai_durationMS info"
  by (auto simp: wavInfo_def Let_def pos_imp_zdiv_nonneg_iff split: if_splits sum.splits)

lemma wavInfo_at_duration_nonneg: "wavInfo_at env path = Inr info \<Longrightarrow> 0 \<le> ai_durationMS info"
  by (auto simp: wavInfo_at_def wavInfo_duration_nonneg split: sum.splits)

lemma scheduled_item_placed:
  "0 \<le> durationMS \<Longrightarrow>
   placed tlEnd now (scheduled_item env feedID qid kind pkgID title path durationMS target tlEnd now source)"
  using itemScheduleDuration_nonneg [of durationMS env]
  by (simp add: placed_def scheduled_item_def Let_def predictedStart_ge forward_def)

lemmas placing = scheduled_item_placed wavInfo_at_duration_nonneg

lemma cached_from_prefixes_nonneg:
  "cached_from_prefixes env dir entries maxAge prefixes = Some (path, info) \<Longrightarrow> 0 \<le> ai_durationMS info"
  by (induction prefixes) (auto simp: wavInfo_at_duration_nonneg split: option.splits sum.splits if_splits)

lemma latestCachedProductAudio_nonneg:
  "latestCachedProductAudio env p pkgID language maxAge = Some (path, info) \<Longrightarrow> 0 \<le> ai_durationMS info"
  by (auto simp: latestCachedProductAudio_def Let_def cached_from_prefixes_nonneg split: option.splits if_splits)

lemma queueID_frame: "queueID env prefix p = (qid, q) \<Longrightarrow> core q = core p"
  by (auto simp: queueID_def)

lemma productLanguageForBuild_frame: "productLanguageForBuild env source p = (language, q) \<Longrightarrow> core q = core p"
  by (auto simp: productLanguageForBuild_def nextRoutineLanguage_def Let_def
      split: if_splits list.splits prod.splits)

lemma cachedProductItem_frame:
  assumes "cachedProductItem env pkgID product source target tlEnd now maxAge p = Some (item, q)"
  shows "core q = core p" and "placed tlEnd now item"
  using assms queueID_frame [of env "productQueuePrefix pkgID (rp_language product)" p]
    latestCachedProductAudio_nonneg
  by (auto simp: cachedProductItem_def intro!: scheduled_item_placed split: if_splits option.splits prod.splits)

lemma startupCachedProductItem_frame:
  assumes "startupCachedProductItem env pkgID product source target tlEnd now p = Some (item, q)"
  shows "core q = core p" and "placed tlEnd now item"
  using assms cachedProductItem_frame by (auto simp: startupCachedProductItem_def split: if_splits)

lemma cached_or_error_frame:
  assumes "cached_or_error env pkgID product source target tlEnd now reason err p = (q, r)"
  shows "core q = core p" and "r = Inr item \<Longrightarrow> placed tlEnd now item"
  using assms cachedProductItem_frame
  by (auto simp: cached_or_error_def split: option.splits prod.splits)

lemma build_plain_frame:
  assumes "build_plain env product pkgID source target tlEnd now qid p = (q, r)"
  shows "core q = core p" and "r = Inr item \<Longrightarrow> placed tlEnd now item"
  using assms
  by (auto simp: build_plain_def intro!: placing
      dest: cached_or_error_frame startupCachedProductItem_frame
      split: if_splits option.splits sum.splits prod.splits)

lemma buildProductAudioItem_placed:
  "buildProductAudioItem env p product pkgID source target tlEnd now qid = Some (Inr item) \<Longrightarrow>
   placed tlEnd now item"
  by (auto simp: buildProductAudioItem_def Let_def intro!: placing split: if_splits sum.splits)

lemma buildSegmentedProductItem_placed:
  "buildSegmentedProductItem env p product pkgID source target tlEnd now qid = Some (Inr item) \<Longrightarrow>
   placed tlEnd now item"
  by (auto simp: buildSegmentedProductItem_def Let_def intro!: placing
      split: if_splits sum.splits option.splits prod.splits)

lemma build_rendered_frame:
  assumes "build_rendered env product pkgID source target tlEnd now qid p = (q, r)"
  shows "core q = core p" and "r = Inr item \<Longrightarrow> placed tlEnd now item"
  using assms
  by (auto simp: build_rendered_def
      dest: cached_or_error_frame startupCachedProductItem_frame build_plain_frame
        buildProductAudioItem_placed buildSegmentedProductItem_placed
      split: option.splits sum.splits prod.splits if_splits)

lemma buildProduct_frame:
  assumes "buildProduct env pkgID source target tlEnd now p = (q, r)"
  shows "core q = core p"
  using assms productLanguageForBuild_frame queueID_frame build_rendered_frame(1)
  unfolding buildProduct_def by (fastforce split: prod.splits sum.splits)

lemma buildProduct_placed:
  "buildProduct env pkgID source target tlEnd now p = (q, Inr item) \<Longrightarrow> placed tlEnd now item"
  unfolding buildProduct_def by (auto dest: build_rendered_frame(2) split: prod.splits sum.splits)

lemma buildChime_frame:
  assumes "buildChime env event tlEnd now p = (q, r)"
  shows "core q = core p" and "r = Inr item \<Longrightarrow> placed tlEnd now item"
  using assms queueID_frame [of env "''chime''" p]
  by (auto simp: buildChime_def Let_def intro!: placing split: sum.splits prod.splits)

lemma buildFixed_frame: "buildFixed env event tlEnd now p = (q, r) \<Longrightarrow> core q = core p"
  by (auto simp: buildFixed_def dest: buildChime_frame(1) buildProduct_frame split: if_splits)

lemma buildFixed_placed: "buildFixed env event tlEnd now p = (q, Inr item) \<Longrightarrow> placed tlEnd now item"
  by (auto simp: buildFixed_def dest: buildChime_frame(2) buildProduct_placed split: if_splits)

lemma buildTextItem_frame:
  assumes "buildTextItem env title text now p = (q, r)"
  shows "core q = core p" and "r = Inr item \<Longrightarrow> placed (timelineEnd p now) now item"
proof -
  have tl: "timelineEnd (p\<lparr>pl_draws := n\<rparr>) now = timelineEnd p now" for n
    by (simp add: timelineEnd_def)
  show "core q = core p" and "r = Inr item \<Longrightarrow> placed (timelineEnd p now) now item"
    using assms
    by (auto simp: buildTextItem_def queueID_def tl intro!: placing split: if_splits sum.splits)
qed

lemma buildAudioItem_frame:
  assumes "buildAudioItem env title rawPath now p = (q, r)"
  shows "core q = core p" and "r = Inr item \<Longrightarrow> placed (timelineEnd p now) now item"
proof -
  have tl: "timelineEnd (p\<lparr>pl_draws := n\<rparr>) now = timelineEnd p now" for n
    by (simp add: timelineEnd_def)
  show "core q = core p" and "r = Inr item \<Longrightarrow> placed (timelineEnd p now) now item"
    using assms
    by (auto simp: buildAudioItem_def queueID_def tl Let_def intro!: placing split: if_splits sum.splits)
qed

interpretation product: item_source
    "\<lambda>env now p. built (buildProduct env pkgID source target (timelineEnd p now) now p)" for pkgID source target
  by (rule item_source_builtI) (auto dest: buildProduct_frame buildProduct_placed)

interpretation fixed: item_source
    "\<lambda>env now p. built (buildFixed env event (timelineEnd p now) now p)" for event
  by (rule item_source_builtI) (auto dest: buildFixed_frame buildFixed_placed)

interpretation operator_text: item_source
    "\<lambda>env now p. built (buildTextItem env title body now p)" for title body
  by (rule item_source_builtI) (auto dest: buildTextItem_frame)

interpretation operator_audio: item_source
    "\<lambda>env now p. built (buildAudioItem env title path now p)" for title path
  by (rule item_source_builtI) (auto dest: buildAudioItem_frame)

section \<open>Segmented products are spoken in order\<close>

text \<open>The reference: the chunks of all segments, one segment after the other, without batches.\<close>

fun spoken_chunks ::
  "planner_env \<Rightarrow> nat \<Rightarrow> nat \<Rightarrow> (renderedSegment \<times> preparedProductSegment) list \<Rightarrow> byte list list" where
  "spoken_chunks env count index [] = []"
| "spoken_chunks env count index ((segment, prepared) # rest) =
     segment_chunks env count index segment prepared @ spoken_chunks env count (index + 1) rest"

lemma spoken_chunks_append:
  "spoken_chunks env count index (xs @ ys) =
   spoken_chunks env count index xs @ spoken_chunks env count (index + length xs) ys"
  by (induction xs arbitrary: index) auto

lemma append_chunks_append:
  "append_chunks env (xs @ ys) chunks =
   (case append_chunks env xs chunks of Inl e \<Rightarrow> Inl e | Inr chunks' \<Rightarrow> append_chunks env ys chunks')"
  by (induction xs arbitrary: chunks) (simp_all split: option.splits)

lemma append_chunks_Inr: "append_chunks env pcms chunks = Inr chunks' \<Longrightarrow> chunks' = chunks @ pcms"
  by (induction pcms arbitrary: chunks) (fastforce split: option.splits)+

lemma append_segments_chunks:
  "append_segments env count index xs chunks = append_chunks env (spoken_chunks env count index xs) chunks"
  by (induction xs arbitrary: index chunks rule: list.induct)
    (auto simp: append_chunks_append split: sum.splits)

lemma prepared_in_order_split:
  "prepared_in_order env index segments =
   prepared_in_order env index (take n segments) @ prepared_in_order env (index + n) (drop n segments)"
proof (cases "n \<le> length segments")
  case True
  then show ?thesis by (intro nth_equalityI) (auto simp: nth_append prepared_in_order_nth)
qed (simp add: prepared_in_order_def)

text \<open>The batches together do what one pass over the segments prepared in order does.\<close>

lemma segment_batches_iff:
  "segment_batches env count index segments hasAudio chunks = Inr (hasAudio', chunks') \<longleftrightarrow>
   list_all (\<lambda>s. ps_err s = None) (prepared_in_order env index segments) \<and>
   append_chunks env (spoken_chunks env count index (zip segments (prepared_in_order env index segments))) chunks
     = Inr chunks' \<and>
   hasAudio' = (hasAudio \<or> list_ex has_audio (prepared_in_order env index segments))"
proof (induction "length segments" arbitrary: segments index hasAudio chunks rule: less_induct)
  case less
  show ?case
  proof (cases "segments = []")
    case True
    then show ?thesis by (auto simp: segment_batches.simps prepared_in_order_def)
  next
    case False
    let ?n = productSegmentWorkerLimit
    define batch where "batch = take ?n segments"
    define rest where "rest = drop ?n segments"
    define first where "first = prepared_in_order env index batch"
    define later where "later = prepared_in_order env (index + ?n) rest"
    have all: "prepared_in_order env index segments = first @ later" "length first = length batch"
      using prepared_in_order_split [of env index segments ?n]
      by (simp_all add: first_def later_def batch_def rest_def)
    have spoken: "spoken_chunks env count index (zip segments (first @ later)) =
        spoken_chunks env count index (zip batch first) @ spoken_chunks env count (index + ?n) (zip rest later)"
    proof -
      have "zip segments (first @ later) = zip batch first @ zip rest later"
        using all(2) by (subst append_take_drop_id [of ?n segments, symmetric], subst zip_append)
          (simp_all add: batch_def rest_def)
      moreover have "rest = [] \<or> length batch = ?n" by (auto simp: batch_def rest_def)
      ultimately show ?thesis using all(2) by (auto simp: spoken_chunks_append)
    qed
    have "length rest < length segments"
      using False by (simp add: rest_def productSegmentWorkerLimit_def)
    note IH = less.hyps [OF this, of "index + ?n", folded later_def]
    have step: "segment_batches env count index segments hasAudio chunks =
        (case prepareProductSegments env batch index of
           Inl e \<Rightarrow> Inl e
         | Inr prepared \<Rightarrow>
             (case append_chunks env (spoken_chunks env count index (zip batch prepared)) chunks of
                Inl e \<Rightarrow> Inl e
              | Inr chunks1 \<Rightarrow> segment_batches env count (index + ?n) rest
                   (hasAudio \<or> list_ex has_audio prepared) chunks1))"
      using False by (subst segment_batches.simps)
        (simp add: Let_def batch_def rest_def append_segments_chunks cong: sum.case_cong)
    show ?thesis
    proof (cases "prepareProductSegments env batch index")
      case (Inl e)
      with prepareProductSegments_iff [of env batch index first] have "\<not> list_all (\<lambda>s. ps_err s = None) first"
        by (simp add: first_def)
      with Inl step all(1) show ?thesis by simp
    next
      case (Inr prepared)
      with prepareProductSegments_iff [of env batch index prepared]
      have ready: "prepared = first" "list_all (\<lambda>s. ps_err s = None) first"
        by (auto simp: first_def)
      show ?thesis
        unfolding step Inr all(1) spoken append_chunks_append
        using ready IH by (auto split: sum.splits)
    qed
  qed
qed

section \<open>The newest cached file\<close>

text \<open>A file is usable when it is a finished recording of the package and not older than \<open>maxAge\<close>
  (0 for no limit); the value is its modification time.\<close>

definition usable :: "instant \<Rightarrow> string \<Rightarrow> duration \<Rightarrow> dirEntry \<Rightarrow> instant option" where
  "usable clock prefix maxAge entry =
     (if de_isDir entry \<or> \<not> hasPrefix (de_name entry) prefix \<or>
         \<not> hasSuffix (toLower (de_name entry)) ''.wav'' \<or> isProductSegmentScratchName (de_name entry)
      then None
      else
        (case de_mod entry of
           None \<Rightarrow> None
         | Some mtime \<Rightarrow> if maxAge > 0 \<and> clock - mtime > maxAge then None else Some mtime))"

definition newer :: "instant \<Rightarrow> string \<Rightarrow> string \<Rightarrow> duration \<Rightarrow> (string \<times> instant) option \<Rightarrow> dirEntry \<Rightarrow>
   (string \<times> instant) option" where
  "newer clock dir prefix maxAge best entry =
     (case usable clock prefix maxAge entry of
        None \<Rightarrow> best
      | Some mtime \<Rightarrow>
          (case best of
             None \<Rightarrow> Some (joinPath [dir, de_name entry], mtime)
           | Some (path, bestMod) \<Rightarrow>
               if mtime > bestMod then Some (joinPath [dir, de_name entry], mtime) else best))"

lemma latest_cached_loop_Cons:
  "latest_cached_loop clock dir prefix maxAge (entry # entries) best =
   latest_cached_loop clock dir prefix maxAge entries (newer clock dir prefix maxAge best entry)"
  by (auto simp: newer_def usable_def split: option.splits)

definition newest ::
  "instant \<Rightarrow> string \<Rightarrow> string \<Rightarrow> duration \<Rightarrow> dirEntry set \<Rightarrow> (string \<times> instant) option \<Rightarrow>
   (string \<times> instant) option \<Rightarrow> bool" where
  "newest clock dir prefix maxAge entries best result \<longleftrightarrow>
     (case result of
        None \<Rightarrow> best = None \<and> (\<forall>entry\<in>entries. usable clock prefix maxAge entry = None)
      | Some (path, mtime) \<Rightarrow>
          (best = Some (path, mtime) \<or>
           (\<exists>entry\<in>entries. usable clock prefix maxAge entry = Some mtime \<and>
              path = joinPath [dir, de_name entry])) \<and>
          (\<forall>path' m. best = Some (path', m) \<longrightarrow> m \<le> mtime) \<and>
          (\<forall>entry\<in>entries. \<forall>m. usable clock prefix maxAge entry = Some m \<longrightarrow> m \<le> mtime))"

lemma newest_newer: "newest clock dir prefix maxAge {entry} best (newer clock dir prefix maxAge best entry)"
  by (auto simp: newest_def newer_def split: option.splits)

lemma newest_compose:
  assumes "newest clock dir prefix maxAge {entry} best mid"
    and "newest clock dir prefix maxAge entries mid result"
  shows "newest clock dir prefix maxAge (insert entry entries) best result"
proof (cases result)
  case None
  with assms show ?thesis by (auto simp: newest_def)
next
  case result: (Some r)
  obtain path mtime where r: "r = (path, mtime)" by (cases r)
  show ?thesis
  proof (cases mid)
    case None
    with assms result r show ?thesis by (auto simp: newest_def)
  next
    case (Some b)
    obtain path1 mtime1 where b: "b = (path1, mtime1)" by (cases b)
    with Some assms result r have le: "mtime1 \<le> mtime" by (auto simp: newest_def)
    with assms(1) Some b have "usable clock prefix maxAge entry = Some m \<Longrightarrow> m \<le> mtime" for m
      by (fastforce simp: newest_def)
    moreover from le assms(1) Some b have "best = Some (path', m) \<Longrightarrow> m \<le> mtime" for path' m
      by (fastforce simp: newest_def)
    moreover from assms Some b result r have
      "best = Some (path, mtime) \<or> (\<exists>entry\<in>insert entry entries.
         usable clock prefix maxAge entry = Some mtime \<and> path = joinPath [dir, de_name entry])"
      by (auto simp: newest_def)
    ultimately show ?thesis
      using assms(2) result r by (auto simp: newest_def)
  qed
qed

lemma latest_cached_loop_newest:
  "newest clock dir prefix maxAge (set entries) best
     (latest_cached_loop clock dir prefix maxAge entries best)"
proof (induction entries arbitrary: best)
  case Nil
  then show ?case by (auto simp: newest_def split: option.splits)
next
  case (Cons entry entries)
  show ?case
    using newest_compose [OF newest_newer Cons.IH]
    by (simp only: latest_cached_loop_Cons list.set)
qed

section \<open>Properties\<close>

text \<open>A small environment: two languages, one second of audio per file, everything available.\<close>

definition sample_wav :: "byte list" where
  "sample_wav = bytes ''RIFF'' @ put_le 4 44 @ bytes ''WAVEfmt '' @ put_le 4 16 @ put_le 2 1 @ put_le 2 1 @
     put_le 4 4 @ put_le 4 8 @ put_le 2 2 @ put_le 2 16 @ bytes ''data'' @ put_le 4 8 @ replicate 8 7"

definition sample_product :: renderedProduct where
  "sample_product = \<lparr>rp_id = ''x'', rp_feedID = ''feed'', rp_packageID = ''forecast'', rp_title = ''Forecast'',
     rp_text = ''Sunny.'', rp_readerID = ''00'', rp_language = ''en-CA'',
     rp_segments = [\<lparr>sg_kind = ''opener'', sg_label = [], sg_text = ''Good morning.'', sg_audioPath = []\<rparr>,
                    \<lparr>sg_kind = ''body'', sg_label = [], sg_text = ''Sunny.'', sg_audioPath = []\<rparr>],
     rp_metadata = []\<rparr>"

definition sample_env :: planner_env where
  "sample_env = \<lparr>env_clock = 1000 * second, env_formatTime = (\<lambda>t. ''t''), env_unique = (\<lambda>n. itoa n),
     env_bridge = True, env_publish = (\<lambda>e. None), env_outputDir = ''/out'', env_baseDir = ''/srv'',
     env_sampleRate = 4, env_channels = 1, env_packageGapNS = second,
     env_order = [''alerts'', ''forecast''], env_hasRoutineAlerts = False,
     env_langs = [(''en-CA'', ''1''), (''fr-CA'', ''2'')], env_routineEnabled = True,
     env_maxQueued = 3, env_fixedToleranceS = 10,
     env_stationIDMinutes = [0, 15, 30, 45], env_dateTimeMinutes = [0, 30], env_chimeMinutes = [],
     env_hourStart = (\<lambda>t. t - t mod (60 * minute)), env_stationText = ''station'',
     env_dateTimeText = (\<lambda>t l. ''time''), env_render = (\<lambda>q f k l. Inr sample_product),
     env_synthesize = (\<lambda>d j. Inr (sj_OutputPath j)), env_readFile = (\<lambda>f. Inr sample_wav),
     env_readDir = (\<lambda>d. Some []), env_downloadAudio = (\<lambda>u q f. Inr f), env_prepareAudio = (\<lambda>u f. Inr f),
     env_segmentAudio = (\<lambda>i a. Inr [1, 2]), env_segmentText = (\<lambda>i t. Inr [3, 4]),
     env_schedule = (\<lambda>batch n. 3 * n + batch), env_silence = (\<lambda>d. [0, 0]), env_newStream = (\<lambda>f. None),
     env_append = (\<lambda>cs c. None), env_commit = (\<lambda>cs. None)\<rparr>"

text \<open>C34: however the workers of the batches are scheduled and in whatever order their results
  arrive, a segmented product is built exactly when every playable segment can be prepared, some
  segment has audio and the stream takes the chunks; the file then holds the recording and the text
  of every playable segment in the order of the product, with the pause of a segment behind it
  unless it is the last.\<close>

theorem segmented_product_in_order:
  "buildSegmentedProductItem env p product pkgID source target tlEnd now qid = Some (Inr item) \<longleftrightarrow>
   (let segments = playableProductSegments product;
        prepared = prepared_in_order env 0 segments;
        chunks = spoken_chunks env (length segments) 0 (zip segments prepared);
        path = output_path env p qid
    in productShouldUseSegments segments \<and> env_newStream env path = None \<and>
       list_all (\<lambda>s. ps_err s = None) prepared \<and> list_ex has_audio prepared \<and>
       append_chunks env chunks [] = Inr chunks \<and> env_commit env chunks = None \<and>
       (\<exists>info. wavInfo_at env path = Inr info \<and>
          item = scheduled_item env (pl_feedID p) qid ''product'' pkgID (fallbackText (rp_title product) pkgID)
                   path (ai_durationMS info) target tlEnd now source))"
proof -
  let ?segments = "playableProductSegments product"
  let ?batches = "segment_batches env (length ?segments) 0 ?segments False []"
  have *: "?batches = Inr (True, chunks) \<longleftrightarrow>
      list_all (\<lambda>s. ps_err s = None) (prepared_in_order env 0 ?segments) \<and>
      list_ex has_audio (prepared_in_order env 0 ?segments) \<and>
      append_chunks env (spoken_chunks env (length ?segments) 0 (zip ?segments (prepared_in_order env 0 ?segments))) []
        = Inr chunks \<and>
      chunks = spoken_chunks env (length ?segments) 0 (zip ?segments (prepared_in_order env 0 ?segments))" for chunks
    using segment_batches_iff [of env "length ?segments" 0 ?segments False "[]" True chunks]
    by (auto dest: append_chunks_Inr)
  have "buildSegmentedProductItem env p product pkgID source target tlEnd now qid = Some (Inr item) \<longleftrightarrow>
      (\<exists>chunks. ?batches = Inr (True, chunks) \<and> productShouldUseSegments ?segments \<and>
         env_newStream env (output_path env p qid) = None \<and> env_commit env chunks = None \<and>
         (\<exists>info. wavInfo_at env (output_path env p qid) = Inr info \<and>
            item = scheduled_item env (pl_feedID p) qid ''product'' pkgID (fallbackText (rp_title product) pkgID)
                     (output_path env p qid) (ai_durationMS info) target tlEnd now source))"
    by (auto simp: buildSegmentedProductItem_def Let_def split: if_splits option.splits sum.splits)
  then show ?thesis unfolding * Let_def by blast
qed

text \<open>\<open>latestCachedProductAudioPath\<close> returns the most recently written usable recording of the
  package, and nothing only when the directory holds no usable one.\<close>

theorem cached_audio_newest:
  "case latestCachedProductAudioPath env dir entries prefix maxAge of
     None \<Rightarrow> \<forall>entry\<in>set entries. usable (env_clock env) prefix maxAge entry = None
   | Some path \<Rightarrow>
       \<exists>entry\<in>set entries. \<exists>mtime. usable (env_clock env) prefix maxAge entry = Some mtime \<and>
         path = joinPath [dir, de_name entry] \<and>
         (\<forall>other\<in>set entries. \<forall>m. usable (env_clock env) prefix maxAge other = Some m \<longrightarrow> m \<le> mtime)"
  using latest_cached_loop_newest [of "env_clock env" dir prefix maxAge entries None]
  by (cases "latest_cached_loop (env_clock env) dir prefix maxAge entries None")
    (fastforce simp: newest_def latestCachedProductAudioPath_def)+

theorem cached_audio_newest_witness:
  "latestCachedProductAudioPath sample_env ''/out'' 
     [\<lparr>de_name = ''wx-1.wav'', de_isDir = False, de_mod = Some (990 * second)\<rparr>,
      \<lparr>de_name = ''wx-2-text-01.wav'', de_isDir = False, de_mod = Some (999 * second)\<rparr>,
      \<lparr>de_name = ''wx-3.wav'', de_isDir = False, de_mod = Some (995 * second)\<rparr>] ''wx-'' (15 * minute)
     = Some ''/out/wx-3.wav''"
proof -
  let ?entries = "[\<lparr>de_name = ''wx-1.wav'', de_isDir = False, de_mod = Some (990 * second)\<rparr>,
      \<lparr>de_name = ''wx-2-text-01.wav'', de_isDir = False, de_mod = Some (999 * second)\<rparr>,
      \<lparr>de_name = ''wx-3.wav'', de_isDir = False, de_mod = Some (995 * second)\<rparr>]"
  have usable: "map (usable (env_clock sample_env) ''wx-'' (15 * minute)) ?entries =
      [Some (990 * second), None, Some (995 * second)]"
    by code_simp
  have names: "joinPath [''/out'', ''wx-3.wav''] = ''/out/wx-3.wav''" by code_simp
  from cached_audio_newest [where env = sample_env and dir = "''/out''" and entries = ?entries and
      prefix = "''wx-''" and maxAge = "15 * minute"] usable names
  show ?thesis
    by (auto simp: second_def split: option.splits)
qed
end
