(* ===== verification/Feed_Planner.thy ===== *)
theory Feed_Planner
  imports Product_Build
begin

text \<open>
  The operations of the routine planner of one feed (\<open>internal/playlist/service.go\<close>): publishing,
  the mode machine driven by operator controls and by alert playout, the routine rotation, the
  fixed events of the hour, the startup primer, operator inserts and the tick that fills the queue.
\<close>

section \<open>The queue\<close>

definition dropCompleted :: "planner_env \<Rightarrow> feedPlanner \<Rightarrow> feedPlanner" where
  "dropCompleted env p =
     p\<lparr>pl_queue := filter (\<lambda>item. \<not> (\<not> isZero (it_predictedFinishAt item) \<and>
                              it_predictedFinishAt item < env_clock env - 5 * minute)) (pl_queue p)\<rparr>"

section \<open>Publishing\<close>

definition publishPlayoutControl :: "planner_env \<Rightarrow> string \<Rightarrow> feedPlanner \<Rightarrow> feedPlanner" where
  "publishPlayoutControl env action p =
     (if \<not> env_bridge env then p
      else
        (let ev = PlaylistControl (pl_feedID p) action
         in case env_publish env ev of
              None \<Rightarrow> p\<lparr>pl_events := pl_events p @ [ev]\<rparr>
            | Some e \<Rightarrow> p\<lparr>pl_lastError := e\<rparr>))"

definition publishReady ::
  "planner_env \<Rightarrow> playlistItem \<Rightarrow> feedPlanner \<Rightarrow> feedPlanner \<times> go_error option" where
  "publishReady env item p =
     (if \<not> env_bridge env then (p, Some ''event bridge is unavailable'')
      else
        (case env_publish env (ItemReady item) of
           Some e \<Rightarrow> (p, Some e)
         | None \<Rightarrow> (p\<lparr>pl_events := pl_events p @ [ItemReady item],
                      pl_lastPendingReplayAt := env_clock env\<rparr>, None)))"

fun publish_items :: "planner_env \<Rightarrow> playlistItem list \<Rightarrow> feedPlanner \<Rightarrow> feedPlanner" where
  "publish_items env [] p = p"
| "publish_items env (item # items) p =
     (case publishReady env item p of
        (p', None) \<Rightarrow> publish_items env items p'
      | (p', Some e) \<Rightarrow> p'\<lparr>pl_lastError := e\<rparr>)"

definition replayItemsAt :: "planner_env \<Rightarrow> instant \<Rightarrow> bool \<Rightarrow> feedPlanner \<Rightarrow> feedPlanner" where
  "replayItemsAt env now includeCurrent p =
     publish_items env
       ((case pl_current p of
           Some item \<Rightarrow> if includeCurrent then [item\<lparr>it_status := ''queued''\<rparr>] else []
         | None \<Rightarrow> []) @ pl_queue p)
       (p\<lparr>pl_lastPendingReplayAt := now\<rparr>)"

definition replayPendingItemsIfDue :: "planner_env \<Rightarrow> instant \<Rightarrow> feedPlanner \<Rightarrow> feedPlanner" where
  "replayPendingItemsIfDue env now p =
     (if length (pl_queue p) = 0 then p
      else if \<not> isZero (pl_lastPendingReplayAt p) \<and> now - pl_lastPendingReplayAt p < 2 * second then p
      else replayItemsAt env now False p)"

section \<open>Controls and playout events\<close>

definition applyControl :: "string \<Rightarrow> feedPlanner \<Rightarrow> feedPlanner" where
  "applyControl raw p =
     (let action = toLower (trimSpace raw)
      in if action = ''pause'' then p\<lparr>pl_mode := ''paused''\<rparr>
         else if action = ''resume'' then p\<lparr>pl_mode := ''running''\<rparr>
         else if action = ''restart'' then
           p\<lparr>pl_mode := ''running'', pl_queue := [], pl_current := None, pl_cursor := 0\<rparr>
         else if action = ''flush_restart'' then
           p\<lparr>pl_queue := [], pl_current := None, pl_cursor := 0, pl_mode := ''running''\<rparr>
         else if action = ''flush_stop'' then
           p\<lparr>pl_queue := [], pl_current := None, pl_mode := ''stopped''\<rparr>
         else if action \<in> {''pause_after_current'', ''flush_restart_after_current'',
                           ''flush_stop_after_current''}
         then p\<lparr>pl_pendingAfterCurrent := action\<rparr>
         else p)"

definition markPriorityStarted :: "planner_env \<Rightarrow> feedPlanner \<Rightarrow> feedPlanner" where
  "markPriorityStarted env p =
     (let p = (if pl_priorityActive p = 0
               then publishPlayoutControl env ''pause'' (p\<lparr>pl_modeBeforePriority := pl_mode p\<rparr>)
               else p)
      in p\<lparr>pl_priorityActive := pl_priorityActive p + 1, pl_mode := ''priority''\<rparr>)"

definition markPriorityCompleted :: "planner_env \<Rightarrow> feedPlanner \<Rightarrow> feedPlanner" where
  "markPriorityCompleted env p =
     (let p = (if pl_priorityActive p > 0 then p\<lparr>pl_priorityActive := pl_priorityActive p - 1\<rparr> else p)
      in if pl_priorityActive p = 0 then
           (let p = p\<lparr>pl_mode := fallbackText (pl_modeBeforePriority p) ''running'',
                      pl_modeBeforePriority := []\<rparr>
            in if pl_mode p = ''running'' then publishPlayoutControl env ''resume'' p else p)
         else p)"

fun take_item :: "string \<Rightarrow> playlistItem list \<Rightarrow> (playlistItem \<times> playlistItem list) option" where
  "take_item qid [] = None"
| "take_item qid (item # items) =
     (if it_queueID item = qid then Some (item, items)
      else map_option (\<lambda>(found, rest). (found, item # rest)) (take_item qid items))"

definition markStarted :: "string \<Rightarrow> feedPlanner \<Rightarrow> feedPlanner" where
  "markStarted qid p =
     (if qid = [] then p
      else
        (case pl_current p of
           Some item \<Rightarrow>
             if it_queueID item = qid then p\<lparr>pl_current := Some (item\<lparr>it_status := ''playing''\<rparr>)\<rparr>
             else
               (case take_item qid (pl_queue p) of
                  None \<Rightarrow> p
                | Some (found, rest) \<Rightarrow>
                    p\<lparr>pl_current := Some (found\<lparr>it_status := ''playing''\<rparr>), pl_queue := rest\<rparr>)
         | None \<Rightarrow>
             (case take_item qid (pl_queue p) of
                None \<Rightarrow> p
              | Some (found, rest) \<Rightarrow>
                  p\<lparr>pl_current := Some (found\<lparr>it_status := ''playing''\<rparr>), pl_queue := rest\<rparr>)))"

definition markInterrupted :: "string \<Rightarrow> feedPlanner \<Rightarrow> feedPlanner" where
  "markInterrupted qid p =
     (case pl_current p of
        Some item \<Rightarrow>
          if qid = [] \<or> it_queueID item = qid
          then p\<lparr>pl_current := Some (item\<lparr>it_status := ''interrupted''\<rparr>)\<rparr> else p
      | None \<Rightarrow> p)"

definition markCompleted :: "string \<Rightarrow> feedPlanner \<Rightarrow> feedPlanner" where
  "markCompleted qid p =
     (let p = (case pl_current p of
                 Some item \<Rightarrow> if qid = [] \<or> it_queueID item = qid
                             then p\<lparr>pl_current := None\<rparr> else p
               | None \<Rightarrow> p);
          p = (if pl_pendingAfterCurrent p = ''pause_after_current''
               then p\<lparr>pl_mode := ''paused'', pl_queue := []\<rparr>
               else if pl_pendingAfterCurrent p = ''flush_restart_after_current''
               then p\<lparr>pl_mode := ''running'', pl_queue := [], pl_cursor := 0\<rparr>
               else if pl_pendingAfterCurrent p = ''flush_stop_after_current''
               then p\<lparr>pl_mode := ''stopped'', pl_queue := []\<rparr>
               else p)
      in p\<lparr>pl_pendingAfterCurrent := []\<rparr>)"

definition invalidateRoutineAlerts :: "planner_env \<Rightarrow> bool \<Rightarrow> feedPlanner \<Rightarrow> feedPlanner" where
  "invalidateRoutineAlerts env stopCurrent p =
     (let alerts = (\<lambda>item. equalFold (trimSpace (it_packageID item)) ''alerts'');
          p = p\<lparr>pl_queue := filter (\<lambda>item. \<not> alerts item) (pl_queue p)\<rparr>
      in case pl_current p of
           Some item \<Rightarrow>
             if stopCurrent \<and> alerts item
             then publishPlayoutControl env ''flush_restart'' (p\<lparr>pl_current := None\<rparr>) else p
         | None \<Rightarrow> p)"

section \<open>The routine rotation\<close>

text \<open>\<open>for range order\<close>: at most one turn over the configured order.\<close>

fun nextRoutinePackage_loop :: "planner_env \<Rightarrow> nat \<Rightarrow> nat \<Rightarrow> string \<times> nat" where
  "nextRoutinePackage_loop env 0 cursor = ([], cursor)"
| "nextRoutinePackage_loop env (Suc n) cursor =
     (let pkgID = trimSpace (env_order env ! (cursor mod length (env_order env)))
      in if pkgID = [] \<or> (pkgID = ''alerts'' \<and> \<not> env_hasRoutineAlerts env)
         then nextRoutinePackage_loop env n (cursor + 1)
         else (pkgID, cursor + 1))"

definition nextRoutinePackage :: "planner_env \<Rightarrow> feedPlanner \<Rightarrow> string \<times> feedPlanner" where
  "nextRoutinePackage env p =
     (case nextRoutinePackage_loop env (length (env_order env)) (pl_cursor p) of
        (pkgID, cursor) \<Rightarrow> (pkgID, p\<lparr>pl_cursor := cursor\<rparr>))"

fun order_index :: "string \<Rightarrow> nat \<Rightarrow> string list \<Rightarrow> nat option" where
  "order_index pkgID i [] = None"
| "order_index pkgID i (candidate # rest) =
     (if equalFold (trimSpace candidate) (trimSpace pkgID) then Some i
      else order_index pkgID (Suc i) rest)"

definition advanceRoutineCursorPast :: "planner_env \<Rightarrow> string \<Rightarrow> feedPlanner \<Rightarrow> feedPlanner" where
  "advanceRoutineCursorPast env pkgID p =
     (case order_index pkgID 0 (env_order env) of
        None \<Rightarrow> p
      | Some index \<Rightarrow> p\<lparr>pl_cursor := index + 1\<rparr>)"

section \<open>Fixed events\<close>

text \<open>
  \<open>env_hourStart t\<close> is the start of the local hour of \<open>t\<close> (the \<open>time.Date\<close> call with minute 0; the
  time-zone database is not part of the sources). The minute lists of the environment are those
  of the enabled schedules.
\<close>

function minuteTarget_loop :: "instant \<Rightarrow> instant \<Rightarrow> instant" where
  "minuteTarget_loop base from = (if base < from then minuteTarget_loop (base + 60 * minute) from else base)"
  by pat_completeness auto
termination
  by (relation "measure (\<lambda>(base, from). nat (from - base))") (auto simp: minute_def second_def)

declare minuteTarget_loop.simps [simp del]

definition minuteTarget :: "planner_env \<Rightarrow> instant \<Rightarrow> instant \<Rightarrow> int \<Rightarrow> instant option" where
  "minuteTarget env from until m =
     (let base = minuteTarget_loop (env_hourStart env from + m * minute) from
      in if base > until then None else Some base)"

definition fixed_candidates ::
  "planner_env \<Rightarrow> instant \<Rightarrow> instant \<Rightarrow> string \<Rightarrow> string \<Rightarrow> int list \<Rightarrow> fixedEvent list" where
  "fixed_candidates env from until kind title minutes =
     List.map_filter (\<lambda>m. map_option
         (\<lambda>target. \<lparr>fx_kind = kind, fx_packageID = kind, fx_title = title, fx_target = target\<rparr>)
         (minuteTarget env from until m)) minutes"

definition fixedEventKey :: "fixedEvent \<Rightarrow> string \<times> instant" where
  "fixedEventKey event = (fx_kind event, fx_target event)"

text \<open>\<open>None\<close> is the zero \<open>fixedEvent\<close> with which \<open>best\<close> starts.\<close>

definition better_fixed :: "feedPlanner \<Rightarrow> instant \<Rightarrow> fixedEvent option \<Rightarrow> fixedEvent \<Rightarrow> fixedEvent option" where
  "better_fixed p now best candidate =
     (if pl_lastFixed p (fixedEventKey candidate) = Some (fx_target candidate) then best
      else if \<not> fx_target candidate > now - 2 * second then best
      else
        (case best of
           None \<Rightarrow> Some candidate
         | Some b \<Rightarrow> if isZero (fx_target b) \<or> fx_target candidate < fx_target b then Some candidate else Some b))"

definition fixed_events :: "planner_env \<Rightarrow> instant \<Rightarrow> fixedEvent list" where
  "fixed_events env now =
     (let from = now - second; until = now + 3 * minute
      in fixed_candidates env from until ''station_id'' ''Station Identification'' (env_stationIDMinutes env) @
         fixed_candidates env from until ''date_time'' ''Date and Time'' (env_dateTimeMinutes env) @
         fixed_candidates env from until ''chime'' ''Chime'' (env_chimeMinutes env))"

definition nextFixedEvent :: "planner_env \<Rightarrow> feedPlanner \<Rightarrow> instant \<Rightarrow> fixedEvent option" where
  "nextFixedEvent env p now =
     (case foldl (better_fixed p now) None (fixed_events env now) of
        None \<Rightarrow> None
      | Some best \<Rightarrow> if isZero (fx_target best) then None else Some best)"

definition shouldFrontLoadFixed :: "instant \<Rightarrow> fixedEvent \<Rightarrow> int \<Rightarrow> bool" where
  "shouldFrontLoadFixed tlEnd event toleranceSeconds \<longleftrightarrow>
     \<not> isZero (fx_target event) \<and> \<not> tlEnd < fx_target event - toleranceSeconds * second"

definition routineItemWouldCrowdFixed :: "playlistItem \<Rightarrow> fixedEvent \<Rightarrow> int \<Rightarrow> bool" where
  "routineItemWouldCrowdFixed item event toleranceSeconds \<longleftrightarrow>
     \<not> isZero (fx_target event) \<and> \<not> isZero (it_predictedFinishAt item) \<and>
     it_predictedFinishAt item > fx_target event + toleranceSeconds * second"

section \<open>Planning the next item\<close>

text \<open>A fixed event that could be built is remembered, so that it is scheduled once.\<close>

definition take_fixed ::
  "planner_env \<Rightarrow> fixedEvent \<Rightarrow> instant \<Rightarrow> instant \<Rightarrow> feedPlanner \<Rightarrow> feedPlanner \<times> playlistItem option" where
  "take_fixed env event tlEnd now p =
     (case buildFixed env event tlEnd now p of
        (p, Inl e) \<Rightarrow> (p\<lparr>pl_lastError := e\<rparr>, None)
      | (p, Inr item) \<Rightarrow>
          (p\<lparr>pl_lastFixed := (pl_lastFixed p)(fixedEventKey event \<mapsto> fx_target event)\<rparr>, Some item))"

definition routine_unavailable :: "planner_env \<Rightarrow> instant \<Rightarrow> string list \<Rightarrow> feedPlanner \<Rightarrow> feedPlanner" where
  "routine_unavailable env now failures p =
     (let joined = join ''; '' failures;
          detail = (if joined = [] then ''no routine package could be selected'' else joined)
      in p\<lparr>pl_nextRoutineRetryAt := now + 30 * second,
           pl_lastError := ''routine products unavailable ('' @ detail @ ''); retrying at '' @
             env_formatTime env (now + 30 * second)\<rparr>)"

fun routine_attempts ::
  "planner_env \<Rightarrow> fixedEvent option \<Rightarrow> instant \<Rightarrow> instant \<Rightarrow> nat \<Rightarrow> string \<Rightarrow> string list \<Rightarrow> feedPlanner \<Rightarrow>
   feedPlanner \<times> playlistItem option" where
  "routine_attempts env fixed tlEnd now 0 pkgID failures p = (routine_unavailable env now failures p, None)"
| "routine_attempts env fixed tlEnd now (Suc n) pkgID failures p =
     (if pkgID = [] then (routine_unavailable env now failures p, None)
      else
        (case buildProduct env pkgID ''routine'' 0 tlEnd now p of
           (p, Inr item) \<Rightarrow>
             (let p = p\<lparr>pl_nextRoutineRetryAt := 0, pl_lastError := []\<rparr>
              in case fixed of
                   Some event \<Rightarrow>
                     if shouldFrontLoadFixed now event (env_fixedToleranceS env) \<and>
                        routineItemWouldCrowdFixed item event (env_fixedToleranceS env)
                     then take_fixed env event tlEnd now p else (p, Some item)
                 | None \<Rightarrow> (p, Some item))
         | (p, Inl e) \<Rightarrow>
             (case nextRoutinePackage env (p\<lparr>pl_lastError := e\<rparr>) of
                (next, p) \<Rightarrow>
                  routine_attempts env fixed tlEnd now n next (failures @ [pkgID @ '': '' @ e]) p)))"

definition nextPlannedItem :: "planner_env \<Rightarrow> instant \<Rightarrow> feedPlanner \<Rightarrow> feedPlanner \<times> playlistItem option" where
  "nextPlannedItem env now p =
     (if \<not> isZero (pl_nextRoutineRetryAt p) \<and> now < pl_nextRoutineRetryAt p then (p, None)
      else
        (let tlEnd = timelineEnd p now;
             fixed = nextFixedEvent env p now;
             routine = (case nextRoutinePackage env p of
                          (pkgID, p) \<Rightarrow>
                            routine_attempts env fixed tlEnd now (length (env_order env)) pkgID [] p)
         in case fixed of
              Some event \<Rightarrow>
                if shouldFrontLoadFixed now event (env_fixedToleranceS env)
                then take_fixed env event tlEnd now p else routine
            | None \<Rightarrow> routine))"

section \<open>Startup primer\<close>

text \<open>\<open>clocks\<close> are the readings of \<open>time.Now()\<close> after each item that could be built.\<close>

definition primer_target :: "nat \<Rightarrow> feedPlanner \<Rightarrow> instant" where
  "primer_target index p = (if index = 0 then pl_startupPrimerAt p else 0)"

fun startup_primer_loop ::
  "planner_env \<Rightarrow> (nat \<Rightarrow> instant) \<Rightarrow> bool \<Rightarrow> nat \<Rightarrow> string list \<Rightarrow> instant \<Rightarrow> instant \<Rightarrow>
   playlistItem list \<Rightarrow> feedPlanner \<Rightarrow> feedPlanner \<times> playlistItem list" where
  "startup_primer_loop env clocks ctxErr index [] tlEnd now items p = (p, items)"
| "startup_primer_loop env clocks ctxErr index (pkgID # rest) tlEnd now items p =
     (if ctxErr \<or> pl_mode p \<noteq> ''running'' \<or> pl_priorityActive p > 0 then (p, items)
      else
        (case buildProduct env pkgID ''startup'' (primer_target index p) tlEnd now p of
           (p, Inl e) \<Rightarrow>
             startup_primer_loop env clocks ctxErr (index + 1) rest tlEnd now items
               (if pkgID \<noteq> ''current_conditions'' then p\<lparr>pl_lastError := e\<rparr> else p)
         | (p, Inr item) \<Rightarrow>
             startup_primer_loop env clocks ctxErr (index + 1) rest
               (if isZero (it_predictedFinishAt item) then tlEnd else it_predictedFinishAt item)
               (clocks index) (items @ [item])
               (if pkgID = ''current_conditions'' then advanceRoutineCursorPast env pkgID p else p)))"

definition prepareStartupPrimer ::
  "planner_env \<Rightarrow> (nat \<Rightarrow> instant) \<Rightarrow> bool \<Rightarrow> instant \<Rightarrow> feedPlanner \<Rightarrow> feedPlanner \<times> playlistItem list" where
  "prepareStartupPrimer env clocks ctxErr now p =
     startup_primer_loop env clocks ctxErr 0 [''station_id'', ''date_time'', ''current_conditions'']
       (timelineEnd p now) now [] p"

fun queue_items :: "planner_env \<Rightarrow> playlistItem list \<Rightarrow> feedPlanner \<Rightarrow> feedPlanner" where
  "queue_items env [] p = p"
| "queue_items env (item # items) p =
     (case publishReady env item (p\<lparr>pl_queue := pl_queue p @ [item]\<rparr>) of
        (p, Some e) \<Rightarrow> p\<lparr>pl_lastError := e\<rparr>
      | (p, None) \<Rightarrow> queue_items env items p)"

definition queueStartupPrimer ::
  "planner_env \<Rightarrow> (nat \<Rightarrow> instant) \<Rightarrow> bool \<Rightarrow> instant \<Rightarrow> feedPlanner \<Rightarrow> feedPlanner" where
  "queueStartupPrimer env clocks ctxErr now p =
     (case prepareStartupPrimer env clocks ctxErr now p of (p, items) \<Rightarrow> queue_items env items p)"

section \<open>Operator inserts\<close>

record routinePreparation =
  rt_planner :: "feedPlanner option"
  rt_items :: "playlistItem list"
  rt_ok :: bool

definition applyRoutinePlanningState :: "feedPlanner option \<Rightarrow> feedPlanner \<Rightarrow> feedPlanner" where
  "applyRoutinePlanningState prepared p =
     (case prepared of
        None \<Rightarrow> p
      | Some q \<Rightarrow> p\<lparr>pl_cursor := pl_cursor q, pl_routineLanguageCount := pl_routineLanguageCount q,
                    pl_routineAltLangIndex := pl_routineAltLangIndex q,
                    pl_nextRoutineRetryAt := pl_nextRoutineRetryAt q, pl_lastError := pl_lastError q,
                    pl_lastFixed := pl_lastFixed q\<rparr>)"

text \<open>The error of the \<open>flush_pending\<close> event is ignored.\<close>

definition prepareInsertPosition :: "planner_env \<Rightarrow> message \<Rightarrow> feedPlanner \<Rightarrow> feedPlanner" where
  "prepareInsertPosition env data p =
     (if toLower (firstText [] data [''position'']) \<noteq> ''next'' then p
      else
        (let p = p\<lparr>pl_queue := []\<rparr>; ev = PlaylistControl (pl_feedID p) ''flush_pending''
         in if env_bridge env \<and> env_publish env ev = None then p\<lparr>pl_events := pl_events p @ [ev]\<rparr> else p))"

definition insert_item ::
  "planner_env \<Rightarrow> message \<Rightarrow> string \<Rightarrow> instant \<Rightarrow> feedPlanner \<Rightarrow> feedPlanner \<times> (go_error + playlistItem)" where
  "insert_item env data kind now p =
     (if kind = ''product'' then
        buildProduct env (firstText [] data [''package_id'', ''pkg_id'']) ''operator'' 0 (timelineEnd p now) now p
      else if kind = ''tts'' then
        buildTextItem env (firstText [] data [''title'']) (firstText [] data [''text'']) now p
      else if kind = ''audio'' then
        buildAudioItem env (firstText [] data [''title'']) (firstText [] data [''audio_path'']) now p
      else if kind = ''same'' then
        (p, Inl ''SAME playlist insertion is staged for the SAME queue integration path'')
      else (p, Inl ''unknown insert kind''))"

definition prepareInsert :: "planner_env \<Rightarrow> message \<Rightarrow> feedPlanner \<Rightarrow> routinePreparation" where
  "prepareInsert env data p =
     (let kind = toLower (firstText [] data [''kind''])
      in if \<not> env_bridge env \<and> (kind = ''product'' \<or> kind = ''tts'')
         then \<lparr>rt_planner = Some (p\<lparr>pl_lastError := ''event bridge is unavailable''\<rparr>), rt_items = [], rt_ok = False\<rparr>
         else
           (case insert_item env data kind (env_clock env) p of
              (p, Inl e) \<Rightarrow> \<lparr>rt_planner = Some (p\<lparr>pl_lastError := e\<rparr>), rt_items = [], rt_ok = False\<rparr>
            | (p, Inr item) \<Rightarrow> \<lparr>rt_planner = Some p, rt_items = [item], rt_ok = True\<rparr>))"

text \<open>\<open>insert\<close>, the synchronous insert. \<open>prepareInsert\<close> works on the planner itself there.\<close>

definition insert_sync :: "planner_env \<Rightarrow> message \<Rightarrow> feedPlanner \<Rightarrow> feedPlanner" where
  "insert_sync env data p =
     (let prepared = prepareInsert env data (prepareInsertPosition env data p);
          p = (case rt_planner prepared of None \<Rightarrow> p | Some q \<Rightarrow> applyRoutinePlanningState (Some q) q)
      in if \<not> rt_ok prepared then p else queue_items env (rt_items prepared) p)"

section \<open>The tick\<close>

text \<open>The filling loop of \<open>tick\<close>. Every round appends one item, so \<open>env_maxQueued\<close> rounds are the most
  the guard admits: the loop is run with that much fuel and \<open>tick_loop_fuel\<close> shows it is enough.\<close>

fun tick_loop :: "planner_env \<Rightarrow> instant \<Rightarrow> duration \<Rightarrow> nat \<Rightarrow> feedPlanner \<Rightarrow> feedPlanner" where
  "tick_loop env now lookahead 0 p = p"
| "tick_loop env now lookahead (Suc fuel) p =
     (if queuedCount p < env_maxQueued env \<and> timelineEnd p now < now + lookahead then
        (case nextPlannedItem env now p of
           (p, None) \<Rightarrow> p
         | (p, Some item) \<Rightarrow>
             (case publishReady env item (p\<lparr>pl_queue := pl_queue p @ [item]\<rparr>) of
                (p, Some e) \<Rightarrow> p\<lparr>pl_lastError := e\<rparr>
              | (p, None) \<Rightarrow> tick_loop env now lookahead fuel p))
      else p)"

definition tick ::
  "planner_env \<Rightarrow> (nat \<Rightarrow> instant) \<Rightarrow> bool \<Rightarrow> instant \<Rightarrow> duration \<Rightarrow> feedPlanner \<Rightarrow> feedPlanner" where
  "tick env clocks ctxErr now lookahead p =
     (if \<not> env_routineEnabled env then p
      else if pl_mode p \<noteq> ''running'' then p
      else if pl_priorityActive p > 0 then p
      else if pl_startupPrimerPending p then
        (if now < pl_startupPrimerAt p then p
         else (queueStartupPrimer env clocks ctxErr now p)\<lparr>pl_startupPrimerPending := False\<rparr>)
      else
        tick_loop env now lookahead (env_maxQueued env)
          (replayPendingItemsIfDue env now (dropCompleted env p)))"

end
