(* ===== verification/Planner_Schedule.thy ===== *)
theory Planner_Schedule
  imports Feed_Planner
begin

text \<open>
  The schedule invariant of the planner: which parts of the state planning and publishing leave
  alone, that every operation keeps the scheduled items apart and the mode machine consistent,
  and the bound of the filling loop of \<open>tick\<close>.
\<close>

section \<open>What planning and publishing leave alone\<close>

lemma publishPlayoutControl_core [simp]: "core (publishPlayoutControl env action p) = core p"
  by (simp add: publishPlayoutControl_def Let_def split: option.splits)

lemma publishReady_core: "publishReady env item p = (q, r) \<Longrightarrow> core q = core p"
  by (auto simp: publishReady_def split: if_splits option.splits)

lemma publish_items_core [simp]: "core (publish_items env items p) = core p"
  by (induction items arbitrary: p) (auto dest!: publishReady_core split: prod.splits option.splits)

lemma replayItemsAt_core [simp]: "core (replayItemsAt env now includeCurrent p) = core p"
  by (simp add: replayItemsAt_def)

lemma replayPendingItemsIfDue_core [simp]: "core (replayPendingItemsIfDue env now p) = core p"
  by (simp add: replayPendingItemsIfDue_def)

lemma nextRoutinePackage_core: "nextRoutinePackage env p = (pkgID, q) \<Longrightarrow> core q = core p"
  by (auto simp: nextRoutinePackage_def split: prod.splits)

lemma advanceRoutineCursorPast_core [simp]: "core (advanceRoutineCursorPast env pkgID p) = core p"
  by (simp add: advanceRoutineCursorPast_def split: option.splits)

lemma take_fixed_core: "take_fixed env event tlEnd now p = (q, r) \<Longrightarrow> core q = core p"
  by (auto simp: take_fixed_def dest!: buildFixed_frame split: prod.splits sum.splits)

lemma take_fixed_placed: "take_fixed env event tlEnd now p = (q, Some item) \<Longrightarrow> placed tlEnd now item"
  by (auto simp: take_fixed_def dest!: buildFixed_placed split: prod.splits sum.splits)

lemma routine_attempts_core:
  "routine_attempts env fixed tlEnd now n pkgID failures p = (q, r) \<Longrightarrow> core q = core p"
proof (induction n arbitrary: pkgID failures p)
  case 0
  then show ?case by (auto simp: routine_unavailable_def Let_def)
next
  case (Suc n)
  obtain p1 res where built: "buildProduct env pkgID ''routine'' 0 tlEnd now p = (p1, res)"
    by (cases "buildProduct env pkgID ''routine'' 0 tlEnd now p")
  note frame = buildProduct_frame [OF built]
  show ?case
  proof (cases res)
    case (Inl e)
    then show ?thesis
      using Suc built frame
      by (auto simp: routine_unavailable_def Let_def dest!: nextRoutinePackage_core
          split: if_splits prod.splits)
  next
    case (Inr item)
    then show ?thesis
      using Suc built frame
      by (auto simp: routine_unavailable_def Let_def dest!: take_fixed_core split: if_splits option.splits)
  qed
qed

lemma routine_attempts_placed:
  "routine_attempts env fixed tlEnd now n pkgID failures p = (q, Some item) \<Longrightarrow> placed tlEnd now item"
  by (induction n arbitrary: pkgID failures p)
    (auto simp: Let_def dest!: buildProduct_placed take_fixed_placed
      split: if_splits prod.splits sum.splits option.splits)

lemma nextPlannedItem_core: "nextPlannedItem env now p = (q, r) \<Longrightarrow> core q = core p"
  by (auto simp: nextPlannedItem_def Let_def
      dest!: nextRoutinePackage_core take_fixed_core routine_attempts_core
      split: if_splits option.splits prod.splits)

lemma nextPlannedItem_placed:
  "nextPlannedItem env now p = (q, Some item) \<Longrightarrow> placed (timelineEnd p now) now item"
  by (auto simp: nextPlannedItem_def Let_def dest!: take_fixed_placed routine_attempts_placed
      split: if_splits option.splits prod.splits)

interpretation planned: item_source nextPlannedItem
  by unfold_locales (auto dest: nextPlannedItem_core nextPlannedItem_placed)

section \<open>The tick keeps the schedule\<close>

lemma dropCompleted_timeline: "timeline_ok p \<Longrightarrow> timeline_ok (dropCompleted env p)"
  by (auto simp: timeline_ok_def scheduled_def on_air_def dropCompleted_def schedule_ok_append
      schedule_ok_filter split: option.splits)

lemma tick_loop_timeline: "timeline_ok p \<Longrightarrow> timeline_ok (tick_loop env now lookahead fuel p)"
proof (induction fuel arbitrary: p)
  case (Suc fuel)
  obtain q r where plan: "nextPlannedItem env now p = (q, r)" by (cases "nextPlannedItem env now p")
  show ?case
  proof (cases r)
    case None
    then show ?thesis
      using Suc.prems plan core_timeline_ok [OF nextPlannedItem_core [OF plan]] by simp
  next
    case (Some item)
    let ?q = "q\<lparr>pl_queue := pl_queue q @ [item]\<rparr>"
    have ok: "timeline_ok ?q"
      using planned.queueing_keeps_timeline [OF Suc.prems] plan Some by simp
    obtain q' e where pub: "publishReady env item ?q = (q', e)" by (cases "publishReady env item ?q")
    then have "timeline_ok q'"
      using ok core_timeline_ok [OF publishReady_core [OF pub]] by simp
    moreover have "timeline_ok (q'\<lparr>pl_lastError := err\<rparr>) = timeline_ok q'" for err
      by (rule core_timeline_ok) simp
    ultimately show ?thesis
      using Suc plan Some pub by (auto split: option.splits)
  qed
qed simp

text \<open>Every round of the filling loop adds one item, so the loop never exceeds the limit, and a fuel
  of \<open>env_maxQueued\<close> gives the result of any larger fuel.\<close>

lemma tick_loop_bounded:
  "queuedCount (tick_loop env now lookahead fuel p) \<le> max (queuedCount p) (env_maxQueued env)"
proof (induction fuel arbitrary: p)
  case (Suc fuel)
  obtain q r where plan: "nextPlannedItem env now p = (q, r)" by (cases "nextPlannedItem env now p")
  have keep: "core x = core y \<Longrightarrow> queuedCount x = queuedCount y" for x y
    by (drule core_scheduled) (simp add: queuedCount_scheduled)
  show ?case
  proof (cases r)
    case None
    then show ?thesis using plan keep [OF nextPlannedItem_core [OF plan]] by simp
  next
    case (Some item)
    let ?q = "q\<lparr>pl_queue := pl_queue q @ [item]\<rparr>"
    have count: "queuedCount ?q = queuedCount p + 1"
      using planned.queueing_count plan Some by simp
    obtain q' e where pub: "publishReady env item ?q = (q', e)" by (cases "publishReady env item ?q")
    have "queuedCount q' = queuedCount p + 1"
      using count keep [OF publishReady_core [OF pub]] by simp
    moreover have "queuedCount (q'\<lparr>pl_lastError := err\<rparr>) = queuedCount q'" for err
      by (rule keep) simp
    ultimately show ?thesis
      using Suc.IH [of q'] plan Some pub by (auto split: option.splits)
  qed
qed simp

lemma tick_loop_fuel:
  "env_maxQueued env \<le> queuedCount p + fuel \<Longrightarrow>
   tick_loop env now lookahead (fuel + extra) p = tick_loop env now lookahead fuel p"
proof (induction fuel arbitrary: p)
  case 0
  then show ?case by (cases extra) auto
next
  case (Suc fuel)
  obtain q r where plan: "nextPlannedItem env now p = (q, r)" by (cases "nextPlannedItem env now p")
  show ?case
  proof (cases r)
    case None
    then show ?thesis using plan by simp
  next
    case (Some item)
    let ?q = "q\<lparr>pl_queue := pl_queue q @ [item]\<rparr>"
    have count: "queuedCount ?q = queuedCount p + 1"
      using planned.queueing_count plan Some by simp
    obtain q' e where pub: "publishReady env item ?q = (q', e)" by (cases "publishReady env item ?q")
    have "queuedCount q' = queuedCount p + 1"
      using count core_scheduled [OF publishReady_core [OF pub]] by (simp add: queuedCount_scheduled)
    with Suc have "tick_loop env now lookahead (fuel + extra) q' = tick_loop env now lookahead fuel q'"
      by simp
    then show ?thesis
      using plan Some pub by (auto split: option.splits)
  qed
qed

section \<open>The other operations keep the schedule\<close>

text \<open>A list of items that can follow the schedule one after the other.\<close>

fun chained :: "instant \<Rightarrow> playlistItem list \<Rightarrow> bool" where
  "chained tlEnd [] = True"
| "chained tlEnd (item # items) =
     (tlEnd \<le> it_predictedStartAt item \<and> forward item \<and> chained (it_predictedFinishAt item) items)"

lemma chained_mono: "chained e items \<Longrightarrow> e' \<le> e \<Longrightarrow> chained e' items"
  by (cases items) auto

lemma chained_snoc:
  "chained e (items @ [item]) \<longleftrightarrow>
   chained e items \<and>
   (if items = [] then e else it_predictedFinishAt (last items)) \<le> it_predictedStartAt item \<and> forward item"
  by (induction items arbitrary: e) auto

lemma timelineEnd_snoc:
  "timelineEnd (p\<lparr>pl_queue := pl_queue p @ [item]\<rparr>) now = later (timelineEnd p now) item"
  by (simp add: timelineEnd_def Let_def split: option.splits)

lemma queue_items_timeline:
  assumes "timeline_ok p" and "chained (timelineEnd p now) items"
  shows "timeline_ok (queue_items env items p)"
  using assms
proof (induction items arbitrary: p)
  case (Cons item items)
  let ?q = "p\<lparr>pl_queue := pl_queue p @ [item]\<rparr>"
  have start: "timelineEnd p now \<le> it_predictedStartAt item" and fwd: "forward item"
    using Cons.prems(2) by auto
  then have "placed (timelineEnd p now) now item"
    using timelineEnd_ge_now [of now p] by (simp add: placed_def)
  from timeline_ok_append [OF Cons.prems(1) this] have ok: "timeline_ok ?q" .
  obtain q' e where pub: "publishReady env item ?q = (q', e)" by (cases "publishReady env item ?q")
  note q' = publishReady_core [OF pub]
  have "timelineEnd q' now = it_predictedFinishAt item"
    using core_timelineEnd [OF q', of now] start fwd by (simp add: timelineEnd_snoc later_max forward_def)
  with Cons.prems have "chained (timelineEnd q' now) items" by simp
  moreover have "timeline_ok q'" using ok core_timeline_ok [OF q'] by simp
  moreover have "timeline_ok (q'\<lparr>pl_lastError := err\<rparr>) = timeline_ok q'" for err
    by (rule core_timeline_ok) simp
  ultimately show ?case
    using Cons.IH [of q'] pub by (auto split: option.splits)
qed simp

lemma queue_items_keeps:
  "core (queue_items env items p) =
     (pl_queue (queue_items env items p), pl_current p, pl_mode p, pl_modeBeforePriority p,
      pl_priorityActive p, pl_feedID p, pl_pendingAfterCurrent p, pl_startupPrimerPending p,
      pl_startupPrimerAt p)"
proof (induction items arbitrary: p)
  case (Cons item items)
  let ?q = "p\<lparr>pl_queue := pl_queue p @ [item]\<rparr>"
  obtain q' e where pub: "publishReady env item ?q = (q', e)" by (cases "publishReady env item ?q")
  note q' = core_fields [OF publishReady_core [OF pub]]
  show ?case
  proof (cases e)
    case None
    with Cons.IH [of q'] pub q' show ?thesis by simp
  next
    case (Some err)
    with pub q' show ?thesis by (simp add: core_def)
  qed
qed (simp add: core_def)

text \<open>A primer at a positive time has positive finishes, so each item is placed behind the last.\<close>

lemma startup_primer_loop_chained:
  assumes "startup_primer_loop env clocks ctxErr index pkgs tlEnd now items p = (q, items')"
    and "chained e items" and "0 < now" and "\<And>i. 0 < clocks i" and "e \<le> tlEnd"
    and "items \<noteq> [] \<Longrightarrow> tlEnd = it_predictedFinishAt (last items)"
  shows "chained e items' \<and> core q = core p"
  using assms
proof (induction pkgs arbitrary: index tlEnd now items p)
  case (Cons pkgID pkgs)
  show ?case
  proof (cases "ctxErr \<or> pl_mode p \<noteq> ''running'' \<or> pl_priorityActive p > 0")
    case True
    with Cons.prems show ?thesis by auto
  next
    case False
    obtain p1 res where built: "buildProduct env pkgID ''startup'' (primer_target index p) tlEnd now p = (p1, res)"
      by (cases "buildProduct env pkgID ''startup'' (primer_target index p) tlEnd now p")
    note frame = buildProduct_frame [OF built]
    show ?thesis
    proof (cases res)
      case (Inl err)
      let ?p = "if pkgID \<noteq> ''current_conditions'' then p1\<lparr>pl_lastError := err\<rparr> else p1"
      have "startup_primer_loop env clocks ctxErr (index + 1) pkgs tlEnd now items ?p = (q, items')"
        using Cons.prems(1) False built Inl by simp
      from Cons.IH [OF this Cons.prems(2-6)] show ?thesis
        using frame by (auto split: if_splits)
    next
      case (Inr item)
      from buildProduct_placed [OF built [unfolded Inr]]
      have at: "now \<le> it_predictedStartAt item" "tlEnd \<le> it_predictedStartAt item" "forward item"
        by (auto simp: placed_def)
      with \<open>0 < now\<close> have pos: "0 < it_predictedFinishAt item" by (simp add: forward_def)
      let ?p = "if pkgID = ''current_conditions'' then advanceRoutineCursorPast env pkgID p1 else p1"
      have run: "startup_primer_loop env clocks ctxErr (index + 1) pkgs (it_predictedFinishAt item)
              (clocks index) (items @ [item]) ?p = (q, items')"
        using Cons.prems(1) False built Inr pos by simp
      have ch: "chained e (items @ [item])"
        using Cons.prems(2,5,6) at by (auto simp: chained_snoc)
      have le: "e \<le> it_predictedFinishAt item"
        using Cons.prems(5) at by (simp add: forward_def)
      from Cons.IH [OF run ch Cons.prems(4) Cons.prems(4) le] show ?thesis
        using frame by (auto split: if_splits)
    qed
  qed
qed auto

lemma queueStartupPrimer_timeline:
  assumes "timeline_ok p" and "0 < now" and "\<And>i. 0 < clocks i"
  shows "timeline_ok (queueStartupPrimer env clocks ctxErr now p)"
proof -
  obtain q items where prep: "prepareStartupPrimer env clocks ctxErr now p = (q, items)"
    by (cases "prepareStartupPrimer env clocks ctxErr now p")
  then have "chained (timelineEnd p now) items \<and> core q = core p"
    unfolding prepareStartupPrimer_def
    by (rule startup_primer_loop_chained) (simp_all add: assms)
  then show ?thesis
    using prep assms(1) queue_items_timeline [of q now items env] core_timeline_ok [of q p]
      core_timelineEnd [of q p now]
    by (simp add: queueStartupPrimer_def)
qed

lemma tick_timeline:
  assumes "timeline_ok p" and "0 < now" and "\<And>i. 0 < clocks i"
  shows "timeline_ok (tick env clocks ctxErr now lookahead p)"
proof -
  have "timeline_ok (r\<lparr>pl_startupPrimerPending := b\<rparr>) = timeline_ok r" for r b
    by (simp add: timeline_ok_def scheduled_def on_air_def)
  moreover have "timeline_ok (replayPendingItemsIfDue env now (dropCompleted env p))"
    using dropCompleted_timeline [OF assms(1)] core_timeline_ok [OF replayPendingItemsIfDue_core] by blast
  ultimately show ?thesis
    using queueStartupPrimer_timeline [OF assms] tick_loop_timeline assms(1) by (auto simp: tick_def)
qed

lemma insert_item_frame: "insert_item env data kind now p = (q, r) \<Longrightarrow> core q = core p"
  by (auto simp: insert_item_def dest: buildProduct_frame buildTextItem_frame buildAudioItem_frame
      split: if_splits)

lemma insert_item_placed:
  "insert_item env data kind now p = (q, Inr item) \<Longrightarrow> placed (timelineEnd p now) now item"
  by (auto simp: insert_item_def dest: buildProduct_placed buildTextItem_frame buildAudioItem_frame
      split: if_splits)

interpretation inserted: item_source "\<lambda>env now p. built (insert_item env data kind now p)" for data kind
  by (rule item_source_builtI) (auto dest: insert_item_frame insert_item_placed)

lemma timeline_ok_flush [simp]: "timeline_ok p \<Longrightarrow> timeline_ok (p\<lparr>pl_queue := []\<rparr>)"
  by (auto simp: timeline_ok_def scheduled_def on_air_def schedule_ok_append split: option.splits)

lemma prepareInsertPosition_timeline: "timeline_ok p \<Longrightarrow> timeline_ok (prepareInsertPosition env data p)"
  using core_timeline_ok [of "(p\<lparr>pl_queue := []\<rparr>)\<lparr>pl_events := es\<rparr>" "p\<lparr>pl_queue := []\<rparr>" for es]
  by (auto simp: prepareInsertPosition_def Let_def)

lemma applyRoutinePlanningState_core [simp]: "core (applyRoutinePlanningState prepared p) = core p"
  by (simp add: applyRoutinePlanningState_def split: option.splits)

lemma insert_sync_timeline:
  assumes "timeline_ok p"
  shows "timeline_ok (insert_sync env data p)"
proof -
  let ?p = "prepareInsertPosition env data p"
  let ?kind = "toLower (firstText [] data [''kind''])"
  note ok = prepareInsertPosition_timeline [OF assms, of env data]
  obtain q r where ins: "insert_item env data ?kind (env_clock env) ?p = (q, r)"
    by (cases "insert_item env data ?kind (env_clock env) ?p")
  note q = insert_item_frame [OF ins]
  have "timeline_ok (queue_items env [item] (applyRoutinePlanningState (Some q) q))" if "r = Inr item" for item
  proof (rule queue_items_timeline)
    show "timeline_ok (applyRoutinePlanningState (Some q) q)"
      using ok core_timeline_ok [OF q] core_timeline_ok [OF applyRoutinePlanningState_core] by blast
    have "placed (timelineEnd ?p (env_clock env)) (env_clock env) item"
      using insert_item_placed ins that by blast
    then show "chained (timelineEnd (applyRoutinePlanningState (Some q) q) (env_clock env)) [item]"
      using core_timelineEnd [OF q, of "env_clock env"]
        core_timelineEnd [OF applyRoutinePlanningState_core, of "Some q" q "env_clock env"]
      by (simp add: placed_def)
  qed
  moreover have "timeline_ok (applyRoutinePlanningState (Some (x\<lparr>pl_lastError := e\<rparr>)) (x\<lparr>pl_lastError := e\<rparr>))
      = timeline_ok x" for x e
    by (rule core_timeline_ok) simp
  moreover have "timeline_ok q" using ok core_timeline_ok [OF q] by blast
  ultimately show ?thesis
    using ins ok by (auto simp: insert_sync_def prepareInsert_def Let_def split: sum.splits)
qed

lemma take_item_split:
  "take_item qid items = Some (found, rest) \<Longrightarrow>
   \<exists>before after. items = before @ found # after \<and> rest = before @ after \<and> it_queueID found = qid \<and>
     (\<forall>item\<in>set before. it_queueID item \<noteq> qid)"
proof (induction items arbitrary: rest)
  case (Cons item items)
  show ?case
  proof (cases "it_queueID item = qid")
    case True
    with Cons.prems show ?thesis by (intro exI [of _ "[]"] exI [of _ items]) auto
  next
    case False
    with Cons.prems obtain rest' where "take_item qid items = Some (found, rest')" and "rest = item # rest'"
      by auto
    with Cons.IH [of rest'] False show ?thesis
      by (metis append_Cons set_ConsD)
  qed
qed simp

lemma take_item_None: "take_item qid items = None \<longleftrightarrow> (\<forall>item\<in>set items. it_queueID item \<noteq> qid)"
  by (induction items) auto

lemmas timeline_unfold = timeline_ok_def scheduled_def on_air_def schedule_ok_append schedule_ok_Cons

lemma applyControl_timeline: "timeline_ok p \<Longrightarrow> timeline_ok (applyControl raw p)"
  by (auto simp: applyControl_def Let_def timeline_unfold split: option.splits)

lemma markStarted_timeline:
  assumes "timeline_ok p"
  shows "timeline_ok (markStarted qid p)"
proof -
  have "timeline_ok (p\<lparr>pl_current := Some (found\<lparr>it_status := s\<rparr>), pl_queue := rest\<rparr>)"
    if "take_item qid (pl_queue p) = Some (found, rest)" for found rest s
  proof -
    from take_item_split [OF that] obtain before after
      where "pl_queue p = before @ found # after" "rest = before @ after" by blast
    with assms show ?thesis by (auto simp: timeline_unfold apart_sym split: option.splits)
  qed
  moreover have "timeline_ok (p\<lparr>pl_current := Some (item\<lparr>it_status := s\<rparr>)\<rparr>)" if "pl_current p = Some item" for item s
    using assms that by (simp add: timeline_unfold)
  ultimately show ?thesis
    using assms by (auto simp: markStarted_def split: option.splits prod.splits)
qed

lemma markInterrupted_timeline: "timeline_ok p \<Longrightarrow> timeline_ok (markInterrupted qid p)"
  by (auto simp: markInterrupted_def timeline_unfold split: option.splits)

lemma markCompleted_timeline: "timeline_ok p \<Longrightarrow> timeline_ok (markCompleted qid p)"
  by (auto simp: markCompleted_def Let_def timeline_unfold split: option.splits)

lemmas publishPlayoutControl_fields [simp] = core_fields [OF publishPlayoutControl_core]

lemma invalidateRoutineAlerts_timeline:
  "timeline_ok p \<Longrightarrow> timeline_ok (invalidateRoutineAlerts env stopCurrent p)"
  by (auto simp: invalidateRoutineAlerts_def Let_def timeline_unfold schedule_ok_filter split: option.splits)

lemma priority_timeline:
  "timeline_ok (markPriorityStarted env p) = timeline_ok p"
  "timeline_ok (markPriorityCompleted env p) = timeline_ok p"
  by (simp_all add: timeline_ok_def scheduled_def on_air_def markPriorityStarted_def
      markPriorityCompleted_def Let_def)

section \<open>The planner as a state machine\<close>

text \<open>
  One step of the planner of a feed: the handlers of \<open>handleEvent\<close> and the tick, each with its own
  environment. The clock readings are after the zero time.
\<close>

inductive planner_step :: "feedPlanner \<Rightarrow> feedPlanner \<Rightarrow> bool" where
  control: "planner_step p (applyControl action p)"
| insert: "planner_step p (insert_sync env data p)"
| alert_started: "planner_step p (markPriorityStarted env p)"
| alert_completed: "planner_step p (markPriorityCompleted env p)"
| started: "planner_step p (markStarted qid p)"
| interrupted: "planner_step p (markInterrupted qid p)"
| completed: "planner_step p (markCompleted qid p)"
| registry: "planner_step p (invalidateRoutineAlerts env stopCurrent p)"
| playout_ready: "planner_step p (replayItemsAt env now True p)"
| ticked: "0 < now \<Longrightarrow> (\<And>i. 0 < clocks i) \<Longrightarrow>
    planner_step p (tick env clocks ctxErr now lookahead p)"

inductive planner_reachable :: "feedPlanner \<Rightarrow> bool" where
  init: "planner_reachable (newFeedPlanner feedID env)"
| step: "planner_reachable p \<Longrightarrow> planner_step p q \<Longrightarrow> planner_reachable q"

text \<open>The mode machine: \<open>priority\<close> is the mode only while an alert is on air, and the mode to return to is
  never \<open>priority\<close>.\<close>

definition mode_ok :: "feedPlanner \<Rightarrow> bool" where
  "mode_ok p \<longleftrightarrow>
     pl_mode p \<in> {''running'', ''paused'', ''stopped'', ''priority''} \<and>
     (pl_mode p = ''priority'' \<longrightarrow> pl_priorityActive p > 0) \<and>
     pl_modeBeforePriority p \<in> {[], ''running'', ''paused'', ''stopped''}"

lemma core_mode_ok: "core q = core p \<Longrightarrow> mode_ok q = mode_ok p"
  by (simp add: mode_ok_def core_def)

lemma trim_modes [simp]:
  "trimSpace ''running'' = ''running''" "trimSpace ''paused'' = ''paused''" "trimSpace ''stopped'' = ''stopped''"
  by code_simp+

lemma fallbackText_modes:
  "m \<in> {[], ''running'', ''paused'', ''stopped''} \<Longrightarrow>
   fallbackText m ''running'' = (if m = [] then ''running'' else m)"
  by (auto simp: fallbackText_def)

lemma startup_frame:
  assumes "prepareStartupPrimer env clocks ctxErr now p = (q, items)" and "0 < now" and "\<And>i. 0 < clocks i"
  shows "core q = core p"
  using startup_primer_loop_chained [of env clocks ctxErr 0 _ "timelineEnd p now" now "[]" p q items "timelineEnd p now"]
    assms by (auto simp: prepareStartupPrimer_def simp del: startup_primer_loop.simps)

lemma queue_items_mode: "mode_ok (queue_items env items p) = mode_ok p"
  using queue_items_keeps [of env items p]
  by (simp add: mode_ok_def core_def)

lemma tick_loop_mode: "mode_ok (tick_loop env now lookahead fuel p) = mode_ok p"
proof (induction fuel arbitrary: p)
  case (Suc fuel)
  obtain q r where plan: "nextPlannedItem env now p = (q, r)" by (cases "nextPlannedItem env now p")
  note q = core_mode_ok [OF nextPlannedItem_core [OF plan]]
  have upd: "mode_ok (x\<lparr>pl_queue := y\<rparr>) = mode_ok x" "mode_ok (x\<lparr>pl_lastError := e\<rparr>) = mode_ok x" for x y e
    by (simp_all add: mode_ok_def)
  show ?case
  proof (cases r)
    case None
    with plan q show ?thesis by simp
  next
    case (Some item)
    obtain q' e where pub: "publishReady env item (q\<lparr>pl_queue := pl_queue q @ [item]\<rparr>) = (q', e)"
      by (cases "publishReady env item (q\<lparr>pl_queue := pl_queue q @ [item]\<rparr>)")
    note q' = core_mode_ok [OF publishReady_core [OF pub]]
    show ?thesis
      using Suc.IH [of q'] plan Some pub q q' upd by (auto split: option.splits)
  qed
qed simp

lemma tick_mode:
  assumes "0 < now" and "\<And>i. 0 < clocks i"
  shows "mode_ok (tick env clocks ctxErr now lookahead p) = mode_ok p"
proof -
  have upd: "mode_ok (x\<lparr>pl_startupPrimerPending := b\<rparr>) = mode_ok x" for x b
    by (simp add: mode_ok_def)
  obtain q items where prep: "prepareStartupPrimer env clocks ctxErr now p = (q, items)"
    by (cases "prepareStartupPrimer env clocks ctxErr now p")
  have "mode_ok (queueStartupPrimer env clocks ctxErr now p) = mode_ok p"
    using prep core_mode_ok [OF startup_frame [OF prep assms]]
    by (simp add: queueStartupPrimer_def queue_items_mode)
  moreover have "mode_ok (replayPendingItemsIfDue env now (dropCompleted env p)) = mode_ok (dropCompleted env p)"
    by (rule core_mode_ok) simp
  moreover have "mode_ok (dropCompleted env p) = mode_ok p" by (simp add: dropCompleted_def mode_ok_def)
  ultimately show ?thesis by (simp add: tick_def upd tick_loop_mode)
qed

lemma insert_sync_mode: "mode_ok (insert_sync env data p) = mode_ok p"
proof -
  let ?p = "prepareInsertPosition env data p"
  let ?kind = "toLower (firstText [] data [''kind''])"
  have p: "mode_ok ?p = mode_ok p" by (simp add: prepareInsertPosition_def mode_ok_def Let_def)
  obtain q r where ins: "insert_item env data ?kind (env_clock env) ?p = (q, r)"
    by (cases "insert_item env data ?kind (env_clock env) ?p")
  note q = core_mode_ok [OF insert_item_frame [OF ins]]
  have upd: "mode_ok (applyRoutinePlanningState x y) = mode_ok y" "mode_ok (y\<lparr>pl_lastError := e\<rparr>) = mode_ok y" for x y e
    by (rule core_mode_ok, simp)+
  show ?thesis
    using ins p q
    by (auto simp: insert_sync_def prepareInsert_def Let_def upd queue_items_mode split: sum.splits)
qed

lemma publishPlayoutControl_mode [simp]: "mode_ok (publishPlayoutControl env action p) = mode_ok p"
  by (rule core_mode_ok) simp

lemma control_mode:
  "mode_ok p \<Longrightarrow> mode_ok (applyControl raw p)"
  "mode_ok p \<Longrightarrow> mode_ok (markStarted qid p)"
  "mode_ok p \<Longrightarrow> mode_ok (markInterrupted qid p)"
  "mode_ok p \<Longrightarrow> mode_ok (markCompleted qid p)"
  "mode_ok p \<Longrightarrow> mode_ok (invalidateRoutineAlerts env stopCurrent p)"
  by (auto simp: mode_ok_def applyControl_def markStarted_def markInterrupted_def markCompleted_def
      invalidateRoutineAlerts_def Let_def split: option.splits prod.splits)

lemma priority_mode:
  assumes "mode_ok p"
  shows "mode_ok (markPriorityStarted env p)" and "mode_ok (markPriorityCompleted env p)"
proof -
  show "mode_ok (markPriorityStarted env p)"
    using assms by (auto simp: mode_ok_def markPriorityStarted_def Let_def)
  have "pl_modeBeforePriority p \<in> {[], ''running'', ''paused'', ''stopped''}"
    using assms by (simp add: mode_ok_def)
  note fb = fallbackText_modes [OF this]
  show "mode_ok (markPriorityCompleted env p)"
    using assms by (auto simp: mode_ok_def markPriorityCompleted_def Let_def fb)
qed

lemma planner_step_invariant:
  assumes "planner_step p q" and "timeline_ok p" and "mode_ok p"
  shows "timeline_ok q \<and> mode_ok q"
  using assms
proof (cases rule: planner_step.cases)
  case (playout_ready env now)
  have "core q = core p" unfolding playout_ready by simp
  with assms(2,3) show ?thesis by (auto dest: core_timeline_ok core_mode_ok)
qed (simp_all add: applyControl_timeline insert_sync_timeline priority_timeline markStarted_timeline
    markInterrupted_timeline markCompleted_timeline invalidateRoutineAlerts_timeline tick_timeline
    insert_sync_mode tick_mode control_mode priority_mode)

text \<open>A planner that is driven alone, with the synchronous tick and insert that are used when no preparations are
  configured: in every reachable state no two items of the schedule (the item on air and the
  queue) overlap and no item ends before it starts; the mode is \<open>priority\<close> only while an alert is
  on air, and the mode to return to is never \<open>priority\<close>.\<close>

theorem planner_invariant:
  assumes "planner_reachable p"
  shows "timeline_ok p \<and> mode_ok p"
  using assms
proof (induction rule: planner_reachable.induct)
  case (init feedID env)
  show ?case by (simp add: newFeedPlanner_def timeline_ok_def scheduled_def on_air_def mode_ok_def)
next
  case (step p q)
  then show ?case using planner_step_invariant by blast
qed

definition sample_insert :: message where
  "sample_insert = [(''audio_path'', StrV ''jingle.wav''), (''kind'', StrV ''audio'')]"

definition sample_queue :: feedPlanner where
  "sample_queue = insert_sync sample_env sample_insert (insert_sync sample_env sample_insert
     (newFeedPlanner ''feed'' sample_env))"

theorem planner_invariant_witness:
  "planner_reachable sample_queue \<and>
   map it_predictedStartAt (pl_queue sample_queue) = [1000 * second, 1002 * second] \<and>
   timeline_ok sample_queue \<and> mode_ok sample_queue"
proof -
  have "planner_reachable sample_queue"
    unfolding sample_queue_def by (rule planner_reachable.step [OF planner_reachable.step [OF planner_reachable.init]])
      (rule planner_step.insert)+
  moreover have "map it_predictedStartAt (pl_queue sample_queue) = [1000 * second, 1002 * second]"
    unfolding sample_queue_def by code_simp
  ultimately show ?thesis using planner_invariant by blast
qed

text \<open>The synchronous tick never queues more than \<open>max_queued\<close> items (what was queued before stays), but for the
  three items of a startup primer, and the filling loop ends by itself: more rounds than \<open>max_queued\<close>
  change nothing.\<close>

lemma queue_items_count: "queuedCount (queue_items env items p) \<le> queuedCount p + length items"
proof (induction items arbitrary: p)
  case (Cons item items)
  let ?q = "p\<lparr>pl_queue := pl_queue p @ [item]\<rparr>"
  obtain q e where pub: "publishReady env item ?q = (q, e)" by (cases "publishReady env item ?q")
  have "queuedCount q = queuedCount p + 1"
    using core_scheduled [OF publishReady_core [OF pub]]
    by (simp add: queuedCount_scheduled) (simp add: scheduled_def on_air_def)
  moreover have "queuedCount (q\<lparr>pl_lastError := err\<rparr>) = queuedCount q" for err
    by (simp add: queuedCount_def)
  ultimately show ?case using Cons.IH [of q] pub by (auto split: option.splits)
qed simp

lemma startup_primer_count:
  "startup_primer_loop env clocks ctxErr index pkgs tlEnd now items p = (q, items') \<Longrightarrow>
   length items' \<le> length items + length pkgs \<and> queuedCount q = queuedCount p"
proof (induction pkgs arbitrary: ctxErr index tlEnd now items p)
  case (Cons pkgID pkgs)
  obtain p1 res where built: "buildProduct env pkgID ''startup'' (primer_target index p) tlEnd now p = (p1, res)"
    by (cases "buildProduct env pkgID ''startup'' (primer_target index p) tlEnd now p")
  have same: "core x = core y \<Longrightarrow> queuedCount x = queuedCount y" for x y
    by (drule core_scheduled) (simp add: queuedCount_scheduled)
  note p1 = same [OF buildProduct_frame [OF built]]
  have upd: "queuedCount (p1\<lparr>pl_lastError := e\<rparr>) = queuedCount p1"
    "queuedCount (advanceRoutineCursorPast env pkgID p1) = queuedCount p1" for e
    by (rule same, simp)+
  show ?case
    using Cons.prems built p1 upd by (auto split: if_splits sum.splits dest!: Cons.IH)
qed simp

theorem tick_queue_bounded:
  "queuedCount (tick env clocks ctxErr now lookahead p) \<le>
     (if pl_startupPrimerPending p then queuedCount p + 3 else max (queuedCount p) (env_maxQueued env)) \<and>
   tick_loop env now lookahead (env_maxQueued env + extra) p = tick_loop env now lookahead (env_maxQueued env) p"
proof
  let ?q = "replayPendingItemsIfDue env now (dropCompleted env p)"
  have "queuedCount ?q = queuedCount (dropCompleted env p)"
    using core_scheduled [OF replayPendingItemsIfDue_core] by (simp add: queuedCount_scheduled)
  also have "\<dots> \<le> queuedCount p"
    by (simp add: queuedCount_def dropCompleted_def)
  finally have "queuedCount (tick_loop env now lookahead (env_maxQueued env) ?q) \<le> max (queuedCount p) (env_maxQueued env)"
    using tick_loop_bounded [of env now lookahead "env_maxQueued env" ?q] by linarith
  moreover obtain q items where prep: "prepareStartupPrimer env clocks ctxErr now p = (q, items)"
    by (cases "prepareStartupPrimer env clocks ctxErr now p")
  from startup_primer_count [OF this [unfolded prepareStartupPrimer_def]] queue_items_count [of env items q]
  have "queuedCount (queueStartupPrimer env clocks ctxErr now p) \<le> queuedCount p + 3"
    by (simp add: queueStartupPrimer_def prep)
  moreover have "queuedCount (r\<lparr>pl_startupPrimerPending := b\<rparr>) = queuedCount r" for r b
    by (simp add: queuedCount_def)
  ultimately show "queuedCount (tick env clocks ctxErr now lookahead p) \<le>
     (if pl_startupPrimerPending p then queuedCount p + 3 else max (queuedCount p) (env_maxQueued env))"
    by (auto simp: tick_def)
  show "tick_loop env now lookahead (env_maxQueued env + extra) p = tick_loop env now lookahead (env_maxQueued env) p"
    by (rule tick_loop_fuel) simp
qed

end
