(* ===== verification/Planner_Rules.thy ===== *)
theory Planner_Rules
  imports Planner_Schedule
begin

text \<open>
  Functional properties of the planner: how alerts pause and resume the routine programme, the
  choice of fixed events, and the routine rotation.
\<close>

section \<open>Alerts pause and resume the routine once\<close>

text \<open>A run of alert events: \<open>True\<close> for \<open>alert.playout.started\<close>, \<open>False\<close> for \<open>alert.playout.completed\<close>.\<close>

fun alert_run :: "planner_env \<Rightarrow> bool list \<Rightarrow> feedPlanner \<Rightarrow> feedPlanner" where
  "alert_run env [] p = p"
| "alert_run env (start # rest) p =
     alert_run env rest (if start then markPriorityStarted env p else markPriorityCompleted env p)"

text \<open>\<open>overlapping d w\<close>: with \<open>d\<close> alerts on air, \<open>w\<close> keeps at least one on air until its last event ends the
  last one.\<close>

fun overlapping :: "nat \<Rightarrow> bool list \<Rightarrow> bool" where
  "overlapping d [] = False"
| "overlapping d (True # rest) = overlapping (d + 1) rest"
| "overlapping d (False # rest) = (if d = 1 then rest = [] else d > 1 \<and> overlapping (d - 1) rest)"

lemma markPriorityStarted_nested:
  "pl_priorityActive p > 0 \<Longrightarrow>
   markPriorityStarted env p = p\<lparr>pl_priorityActive := pl_priorityActive p + 1, pl_mode := ''priority''\<rparr>"
  by (simp add: markPriorityStarted_def)

lemma markPriorityCompleted_nested:
  "d > 1 \<Longrightarrow> markPriorityCompleted env (p\<lparr>pl_priorityActive := d, pl_mode := m\<rparr>) =
   p\<lparr>pl_priorityActive := d - 1, pl_mode := m\<rparr>"
  by (cases p) (simp add: markPriorityCompleted_def Let_def)

lemma alert_run_overlapping:
  assumes "overlapping d w" and "d > 0"
  shows "alert_run env w (p\<lparr>pl_priorityActive := d, pl_mode := ''priority''\<rparr>) =
         markPriorityCompleted env (p\<lparr>pl_priorityActive := 1, pl_mode := ''priority''\<rparr>)"
  using assms
proof (induction w arbitrary: d)
  case (Cons start w)
  show ?case
  proof (cases start)
    case True
    with Cons.prems Cons.IH [of "d + 1"] show ?thesis
      by (simp add: markPriorityStarted_nested)
  next
    case False
    show ?thesis
    proof (cases "d = 1")
      case True
      with False Cons.prems show ?thesis by simp
    next
      case neq: False
      with neq False Cons.prems Cons.IH [of "d - 1"] show ?thesis
        by (simp add: markPriorityCompleted_nested)
    qed
  qed
qed simp

text \<open>C29: however alerts overlap, the routine programme is paused once when the first one starts and
  resumed once when the last one ends, and only if it was running before; everything else of
  the planner is as before.\<close>

theorem alerts_pause_and_resume_once:
  assumes "pl_priorityActive p = 0" and "pl_mode p \<in> {''running'', ''paused'', ''stopped''}"
    and "overlapping 1 w" and "env_bridge env" and "\<And>ev. env_publish env ev = None"
  shows "alert_run env (True # w) p =
         p\<lparr>pl_modeBeforePriority := [],
           pl_events := pl_events p @ PlaylistControl (pl_feedID p) ''pause'' #
             (if pl_mode p = ''running'' then [PlaylistControl (pl_feedID p) ''resume''] else [])\<rparr>"
proof -
  let ?p = "p\<lparr>pl_modeBeforePriority := pl_mode p,
               pl_events := pl_events p @ [PlaylistControl (pl_feedID p) ''pause'']\<rparr>"
  have "markPriorityStarted env p = ?p\<lparr>pl_priorityActive := 1, pl_mode := ''priority''\<rparr>"
    using assms(1,4,5) by (simp add: markPriorityStarted_def publishPlayoutControl_def)
  then have "alert_run env (True # w) p =
      markPriorityCompleted env (?p\<lparr>pl_priorityActive := 1, pl_mode := ''priority''\<rparr>)"
    using alert_run_overlapping [OF assms(3), of env ?p] by simp
  also have "\<dots> = p\<lparr>pl_modeBeforePriority := [],
           pl_events := pl_events p @ PlaylistControl (pl_feedID p) ''pause'' #
             (if pl_mode p = ''running'' then [PlaylistControl (pl_feedID p) ''resume''] else [])\<rparr>"
    using assms fallbackText_modes [of "pl_mode p"]
    by (cases p) (auto simp: markPriorityCompleted_def Let_def publishPlayoutControl_def)
  finally show ?thesis .
qed

theorem alerts_pause_and_resume_once_witness:
  "pl_events (alert_run sample_env [True, True, False, True, False, False] (newFeedPlanner ''feed'' sample_env)) =
     [PlaylistControl ''feed'' ''pause'', PlaylistControl ''feed'' ''resume'']"
proof -
  have "overlapping 1 [True, False, True, False, False]" by code_simp
  from alerts_pause_and_resume_once [OF _ _ this, of "newFeedPlanner ''feed'' sample_env" sample_env]
  show ?thesis by (simp add: newFeedPlanner_def sample_env_def del: alert_run.simps)
qed

text \<open>C39: an \<open>alert.playout.completed\<close> event without a matching start (a start that was never delivered, or a
  service restart in between) resumes a feed the operator has paused or stopped.\<close>

theorem stray_completion_resumes:
  assumes "pl_priorityActive p = 0" and "pl_modeBeforePriority p = []"
    and "env_bridge env" and "\<And>ev. env_publish env ev = None"
  shows "pl_mode (markPriorityCompleted env p) = ''running'' \<and>
     pl_events (markPriorityCompleted env p) = pl_events p @ [PlaylistControl (pl_feedID p) ''resume'']"
  using assms
  by (simp add: markPriorityCompleted_def Let_def publishPlayoutControl_def fallbackText_modes)

theorem stray_completion_resumes_witness:
  "pl_mode (markPriorityCompleted sample_env (applyControl ''pause'' (newFeedPlanner ''feed'' sample_env))) = ''running''"
proof -
  have "toLower (trimSpace ''pause'') = ''pause''" by code_simp
  then have "pl_priorityActive (applyControl ''pause'' (newFeedPlanner ''feed'' sample_env)) = 0"
    and "pl_modeBeforePriority (applyControl ''pause'' (newFeedPlanner ''feed'' sample_env)) = []"
    by (simp_all add: applyControl_def newFeedPlanner_def)
  from stray_completion_resumes [OF this, of sample_env] show ?thesis by (simp add: sample_env_def)
qed

text \<open>An operator control during an alert does not survive it, not even \<open>flush_stop\<close>: the end of the
  alert puts the feed back into the mode it had before the alert.\<close>

theorem operator_control_during_alert_lost:
  assumes "pl_priorityActive p = 0" and "pl_mode p = ''running''"
  shows "pl_mode (markPriorityCompleted env (applyControl action (markPriorityStarted env p))) = ''running''"
  using assms
  by (auto simp: markPriorityStarted_def markPriorityCompleted_def applyControl_def Let_def fallbackText_modes)

theorem operator_control_during_alert_lost_witness:
  "pl_mode (applyControl ''flush_stop'' (markPriorityStarted sample_env (newFeedPlanner ''feed'' sample_env))) = ''stopped'' \<and>
   pl_mode (markPriorityCompleted sample_env (applyControl ''flush_stop''
     (markPriorityStarted sample_env (newFeedPlanner ''feed'' sample_env)))) = ''running''"
proof -
  have "toLower (trimSpace ''flush_stop'') = ''flush_stop''" by code_simp
  moreover from operator_control_during_alert_lost [of "newFeedPlanner ''feed'' sample_env" sample_env "''flush_stop''"]
  have "pl_mode (markPriorityCompleted sample_env (applyControl ''flush_stop''
     (markPriorityStarted sample_env (newFeedPlanner ''feed'' sample_env)))) = ''running''"
    by (simp add: newFeedPlanner_def)
  ultimately show ?thesis by (simp add: applyControl_def Let_def)
qed

section \<open>Fixed events\<close>

lemma minuteTarget_loop_ge: "from \<le> minuteTarget_loop base from \<and> base \<le> minuteTarget_loop base from"
proof (induction base "from" rule: minuteTarget_loop.induct)
  case (1 base "from")
  show ?case
  proof (cases "base < from")
    case True
    then have "minuteTarget_loop base from = minuteTarget_loop (base + 60 * minute) from"
      by (subst minuteTarget_loop.simps) simp
    with 1 [OF True] show ?thesis by (simp add: minute_def second_def)
  next
    case False
    then have "minuteTarget_loop base from = base" by (subst minuteTarget_loop.simps) simp
    with False show ?thesis by simp
  qed
qed

lemma minuteTarget_loop_least:
  "minuteTarget_loop base from = base \<or> minuteTarget_loop base from < from + 60 * minute"
proof (induction base "from" rule: minuteTarget_loop.induct)
  case (1 base "from")
  show ?case
  proof (cases "base < from")
    case True
    then have "minuteTarget_loop base from = minuteTarget_loop (base + 60 * minute) from"
      by (subst minuteTarget_loop.simps) simp
    with 1 [OF True] True show ?thesis by auto
  next
    case False
    then show ?thesis by (subst minuteTarget_loop.simps) simp
  qed
qed

lemma minuteTarget_loop_mod:
  "minuteTarget_loop base from mod (60 * minute) = base mod (60 * minute)"
proof (induction base "from" rule: minuteTarget_loop.induct)
  case (1 base "from")
  show ?case
  proof (cases "base < from")
    case True
    then have "minuteTarget_loop base from = minuteTarget_loop (base + 60 * minute) from"
      by (subst minuteTarget_loop.simps) simp
    with 1 [OF True] show ?thesis by simp
  next
    case False
    then show ?thesis by (subst minuteTarget_loop.simps) simp
  qed
qed

text \<open>\<open>minuteTarget\<close> finds the next instant at the given minute of an hour: not before \<open>from\<close>, within the
  window, whole hours after minute \<open>m\<close> of the current hour, and the first such instant; it fails
  only if that first instant is outside the window.\<close>

theorem minuteTarget_next:
  assumes "env_hourStart env from \<le> from" and "from < env_hourStart env from + 60 * minute" and "0 \<le> m" and "m < 60"
  shows "\<exists>t. from \<le> t \<and> t < from + 60 * minute \<and>
     t mod (60 * minute) = (env_hourStart env from + m * minute) mod (60 * minute) \<and>
     minuteTarget env from until m = (if t > until then None else Some t)"
proof -
  let ?base = "env_hourStart env from + m * minute"
  have "m * minute < 60 * minute" using assms(4) by (simp add: minute_def second_def)
  then have "?base < from + 60 * minute" using assms(1) by simp
  with minuteTarget_loop_least [of ?base "from"] have "minuteTarget_loop ?base from < from + 60 * minute" by auto
  with minuteTarget_loop_ge [of "from" ?base] minuteTarget_loop_mod [of ?base "from"] show ?thesis
    by (intro exI [of _ "minuteTarget_loop ?base from"]) (simp add: minuteTarget_def Let_def)
qed

theorem minuteTarget_next_witness:
  "\<exists>t. 59 * minute \<le> t \<and> t < 59 * minute + 60 * minute \<and> t mod (60 * minute) = 30 * minute \<and>
     minuteTarget sample_env (59 * minute) (62 * minute) 30 = (if t > 62 * minute then None else Some t)"
  using minuteTarget_next [of sample_env "59 * minute" 30 "62 * minute"]
  by (simp add: sample_env_def minute_def second_def)

definition due :: "feedPlanner \<Rightarrow> instant \<Rightarrow> fixedEvent \<Rightarrow> bool" where
  "due p now event \<longleftrightarrow>
     pl_lastFixed p (fixedEventKey event) \<noteq> Some (fx_target event) \<and> now - 2 * second < fx_target event"

lemma better_fixed_not_due: "\<not> due p now c \<Longrightarrow> better_fixed p now best c = best"
  by (auto simp: better_fixed_def due_def)

lemma better_fixed_due:
  assumes "due p now c" and "2 * second \<le> now"
    and "pred_option (due p now) best"
  shows "better_fixed p now best c =
    (case best of None \<Rightarrow> Some c | Some b \<Rightarrow> if fx_target c < fx_target b then Some c else Some b)"
  using assms by (cases best) (auto simp: better_fixed_def due_def)

lemma better_fixed_fold:
  assumes "2 * second \<le> now" and "pred_option (due p now) best"
  shows "case foldl (better_fixed p now) best events of
      None \<Rightarrow> best = None \<and> (\<forall>c\<in>set events. \<not> due p now c)
    | Some e \<Rightarrow> (best = Some e \<or> e \<in> set events) \<and> due p now e \<and>
        (\<forall>c\<in>set events. due p now c \<longrightarrow> fx_target e \<le> fx_target c) \<and>
        (\<forall>b. best = Some b \<longrightarrow> fx_target e \<le> fx_target b)"
  using assms(2)
proof (induction events arbitrary: best)
  case Nil
  then show ?case by (cases best) auto
next
  case (Cons c events)
  show ?case
  proof (cases "due p now c")
    case False
    then show ?thesis
      using Cons.IH [OF Cons.prems] by (auto simp: better_fixed_not_due split: option.splits)
  next
    case True
    note step = better_fixed_due [OF True assms(1) Cons.prems]
    have "pred_option (due p now) (better_fixed p now best c)"
      using step True Cons.prems by (auto split: option.splits)
    from Cons.IH [OF this] show ?thesis
      using step True by (cases best) (auto split: option.splits if_splits)
  qed
qed

text \<open>\<open>nextFixedEvent\<close> returns an earliest event of the window that has not been scheduled yet, and
  nothing only when all are scheduled or past.\<close>

theorem nextFixedEvent_earliest:
  assumes "2 * second \<le> now"
  shows "case nextFixedEvent env p now of
      None \<Rightarrow> \<forall>c\<in>set (fixed_events env now). \<not> due p now c
    | Some e \<Rightarrow> e \<in> set (fixed_events env now) \<and> due p now e \<and>
        (\<forall>c\<in>set (fixed_events env now). due p now c \<longrightarrow> fx_target e \<le> fx_target c)"
  using better_fixed_fold [where now = now and best = None and p = p and events = "fixed_events env now"] assms
  by (auto simp: nextFixedEvent_def due_def split: option.splits)

theorem nextFixedEvent_earliest_witness:
  "\<exists>e. nextFixedEvent sample_env (newFeedPlanner ''feed'' sample_env) (29 * minute) = Some e \<and>
     fx_target e = 30 * minute"
proof -
  let ?p = "newFeedPlanner ''feed'' sample_env"
  have "list_all (\<lambda>c. fx_target c = 30 * minute) (fixed_events sample_env (29 * minute))"
    and "list_ex (due ?p (29 * minute)) (fixed_events sample_env (29 * minute))" by code_simp+
  moreover have "2 * second \<le> 29 * minute" by code_simp
  ultimately show ?thesis
    using nextFixedEvent_earliest [of "29 * minute" sample_env ?p]
    by (auto simp: list_all_iff list_ex_iff split: option.splits)
qed

text \<open>A fixed event that has been built is not chosen again.\<close>

theorem fixed_event_once:
  assumes "take_fixed env event tlEnd now p = (q, Some item)" and "2 * second \<le> soon"
    and "fixedEventKey other = fixedEventKey event"
  shows "nextFixedEvent env' q soon \<noteq> Some other"
proof
  assume chosen: "nextFixedEvent env' q soon = Some other"
  have "due q soon other"
    using better_fixed_fold [where now = soon and best = None and p = q and events = "fixed_events env' soon"] assms(2) chosen
    by (auto simp: nextFixedEvent_def split: option.splits if_splits)
  moreover have "pl_lastFixed q (fixedEventKey event) = Some (fx_target event)"
    using assms(1) by (auto simp: take_fixed_def split: prod.splits sum.splits)
  ultimately show False
    using assms(3) by (auto simp: due_def fixedEventKey_def)
qed

definition sample_event :: fixedEvent where
  "sample_event = \<lparr>fx_kind = ''chime'', fx_packageID = ''chime'', fx_title = ''Chime'', fx_target = 30 * minute\<rparr>"

theorem fixed_event_once_witness:
  "\<exists>q item. take_fixed sample_env sample_event (29 * minute) (29 * minute) (newFeedPlanner ''feed'' sample_env) = (q, Some item) \<and>
     nextFixedEvent sample_env q (29 * minute) \<noteq> Some sample_event"
proof -
  let ?r = "take_fixed sample_env sample_event (29 * minute) (29 * minute) (newFeedPlanner ''feed'' sample_env)"
  have "snd ?r \<noteq> None" by code_simp
  then obtain q item where r: "?r = (q, Some item)" by (cases ?r) auto
  have "2 * second \<le> 29 * minute" by code_simp
  from fixed_event_once [OF r this refl] r show ?thesis by blast
qed

section \<open>The routine rotation\<close>

definition airable :: "planner_env \<Rightarrow> nat \<Rightarrow> bool" where
  "airable env i \<longleftrightarrow>
     (let pkgID = trimSpace (env_order env ! (i mod length (env_order env)))
      in pkgID \<noteq> [] \<and> (pkgID = ''alerts'' \<longrightarrow> env_hasRoutineAlerts env))"

lemma nextRoutinePackage_loop_spec:
  "nextRoutinePackage_loop env n cursor = (pkgID, cursor') \<Longrightarrow>
   (\<exists>k<n. airable env (cursor + k) \<and> (\<forall>j<k. \<not> airable env (cursor + j)) \<and>
      pkgID = trimSpace (env_order env ! ((cursor + k) mod length (env_order env))) \<and> cursor' = cursor + k + 1) \<or>
   (\<forall>k<n. \<not> airable env (cursor + k)) \<and> pkgID = [] \<and> cursor' = cursor + n"
proof (induction n arbitrary: cursor)
  case (Suc n)
  show ?case
  proof (cases "airable env cursor")
    case True
    with Suc.prems show ?thesis
      by (intro disjI1 exI [of _ 0]) (auto simp: airable_def Let_def split: if_splits)
  next
    case False
    with Suc.prems have rec: "nextRoutinePackage_loop env n (cursor + 1) = (pkgID, cursor')"
      by (auto simp: airable_def Let_def split: if_splits)
    have all: "(\<forall>j<Suc k. \<not> airable env (cursor + j)) \<longleftrightarrow> (\<forall>j<k. \<not> airable env (cursor + 1 + j))" for k
      using False by (auto simp: less_Suc_eq_0_disj)
    from Suc.IH [OF rec] show ?thesis
    proof
      assume "\<exists>k<n. airable env (cursor + 1 + k) \<and> (\<forall>j<k. \<not> airable env (cursor + 1 + j)) \<and>
          pkgID = trimSpace (env_order env ! ((cursor + 1 + k) mod length (env_order env))) \<and>
          cursor' = cursor + 1 + k + 1"
      then obtain k where "k < n" "airable env (cursor + Suc k)" "\<forall>j<Suc k. \<not> airable env (cursor + j)"
          "pkgID = trimSpace (env_order env ! ((cursor + Suc k) mod length (env_order env)))"
          "cursor' = cursor + Suc k + 1"
        by (auto simp: all)
      then show ?thesis by (intro disjI1 exI [of _ "Suc k"]) simp
    next
      assume "(\<forall>k<n. \<not> airable env (cursor + 1 + k)) \<and> pkgID = [] \<and> cursor' = cursor + 1 + n"
      then show ?thesis using all [of n] by simp
    qed
  qed
qed simp

text \<open>The rotation takes the next package of the configured order that can be aired, starting at the
  cursor and going round at most once; the skipped entries are blank or the alert package without
  alerts, and it gives up only if there is no entry that can be aired.\<close>

theorem nextRoutinePackage_rotates:
  assumes "nextRoutinePackage env p = (pkgID, q)"
  shows "(\<exists>k<length (env_order env). airable env (pl_cursor p + k) \<and> (\<forall>j<k. \<not> airable env (pl_cursor p + j)) \<and>
      pkgID = trimSpace (env_order env ! ((pl_cursor p + k) mod length (env_order env))) \<and>
      q = p\<lparr>pl_cursor := pl_cursor p + k + 1\<rparr>) \<or>
   (\<forall>i. env_order env \<noteq> [] \<longrightarrow> \<not> airable env i) \<and> pkgID = []"
proof -
  obtain cursor' where "nextRoutinePackage_loop env (length (env_order env)) (pl_cursor p) = (pkgID, cursor')"
    and q: "q = p\<lparr>pl_cursor := cursor'\<rparr>"
    using assms by (auto simp: nextRoutinePackage_def split: prod.splits)
  from nextRoutinePackage_loop_spec [OF this(1)] show ?thesis
  proof
    assume none: "(\<forall>k<length (env_order env). \<not> airable env (pl_cursor p + k)) \<and> pkgID = [] \<and>
        cursor' = pl_cursor p + length (env_order env)"
    have "\<not> airable env i" if ne: "env_order env \<noteq> []" for i
    proof -
      let ?n = "length (env_order env)"
      from ne have n: "?n > 0" by simp
      define k where "k = (i + ?n * pl_cursor p - pl_cursor p) mod ?n"
      have "k < ?n" using n by (simp add: k_def)
      moreover have "(pl_cursor p + k) mod ?n = i mod ?n"
      proof -
        have "1 * pl_cursor p \<le> ?n * pl_cursor p" using n by (intro mult_le_mono1) linarith
        then have "pl_cursor p \<le> i + ?n * pl_cursor p" by linarith
        then have "(pl_cursor p + k) mod ?n = (i + ?n * pl_cursor p) mod ?n"
          by (simp add: k_def mod_add_right_eq)
        then show ?thesis by simp
      qed
      moreover have "\<not> airable env (pl_cursor p + k)" using none \<open>k < ?n\<close> by blast
      ultimately show ?thesis by (simp add: airable_def)
    qed
    with none show ?thesis by simp
  qed (use q in auto)
qed
theorem nextRoutinePackage_rotates_witness:
  "fst (nextRoutinePackage sample_env (newFeedPlanner ''feed'' sample_env)) = ''forecast''"
proof -
  let ?p = "newFeedPlanner ''feed'' sample_env"
  obtain pkgID q where r: "nextRoutinePackage sample_env ?p = (pkgID, q)" by (cases "nextRoutinePackage sample_env ?p")
  have "\<not> airable sample_env 0" and "airable sample_env 1" and "length (env_order sample_env) = 2"
    and "pl_cursor ?p = 0" and "env_order sample_env \<noteq> []" and "trimSpace (env_order sample_env ! 1) = ''forecast''"
    by code_simp+
  with nextRoutinePackage_rotates [OF r] r show ?thesis by (auto simp: less_2_cases_iff)
qed

end
