(* ===== verification/Alert_Packet.thy ===== *)
theory Alert_Packet
  imports Go_Values
begin

text \<open>
  The alert packet shared by the services, \<open>internal/alertmodel/packet.go\<close>: its normal form, the
  conversions from and to the flat map of older services, and the merge of both.
  \<^item> A map is a decoded \<open>message\<close>; the typed Go values the code stores in one (string slices, references,
    the packet itself) are kept in the form of their JSON encoding.
  \<^item> The JSON encoding of the structured values is done by \<open>encoding/json\<close> through reflection and is the
    argument \<open>codec\<close>. A floating-point number is the text it is printed as.
\<close>

section \<open>Data\<close>

record content =
  ct_Title :: string
  ct_Headline :: string
  ct_Event :: string
  ct_EventName :: string
  ct_Severity :: string
  ct_Urgency :: string
  ct_Certainty :: string
  ct_Description :: string
  ct_Instruction :: string
  ct_CustomText :: string
  ct_BackgroundColor :: string

record timing =
  tm_SentAt :: string
  tm_EffectiveAt :: string
  tm_OnsetAt :: string
  tm_ExpiresAt :: string
  tm_ScheduledFor :: string

record threatArea =
  ta_Status :: string
  ta_Description :: string
  ta_Polygons :: "string list"
  ta_CAPCPLocations :: "string list"

record stormInfo =
  st_Speed :: string
  st_SpeedValue :: "string option"
  st_SpeedUnit :: string
  st_DirectionDegrees :: "string option"
  st_GeometryType :: string
  st_Points :: "(string \<times> string) list"
  st_Time :: string
  st_MotionDescription :: string
  st_PositionDescription :: string
  st_ReferenceLocationPoints :: string

record locationIdentifier =
  li_Authority :: string
  li_Scheme :: string
  li_Value :: string

record locationReference =
  lr_CanonicalID :: string
  lr_CandidateID :: string
  lr_Name :: string
  lr_Kind :: string
  lr_Country :: string
  lr_Region :: string
  lr_RawIdentifiers :: "locationIdentifier list"
  lr_CanonicalIdentifiers :: "locationIdentifier list"
  lr_MatchScore :: string
  lr_MatchConfidence :: string
  lr_MatchMethod :: string
  lr_SourceQuality :: string
  lr_CatalogGeneration :: string
  lr_Actionable :: bool
  lr_Ambiguous :: bool

record areas =
  ar_Names :: "string list"
  ar_Codes :: "string list"
  ar_Locations :: "locationReference list"
  ar_ThreatAreas :: "threatArea list"

record sameFacts =
  sm_Include :: bool
  sm_SuppressedReason :: string
  sm_Event :: string
  sm_EventName :: string
  sm_EventSource :: string
  sm_EventReason :: string
  sm_EventConfidence :: string
  sm_AlertClass :: string
  sm_Phenomenon :: string
  sm_Originator :: string
  sm_OriginatorName :: string
  sm_WeatherService :: string
  sm_Locations :: "string list"
  sm_Duration :: string
  sm_SentAt :: string
  sm_BeginsAt :: string
  sm_ExpiresAt :: string
  sm_Tone :: string
  sm_Callsign :: string
  sm_Header :: string
  sm_Translation :: string

record audio =
  au_URL :: string
  au_MimeType :: string
  au_Language :: string
  au_Description :: string
  au_Authoritative :: bool
  au_Path :: string
  au_Format :: string
  au_SampleRate :: int
  au_Channels :: int
  au_Bytes :: int
  au_Source :: string

record options =
  op_BroadcastImmediate :: bool
  op_PrependSAMETranslation :: bool

record presentation =
  pn_SpeechText :: string
  pn_BannerText :: string

record packet =
  pk_Version :: int
  pk_ID :: string
  pk_Source :: string
  pk_FeedID :: string
  pk_FeedIDs :: "string list"
  pk_MessageType :: string
  pk_Content :: content
  pk_Timing :: timing
  pk_Areas :: areas
  pk_Storm :: "stormInfo option"
  pk_SAME :: "sameFacts option"
  pk_Audio :: "audio option"
  pk_Options :: options
  pk_Presentation :: presentation
  pk_Meta :: message

text \<open>Marshalling and unmarshalling of the structured values, and the conversion \<open>int(x)\<close> of a number.\<close>

record codec =
  cd_references :: "any \<Rightarrow> locationReference list option"
  cd_threats :: "any \<Rightarrow> threatArea list option"
  cd_storm :: "any \<Rightarrow> stormInfo option"
  cd_packet :: "any \<Rightarrow> packet option"
  cd_packetText :: "string \<Rightarrow> packet option"
  cd_int :: "string \<Rightarrow> int"
  ce_references :: "locationReference list \<Rightarrow> any"
  ce_threats :: "threatArea list \<Rightarrow> any"
  ce_storm :: "stormInfo \<Rightarrow> any"
  ce_packet :: "packet \<Rightarrow> any"

section \<open>Normal form\<close>

definition uniqueClean :: "string list \<Rightarrow> string list" where
  "uniqueClean vals =
     collect_unique (\<lambda>val. if trimSpace val = [] then None else Some (trimSpace val)) toLower [] vals"

definition clean_identifier :: "locationIdentifier \<Rightarrow> locationIdentifier option" where
  "clean_identifier i =
     (let i = i\<lparr>li_Authority := trimSpace (li_Authority i), li_Scheme := toLower (trimSpace (li_Scheme i)),
                li_Value := trimSpace (li_Value i)\<rparr>
      in if li_Scheme i = [] \<or> li_Value i = [] then None else Some i)"

definition identifier_key :: "locationIdentifier \<Rightarrow> string" where
  "identifier_key i = toLower (li_Authority i) @ [CHR 0x00] @ li_Scheme i @ [CHR 0x00] @ li_Value i"

definition normalizeLocationIdentifiers :: "locationIdentifier list \<Rightarrow> locationIdentifier list" where
  "normalizeLocationIdentifiers vals = collect_unique clean_identifier identifier_key [] vals"

text \<open>A reference that is ambiguous or not certain loses its canonical identifier and may not be acted on.\<close>

definition trust_reference :: "locationReference \<Rightarrow> locationReference" where
  "trust_reference r =
     (let r = (if lr_Ambiguous r \<or> lr_MatchConfidence r \<noteq> ''exact'' \<and> lr_MatchConfidence r \<noteq> ''high''
               then r\<lparr>lr_Actionable := False,
                      lr_CandidateID := (if lr_CandidateID r = [] then lr_CanonicalID r else lr_CandidateID r),
                      lr_CanonicalID := []\<rparr>
               else r)
      in if lr_CanonicalID r = [] then r\<lparr>lr_Actionable := False\<rparr> else r)"

definition clean_reference :: "locationReference \<Rightarrow> locationReference" where
  "clean_reference r =
     trust_reference
       (r\<lparr>lr_CanonicalID := trimSpace (lr_CanonicalID r), lr_CandidateID := trimSpace (lr_CandidateID r),
          lr_Name := trimSpace (lr_Name r), lr_Kind := trimSpace (lr_Kind r), lr_Country := trimSpace (lr_Country r),
          lr_Region := trimSpace (lr_Region r), lr_MatchConfidence := toLower (trimSpace (lr_MatchConfidence r)),
          lr_MatchMethod := trimSpace (lr_MatchMethod r), lr_CatalogGeneration := trimSpace (lr_CatalogGeneration r),
          lr_RawIdentifiers := normalizeLocationIdentifiers (lr_RawIdentifiers r),
          lr_CanonicalIdentifiers := normalizeLocationIdentifiers (lr_CanonicalIdentifiers r)\<rparr>)"

definition reference_key :: "locationReference \<Rightarrow> string" where
  "reference_key r =
     (if toLower (lr_CanonicalID r) \<noteq> [] then toLower (lr_CanonicalID r)
      else (case lr_RawIdentifiers r of [] \<Rightarrow> [] | i # is \<Rightarrow> identifier_key i))"

definition normalizeLocationReferences :: "locationReference list \<Rightarrow> locationReference list" where
  "normalizeLocationReferences vals =
     collect_unique (\<lambda>r. if reference_key (clean_reference r) = [] then None else Some (clean_reference r))
       reference_key [] vals"

definition clean_threat :: "threatArea \<Rightarrow> threatArea option" where
  "clean_threat a =
     (let a = a\<lparr>ta_Status := toLower (trimSpace (ta_Status a)), ta_Description := trimSpace (ta_Description a),
                ta_Polygons := uniqueClean (ta_Polygons a), ta_CAPCPLocations := uniqueClean (ta_CAPCPLocations a)\<rparr>
      in if ta_Status a = [] \<or> ta_Polygons a = [] then None else Some a)"

definition threat_key :: "threatArea \<Rightarrow> string" where
  "threat_key a = ta_Status a @ [CHR 0x00] @ join [CHR 0x00] (ta_Polygons a)"

definition normalizeThreatAreas :: "threatArea list \<Rightarrow> threatArea list" where
  "normalizeThreatAreas vals = collect_unique clean_threat threat_key [] vals"

definition clean_storm :: "stormInfo \<Rightarrow> stormInfo" where
  "clean_storm s =
     s\<lparr>st_Speed := trimSpace (st_Speed s), st_SpeedUnit := toLower (trimSpace (st_SpeedUnit s)),
       st_GeometryType := toLower (trimSpace (st_GeometryType s)), st_Time := trimSpace (st_Time s),
       st_MotionDescription := trimSpace (st_MotionDescription s),
       st_PositionDescription := trimSpace (st_PositionDescription s),
       st_ReferenceLocationPoints := trimSpace (st_ReferenceLocationPoints s)\<rparr>"

definition normalize_areas :: "areas \<Rightarrow> areas" where
  "normalize_areas a =
     a\<lparr>ar_Names := uniqueClean (ar_Names a), ar_Codes := uniqueClean (ar_Codes a),
       ar_Locations := normalizeLocationReferences (ar_Locations a),
       ar_ThreatAreas := normalizeThreatAreas (ar_ThreatAreas a)\<rparr>"

definition Normalize :: "packet \<Rightarrow> packet" where
  "Normalize p =
     p\<lparr>pk_Version := (if pk_Version p = 0 then 1 else pk_Version p),
       pk_ID := trimSpace (pk_ID p), pk_Source := trimSpace (pk_Source p), pk_FeedID := trimSpace (pk_FeedID p),
       pk_MessageType := trimSpace (pk_MessageType p), pk_FeedIDs := uniqueClean (pk_FeedIDs p),
       pk_Areas := normalize_areas (pk_Areas p), pk_Storm := map_option clean_storm (pk_Storm p),
       pk_SAME := map_option (\<lambda>same. same\<lparr>sm_Locations := uniqueClean (sm_Locations same)\<rparr>) (pk_SAME p)\<rparr>"

section \<open>Reading a flat map\<close>

fun alert_firstText :: "message \<Rightarrow> string list \<Rightarrow> string" where
  "alert_firstText data [] = []"
| "alert_firstText data (key # keys) =
     (case map_of data key of
        None \<Rightarrow> alert_firstText data keys
      | Some v \<Rightarrow>
          if trimSpace (sprint v) \<noteq> [] \<and> trimSpace (sprint v) \<noteq> ''<nil>'' then trimSpace (sprint v)
          else alert_firstText data keys)"

fun alert_firstValue :: "message \<Rightarrow> string list \<Rightarrow> any" where
  "alert_firstValue data [] = NilV"
| "alert_firstValue data (key # keys) =
     (case map_of data key of None \<Rightarrow> alert_firstValue data keys | Some v \<Rightarrow> v)"

definition stringList :: "any \<Rightarrow> string list" where
  "stringList v =
     uniqueClean
       (case v of
          ArrV items \<Rightarrow> filter (\<lambda>text. text \<noteq> [] \<and> text \<noteq> ''<nil>'') (map (\<lambda>item. trimSpace (sprint item)) items)
        | StrV s \<Rightarrow>
            if trimSpace s \<noteq> []
            then filter (\<lambda>part. part \<noteq> []) (map trimSpace (splitOn (CHR '','') (trimSpace s))) else []
        | _ \<Rightarrow> [])"

definition boolValueDefault :: "any \<Rightarrow> bool \<Rightarrow> bool" where
  "boolValueDefault v fallback =
     (case v of
        BoolV b \<Rightarrow> b
      | StrV s \<Rightarrow>
          (let text = toLower (trimSpace s)
           in if text \<in> {''true'', ''1'', ''yes'', ''on'', ''enabled''} then True
              else if text \<in> {''false'', ''0'', ''no'', ''off'', ''disabled''} then False
              else fallback)
      | NumV n \<Rightarrow> n \<noteq> ''0'' \<and> n \<noteq> ''-0''
      | _ \<Rightarrow> fallback)"

text \<open>\<open>fmt.Sscanf\<close> with \<open>%d\<close>: an optional sign and the digits that follow it, in the range of 64 bits.\<close>

definition scan_int :: "string \<Rightarrow> int option" where
  "scan_int s =
     (case s of
        c # t \<Rightarrow>
          if c = CHR ''-'' \<or> c = CHR ''+'' then atoi (c # takeWhile is_digit t) else atoi (takeWhile is_digit s)
      | [] \<Rightarrow> None)"

definition intValue :: "codec \<Rightarrow> any \<Rightarrow> int" where
  "intValue cd v =
     (case v of
        NumV n \<Rightarrow> cd_int cd n
      | StrV s \<Rightarrow> (case scan_int (trimSpace s) of None \<Rightarrow> 0 | Some n \<Rightarrow> n)
      | _ \<Rightarrow> 0)"

definition has_fields :: "message \<Rightarrow> string list \<Rightarrow> bool" where
  "has_fields data keys = list_ex (\<lambda>key. map_of data key \<noteq> None) keys"

definition hasSAMEFields :: "message \<Rightarrow> bool" where
  "hasSAMEFields data =
     has_fields data [''include_same'', ''same_event'', ''same_originator'', ''same_locations'', ''same_translation'', ''same_intro'']"

definition hasAudioFields :: "message \<Rightarrow> bool" where
  "hasAudioFields data =
     has_fields data [''audio_url'', ''authoritative_url'', ''audio_path'', ''audio_format'', ''sample_rate'']"

definition locationReferences :: "codec \<Rightarrow> any \<Rightarrow> locationReference list" where
  "locationReferences cd v =
     (if v = NilV then []
      else (case cd_references cd v of None \<Rightarrow> [] | Some references \<Rightarrow> normalizeLocationReferences references))"

definition threatAreas :: "codec \<Rightarrow> any \<Rightarrow> threatArea list" where
  "threatAreas cd v =
     (if v = NilV then []
      else (case cd_threats cd v of None \<Rightarrow> [] | Some found \<Rightarrow> normalizeThreatAreas found))"

definition storm_from :: "codec \<Rightarrow> any \<Rightarrow> stormInfo option" where
  "storm_from cd v = (if v = NilV then None else cd_storm cd v)"

definition same_from_map :: "message \<Rightarrow> sameFacts" where
  "same_from_map data =
     \<lparr>sm_Include = boolValueDefault (alert_firstValue data [''include_same'']) True,
      sm_SuppressedReason = alert_firstText data [''same_suppressed_reason''],
      sm_Event = alert_firstText data [''same_event''],
      sm_EventName = alert_firstText data [''same_event_name''],
      sm_EventSource = alert_firstText data [''same_event_source''],
      sm_EventReason = alert_firstText data [''same_event_reason''],
      sm_EventConfidence = alert_firstText data [''same_event_confidence''],
      sm_AlertClass = alert_firstText data [''same_alert_class''],
      sm_Phenomenon = alert_firstText data [''same_event_phenomenon''],
      sm_Originator = alert_firstText data [''same_originator''],
      sm_OriginatorName = alert_firstText data [''same_originator_name''],
      sm_WeatherService = alert_firstText data [''same_weather_service''],
      sm_Locations = stringList (alert_firstValue data [''same_locations'', ''locations'']),
      sm_Duration = alert_firstText data [''same_duration''],
      sm_SentAt = alert_firstText data [''same_sent_at''],
      sm_BeginsAt = alert_firstText data [''same_begins_at''],
      sm_ExpiresAt = alert_firstText data [''same_expires_at''],
      sm_Tone = alert_firstText data [''same_tone''],
      sm_Callsign = alert_firstText data [''same_callsign''],
      sm_Header = alert_firstText data [''same_header''],
      sm_Translation = alert_firstText data [''same_translation'', ''same_intro'']\<rparr>"

definition audio_from_map :: "codec \<Rightarrow> message \<Rightarrow> audio" where
  "audio_from_map cd data =
     \<lparr>au_URL = alert_firstText data [''audio_url'', ''authoritative_url''],
      au_MimeType = alert_firstText data [''audio_mime_type''],
      au_Language = alert_firstText data [''audio_language''],
      au_Description = alert_firstText data [''audio_description''],
      au_Authoritative = boolValueDefault (alert_firstValue data [''audio_authoritative'']) False,
      au_Path = alert_firstText data [''audio_path''],
      au_Format = alert_firstText data [''audio_format'', ''format''],
      au_SampleRate = intValue cd (alert_firstValue data [''sample_rate'']),
      au_Channels = intValue cd (alert_firstValue data [''channels'']),
      au_Bytes = intValue cd (alert_firstValue data [''audio_bytes'']),
      au_Source = alert_firstText data [''source'']\<rparr>"

definition content_from_map :: "message \<Rightarrow> content" where
  "content_from_map data =
     (let custom = alert_firstText data [''custom_text'', ''voice_message'', ''text'', ''message''];
          speech = alert_firstText data [''alert_text'', ''tts_text'']
      in \<lparr>ct_Title = alert_firstText data [''title'', ''header''],
          ct_Headline = alert_firstText data [''headline''],
          ct_Event = alert_firstText data [''event''],
          ct_EventName = alert_firstText data [''same_event_name'', ''event_name''],
          ct_Severity = alert_firstText data [''severity''],
          ct_Urgency = alert_firstText data [''urgency''],
          ct_Certainty = alert_firstText data [''certainty''],
          ct_Description = alert_firstText data [''description''],
          ct_Instruction = alert_firstText data [''instruction''],
          ct_CustomText = (if custom = [] \<and> speech \<noteq> [] then speech else custom),
          ct_BackgroundColor = alert_firstText data [''background_color'']\<rparr>)"

definition timing_from_map :: "message \<Rightarrow> timing" where
  "timing_from_map data =
     \<lparr>tm_SentAt = alert_firstText data [''alert_sent_at'', ''sent''],
      tm_EffectiveAt = alert_firstText data [''effective'', ''effective_at''],
      tm_OnsetAt = alert_firstText data [''onset'', ''onset_at''],
      tm_ExpiresAt = alert_firstText data [''alert_expires_at'', ''expires'', ''expires_at''],
      tm_ScheduledFor = alert_firstText data [''scheduled_for'', ''schedule_at'']\<rparr>"

definition LegacyFromMap :: "codec \<Rightarrow> message \<Rightarrow> packet" where
  "LegacyFromMap cd data =
     \<lparr>pk_Version = 1,
      pk_ID = alert_firstText data [''alert_id'', ''id'', ''identifier'', ''subject''],
      pk_Source = alert_firstText data [''cap_source'', ''source''],
      pk_FeedID = alert_firstText data [''feed_id''],
      pk_FeedIDs = stringList (alert_firstValue data [''feed_ids'']),
      pk_MessageType = alert_firstText data [''message_type'', ''msg_type''],
      pk_Content = content_from_map data, pk_Timing = timing_from_map data,
      pk_Areas =
        \<lparr>ar_Names = stringList (alert_firstValue data [''area_names'', ''areas'']),
         ar_Codes = stringList (alert_firstValue data [''same_locations'', ''locations'']),
         ar_Locations = locationReferences cd (alert_firstValue data [''canonical_locations'']),
         ar_ThreatAreas = threatAreas cd (alert_firstValue data [''threat_areas''])\<rparr>,
      pk_Storm = storm_from cd (alert_firstValue data [''storm'', ''storm_characteristics'']),
      pk_SAME = (if hasSAMEFields data then Some (same_from_map data) else None),
      pk_Audio = (if hasAudioFields data then Some (audio_from_map cd data) else None),
      pk_Options =
        \<lparr>op_BroadcastImmediate = boolValueDefault (alert_firstValue data [''broadcast_immediate'']) False,
         op_PrependSAMETranslation = boolValueDefault (alert_firstValue data [''prepend_same_translation'']) False\<rparr>,
      pk_Presentation =
        \<lparr>pn_SpeechText = alert_firstText data [''alert_text'', ''tts_text''],
         pn_BannerText = alert_firstText data [''banner_text'']\<rparr>,
      pk_Meta = []\<rparr>"

definition packetFromAny :: "codec \<Rightarrow> any \<Rightarrow> packet option" where
  "packetFromAny cd v =
     (case v of ObjV kvs \<Rightarrow> cd_packet cd v | StrV s \<Rightarrow> cd_packetText cd s | _ \<Rightarrow> None)"

text \<open>The packet of a map, and whether there is one.\<close>

definition FromMap :: "codec \<Rightarrow> message \<Rightarrow> packet \<times> bool" where
  "FromMap cd data =
     (case Option.bind (map_of data ''alert_packet'') (packetFromAny cd) of
        Some p \<Rightarrow> (Normalize p, True)
      | None \<Rightarrow>
          (let p = Normalize (LegacyFromMap cd data)
           in (p, pk_ID p \<noteq> [] \<or> ct_Event (pk_Content p) \<noteq> [] \<or> ct_Description (pk_Content p) \<noteq> [] \<or>
                  ct_CustomText (pk_Content p) \<noteq> [])))"

section \<open>Writing a flat map\<close>

text \<open>The assignments of \<open>LegacyFields\<close> in order: a key with its value, \<open>None\<close> where the condition of
  the assignment does not hold.\<close>

definition text_field :: "string \<Rightarrow> any option" where
  "text_field val = (if trimSpace val \<noteq> [] then Some (StrV (trimSpace val)) else None)"

definition list_field :: "string list \<Rightarrow> any option" where
  "list_field vals = (if vals \<noteq> [] then Some (ArrV (map StrV vals)) else None)"

definition flag_field :: "bool \<Rightarrow> any option" where
  "flag_field b = (if b then Some (BoolV True) else None)"

definition int_field :: "int \<Rightarrow> any option" where
  "int_field n = (if n > 0 then Some (NumV (itoaInt n)) else None)"

fun set_fields :: "(string \<times> any option) list \<Rightarrow> message \<Rightarrow> message" where
  "set_fields [] out = out"
| "set_fields ((key, None) # rest) out = set_fields rest out"
| "set_fields ((key, Some v) # rest) out = set_fields rest (msg_set key v out)"

definition same_fields :: "sameFacts \<Rightarrow> (string \<times> any option) list" where
  "same_fields s =
     [(''include_same'', Some (BoolV (sm_Include s))),
      (''same_suppressed_reason'', text_field (sm_SuppressedReason s)),
      (''same_event'', text_field (sm_Event s)), (''same_event_name'', text_field (sm_EventName s)),
      (''same_event_source'', text_field (sm_EventSource s)), (''same_event_reason'', text_field (sm_EventReason s)),
      (''same_event_confidence'', text_field (sm_EventConfidence s)), (''same_alert_class'', text_field (sm_AlertClass s)),
      (''same_event_phenomenon'', text_field (sm_Phenomenon s)), (''same_originator'', text_field (sm_Originator s)),
      (''same_originator_name'', text_field (sm_OriginatorName s)),
      (''same_weather_service'', text_field (sm_WeatherService s)), (''same_locations'', list_field (sm_Locations s)),
      (''same_duration'', text_field (sm_Duration s)), (''same_sent_at'', text_field (sm_SentAt s)),
      (''same_begins_at'', text_field (sm_BeginsAt s)), (''same_expires_at'', text_field (sm_ExpiresAt s)),
      (''same_tone'', text_field (sm_Tone s)), (''same_callsign'', text_field (sm_Callsign s)),
      (''same_header'', text_field (sm_Header s)), (''same_intro'', text_field (sm_Translation s)),
      (''same_translation'', text_field (sm_Translation s))]"

definition audio_fields :: "audio \<Rightarrow> (string \<times> any option) list" where
  "audio_fields a =
     [(''audio_url'', text_field (au_URL a)), (''authoritative_url'', text_field (au_URL a)),
      (''audio_mime_type'', text_field (au_MimeType a)), (''audio_language'', text_field (au_Language a)),
      (''audio_description'', text_field (au_Description a)), (''audio_authoritative'', flag_field (au_Authoritative a)),
      (''audio_path'', text_field (au_Path a)), (''audio_format'', text_field (au_Format a)),
      (''sample_rate'', int_field (au_SampleRate a)), (''channels'', int_field (au_Channels a)),
      (''audio_bytes'', int_field (au_Bytes a))]"

definition legacy_entries :: "codec \<Rightarrow> packet \<Rightarrow> (string \<times> any option) list" where
  "legacy_entries cd p =
     (let c = pk_Content p; t = pk_Timing p; a = pk_Areas p
      in [(''alert_id'', Some (StrV (pk_ID p))), (''message_type'', Some (StrV (pk_MessageType p))),
          (''source'', Some (StrV (pk_Source p))), (''alert_source'', Some (StrV (pk_Source p))),
          (''cap_source'', Some (StrV (pk_Source p))), (''feed_id'', text_field (pk_FeedID p)),
          (''feed_ids'', list_field (pk_FeedIDs p)),
          (''title'', text_field (firstNonBlank [ct_Headline c, ct_Title c])), (''headline'', text_field (ct_Headline c)),
          (''event'', text_field (firstNonBlank [ct_Event c, ct_EventName c])), (''severity'', text_field (ct_Severity c)),
          (''urgency'', text_field (ct_Urgency c)), (''certainty'', text_field (ct_Certainty c)),
          (''description'', text_field (ct_Description c)), (''instruction'', text_field (ct_Instruction c)),
          (''background_color'', text_field (ct_BackgroundColor c)), (''alert_sent_at'', text_field (tm_SentAt t)),
          (''effective'', text_field (tm_EffectiveAt t)), (''onset'', text_field (tm_OnsetAt t)),
          (''alert_expires_at'', text_field (tm_ExpiresAt t)), (''scheduled_for'', text_field (tm_ScheduledFor t)),
          (''area_names'', list_field (ar_Names a)), (''locations'', list_field (ar_Codes a)),
          (''canonical_locations'', if ar_Locations a \<noteq> [] then Some (ce_references cd (ar_Locations a)) else None),
          (''threat_areas'', if ar_ThreatAreas a \<noteq> [] then Some (ce_threats cd (ar_ThreatAreas a)) else None),
          (''storm'', map_option (ce_storm cd) (pk_Storm p)),
          (''alert_text'', if pn_SpeechText (pk_Presentation p) \<noteq> []
             then Some (StrV (pn_SpeechText (pk_Presentation p))) else None),
          (''banner_text'', if pn_BannerText (pk_Presentation p) \<noteq> []
             then Some (StrV (pn_BannerText (pk_Presentation p))) else None),
          (''broadcast_immediate'', flag_field (op_BroadcastImmediate (pk_Options p))),
          (''prepend_same_translation'', flag_field (op_PrependSAMETranslation (pk_Options p)))] @
         (case pk_SAME p of None \<Rightarrow> [] | Some s \<Rightarrow> same_fields s) @
         (case pk_Audio p of None \<Rightarrow> [] | Some x \<Rightarrow> audio_fields x))"

definition LegacyFields :: "codec \<Rightarrow> packet \<Rightarrow> message" where
  "LegacyFields cd p = set_fields (legacy_entries cd (Normalize p)) []"

text \<open>The loop that copies one map over another.\<close>

definition overlay :: "message \<Rightarrow> message \<Rightarrow> message" where
  "overlay out extra = foldr (\<lambda>(key, v) m. msg_set key v m) extra out"

definition WithLegacyFields :: "codec \<Rightarrow> packet \<Rightarrow> message \<Rightarrow> message" where
  "WithLegacyFields cd p extra =
     msg_set ''alert_packet'' (ce_packet cd (Normalize p)) (overlay (LegacyFields cd p) extra)"

definition MergePacketFields :: "codec \<Rightarrow> message \<Rightarrow> message" where
  "MergePacketFields cd data =
     (case FromMap cd data of
        (p, ok) \<Rightarrow>
          if \<not> ok then data
          else msg_set ''alert_packet'' (ce_packet cd (Normalize p)) (overlay (LegacyFields cd p) data))"

definition BodyText :: "packet \<Rightarrow> string" where
  "BodyText p =
     (if trimSpace (ct_CustomText (pk_Content p)) \<noteq> [] then trimSpace (ct_CustomText (pk_Content p))
      else join '' '' (filter (\<lambda>text. text \<noteq> [])
             (map trimSpace [ct_Description (pk_Content p), ct_Instruction (pk_Content p)])))"

section \<open>Lemmas\<close>

text \<open>Each cleaning step leaves a clean value as it is.\<close>

interpretation texts: cleaner "\<lambda>val. if trimSpace val = [] then None else Some (trimSpace val)" toLower
  by unfold_locales (auto split: if_split_asm)

lemma uniqueClean_idem [simp]: "uniqueClean (uniqueClean vals) = uniqueClean vals"
  unfolding uniqueClean_def by (rule texts.idem)

interpretation identifiers: cleaner clean_identifier identifier_key
  by unfold_locales (auto simp: clean_identifier_def Let_def split: if_split_asm)

lemma normalizeLocationIdentifiers_idem [simp]:
  "normalizeLocationIdentifiers (normalizeLocationIdentifiers vals) = normalizeLocationIdentifiers vals"
  unfolding normalizeLocationIdentifiers_def by (rule identifiers.idem)

lemma trust_reference_fields [simp]:
  "lr_Name (trust_reference r) = lr_Name r" "lr_Kind (trust_reference r) = lr_Kind r"
  "lr_Country (trust_reference r) = lr_Country r" "lr_Region (trust_reference r) = lr_Region r"
  "lr_MatchConfidence (trust_reference r) = lr_MatchConfidence r" "lr_MatchMethod (trust_reference r) = lr_MatchMethod r"
  "lr_CatalogGeneration (trust_reference r) = lr_CatalogGeneration r" "lr_Ambiguous (trust_reference r) = lr_Ambiguous r"
  "lr_RawIdentifiers (trust_reference r) = lr_RawIdentifiers r"
  "lr_CanonicalIdentifiers (trust_reference r) = lr_CanonicalIdentifiers r"
  by (simp_all add: trust_reference_def Let_def)

lemma trust_reference_idem [simp]: "trust_reference (trust_reference r) = trust_reference r"
  by (simp add: trust_reference_def Let_def)

lemma trust_reference_ids:
  "trimSpace (lr_CanonicalID r) = lr_CanonicalID r \<Longrightarrow>
   trimSpace (lr_CanonicalID (trust_reference r)) = lr_CanonicalID (trust_reference r)"
  "trimSpace (lr_CanonicalID r) = lr_CanonicalID r \<Longrightarrow> trimSpace (lr_CandidateID r) = lr_CandidateID r \<Longrightarrow>
   trimSpace (lr_CandidateID (trust_reference r)) = lr_CandidateID (trust_reference r)"
  by (simp_all add: trust_reference_def Let_def)

lemma clean_reference_idem [simp]: "clean_reference (clean_reference r) = clean_reference r"
proof -
  define c where "c = clean_reference r"
  have ids: "trimSpace (lr_CanonicalID c) = lr_CanonicalID c" "trimSpace (lr_CandidateID c) = lr_CandidateID c"
    unfolding c_def clean_reference_def by (rule trust_reference_ids; simp)+
  have rest: "trimSpace (lr_Name c) = lr_Name c" "trimSpace (lr_Kind c) = lr_Kind c"
    "trimSpace (lr_Country c) = lr_Country c" "trimSpace (lr_Region c) = lr_Region c"
    "toLower (trimSpace (lr_MatchConfidence c)) = lr_MatchConfidence c" "trimSpace (lr_MatchMethod c) = lr_MatchMethod c"
    "trimSpace (lr_CatalogGeneration c) = lr_CatalogGeneration c"
    "normalizeLocationIdentifiers (lr_RawIdentifiers c) = lr_RawIdentifiers c"
    "normalizeLocationIdentifiers (lr_CanonicalIdentifiers c) = lr_CanonicalIdentifiers c"
    unfolding c_def clean_reference_def by simp_all
  have "clean_reference c = trust_reference c"
    unfolding clean_reference_def ids rest by simp
  also have "\<dots> = c" unfolding c_def clean_reference_def by simp
  finally show ?thesis by (simp add: c_def)
qed

interpretation references: cleaner
  "\<lambda>r. if reference_key (clean_reference r) = [] then None else Some (clean_reference r)" reference_key
  by unfold_locales (auto split: if_split_asm)

lemma normalizeLocationReferences_idem [simp]:
  "normalizeLocationReferences (normalizeLocationReferences vals) = normalizeLocationReferences vals"
  unfolding normalizeLocationReferences_def by (rule references.idem)

interpretation threats: cleaner clean_threat threat_key
  by unfold_locales (auto simp: clean_threat_def Let_def split: if_split_asm)

lemma normalizeThreatAreas_idem [simp]:
  "normalizeThreatAreas (normalizeThreatAreas vals) = normalizeThreatAreas vals"
  unfolding normalizeThreatAreas_def by (rule threats.idem)

lemma clean_storm_idem [simp]: "clean_storm (clean_storm s) = clean_storm s"
  by (simp add: clean_storm_def)

lemma normalize_areas_idem [simp]: "normalize_areas (normalize_areas a) = normalize_areas a"
  by (simp add: normalize_areas_def)

lemma Normalize_again [simp]: "Normalize (Normalize p) = Normalize p"
  by (simp add: Normalize_def option.map_comp comp_def)

text \<open>Maps as functions of their keys.\<close>

lemma map_of_msg_set: "map_of (msg_set key v m) = (map_of m)(key \<mapsto> v)"
  by (induction m) (auto simp: fun_eq_iff)

lemma map_of_overlay: "map_of (overlay out extra) = map_of out ++ map_of extra"
  by (induction extra) (auto simp: overlay_def map_of_msg_set fun_eq_iff map_add_def)

lemma LegacyFields_Normalize [simp]: "LegacyFields cd (Normalize p) = LegacyFields cd p"
  by (simp add: LegacyFields_def)

section \<open>Properties\<close>

text \<open>The normal form is a normal form: normalizing a packet twice gives the same as once.\<close>

theorem Normalize_idempotent: "Normalize (Normalize p) = Normalize p"
  by (rule Normalize_again)

text \<open>C8: in a normalized packet every location that may be acted on has a canonical identifier and was
  matched without ambiguity and with confidence exact or high, and no two references have the same key: the
  canonical identifier without regard to case, or the first raw identifier of a reference that has none.
  A location may still occur once as a canonical reference and once as a candidate.\<close>

theorem actionable_locations_certain:
  "(\<forall>r\<in>set (ar_Locations (pk_Areas (Normalize p))).
      lr_Actionable r \<longrightarrow> lr_CanonicalID r \<noteq> [] \<and> \<not> lr_Ambiguous r \<and> lr_MatchConfidence r \<in> {''exact'', ''high''}) \<and>
   distinct (map reference_key (ar_Locations (pk_Areas (Normalize p))))"
proof -
  have "lr_CanonicalID r \<noteq> [] \<and> \<not> lr_Ambiguous r \<and> lr_MatchConfidence r \<in> {''exact'', ''high''}"
    if "r \<in> set (normalizeLocationReferences refs)" "lr_Actionable r" for r refs
  proof -
    from that(1) have "clean_reference r = r"
      unfolding normalizeLocationReferences_def by (auto dest!: references.members_clean split: if_split_asm)
    then obtain x where "r = trust_reference x" by (metis clean_reference_def)
    with that(2) show ?thesis by (auto simp: trust_reference_def Let_def split: if_split_asm)
  qed
  then show ?thesis
    by (simp add: Normalize_def normalize_areas_def normalizeLocationReferences_def references.keys_distinct)
qed

text \<open>Merging the packet fields into a map is done once and for all: merging the result again changes
  no field, and the explicit fields of the map other than the packet itself are all kept.\<close>

theorem merge_idempotent:
  assumes "ce_packet cd (fst (FromMap cd data)) = ObjV kvs"
    and "cd_packet cd (ObjV kvs) = Some (fst (FromMap cd data))"
  shows "map_of (MergePacketFields cd (MergePacketFields cd data)) = map_of (MergePacketFields cd data) \<and>
    (\<forall>key. key \<noteq> ''alert_packet'' \<and> map_of data key \<noteq> None \<longrightarrow>
       map_of (MergePacketFields cd data) key = map_of data key)"
proof -
  obtain p ok where from_map: "FromMap cd data = (p, ok)" by (cases "FromMap cd data")
  then have norm: "Normalize p = p"
    by (auto simp: FromMap_def Let_def split: option.splits)
  from assms have enc: "ce_packet cd p = ObjV kvs" and dec: "cd_packet cd (ObjV kvs) = Some p"
    by (simp_all add: from_map)
  show ?thesis
  proof (cases ok)
    case False
    then show ?thesis by (simp add: MergePacketFields_def from_map)
  next
    case True
    let ?out = "MergePacketFields cd data"
    have out: "map_of ?out = (map_of (LegacyFields cd p) ++ map_of data)(''alert_packet'' \<mapsto> ObjV kvs)"
      by (simp add: MergePacketFields_def from_map True norm map_of_msg_set map_of_overlay enc)
    have "FromMap cd ?out = (p, True)"
      by (simp add: FromMap_def [of cd ?out] out packetFromAny_def dec norm)
    then have "map_of (MergePacketFields cd ?out) = (map_of (LegacyFields cd p) ++ map_of ?out)(''alert_packet'' \<mapsto> ObjV kvs)"
      unfolding MergePacketFields_def [of cd ?out] by (simp add: norm map_of_msg_set map_of_overlay enc)
    also have "\<dots> = map_of ?out"
      unfolding out by (auto simp: fun_eq_iff map_add_def split: option.splits)
    finally show ?thesis by (auto simp: out map_add_def split: option.splits)
  qed
qed

section \<open>Witnesses\<close>

definition sample_reference :: locationReference where
  "sample_reference =
     \<lparr>lr_CanonicalID = ''loc-1'', lr_CandidateID = [], lr_Name = ''Ottawa '', lr_Kind = [], lr_Country = ''CA'', lr_Region = ''ON'',
      lr_RawIdentifiers = [\<lparr>li_Authority = ''eccc'', li_Scheme = ''CLC'', li_Value = ''041610''\<rparr>],
      lr_CanonicalIdentifiers = [], lr_MatchScore = ''1'', lr_MatchConfidence = ''Exact'', lr_MatchMethod = ''code'',
      lr_SourceQuality = ''1'', lr_CatalogGeneration = [], lr_Actionable = True, lr_Ambiguous = False\<rparr>"

definition sample_packet :: packet where
  "sample_packet =
     \<lparr>pk_Version = 0, pk_ID = '' A1 '', pk_Source = ''naads'', pk_FeedID = ''feed'', pk_FeedIDs = [], pk_MessageType = ''Alert'',
      pk_Content = \<lparr>ct_Title = [], ct_Headline = ''tornado warning'', ct_Event = ''tornado'', ct_EventName = [], ct_Severity = [],
        ct_Urgency = [], ct_Certainty = [], ct_Description = [], ct_Instruction = [], ct_CustomText = [], ct_BackgroundColor = []\<rparr>,
      pk_Timing = \<lparr>tm_SentAt = [], tm_EffectiveAt = [], tm_OnsetAt = [], tm_ExpiresAt = [], tm_ScheduledFor = []\<rparr>,
      pk_Areas = \<lparr>ar_Names = [], ar_Codes = [], ar_Locations = [sample_reference, sample_reference\<lparr>lr_Ambiguous := True\<rparr>],
        ar_ThreatAreas = []\<rparr>,
      pk_Storm = None, pk_SAME = None, pk_Audio = None,
      pk_Options = \<lparr>op_BroadcastImmediate = False, op_PrependSAMETranslation = False\<rparr>,
      pk_Presentation = \<lparr>pn_SpeechText = [], pn_BannerText = []\<rparr>, pk_Meta = []\<rparr>"

text \<open>A codec that knows one packet.\<close>

definition sample_codec :: "packet \<Rightarrow> codec" where
  "sample_codec p =
     \<lparr>cd_references = (\<lambda>v. None), cd_threats = (\<lambda>v. None), cd_storm = (\<lambda>v. None),
      cd_packet = (\<lambda>v. if v = ObjV [(''id'', StrV (pk_ID p))] then Some p else None), cd_packetText = (\<lambda>s. None),
      cd_int = (\<lambda>n. case atoi n of None \<Rightarrow> 0 | Some i \<Rightarrow> i), ce_references = (\<lambda>refs. NilV), ce_threats = (\<lambda>areas. NilV),
      ce_storm = (\<lambda>s. NilV), ce_packet = (\<lambda>q. ObjV [(''id'', StrV (pk_ID q))])\<rparr>"

theorem actionable_locations_certain_witness:
  "map lr_Actionable (ar_Locations (pk_Areas (Normalize sample_packet))) = [True, False] \<and>
   lr_CanonicalID (hd (ar_Locations (pk_Areas (Normalize sample_packet)))) \<noteq> []"
proof -
  have "map lr_Actionable (ar_Locations (pk_Areas (Normalize sample_packet))) = [True, False]" by code_simp
  moreover from this have "hd (ar_Locations (pk_Areas (Normalize sample_packet))) \<in> set (ar_Locations (pk_Areas (Normalize sample_packet)))"
    "lr_Actionable (hd (ar_Locations (pk_Areas (Normalize sample_packet))))"
    by (auto simp: Cons_eq_map_conv map_eq_Cons_conv)
  ultimately show ?thesis using actionable_locations_certain [of sample_packet] by blast
qed

definition sample_map :: message where
  "sample_map = [(''alert_id'', StrV ''A1''), (''event'', StrV ''tornado'')]"

theorem merge_idempotent_witness:
  "map_of (MergePacketFields (sample_codec (Normalize (LegacyFromMap (sample_codec sample_packet) sample_map))) sample_map) ''event'' =
     Some (StrV ''tornado'')"
proof -
  let ?cd = "sample_codec (Normalize (LegacyFromMap (sample_codec sample_packet) sample_map))"
  have "fst (FromMap ?cd sample_map) = Normalize (LegacyFromMap ?cd sample_map)"
    by (simp add: FromMap_def sample_map_def Let_def)
  moreover have "LegacyFromMap ?cd sample_map = LegacyFromMap (sample_codec sample_packet) sample_map"
    by (simp add: LegacyFromMap_def sample_map_def locationReferences_def threatAreas_def storm_from_def
        hasAudioFields_def has_fields_def)
  ultimately have "fst (FromMap ?cd sample_map) = Normalize (LegacyFromMap (sample_codec sample_packet) sample_map)" by simp
  then have "map_of (MergePacketFields ?cd sample_map) ''event'' = map_of sample_map ''event''"
    using merge_idempotent [of ?cd sample_map "[(''id'', StrV (pk_ID (Normalize (LegacyFromMap (sample_codec sample_packet) sample_map))))]"]
    by (simp add: sample_codec_def) (simp add: sample_map_def)
  then show ?thesis by (simp add: sample_map_def)
qed

end
