(* ===== verification/Preparation.thy ===== *)
theory Preparation
  imports Feed_Planner Alert_Packet
begin

text \<open>
  Asynchronous preparation of the playlist service, \<open>internal/playlist/async.go\<close>: the worker pools
  with their slots, the result channel, the per-feed preparation state, the backlog of priority
  alerts with their versions and tokens, and the handlers of the results.
  \<^item> A goroutine started by \<open>tryStartRoutine\<close>, \<open>tryStartInsert\<close> or \<open>tryStartPriority\<close> is an entry of
    \<open>co_workers\<close>: first preparing and holding a slot of its pool, then a \<open>Sender\<close> that waits at the
    result channel.
  \<^item> The counters of type \<open>uint64\<close> (tokens, versions, generations) are natural numbers: they are
    increased by one per event and do not reach \<open>2^64\<close>.
  \<^item> Cancelling a worker's context only influences what the worker returns; results are arbitrary
    here, so the calls of \<open>cancel\<close> leave no trace in the state.
  \<^item> \<open>sv_commits\<close> records the jobs whose alert was committed and \<open>sv_dispatch\<close> the automation
    acknowledgements, oldest first. The alert files are outside the model: whether installing
    them succeeds is \<open>se_commit\<close>.
\<close>

section \<open>Data\<close>

record priorityPreparationJob =
  pj_token :: nat
  pj_feedID :: string
  pj_alertID :: string
  pj_version :: nat
  pj_data :: message

record priorityAlertPreparation =
  pp_manifestID :: string
  pp_alertText :: string
  pp_sameHeader :: string
  pp_audioPath :: string
  pp_finalAudioPath :: string

record routineWork =
  rw_feedID :: string
  rw_token :: nat
  rw_generation :: nat
  rw_startup :: bool
  rw_insert :: bool
  rw_snapshot :: feedPlanner
  rw_data :: message
  rw_now :: instant

record routinePreparationResult =
  rr_feedID :: string
  rr_token :: nat
  rr_generation :: nat
  rr_startup :: bool
  rr_insert :: bool
  rr_prepared :: routinePreparation

record priorityPreparationResult =
  pr_job :: priorityPreparationJob
  pr_prepared :: priorityAlertPreparation
  pr_err :: "go_error option"

datatype preparationResult =
    RoutineResult routinePreparationResult
  | PriorityResult priorityPreparationResult

datatype worker =
    RoutineWorker routineWork
  | PriorityWorker priorityPreparationJob
  | Sender preparationResult

record preparationCoordinator =
  co_routineWorkers :: nat
  co_priorityWorkers :: nat
  co_routineSlots :: nat
  co_prioritySlots :: nat
  co_resultSlots :: nat
  co_results :: "preparationResult list"
  co_workers :: "worker list"

record activePriorityPreparation =
  ap_token :: nat
  ap_alertID :: string
  ap_version :: nat

record feedPreparationState =
  fs_routineGeneration :: nat
  fs_routineToken :: nat
  fs_routineInFlight :: bool
  fs_priorityVersions :: "string \<rightharpoonup> nat"
  fs_priorityActive :: "activePriorityPreparation option"

datatype dispatch = Dispatch string string string string

record service =
  sv_feeds :: "string \<rightharpoonup> feedPlanner"
  sv_preparations :: preparationCoordinator
  sv_states :: "string \<rightharpoonup> feedPreparationState"
  sv_pending :: "priorityPreparationJob list"
  sv_nextToken :: nat
  sv_maxPending :: int
  sv_lookahead :: duration
  sv_commits :: "priorityPreparationJob list"
  sv_dispatch :: "dispatch list"

text \<open>What one handler call reads from outside. \<open>se_order\<close> is the order in which the range over the feed
  map visits them.\<close>

record service_env =
  se_planner :: "string \<Rightarrow> planner_env"
  se_now :: instant
  se_done :: bool
  se_parseTime :: "string \<Rightarrow> instant"
  se_codec :: codec
  se_order :: "string list"
  se_commit :: "priorityAlertPreparation \<Rightarrow> go_error option"

section \<open>Slots and workers\<close>

definition newPreparationCoordinator :: "int \<Rightarrow> int \<Rightarrow> preparationCoordinator" where
  "newPreparationCoordinator routineWorkers priorityWorkers =
     \<lparr>co_routineWorkers = (if routineWorkers \<le> 0 then 4 else nat routineWorkers),
      co_priorityWorkers = (if priorityWorkers \<le> 0 then 4 else nat priorityWorkers),
      co_routineSlots = 0, co_prioritySlots = 0, co_resultSlots = 0, co_results = [], co_workers = []\<rparr>"

text \<open>The capacity of the channels \<open>results\<close> and \<open>resultSlots\<close>.\<close>

definition result_cap :: "preparationCoordinator \<Rightarrow> nat" where
  "result_cap c = co_routineWorkers c + co_priorityWorkers c"

definition reserveResultSlot :: "preparationCoordinator \<Rightarrow> preparationCoordinator option" where
  "reserveResultSlot c =
     (if co_resultSlots c < result_cap c then Some (c\<lparr>co_resultSlots := co_resultSlots c + 1\<rparr>) else None)"

definition releaseResultSlot :: "preparationCoordinator \<Rightarrow> preparationCoordinator" where
  "releaseResultSlot c = (if co_resultSlots c > 0 then c\<lparr>co_resultSlots := co_resultSlots c - 1\<rparr> else c)"

text \<open>The common part of \<open>tryStartRoutine\<close> and \<open>tryStartInsert\<close>.\<close>

definition try_routine_slot :: "routineWork \<Rightarrow> preparationCoordinator \<Rightarrow> preparationCoordinator option" where
  "try_routine_slot work c =
     (if co_routineSlots c < co_routineWorkers c then
        (case reserveResultSlot (c\<lparr>co_routineSlots := co_routineSlots c + 1\<rparr>) of
           None \<Rightarrow> None
         | Some c' \<Rightarrow> Some (c'\<lparr>co_workers := co_workers c' @ [RoutineWorker work]\<rparr>))
      else None)"

definition tryStartRoutine ::
  "feedPlanner \<Rightarrow> nat \<Rightarrow> nat \<Rightarrow> bool \<Rightarrow> instant \<Rightarrow> preparationCoordinator \<Rightarrow> preparationCoordinator option" where
  "tryStartRoutine planner token generation startup now c =
     try_routine_slot
       \<lparr>rw_feedID = pl_feedID planner, rw_token = token, rw_generation = generation, rw_startup = startup,
        rw_insert = False, rw_snapshot = planner, rw_data = [], rw_now = now\<rparr> c"

definition tryStartInsert ::
  "feedPlanner \<Rightarrow> nat \<Rightarrow> nat \<Rightarrow> message \<Rightarrow> preparationCoordinator \<Rightarrow> preparationCoordinator option" where
  "tryStartInsert planner token generation data c =
     try_routine_slot
       \<lparr>rw_feedID = pl_feedID planner, rw_token = token, rw_generation = generation, rw_startup = False,
        rw_insert = True, rw_snapshot = planner, rw_data = data, rw_now = 0\<rparr> c"

definition tryStartPriority ::
  "priorityPreparationJob \<Rightarrow> preparationCoordinator \<Rightarrow> preparationCoordinator option" where
  "tryStartPriority job c =
     (if co_prioritySlots c < co_priorityWorkers c then
        (case reserveResultSlot (c\<lparr>co_prioritySlots := co_prioritySlots c + 1\<rparr>) of
           None \<Rightarrow> None
         | Some c' \<Rightarrow> Some (c'\<lparr>co_workers := co_workers c' @ [PriorityWorker job]\<rparr>))
      else None)"

text \<open>What a routine worker computes on its snapshot (\<open>prepareRoutine\<close> and \<open>prepareInsert\<close>).\<close>

definition prepareRoutine ::
  "planner_env \<Rightarrow> (nat \<Rightarrow> instant) \<Rightarrow> bool \<Rightarrow> bool \<Rightarrow> instant \<Rightarrow> feedPlanner \<Rightarrow> routinePreparation" where
  "prepareRoutine env clocks ctxErr startup now planner =
     (if startup then
        (case prepareStartupPrimer env clocks ctxErr now planner of
           (q, items) \<Rightarrow> \<lparr>rt_planner = Some q, rt_items = items, rt_ok = True\<rparr>)
      else
        (case nextPlannedItem env now planner of
           (q, None) \<Rightarrow> \<lparr>rt_planner = Some q, rt_items = [], rt_ok = False\<rparr>
         | (q, Some item) \<Rightarrow> \<lparr>rt_planner = Some q, rt_items = [item], rt_ok = True\<rparr>))"

definition routine_work_result ::
  "planner_env \<Rightarrow> (nat \<Rightarrow> instant) \<Rightarrow> bool \<Rightarrow> routineWork \<Rightarrow> preparationResult" where
  "routine_work_result env clocks ctxErr work =
     RoutineResult
       \<lparr>rr_feedID = rw_feedID work, rr_token = rw_token work, rr_generation = rw_generation work,
        rr_startup = rw_startup work, rr_insert = rw_insert work,
        rr_prepared =
          (if rw_insert work then prepareInsert env (rw_data work) (rw_snapshot work)
           else prepareRoutine env clocks ctxErr (rw_startup work) (rw_now work) (rw_snapshot work))\<rparr>"

text \<open>A worker that has finished gives its slot back and waits at the result channel; the send goes
  through when the channel has room. When the connection ends the waiting worker may drop its
  result instead and give the result slot back.\<close>

definition finish_routine :: "preparationResult \<Rightarrow> nat \<Rightarrow> preparationCoordinator \<Rightarrow> preparationCoordinator" where
  "finish_routine result i c =
     c\<lparr>co_routineSlots := co_routineSlots c - 1, co_workers := (co_workers c)[i := Sender result]\<rparr>"

definition finish_priority ::
  "priorityAlertPreparation \<Rightarrow> go_error option \<Rightarrow> priorityPreparationJob \<Rightarrow> nat \<Rightarrow>
   preparationCoordinator \<Rightarrow> preparationCoordinator" where
  "finish_priority prepared err job i c =
     c\<lparr>co_prioritySlots := co_prioritySlots c - 1,
       co_workers := (co_workers c)[i := Sender (PriorityResult
         \<lparr>pr_job = job, pr_prepared = prepared, pr_err = err\<rparr>)]\<rparr>"

definition remove_worker :: "nat \<Rightarrow> preparationCoordinator \<Rightarrow> preparationCoordinator" where
  "remove_worker i c = c\<lparr>co_workers := take i (co_workers c) @ drop (Suc i) (co_workers c)\<rparr>"

definition send_result :: "preparationResult \<Rightarrow> nat \<Rightarrow> preparationCoordinator \<Rightarrow> preparationCoordinator option" where
  "send_result result i c =
     (if length (co_results c) < result_cap c
      then Some ((remove_worker i c)\<lparr>co_results := co_results c @ [result]\<rparr>) else None)"

definition drop_result :: "nat \<Rightarrow> preparationCoordinator \<Rightarrow> preparationCoordinator" where
  "drop_result i c = releaseResultSlot (remove_worker i c)"

section \<open>Routine preparation\<close>

definition newPreparationState :: feedPreparationState where
  "newPreparationState =
     \<lparr>fs_routineGeneration = 0, fs_routineToken = 0, fs_routineInFlight = False,
      fs_priorityVersions = Map.empty, fs_priorityActive = None\<rparr>"

text \<open>\<open>preparationState\<close> creates a missing entry; writing the state back is \<open>set_state\<close>.\<close>

definition preparationState :: "service \<Rightarrow> string \<Rightarrow> feedPreparationState" where
  "preparationState s feedID =
     (case sv_states s feedID of None \<Rightarrow> newPreparationState | Some state \<Rightarrow> state)"

definition set_state :: "string \<Rightarrow> feedPreparationState \<Rightarrow> service \<Rightarrow> service" where
  "set_state feedID state s = s\<lparr>sv_states := (sv_states s)(feedID \<mapsto> state)\<rparr>"

definition set_planner :: "string \<Rightarrow> feedPlanner \<Rightarrow> service \<Rightarrow> service" where
  "set_planner feedID planner s = s\<lparr>sv_feeds := (sv_feeds s)(feedID \<mapsto> planner)\<rparr>"

definition hasPriorityPreparation :: "service \<Rightarrow> string \<Rightarrow> bool" where
  "hasPriorityPreparation s feedID \<longleftrightarrow>
     (case sv_states s feedID of Some state \<Rightarrow> fs_priorityActive state \<noteq> None | None \<Rightarrow> False) \<or>
     list_ex (\<lambda>job. pj_feedID job = feedID) (sv_pending s)"

definition startRoutinePreparation :: "feedPlanner \<Rightarrow> instant \<Rightarrow> bool \<Rightarrow> service \<Rightarrow> service" where
  "startRoutinePreparation planner now startup s =
     (let feedID = pl_feedID planner;
          state = preparationState s feedID
      in if fs_routineInFlight state then set_state feedID state s
         else
           (let state = state\<lparr>fs_routineToken := fs_routineToken state + 1\<rparr>
            in case tryStartRoutine planner (fs_routineToken state) (fs_routineGeneration state) startup now
                      (sv_preparations s) of
                 None \<Rightarrow> set_state feedID state s
               | Some c \<Rightarrow>
                   set_state feedID (state\<lparr>fs_routineInFlight := True\<rparr>) (s\<lparr>sv_preparations := c\<rparr>)))"

definition startRoutineInsert :: "feedPlanner \<Rightarrow> message \<Rightarrow> service \<Rightarrow> service" where
  "startRoutineInsert planner data s =
     (let feedID = pl_feedID planner;
          state = preparationState s feedID;
          token = fs_routineToken state + 1
      in case tryStartInsert planner token (fs_routineGeneration state) data (sv_preparations s) of
           None \<Rightarrow>
             set_planner feedID
               (planner\<lparr>pl_lastError := ''routine preparation worker pool is full; insert was dropped''\<rparr>)
               (set_state feedID state s)
         | Some c \<Rightarrow>
             set_state feedID (state\<lparr>fs_routineToken := token, fs_routineInFlight := True\<rparr>)
               (s\<lparr>sv_preparations := c\<rparr>))"

definition invalidateRoutinePreparation :: "string \<Rightarrow> service \<Rightarrow> service" where
  "invalidateRoutinePreparation feedID s =
     (let state = preparationState s feedID
      in set_state feedID (state\<lparr>fs_routineGeneration := fs_routineGeneration state + 1\<rparr>) s)"

text \<open>\<open>tickFeedAsync\<close>: the planner is stored back after the pruning and the replay.\<close>

definition tickFeedAsync :: "service_env \<Rightarrow> string \<Rightarrow> instant \<Rightarrow> service \<Rightarrow> service" where
  "tickFeedAsync senv feedID now s =
     (case sv_feeds s feedID of
        None \<Rightarrow> s
      | Some planner \<Rightarrow>
          (let env = se_planner senv feedID
           in if \<not> env_routineEnabled env then s
              else if pl_mode planner \<noteq> ''running'' \<or> pl_priorityActive planner > 0 \<or>
                      hasPriorityPreparation s (pl_feedID planner) then s
              else if pl_startupPrimerPending planner then
                (if now < pl_startupPrimerAt planner then s
                 else startRoutinePreparation planner now True s)
              else
                (let planner = replayPendingItemsIfDue env now (dropCompleted env planner);
                     s = set_planner feedID planner s;
                     lookahead = (if sv_lookahead s \<le> 0 then 2 * minute else sv_lookahead s)
                 in if \<not> isZero (pl_nextRoutineRetryAt planner) \<and> now < pl_nextRoutineRetryAt planner then s
                    else if queuedCount planner \<ge> env_maxQueued env \<or>
                            \<not> timelineEnd planner now < now + lookahead then s
                    else startRoutinePreparation planner now False s)))"

definition tickFeeds :: "service_env \<Rightarrow> instant \<Rightarrow> string \<Rightarrow> service \<Rightarrow> service" where
  "tickFeeds senv now completedFeedID s =
     (if se_done senv then s
      else
        (let s = foldl (\<lambda>s feedID. if feedID = completedFeedID then s else tickFeedAsync senv feedID now s)
                   s (se_order senv)
         in if completedFeedID = [] then s else tickFeedAsync senv completedFeedID now s))"

text \<open>The loop that queues the prepared items, each rebased behind the current timeline.\<close>

fun queue_rebased :: "planner_env \<Rightarrow> playlistItem list \<Rightarrow> feedPlanner \<Rightarrow> feedPlanner" where
  "queue_rebased env [] p = p"
| "queue_rebased env (prepared # rest) p =
     (let item = rebasePreparedItem env p prepared (env_clock env)
      in case publishReady env item (p\<lparr>pl_queue := pl_queue p @ [item]\<rparr>) of
           (p, Some e) \<Rightarrow> p\<lparr>pl_lastError := e\<rparr>
         | (p, None) \<Rightarrow> queue_rebased env rest p)"

definition current_routine :: "routinePreparationResult \<Rightarrow> feedPreparationState \<Rightarrow> bool" where
  "current_routine result state \<longleftrightarrow>
     rr_generation result = fs_routineGeneration state \<and> fs_routineToken state = rr_token result"

definition commit_routine :: "planner_env \<Rightarrow> routinePreparationResult \<Rightarrow> feedPlanner \<Rightarrow> feedPlanner" where
  "commit_routine env result planner =
     (let p = applyRoutinePlanningState (rt_planner (rr_prepared result)) planner
      in if rr_insert result
         then if rt_ok (rr_prepared result) then queue_rebased env (rt_items (rr_prepared result)) p else p
         else
           (let p = (if rr_startup result then p\<lparr>pl_startupPrimerPending := False\<rparr> else p)
            in if rt_ok (rr_prepared result) \<and> pl_mode p = ''running'' \<and> pl_priorityActive p = 0
               then queue_rebased env (rt_items (rr_prepared result)) p else p))"

definition handleRoutinePreparationResult :: "service_env \<Rightarrow> routinePreparationResult \<Rightarrow> service \<Rightarrow> service" where
  "handleRoutinePreparationResult senv result s =
     (case sv_feeds s (rr_feedID result) of
        None \<Rightarrow> s
      | Some planner \<Rightarrow>
          (let feedID = rr_feedID result;
               env = se_planner senv feedID;
               state = preparationState s feedID;
               state = (if fs_routineInFlight state \<and> fs_routineToken state = rr_token result
                        then state\<lparr>fs_routineInFlight := False\<rparr> else state);
               s = set_state feedID state s
           in if \<not> current_routine result state then tickFeeds senv (se_now senv) feedID s
              else tickFeeds senv (se_now senv) feedID
                     (set_planner feedID (commit_routine env result planner) s)))"

section \<open>Priority alerts\<close>

text \<open>\<open>parseTime\<close> of a data field; \<open>se_parseTime\<close> reads an RFC 3339 time.\<close>

definition parse_field :: "(string \<Rightarrow> instant) \<Rightarrow> message \<Rightarrow> string list \<Rightarrow> instant" where
  "parse_field parseTime data keys =
     (let raw = firstText [] data keys in if trimSpace raw = [] then 0 else parseTime (trimSpace raw))"

definition priorityAlertRequestStale :: "(string \<Rightarrow> instant) \<Rightarrow> message \<Rightarrow> instant \<Rightarrow> bool" where
  "priorityAlertRequestStale parseTime data now =
     (let header = toLower (firstText [] data [''title'', ''header'']);
          expires = parse_field parseTime data [''alert_expires_at'', ''expires''];
          sent = parse_field parseTime data [''alert_sent_at'', ''sent''];
          event = toUpper (firstText [] data [''same_event'', ''event'']);
          limit = (if event = ''SVR'' \<or> event = ''TOR'' \<or> containsStr header ''severe thunderstorm warning'' \<or>
                      containsStr header ''tornado warning''
                   then 30 * minute else 60 * minute)
      in if equalFold (firstText [] data [''message_type'', ''msg_type'']) ''Cancel'' then True
         else if containsStr header ''ended'' \<or> containsStr header ''cancelled'' \<or> containsStr header ''canceled''
         then True
         else if boolAny (firstValue [] data [''force_broadcast'', ''force'', ''rebroadcast'']) then False
         else if \<not> isZero expires \<and> \<not> now < expires then True
         else if isZero sent \<or> now < sent then False
         else now - sent \<ge> limit)"

definition stale :: "service_env \<Rightarrow> message \<Rightarrow> bool" where
  "stale senv data = priorityAlertRequestStale (se_parseTime senv) data (se_now senv)"

definition normalizePriorityAlertRequest :: "service_env \<Rightarrow> message \<Rightarrow> message \<times> string" where
  "normalizePriorityAlertRequest senv data =
     (let normalized = MergePacketFields (se_codec senv) data;
          id = firstText [] normalized [''alert_id'', ''id'', ''subject''];
          alertID = (if id = [] then ''cap-'' @ itoaInt (unixNano (se_now senv)) else id)
      in (msg_set ''alert_id'' (StrV alertID) normalized, alertID))"

definition publishAutomationDispatchStatus ::
  "service_env \<Rightarrow> string \<Rightarrow> message \<Rightarrow> string \<Rightarrow> string \<Rightarrow> service \<Rightarrow> service" where
  "publishAutomationDispatchStatus senv feedID data status errorText s =
     (let dispatchKey = firstText [] data [''dispatch_key''];
          status = toLower (trimSpace status)
      in if \<not> env_bridge (se_planner senv feedID) \<or> dispatchKey = [] then s
         else if status \<notin> {''accepted'', ''completed'', ''failed''} then s
         else s\<lparr>sv_dispatch := sv_dispatch s @ [Dispatch feedID dispatchKey status (trimSpace errorText)]\<rparr>)"

definition releasePriorityVersion :: "string \<Rightarrow> string \<Rightarrow> service \<Rightarrow> service" where
  "releasePriorityVersion feedID alertID s =
     (case sv_states s feedID of
        None \<Rightarrow> s
      | Some state \<Rightarrow>
          if (case fs_priorityActive state of Some a \<Rightarrow> ap_alertID a = alertID | None \<Rightarrow> False) then s
          else if list_ex (\<lambda>job. pj_feedID job = feedID \<and> pj_alertID job = alertID) (sv_pending s) then s
          else set_state feedID
                 (state\<lparr>fs_priorityVersions := (fs_priorityVersions state)(alertID := None)\<rparr>) s)"

definition release_versions :: "priorityPreparationJob list \<Rightarrow> service \<Rightarrow> service" where
  "release_versions jobs s = foldl (\<lambda>s job. releasePriorityVersion (pj_feedID job) (pj_alertID job) s) s jobs"

definition pruneStalePriorityPreparations :: "service_env \<Rightarrow> service \<Rightarrow> service" where
  "pruneStalePriorityPreparations senv s =
     (let removed = filter (\<lambda>job. stale senv (pj_data job)) (sv_pending s)
      in release_versions removed
           (s\<lparr>sv_pending := filter (\<lambda>job. \<not> stale senv (pj_data job)) (sv_pending s)\<rparr>))"

text \<open>The scan for the first pending job of a known feed without an active preparation.\<close>

definition startable :: "service \<Rightarrow> priorityPreparationJob \<Rightarrow> bool" where
  "startable s job \<longleftrightarrow> sv_feeds s (pj_feedID job) \<noteq> None \<and>
     fs_priorityActive (preparationState s (pj_feedID job)) = None"

fun take_startable ::
  "(priorityPreparationJob \<Rightarrow> bool) \<Rightarrow> priorityPreparationJob list \<Rightarrow>
   (priorityPreparationJob \<times> priorityPreparationJob list) option" where
  "take_startable P [] = None"
| "take_startable P (job # jobs) =
     (if P job then Some (job, jobs)
      else map_option (\<lambda>(found, rest). (found, job # rest)) (take_startable P jobs))"

lemma take_startable_split:
  "take_startable P jobs = Some (job, rest) \<Longrightarrow>
   \<exists>before after. jobs = before @ job # after \<and> rest = before @ after \<and> P job"
proof (induction jobs arbitrary: rest)
  case (Cons j jobs)
  show ?case
  proof (cases "P j")
    case True
    with Cons.prems show ?thesis by (intro exI [of _ "[]"] exI [of _ jobs]) auto
  next
    case False
    with Cons.prems obtain rest' where "take_startable P jobs = Some (job, rest')" and "rest = j # rest'" by auto
    with Cons.IH [of rest'] show ?thesis by (metis append_Cons)
  qed
qed simp

text \<open>The loop of \<open>startPendingPriorityPreparations\<close>: every round removes a pending job.\<close>

definition start_job ::
  "priorityPreparationJob \<Rightarrow> priorityPreparationJob list \<Rightarrow> preparationCoordinator \<Rightarrow> service \<Rightarrow> service" where
  "start_job job rest c s =
     set_state (pj_feedID job)
       ((preparationState s (pj_feedID job))\<lparr>fs_priorityActive :=
          Some \<lparr>ap_token = pj_token job, ap_alertID = pj_alertID job, ap_version = pj_version job\<rparr>\<rparr>)
       (s\<lparr>sv_preparations := c, sv_pending := rest\<rparr>)"

function start_pending :: "service \<Rightarrow> service" where
  "start_pending s =
     (case take_startable (startable s) (sv_pending s) of
        None \<Rightarrow> s
      | Some (job, rest) \<Rightarrow>
          (case tryStartPriority job (sv_preparations s) of
             None \<Rightarrow> s
           | Some c \<Rightarrow> start_pending (start_job job rest c s)))"
  by pat_completeness auto
termination
  by (relation "measure (\<lambda>s. length (sv_pending s))")
    (auto simp: start_job_def set_state_def dest!: take_startable_split)

declare start_pending.simps [simp del]

definition startPendingPriorityPreparations :: "service_env \<Rightarrow> service \<Rightarrow> service" where
  "startPendingPriorityPreparations senv s =
     (if se_done senv then s else start_pending (pruneStalePriorityPreparations senv s))"

text \<open>Accepting a request: it replaces a pending one for the same alert, and its version makes every
  earlier preparation of the alert obsolete.\<close>

definition without_alert :: "string \<Rightarrow> string \<Rightarrow> service \<Rightarrow> priorityPreparationJob list" where
  "without_alert feedID alertID s =
     filter (\<lambda>job. \<not> (pj_feedID job = feedID \<and> pj_alertID job = alertID)) (sv_pending s)"

definition pending_limit :: "service \<Rightarrow> int" where
  "pending_limit s = (if sv_maxPending s \<le> 0 then 64 else sv_maxPending s)"

text \<open>\<open>priorityVersions[alertID]++\<close>, where a missing entry counts as 0.\<close>

definition bump :: "string \<Rightarrow> (string \<rightharpoonup> nat) \<Rightarrow> (string \<rightharpoonup> nat)" where
  "bump alertID versions = versions(alertID \<mapsto> (case versions alertID of None \<Rightarrow> 1 | Some v \<Rightarrow> v + 1))"

definition push_priority :: "string \<Rightarrow> string \<Rightarrow> message \<Rightarrow> service \<Rightarrow> service" where
  "push_priority feedID alertID data s =
     (let state = preparationState s feedID;
          version = (case fs_priorityVersions state alertID of None \<Rightarrow> 1 | Some v \<Rightarrow> v + 1);
          token = sv_nextToken s + 1
      in (set_state feedID
            (state\<lparr>fs_priorityVersions := bump alertID (fs_priorityVersions state)\<rparr>) s)
         \<lparr>sv_nextToken := token,
          sv_pending := without_alert feedID alertID s @
            [\<lparr>pj_token = token, pj_feedID = feedID, pj_alertID = alertID, pj_version = version, pj_data = data\<rparr>]\<rparr>)"

definition enqueuePriorityPreparation ::
  "service_env \<Rightarrow> string \<Rightarrow> message \<Rightarrow> service \<Rightarrow> service \<times> go_error option" where
  "enqueuePriorityPreparation senv feedID raw s =
     (case sv_feeds s feedID of
        None \<Rightarrow> (s, None)
      | Some planner \<Rightarrow>
          (case normalizePriorityAlertRequest senv raw of
             (data, alertID) \<Rightarrow>
               if stale senv data
               then (set_planner feedID (planner\<lparr>pl_lastError := []\<rparr>) s, Some ''priority alert request is stale'')
               else
                 (let s = pruneStalePriorityPreparations senv (invalidateRoutinePreparation feedID s);
                      full = ''priority preparation backlog is full ('' @ itoaInt (pending_limit s) @ '')''
                  in if int (length (without_alert feedID alertID s)) \<ge> pending_limit s
                     then (set_planner feedID (planner\<lparr>pl_lastError := full\<rparr>) s,
                           Some (''enqueue priority alert: '' @ full))
                     else (startPendingPriorityPreparations senv (push_priority feedID alertID data s), None))))"

definition priorityAlertIDs :: "message \<Rightarrow> string list" where
  "priorityAlertIDs data =
     (let ids = stringListAny (firstValue [] data [''alert_ids'']);
          id = firstText [] data [''alert_id'', ''id'', ''subject'']
      in uniqueStrings (if id \<noteq> [] then ids @ [id] else ids))"

fun bump_versions :: "string list \<Rightarrow> (string \<rightharpoonup> nat) \<Rightarrow> (string \<rightharpoonup> nat)" where
  "bump_versions [] versions = versions"
| "bump_versions (alertID # ids) versions = bump_versions ids (bump alertID versions)"

definition cancelPriorityPreparations :: "string \<Rightarrow> message \<Rightarrow> service \<Rightarrow> service" where
  "cancelPriorityPreparations feedID data s =
     (let ids = priorityAlertIDs data
      in if ids = [] then s
         else
           (let state = preparationState s feedID;
                s = set_state feedID
                      (state\<lparr>fs_priorityVersions := bump_versions ids (fs_priorityVersions state)\<rparr>) s;
                s = s\<lparr>sv_pending := filter (\<lambda>job. \<not> (pj_feedID job = feedID \<and> pj_alertID job \<in> set ids)) (sv_pending s)\<rparr>
            in foldl (\<lambda>s alertID. releasePriorityVersion feedID alertID s) s ids))"

definition commitPriorityAlert ::
  "service_env \<Rightarrow> priorityPreparationResult \<Rightarrow> service \<Rightarrow> service \<times> go_error option" where
  "commitPriorityAlert senv result s =
     (case se_commit senv (pr_prepared result) of
        Some e \<Rightarrow> (s, Some e)
      | None \<Rightarrow>
          (publishAutomationDispatchStatus senv (pj_feedID (pr_job result)) (pj_data (pr_job result))
             ''completed'' [] (s\<lparr>sv_commits := sv_commits s @ [pr_job result]\<rparr>), None))"

definition set_lastError :: "string \<Rightarrow> string \<Rightarrow> service \<Rightarrow> service" where
  "set_lastError feedID e s =
     (case sv_feeds s feedID of
        None \<Rightarrow> s
      | Some planner \<Rightarrow> set_planner feedID (planner\<lparr>pl_lastError := e\<rparr>) s)"

text \<open>The body of \<open>handlePriorityPreparationResult\<close> without the deferred release; \<open>current\<close> and \<open>owner\<close>
  are the two conditions under which the result still counts.\<close>

definition settle_priority ::
  "service_env \<Rightarrow> priorityPreparationResult \<Rightarrow> bool \<Rightarrow> bool \<Rightarrow> service \<Rightarrow> service" where
  "settle_priority senv result owner current s =
     (let job = pr_job result; feedID = pj_feedID job; data = pj_data job
      in if \<not> owner \<or> \<not> current \<or> stale senv data then
           (if current \<and> stale senv data
            then publishAutomationDispatchStatus senv feedID data ''failed''
                   ''priority alert request became stale during preparation'' s
            else s)
         else
           (case pr_err result of
              Some e \<Rightarrow> publishAutomationDispatchStatus senv feedID data ''failed'' e (set_lastError feedID e s)
            | None \<Rightarrow>
                (case commitPriorityAlert senv result s of
                   (s, Some e) \<Rightarrow>
                     publishAutomationDispatchStatus senv feedID data ''failed'' e (set_lastError feedID e s)
                 | (s, None) \<Rightarrow> set_lastError feedID [] s)))"

definition take_priority_result :: "service_env \<Rightarrow> priorityPreparationResult \<Rightarrow> service \<Rightarrow> service" where
  "take_priority_result senv result s =
     (let job = pr_job result; feedID = pj_feedID job;
          state = preparationState s feedID;
          owner = (case fs_priorityActive state of Some a \<Rightarrow> ap_token a = pj_token job | None \<Rightarrow> False);
          state = (if owner then state\<lparr>fs_priorityActive := None\<rparr> else state);
          current = ((case fs_priorityVersions state (pj_alertID job) of None \<Rightarrow> 0 | Some v \<Rightarrow> v) = pj_version job)
      in settle_priority senv result owner current (set_state feedID state s))"

definition handlePriorityPreparationResult :: "service_env \<Rightarrow> priorityPreparationResult \<Rightarrow> service \<Rightarrow> service" where
  "handlePriorityPreparationResult senv result s =
     (case sv_feeds s (pj_feedID (pr_job result)) of
        None \<Rightarrow> s
      | Some planner \<Rightarrow>
          releasePriorityVersion (pj_feedID (pr_job result)) (pj_alertID (pr_job result))
            (startPendingPriorityPreparations senv (take_priority_result senv result s)))"

definition handlePreparationResult :: "service_env \<Rightarrow> preparationResult \<Rightarrow> service \<Rightarrow> service" where
  "handlePreparationResult senv result s =
     (let s = s\<lparr>sv_preparations := releaseResultSlot (sv_preparations s)\<rparr>
      in case result of
           RoutineResult r \<Rightarrow> handleRoutinePreparationResult senv r s
         | PriorityResult r \<Rightarrow> handlePriorityPreparationResult senv r s)"

end
