(* ===== verification/Playlist_Service.thy ===== *)
theory Playlist_Service
  imports Preparation
begin

text \<open>
  The event loop of the playlist service (\<open>internal/playlist/service.go\<close>): which feeds an event is
  for, what each event does to the planners and to the preparations, and the steps the whole
  service can take: an event of the bus, a tick of the timer, a received result, and the progress
  of the workers.
\<close>

section \<open>Addressing\<close>

definition matchFeeds :: "service_env \<Rightarrow> service \<Rightarrow> string \<Rightarrow> string list" where
  "matchFeeds senv s raw =
     (let feedID = trimSpace raw
      in if feedID = [] \<or> feedID = ''*'' then filter (\<lambda>id. sv_feeds s id \<noteq> None) (se_order senv)
         else if sv_feeds s feedID \<noteq> None then [feedID]
         else [])"

definition matchFeedsFromEvent :: "service_env \<Rightarrow> service \<Rightarrow> message \<Rightarrow> string list" where
  "matchFeedsFromEvent senv s event =
     (let data = mapAt event ''data'';
          feedID = firstText event data [''feed_id''];
          named = (if feedID \<noteq> [] then [feedID] else []) @
                  stringListAny (firstValue event data [''feed_ids''])
      in collect_unique Some (\<lambda>id. id) [] (concat (map (matchFeeds senv s) named)))"

definition eventDataWithIdentity :: "message \<Rightarrow> message" where
  "eventDataWithIdentity event =
     (let data = mapAt event ''data'';
          subject = firstText event [] [''alert_id'', ''id'', ''subject''];
          data = (if firstText [] data [''alert_id'', ''id'', ''subject''] = [] \<and> subject \<noteq> []
                  then msg_set ''alert_id'' (StrV subject) data else data);
          feedID = firstText event [] [''feed_id''];
          data = (if firstText [] data [''feed_id''] = [] \<and> feedID \<noteq> []
                  then msg_set ''feed_id'' (StrV feedID) data else data)
      in if map_of data ''alert_ids'' = None
         then (case map_of event ''alert_ids'' of
                 None \<Rightarrow> data
               | Some alertIDs \<Rightarrow> msg_set ''alert_ids'' alertIDs data)
         else data)"

definition shouldDeferCAPPlayoutToRust :: "bool \<Rightarrow> message \<Rightarrow> bool" where
  "shouldDeferCAPPlayoutToRust rustPlayoutEnabled event \<longleftrightarrow>
     rustPlayoutEnabled \<and>
     stringAt event ''type'' \<in> {''cap.alert.broadcast.requested'', ''cap.alert.cancelled''}"

definition isPlayoutReadyEvent :: "message \<Rightarrow> bool" where
  "isPlayoutReadyEvent event \<longleftrightarrow>
     equalFold (stringAt event ''source'') ''haze-playout'' \<or>
     equalFold (firstText event (mapAt event ''data'') [''service'']) ''haze-playout''"

section \<open>Handlers\<close>

definition update_planner :: "string \<Rightarrow> (feedPlanner \<Rightarrow> feedPlanner) \<Rightarrow> service \<Rightarrow> service" where
  "update_planner feedID f s =
     (case sv_feeds s feedID of None \<Rightarrow> s | Some planner \<Rightarrow> set_planner feedID (f planner) s)"

definition for_feeds :: "string list \<Rightarrow> (string \<Rightarrow> service \<Rightarrow> service) \<Rightarrow> service \<Rightarrow> service" where
  "for_feeds feedIDs f s = foldl (\<lambda>s feedID. f feedID s) s feedIDs"

definition handle_control :: "string \<Rightarrow> string \<Rightarrow> service \<Rightarrow> service" where
  "handle_control action feedID s =
     update_planner feedID (applyControl action) (invalidateRoutinePreparation feedID s)"

definition handle_insert :: "service_env \<Rightarrow> message \<Rightarrow> string \<Rightarrow> service \<Rightarrow> service" where
  "handle_insert senv data feedID s =
     (let s = invalidateRoutinePreparation feedID s
      in case sv_feeds s feedID of
           None \<Rightarrow> s
         | Some planner \<Rightarrow>
             (let planner = prepareInsertPosition (se_planner senv feedID) data planner
              in startRoutineInsert planner data (set_planner feedID planner s)))"

definition handle_broadcast :: "service_env \<Rightarrow> message \<Rightarrow> string \<Rightarrow> service \<Rightarrow> service" where
  "handle_broadcast senv data feedID s =
     (case enqueuePriorityPreparation senv feedID data s of
        (s, Some e) \<Rightarrow> publishAutomationDispatchStatus senv feedID data ''failed'' e s
      | (s, None) \<Rightarrow> publishAutomationDispatchStatus senv feedID data ''accepted'' [] s)"

definition handle_cancelled :: "service_env \<Rightarrow> message \<Rightarrow> string \<Rightarrow> service \<Rightarrow> service" where
  "handle_cancelled senv data feedID s =
     update_planner feedID (invalidateRoutineAlerts (se_planner senv feedID) True)
       (invalidateRoutinePreparation feedID (cancelPriorityPreparations feedID data s))"

definition handle_registry :: "service_env \<Rightarrow> string \<Rightarrow> service \<Rightarrow> service" where
  "handle_registry senv feedID s =
     update_planner feedID (invalidateRoutineAlerts (se_planner senv feedID) False)
       (invalidateRoutinePreparation feedID s)"

definition handle_alert_started :: "service_env \<Rightarrow> string \<Rightarrow> service \<Rightarrow> service" where
  "handle_alert_started senv feedID s =
     update_planner feedID (markPriorityStarted (se_planner senv feedID)) (invalidateRoutinePreparation feedID s)"

definition handleEvent :: "service_env \<Rightarrow> bool \<Rightarrow> message \<Rightarrow> service \<Rightarrow> service" where
  "handleEvent senv rustPlayoutEnabled event s =
     (let kind = stringAt event ''type'';
          data = mapAt event ''data'';
          feedID = firstText event data [''feed_id''];
          qid = firstText event data [''queue_id'']
      in if shouldDeferCAPPlayoutToRust rustPlayoutEnabled event then s
         else if kind = ''playlist.control'' then
           for_feeds (matchFeeds senv s feedID) (handle_control (firstText event data [''action''])) s
         else if kind = ''playlist.insert'' then
           for_feeds (matchFeeds senv s feedID) (handle_insert senv data) s
         else if kind = ''cap.alert.broadcast.requested'' then
           for_feeds (matchFeedsFromEvent senv s event) (handle_broadcast senv (eventDataWithIdentity event)) s
         else if kind = ''cap.alert.cancelled'' then
           for_feeds (matchFeedsFromEvent senv s event) (handle_cancelled senv (eventDataWithIdentity event)) s
         else if kind = ''cap.alert.registry.updated'' then
           for_feeds (matchFeedsFromEvent senv s event) (handle_registry senv) s
         else if kind = ''playout.started'' then update_planner feedID (markStarted qid) s
         else if kind = ''playout.interrupted'' then update_planner feedID (markInterrupted qid) s
         else if kind = ''playout.completed'' then update_planner feedID (markCompleted qid) s
         else if kind = ''alert.playout.started'' then
           for_feeds (matchFeedsFromEvent senv s event) (handle_alert_started senv) s
         else if kind = ''alert.playout.completed'' then
           for_feeds (matchFeedsFromEvent senv s event)
             (\<lambda>id. update_planner id (markPriorityCompleted (se_planner senv id))) s
         else if kind = ''service.ready'' then
           (if \<not> isPlayoutReadyEvent event then s
            else for_feeds (se_order senv)
                   (\<lambda>id. update_planner id
                      (replayItemsAt (se_planner senv id) (env_clock (se_planner senv id)) True)) s)
         else s)"

definition newService :: "(string \<times> planner_env) list \<Rightarrow> duration \<Rightarrow> service" where
  "newService feeds lookahead =
     \<lparr>sv_feeds = map_of (map (\<lambda>(feedID, env). (feedID, newFeedPlanner feedID env)) feeds),
      sv_preparations = newPreparationCoordinator 0 0, sv_states = Map.empty, sv_pending = [],
      sv_nextToken = 0, sv_maxPending = 64, sv_lookahead = lookahead, sv_commits = [], sv_dispatch = []\<rparr>"

section \<open>The service as a transition system\<close>

text \<open>
  The event loop (\<open>runConnected\<close>) takes one event, timer tick or result at a time; the workers run
  beside it. \<open>se_order\<close> and all outcomes differ from step to step.
\<close>

definition with_co :: "preparationCoordinator \<Rightarrow> service \<Rightarrow> service" where
  "with_co c s = s\<lparr>sv_preparations := c\<rparr>"

inductive service_step :: "service \<Rightarrow> service \<Rightarrow> bool" where
  event: "service_step s (handleEvent senv rust event s)"
| ticked: "service_step s (tickFeeds senv now [] s)"
| received: "co_results (sv_preparations s) = result # rest \<Longrightarrow>
    service_step s (handlePreparationResult senv result (with_co ((sv_preparations s)\<lparr>co_results := rest\<rparr>) s))"
| routine_done: "i < length (co_workers (sv_preparations s)) \<Longrightarrow>
    co_workers (sv_preparations s) ! i = RoutineWorker work \<Longrightarrow>
    service_step s (with_co (finish_routine (routine_work_result env clocks ctxErr work) i (sv_preparations s)) s)"
| priority_done: "i < length (co_workers (sv_preparations s)) \<Longrightarrow>
    co_workers (sv_preparations s) ! i = PriorityWorker job \<Longrightarrow>
    service_step s (with_co (finish_priority prepared err job i (sv_preparations s)) s)"
| sent: "i < length (co_workers (sv_preparations s)) \<Longrightarrow>
    co_workers (sv_preparations s) ! i = Sender result \<Longrightarrow>
    send_result result i (sv_preparations s) = Some c \<Longrightarrow> service_step s (with_co c s)"
| dropped: "i < length (co_workers (sv_preparations s)) \<Longrightarrow>
    co_workers (sv_preparations s) ! i = Sender result \<Longrightarrow>
    service_step s (with_co (drop_result i (sv_preparations s)) s)"

inductive service_reachable :: "service \<Rightarrow> bool" where
  init: "service_reachable (newService feeds lookahead)"
| step: "service_reachable s \<Longrightarrow> service_step s t \<Longrightarrow> service_reachable t"

section \<open>Driving the service\<close>

text \<open>The steps of the first worker and of the first result as functions, to compute runs of the service;
  each does nothing when the step is not possible.\<close>

definition finish_first :: "planner_env \<Rightarrow> service \<Rightarrow> service" where
  "finish_first env s =
     (case co_workers (sv_preparations s) of
        RoutineWorker work # workers \<Rightarrow>
          with_co (finish_routine (routine_work_result env (\<lambda>i. env_clock env) False work) 0 (sv_preparations s)) s
      | _ \<Rightarrow> s)"

definition send_first :: "service \<Rightarrow> service" where
  "send_first s =
     (case co_workers (sv_preparations s) of
        Sender result # workers \<Rightarrow>
          (case send_result result 0 (sv_preparations s) of None \<Rightarrow> s | Some c \<Rightarrow> with_co c s)
      | _ \<Rightarrow> s)"

definition receive_first :: "service_env \<Rightarrow> service \<Rightarrow> service" where
  "receive_first senv s =
     (case co_results (sv_preparations s) of
        [] \<Rightarrow> s
      | result # rest \<Rightarrow>
          handlePreparationResult senv result (with_co ((sv_preparations s)\<lparr>co_results := rest\<rparr>) s))"

lemma driven_reachable:
  assumes "service_reachable s"
  shows "service_reachable (handleEvent senv rust event s)" and "service_reachable (finish_first env s)"
    and "service_reachable (send_first s)" and "service_reachable (receive_first senv s)"
proof -
  note go = service_reachable.step [OF assms]
  show "service_reachable (handleEvent senv rust event s)" by (rule go [OF service_step.event])
  show "service_reachable (finish_first env s)"
    using assms by (auto simp: finish_first_def intro!: go service_step.routine_done split: list.splits worker.splits)
  show "service_reachable (send_first s)"
    using assms by (auto simp: send_first_def intro!: go service_step.sent split: list.splits worker.splits option.splits)
  show "service_reachable (receive_first senv s)"
    using assms by (auto simp: receive_first_def intro!: go service_step.received split: list.splits)
qed

text \<open>An operator insert that a worker prepares; its result waits in the channel.\<close>

definition insert_prepared :: "service_env \<Rightarrow> message \<Rightarrow> service \<Rightarrow> service" where
  "insert_prepared senv event s =
     send_first (finish_first (se_planner senv (firstText event (mapAt event ''data'') [''feed_id'']))
       (handleEvent senv False event s))"

lemma insert_prepared_reachable: "service_reachable s \<Longrightarrow> service_reachable (insert_prepared senv event s)"
  by (simp add: insert_prepared_def driven_reachable)

end
