(* ===== verification/Service_Invariants.thy ===== *)
theory Service_Invariants
  imports Playlist_Service
begin

text \<open>
  A contract for invariants of the playlist service. The locale names the primitive changes the
  handlers are made of, a slot taken, a request accepted, a job started, a result taken and so on; its
  lemmas show once that whatever respects these changes holds in every reachable state of the
  service. The theory interprets it by the accounting of the worker slots and by the bound of the
  backlog; the next theory interprets it by the bookkeeping of priority alerts.
\<close>

section \<open>The contract\<close>

text \<open>The service after a result has been taken from the channel and its slot released.\<close>

definition pop_result :: "preparationResult list \<Rightarrow> service \<Rightarrow> service" where
  "pop_result rest s = with_co (releaseResultSlot ((sv_preparations s)\<lparr>co_results := rest\<rparr>)) s"

locale service_invariant =
  fixes I :: "service \<Rightarrow> bool"
  assumes planner: "I s \<Longrightarrow> I (set_planner feedID p s)"
    and dispatch: "I s \<Longrightarrow> I (s\<lparr>sv_dispatch := d\<rparr>)"
    and routine_state: "I s \<Longrightarrow> fs_priorityVersions st = fs_priorityVersions (preparationState s feedID) \<Longrightarrow>
      fs_priorityActive st = fs_priorityActive (preparationState s feedID) \<Longrightarrow> I (set_state feedID st s)"
    and routine_slot: "I s \<Longrightarrow> try_routine_slot work (sv_preparations s) = Some c \<Longrightarrow>
      I (s\<lparr>sv_preparations := c\<rparr>)"
    and prune: "I s \<Longrightarrow> I (pruneStalePriorityPreparations senv s)"
    and push: "I s \<Longrightarrow> int (length (without_alert feedID alertID s)) < pending_limit s \<Longrightarrow>
      I (push_priority feedID alertID data s)"
    and start: "I s \<Longrightarrow> take_startable (startable s) (sv_pending s) = Some (job, rest) \<Longrightarrow>
      tryStartPriority job (sv_preparations s) = Some c \<Longrightarrow> I (start_job job rest c s)"
    and release: "I s \<Longrightarrow> I (releasePriorityVersion feedID alertID s)"
    and cancel: "I s \<Longrightarrow> I (cancelPriorityPreparations feedID data s)"
    and popped: "I s \<Longrightarrow> co_results (sv_preparations s) = result # others \<Longrightarrow> I (pop_result others s)"
    and settled: "I s \<Longrightarrow> co_results (sv_preparations s) = PriorityResult r # others \<Longrightarrow>
      I (take_priority_result senv r (pop_result others s))"
    and routine_finished: "I s \<Longrightarrow> i < length (co_workers (sv_preparations s)) \<Longrightarrow>
      co_workers (sv_preparations s) ! i = RoutineWorker work \<Longrightarrow>
      I (with_co (finish_routine (routine_work_result env clocks ctxErr work) i (sv_preparations s)) s)"
    and priority_finished: "I s \<Longrightarrow> i < length (co_workers (sv_preparations s)) \<Longrightarrow>
      co_workers (sv_preparations s) ! i = PriorityWorker job \<Longrightarrow>
      I (with_co (finish_priority prepared err job i (sv_preparations s)) s)"
    and result_sent: "I s \<Longrightarrow> i < length (co_workers (sv_preparations s)) \<Longrightarrow>
      co_workers (sv_preparations s) ! i = Sender result \<Longrightarrow>
      send_result result i (sv_preparations s) = Some c \<Longrightarrow> I (with_co c s)"
    and result_dropped: "I s \<Longrightarrow> i < length (co_workers (sv_preparations s)) \<Longrightarrow>
      co_workers (sv_preparations s) ! i = Sender result \<Longrightarrow>
      I (with_co (drop_result i (sv_preparations s)) s)"
begin

lemma planner_updated: "I s \<Longrightarrow> I (update_planner feedID f s)"
  by (simp add: update_planner_def planner split: option.splits)

lemma error_set: "I s \<Longrightarrow> I (set_lastError feedID e s)"
  by (simp add: set_lastError_def planner split: option.splits)

lemma dispatched: "I s \<Longrightarrow> I (publishAutomationDispatchStatus senv feedID data status e s)"
  by (simp add: publishAutomationDispatchStatus_def Let_def dispatch)

lemma invalidated: "I s \<Longrightarrow> I (invalidateRoutinePreparation feedID s)"
  by (simp add: invalidateRoutinePreparation_def Let_def routine_state)

lemma slot_state:
  assumes "I s" and "try_routine_slot work (sv_preparations s) = Some c"
    and "fs_priorityVersions st = fs_priorityVersions (preparationState s feedID)"
    and "fs_priorityActive st = fs_priorityActive (preparationState s feedID)"
  shows "I (set_state feedID st (s\<lparr>sv_preparations := c\<rparr>))"
proof (rule routine_state)
  show "I (s\<lparr>sv_preparations := c\<rparr>)" using assms(1,2) by (rule routine_slot)
qed (simp_all add: assms(3,4) preparationState_def)

lemma routine_started: "I s \<Longrightarrow> I (startRoutinePreparation p now startup s)"
  by (auto simp: startRoutinePreparation_def Let_def tryStartRoutine_def
      intro: routine_state slot_state split: option.splits)

lemma insert_started: "I s \<Longrightarrow> I (startRoutineInsert p data s)"
  by (auto simp: startRoutineInsert_def Let_def tryStartInsert_def
      intro: routine_state slot_state planner split: option.splits)

lemma feed_ticked: "I s \<Longrightarrow> I (tickFeedAsync senv feedID now s)"
  by (auto simp: tickFeedAsync_def Let_def intro: routine_started planner split: option.splits)

lemma feeds_folded:
  "I s \<Longrightarrow> I (foldl (\<lambda>s feedID. if feedID = completedFeedID then s
      else tickFeedAsync senv feedID now s) s feedIDs)"
  by (induction feedIDs arbitrary: s) (simp_all add: feed_ticked)

lemma feeds_ticked: "I s \<Longrightarrow> I (tickFeeds senv now completedFeedID s)"
  using feeds_folded [of s completedFeedID senv now "se_order senv"]
  by (auto simp: tickFeeds_def Let_def feed_ticked)

lemma routine_handled: "I s \<Longrightarrow> I (handleRoutinePreparationResult senv r s)"
proof -
  assume s: "I s"
  have "I (set_state (rr_feedID r)
      (if fs_routineInFlight (preparationState s (rr_feedID r)) \<and>
          fs_routineToken (preparationState s (rr_feedID r)) = rr_token r
       then (preparationState s (rr_feedID r))\<lparr>fs_routineInFlight := False\<rparr>
       else preparationState s (rr_feedID r)) s)"
    by (rule routine_state [OF s]) simp_all
  with s show ?thesis
    unfolding handleRoutinePreparationResult_def Let_def
    by (auto intro!: feeds_ticked planner split: option.splits simp del: if_split)
qed

lemma jobs_started: "I s \<Longrightarrow> I (start_pending s)"
proof (induction s rule: start_pending.induct)
  case (1 s)
  show ?case
  proof (cases "take_startable (startable s) (sv_pending s)")
    case None
    with 1 show ?thesis by (simp add: start_pending.simps)
  next
    case (Some jr)
    obtain job rest where jr: "jr = (job, rest)" by (cases jr)
    show ?thesis
    proof (cases "tryStartPriority job (sv_preparations s)")
      case None
      with 1 Some jr show ?thesis by (simp add: start_pending.simps)
    next
      case (Some c)
      note started = start [OF \<open>I s\<close> \<open>take_startable _ _ = Some jr\<close> [unfolded jr] Some]
      from 1(1) [OF \<open>take_startable _ _ = Some jr\<close> jr [symmetric] Some started] show ?thesis
        using \<open>take_startable _ _ = Some jr\<close> jr Some by (subst start_pending.simps) simp
    qed
  qed
qed

lemma pending_started: "I s \<Longrightarrow> I (startPendingPriorityPreparations senv s)"
  by (simp add: startPendingPriorityPreparations_def jobs_started prune)

lemma enqueued: "I s \<Longrightarrow> I (fst (enqueuePriorityPreparation senv feedID data s))"
  by (auto simp: enqueuePriorityPreparation_def Let_def
      intro!: planner pending_started push prune invalidated split: option.splits prod.splits)

lemma result_handled:
  assumes "I s" and "co_results (sv_preparations s) = result # rest"
  shows "I (handlePreparationResult senv result (with_co ((sv_preparations s)\<lparr>co_results := rest\<rparr>) s))"
proof -
  have pop: "(with_co ((sv_preparations s)\<lparr>co_results := rest\<rparr>) s)
      \<lparr>sv_preparations := releaseResultSlot (sv_preparations (with_co ((sv_preparations s)\<lparr>co_results := rest\<rparr>) s))\<rparr>
      = pop_result rest s"
    by (simp add: pop_result_def with_co_def)
  note ok = popped [OF assms]
  show ?thesis
  proof (cases result)
    case (RoutineResult r)
    then show ?thesis by (simp add: handlePreparationResult_def pop routine_handled ok)
  next
    case (PriorityResult r)
    note taken = settled [OF assms(1) assms(2) [unfolded PriorityResult], of senv]
    show ?thesis
      unfolding handlePreparationResult_def pop Let_def handlePriorityPreparationResult_def PriorityResult
      using ok taken by (auto intro!: release pending_started split: option.splits)
  qed
qed

lemma for_all_feeds: "(\<And>feedID s. I s \<Longrightarrow> I (f feedID s)) \<Longrightarrow> I s \<Longrightarrow> I (for_feeds feedIDs f s)"
  unfolding for_feeds_def by (induction feedIDs arbitrary: s) simp_all

lemma insert_handled: "I s \<Longrightarrow> I (handle_insert senv data feedID s)"
  by (auto simp: handle_insert_def Let_def intro!: insert_started planner invalidated split: option.splits)

lemma broadcast_handled: "I s \<Longrightarrow> I (handle_broadcast senv data feedID s)"
  using enqueued [of s senv feedID data]
  by (auto simp: handle_broadcast_def intro!: dispatched split: prod.splits option.splits)

lemma controls_handled:
  "I s \<Longrightarrow> I (handle_control action feedID s)" "I s \<Longrightarrow> I (handle_cancelled senv data feedID s)"
  "I s \<Longrightarrow> I (handle_registry senv feedID s)" "I s \<Longrightarrow> I (handle_alert_started senv feedID s)"
  by (simp_all add: handle_control_def handle_cancelled_def handle_registry_def handle_alert_started_def
      planner_updated invalidated cancel)

lemma event_handled:
  assumes "I s"
  shows "I (handleEvent senv rust event s)"
proof -
  have each: "I (for_feeds feedIDs f s)" if "\<And>feedID s. I s \<Longrightarrow> I (f feedID s)" for feedIDs f
    by (rule for_all_feeds) (use assms that in auto)
  have "I (for_feeds feedIDs (handle_control action) s)" "I (for_feeds feedIDs (handle_insert senv data) s)"
    "I (for_feeds feedIDs (handle_broadcast senv data) s)" "I (for_feeds feedIDs (handle_cancelled senv data) s)"
    "I (for_feeds feedIDs (handle_registry senv) s)" "I (for_feeds feedIDs (handle_alert_started senv) s)"
    "I (for_feeds feedIDs (\<lambda>id. update_planner id (g id)) s)" for feedIDs action data g
    by (rule each, simp add: controls_handled insert_handled broadcast_handled planner_updated)+
  then show ?thesis
    unfolding handleEvent_def Let_def using assms by (simp add: planner_updated)
qed

theorem stepped: "service_step s t \<Longrightarrow> I s \<Longrightarrow> I t"
  by (induction rule: service_step.induct)
    (auto intro: event_handled feeds_ticked result_handled routine_finished priority_finished
      result_sent result_dropped)

lemma steps: "service_step\<^sup>*\<^sup>* s t \<Longrightarrow> I s \<Longrightarrow> I t"
  by (induction rule: rtranclp_induct) (auto intro: stepped)

lemma reachable: "(\<And>feeds lookahead. I (newService feeds lookahead)) \<Longrightarrow> service_reachable s \<Longrightarrow> I s"
  by (rotate_tac, induction rule: service_reachable.induct) (auto intro: stepped)

end

section \<open>What the primitive changes leave alone\<close>

lemma set_state_fields [prep_simps]:
  "sv_feeds (set_state f st s) = sv_feeds s" "sv_preparations (set_state f st s) = sv_preparations s"
  "sv_pending (set_state f st s) = sv_pending s" "sv_nextToken (set_state f st s) = sv_nextToken s"
  "sv_maxPending (set_state f st s) = sv_maxPending s" "sv_commits (set_state f st s) = sv_commits s"
  "preparationState (set_state f st s) g = (if g = f then st else preparationState s g)"
  by (simp_all add: set_state_def preparationState_def)

lemma set_planner_fields [prep_simps]:
  "sv_states (set_planner f p s) = sv_states s" "sv_preparations (set_planner f p s) = sv_preparations s"
  "sv_pending (set_planner f p s) = sv_pending s" "sv_nextToken (set_planner f p s) = sv_nextToken s"
  "sv_maxPending (set_planner f p s) = sv_maxPending s" "sv_commits (set_planner f p s) = sv_commits s"
  "preparationState (set_planner f p s) g = preparationState s g"
  by (simp_all add: set_planner_def preparationState_def)

lemma set_lastError_fields [prep_simps]:
  "sv_states (set_lastError f e s) = sv_states s" "sv_preparations (set_lastError f e s) = sv_preparations s"
  "sv_pending (set_lastError f e s) = sv_pending s" "sv_nextToken (set_lastError f e s) = sv_nextToken s"
  "sv_maxPending (set_lastError f e s) = sv_maxPending s" "sv_commits (set_lastError f e s) = sv_commits s"
  "preparationState (set_lastError f e s) g = preparationState s g"
  by (simp_all add: set_lastError_def prep_simps split: option.splits)

lemma with_co_fields [prep_simps]:
  "sv_feeds (with_co c s) = sv_feeds s" "sv_preparations (with_co c s) = c"
  "sv_pending (with_co c s) = sv_pending s" "sv_nextToken (with_co c s) = sv_nextToken s"
  "sv_maxPending (with_co c s) = sv_maxPending s" "sv_commits (with_co c s) = sv_commits s"
  "preparationState (with_co c s) g = preparationState s g"
  by (simp_all add: with_co_def preparationState_def)

lemma service_update_fields [prep_simps]:
  "preparationState (s\<lparr>sv_preparations := c\<rparr>) g = preparationState s g"
  "preparationState (s\<lparr>sv_pending := js\<rparr>) g = preparationState s g"
  "preparationState (s\<lparr>sv_nextToken := n\<rparr>) g = preparationState s g"
  "preparationState (s\<lparr>sv_dispatch := d\<rparr>) g = preparationState s g"
  "preparationState (s\<lparr>sv_commits := cs\<rparr>) g = preparationState s g"
  by (simp_all add: preparationState_def)

lemma releasePriorityVersion_fields [prep_simps]:
  "sv_preparations (releasePriorityVersion f a s) = sv_preparations s"
  "sv_pending (releasePriorityVersion f a s) = sv_pending s"
  "sv_nextToken (releasePriorityVersion f a s) = sv_nextToken s"
  "sv_maxPending (releasePriorityVersion f a s) = sv_maxPending s"
  "sv_commits (releasePriorityVersion f a s) = sv_commits s"
  "fs_priorityActive (preparationState (releasePriorityVersion f a s) g) = fs_priorityActive (preparationState s g)"
  by (simp_all add: releasePriorityVersion_def prep_simps split: option.splits)
    (auto simp: preparationState_def)

lemma release_all_fields [prep_simps]:
  "sv_preparations (foldl (\<lambda>s x. releasePriorityVersion (f x) (g x) s) s xs) = sv_preparations s"
  "sv_pending (foldl (\<lambda>s x. releasePriorityVersion (f x) (g x) s) s xs) = sv_pending s"
  "sv_nextToken (foldl (\<lambda>s x. releasePriorityVersion (f x) (g x) s) s xs) = sv_nextToken s"
  "sv_maxPending (foldl (\<lambda>s x. releasePriorityVersion (f x) (g x) s) s xs) = sv_maxPending s"
  "sv_commits (foldl (\<lambda>s x. releasePriorityVersion (f x) (g x) s) s xs) = sv_commits s"
  "fs_priorityActive (preparationState (foldl (\<lambda>s x. releasePriorityVersion (f x) (g x) s) s xs) h) =
   fs_priorityActive (preparationState s h)"
  by (induction xs arbitrary: s) (simp_all add: prep_simps)

lemma prune_fields [prep_simps]:
  "sv_preparations (pruneStalePriorityPreparations senv s) = sv_preparations s"
  "sv_pending (pruneStalePriorityPreparations senv s) = filter (\<lambda>job. \<not> stale senv (pj_data job)) (sv_pending s)"
  "sv_nextToken (pruneStalePriorityPreparations senv s) = sv_nextToken s"
  "sv_maxPending (pruneStalePriorityPreparations senv s) = sv_maxPending s"
  "sv_commits (pruneStalePriorityPreparations senv s) = sv_commits s"
  "fs_priorityActive (preparationState (pruneStalePriorityPreparations senv s) g) = fs_priorityActive (preparationState s g)"
  by (simp_all add: pruneStalePriorityPreparations_def release_versions_def Let_def prep_simps)

lemma cancel_fields [prep_simps]:
  "sv_preparations (cancelPriorityPreparations f data s) = sv_preparations s"
  "sv_nextToken (cancelPriorityPreparations f data s) = sv_nextToken s"
  "sv_maxPending (cancelPriorityPreparations f data s) = sv_maxPending s"
  "sv_commits (cancelPriorityPreparations f data s) = sv_commits s"
  "sv_pending (cancelPriorityPreparations f data s) =
     filter (\<lambda>job. \<not> (pj_feedID job = f \<and> pj_alertID job \<in> set (priorityAlertIDs data))) (sv_pending s)"
  "fs_priorityActive (preparationState (cancelPriorityPreparations f data s) g) = fs_priorityActive (preparationState s g)"
  by (simp_all add: cancelPriorityPreparations_def Let_def prep_simps release_all_fields [where f = "\<lambda>x. f" and g = "\<lambda>x. x"])

lemma publish_fields [prep_simps]:
  "sv_preparations (publishAutomationDispatchStatus senv f d st e s) = sv_preparations s"
  "sv_pending (publishAutomationDispatchStatus senv f d st e s) = sv_pending s"
  "sv_nextToken (publishAutomationDispatchStatus senv f d st e s) = sv_nextToken s"
  "sv_maxPending (publishAutomationDispatchStatus senv f d st e s) = sv_maxPending s"
  "sv_commits (publishAutomationDispatchStatus senv f d st e s) = sv_commits s"
  "preparationState (publishAutomationDispatchStatus senv f d st e s) g = preparationState s g"
  by (simp_all add: publishAutomationDispatchStatus_def Let_def prep_simps)

lemma settle_fields [prep_simps]:
  "sv_preparations (settle_priority senv r owner current s) = sv_preparations s"
  "sv_pending (settle_priority senv r owner current s) = sv_pending s"
  "sv_nextToken (settle_priority senv r owner current s) = sv_nextToken s"
  "sv_maxPending (settle_priority senv r owner current s) = sv_maxPending s"
  "preparationState (settle_priority senv r owner current s) g = preparationState s g"
  by (auto simp: settle_priority_def commitPriorityAlert_def Let_def prep_simps split: option.splits)

lemma settle_commits:
  "sv_commits (settle_priority senv r owner current s) = sv_commits s \<or>
   owner \<and> current \<and> \<not> stale senv (pj_data (pr_job r)) \<and>
   sv_commits (settle_priority senv r owner current s) = sv_commits s @ [pr_job r]"
  by (auto simp: settle_priority_def commitPriorityAlert_def Let_def prep_simps split: option.splits)

lemma push_fields [prep_simps]:
  "sv_preparations (push_priority f a d s) = sv_preparations s"
  "sv_nextToken (push_priority f a d s) = sv_nextToken s + 1"
  "sv_maxPending (push_priority f a d s) = sv_maxPending s" "sv_commits (push_priority f a d s) = sv_commits s"
  by (simp_all add: push_priority_def Let_def prep_simps)

lemma start_job_fields [prep_simps]:
  "sv_preparations (start_job job rest c s) = c" "sv_pending (start_job job rest c s) = rest"
  "sv_nextToken (start_job job rest c s) = sv_nextToken s"
  "sv_maxPending (start_job job rest c s) = sv_maxPending s" "sv_commits (start_job job rest c s) = sv_commits s"
  by (simp_all add: start_job_def prep_simps)

lemma take_result_fields [prep_simps]:
  "sv_preparations (take_priority_result senv r s) = sv_preparations s"
  "sv_pending (take_priority_result senv r s) = sv_pending s"
  "sv_nextToken (take_priority_result senv r s) = sv_nextToken s"
  "sv_maxPending (take_priority_result senv r s) = sv_maxPending s"
  by (simp_all add: take_priority_result_def Let_def prep_simps)

lemma pop_fields [prep_simps]:
  "sv_pending (pop_result q s) = sv_pending s" "sv_nextToken (pop_result q s) = sv_nextToken s"
  "sv_maxPending (pop_result q s) = sv_maxPending s" "sv_commits (pop_result q s) = sv_commits s"
  "sv_preparations (pop_result q s) = releaseResultSlot ((sv_preparations s)\<lparr>co_results := q\<rparr>)"
  "preparationState (pop_result q s) g = preparationState s g"
  by (simp_all add: pop_result_def prep_simps)

section \<open>Accounting of the slots\<close>

text \<open>
  A slot of a pool is held exactly by the workers that are preparing in it; a result slot is held by
  every worker and by every result that waits in the channel.
\<close>

definition is_routine :: "worker \<Rightarrow> bool" where
  "is_routine w = (case w of RoutineWorker work \<Rightarrow> True | _ \<Rightarrow> False)"

definition is_priority :: "worker \<Rightarrow> bool" where
  "is_priority w = (case w of PriorityWorker job \<Rightarrow> True | _ \<Rightarrow> False)"

definition slots_ok :: "preparationCoordinator \<Rightarrow> bool" where
  "slots_ok c \<longleftrightarrow>
     co_resultSlots c = length (co_workers c) + length (co_results c) \<and> co_resultSlots c \<le> result_cap c \<and>
     co_routineSlots c = length (filter is_routine (co_workers c)) \<and> co_routineSlots c \<le> co_routineWorkers c \<and>
     co_prioritySlots c = length (filter is_priority (co_workers c)) \<and> co_prioritySlots c \<le> co_priorityWorkers c"

lemma filter_split_nth:
  "i < length xs \<Longrightarrow>
   length (filter P xs) = length (filter P (take i xs)) + (if P (xs ! i) then 1 else 0) + length (filter P (drop (Suc i) xs))"
  by (subst id_take_nth_drop [of i xs]) (simp_all add: nth_append)

lemma filter_length_replace:
  assumes "i < length xs"
  shows "length (filter P (xs[i := y])) + (if P (xs ! i) then 1 else 0) =
         length (filter P xs) + (if P y then 1 else 0)"
  using assms by (simp add: filter_split_nth [OF assms] upd_conv_take_nth_drop)

lemma filter_length_remove:
  assumes "i < length xs"
  shows "length (filter P (take i xs @ drop (Suc i) xs)) + (if P (xs ! i) then 1 else 0) = length (filter P xs)"
  using filter_split_nth [OF assms] by simp

lemma is_worker_simps [simp]:
  "is_routine (RoutineWorker w)" "\<not> is_routine (PriorityWorker j)" "\<not> is_routine (Sender r)"
  "\<not> is_priority (RoutineWorker w)" "is_priority (PriorityWorker j)" "\<not> is_priority (Sender r)"
  by (simp_all add: is_routine_def is_priority_def)

lemmas slot_defs = slots_ok_def result_cap_def

lemma slots_ok_finish:
  assumes "slots_ok c" and "i < length (co_workers c)"
  shows "co_workers c ! i = RoutineWorker work \<Longrightarrow> slots_ok (finish_routine r i c)"
    and "co_workers c ! i = PriorityWorker job \<Longrightarrow> slots_ok (finish_priority prepared err job i c)"
proof -
  note counts = filter_length_replace [OF assms(2), where y = "Sender x" and P = is_routine for x, simplified]
    filter_length_replace [OF assms(2), where y = "Sender x" and P = is_priority for x, simplified]
  show "slots_ok (finish_routine r i c)" if "co_workers c ! i = RoutineWorker work"
    using assms that counts [of r] by (auto simp: slot_defs finish_routine_def)
  show "slots_ok (finish_priority prepared err job i c)" if "co_workers c ! i = PriorityWorker job"
    using assms that counts [of "PriorityResult \<lparr>pr_job = job, pr_prepared = prepared, pr_err = err\<rparr>"]
    by (auto simp: slot_defs finish_priority_def)
qed

lemma slots_ok_remove:
  assumes "slots_ok c" and "i < length (co_workers c)" and "co_workers c ! i = Sender r"
  shows "send_result r i c = Some c' \<Longrightarrow> slots_ok c'" and "slots_ok (drop_result i c)"
proof -
  have len: "length (take i (co_workers c) @ drop (Suc i) (co_workers c)) + 1 = length (co_workers c)"
    using assms(2) by simp
  note counts = filter_length_remove [OF assms(2), of is_routine] filter_length_remove [OF assms(2), of is_priority]
  show "send_result r i c = Some c' \<Longrightarrow> slots_ok c'"
    using assms counts len by (auto simp: slot_defs send_result_def remove_worker_def split: if_splits)
  show "slots_ok (drop_result i c)"
    using assms counts len by (auto simp: slot_defs drop_result_def remove_worker_def releaseResultSlot_def)
qed

lemma slots_ok_start:
  "slots_ok c \<Longrightarrow> try_routine_slot work c = Some c' \<Longrightarrow> slots_ok c'"
  "slots_ok c \<Longrightarrow> tryStartPriority job c = Some c' \<Longrightarrow> slots_ok c'"
  by (auto simp: slot_defs try_routine_slot_def tryStartPriority_def reserveResultSlot_def split: if_splits)

lemma slots_ok_pop: "slots_ok c \<Longrightarrow> co_results c = r # q \<Longrightarrow> slots_ok (releaseResultSlot (c\<lparr>co_results := q\<rparr>))"
  by (simp add: slot_defs releaseResultSlot_def)

interpretation slots: service_invariant "\<lambda>s. slots_ok (sv_preparations s)"
  by unfold_locales
    (simp_all add: prep_simps, (blast intro: slots_ok_start slots_ok_finish slots_ok_remove slots_ok_pop)+)

text \<open>The backlog of priority alerts respects its limit.\<close>

lemma pending_limit_cong: "sv_maxPending t = sv_maxPending s \<Longrightarrow> pending_limit t = pending_limit s"
  by (simp add: pending_limit_def)

lemma backlog_shrinks:
  assumes "int (length (sv_pending s)) \<le> pending_limit s" and "length (sv_pending t) \<le> length (sv_pending s)"
    and "sv_maxPending t = sv_maxPending s"
  shows "int (length (sv_pending t)) \<le> pending_limit t"
  using assms pending_limit_cong [OF assms(3)] by simp

interpretation backlog: service_invariant "\<lambda>s. int (length (sv_pending s)) \<le> pending_limit s"
proof unfold_locales
  fix s f a d
  assume "int (length (without_alert f a s)) < pending_limit s"
  then show "int (length (sv_pending (push_priority f a d s))) \<le> pending_limit (push_priority f a d s)"
    using pending_limit_cong [of "push_priority f a d s" s]
    by (simp add: push_priority_def Let_def prep_simps)
next
  fix s job rest c
  assume ok: "int (length (sv_pending s)) \<le> pending_limit s"
    and "take_startable (startable s) (sv_pending s) = Some (job, rest)"
  then have "length rest \<le> length (sv_pending s)" using take_startable_split by fastforce
  then show "int (length (sv_pending (start_job job rest c s))) \<le> pending_limit (start_job job rest c s)"
    by (intro backlog_shrinks [OF ok]) (simp_all add: prep_simps)
qed (erule backlog_shrinks; simp add: prep_simps)+
section \<open>Properties\<close>

text \<open>The sizes of the pools never change.\<close>

definition caps :: "service \<Rightarrow> nat \<times> nat" where
  "caps s = (co_routineWorkers (sv_preparations s), co_priorityWorkers (sv_preparations s))"

lemma caps_coordinator [simp]:
  "co_routineWorkers (releaseResultSlot c) = co_routineWorkers c"
  "co_priorityWorkers (releaseResultSlot c) = co_priorityWorkers c"
  "co_routineWorkers (finish_routine r i c) = co_routineWorkers c"
  "co_priorityWorkers (finish_routine r i c) = co_priorityWorkers c"
  "co_routineWorkers (finish_priority p e j i c) = co_routineWorkers c"
  "co_priorityWorkers (finish_priority p e j i c) = co_priorityWorkers c"
  "co_routineWorkers (remove_worker i c) = co_routineWorkers c"
  "co_priorityWorkers (remove_worker i c) = co_priorityWorkers c"
  by (simp_all add: releaseResultSlot_def finish_routine_def finish_priority_def remove_worker_def)

text \<open>The coordinator after a slot was taken or a result sent.\<close>

lemma try_routine_slot_Some:
  "try_routine_slot w c = Some c' \<Longrightarrow>
   c' = c\<lparr>co_routineSlots := co_routineSlots c + 1, co_resultSlots := co_resultSlots c + 1,
          co_workers := co_workers c @ [RoutineWorker w]\<rparr>"
  by (simp add: try_routine_slot_def reserveResultSlot_def split: if_split_asm)

lemma tryStartPriority_Some:
  "tryStartPriority job c = Some c' \<Longrightarrow>
   c' = c\<lparr>co_prioritySlots := co_prioritySlots c + 1, co_resultSlots := co_resultSlots c + 1,
          co_workers := co_workers c @ [PriorityWorker job]\<rparr>"
  by (simp add: tryStartPriority_def reserveResultSlot_def split: if_split_asm)

lemma send_result_Some:
  "send_result r i c = Some c' \<Longrightarrow> c' = (remove_worker i c)\<lparr>co_results := co_results c @ [r]\<rparr>"
  by (simp add: send_result_def split: if_split_asm)

interpretation pools: service_invariant "\<lambda>s. caps s = (4, 4)"
  by unfold_locales
    (auto simp: caps_def prep_simps drop_result_def
      dest!: try_routine_slot_Some tryStartPriority_Some send_result_Some)

lemma reachable_slots_ok: "service_reachable s \<Longrightarrow> slots_ok (sv_preparations s)"
  by (rule slots.reachable) (simp_all add: newService_def newPreparationCoordinator_def slots_ok_def result_cap_def)

lemma reachable_caps: "service_reachable s \<Longrightarrow> caps s = (4, 4)"
  by (rule pools.reachable) (simp_all add: newService_def newPreparationCoordinator_def caps_def)

text \<open>C3: a worker that has finished can always hand over its result, because every worker holds a result
  slot and the channel has as many places as there are slots; so the event loop, which starts the
  workers, never waits for them and they never wait for it with a full channel. The pools and the
  backlog stay within their limits.\<close>

theorem workers_never_block:
  assumes "service_reachable s"
  shows "(\<forall>i<length (co_workers (sv_preparations s)). \<forall>r. co_workers (sv_preparations s) ! i = Sender r \<longrightarrow>
           send_result r i (sv_preparations s) \<noteq> None) \<and>
     length (filter is_routine (co_workers (sv_preparations s))) \<le> 4 \<and>
     length (filter is_priority (co_workers (sv_preparations s))) \<le> 4 \<and>
     length (co_workers (sv_preparations s)) + length (co_results (sv_preparations s)) \<le> 8"
proof -
  note ok = reachable_slots_ok [OF assms]
  from reachable_caps [OF assms] have cap: "result_cap (sv_preparations s) = 8" "co_routineWorkers (sv_preparations s) = 4"
    "co_priorityWorkers (sv_preparations s) = 4"
    by (simp_all add: caps_def result_cap_def)
  with ok have sum: "length (co_workers (sv_preparations s)) + length (co_results (sv_preparations s)) \<le> 8"
    unfolding slots_ok_def by linarith
  then have "send_result r i (sv_preparations s) \<noteq> None" if "i < length (co_workers (sv_preparations s))" for r i
    using that cap(1) by (simp add: send_result_def)
  moreover have "length (filter is_routine (co_workers (sv_preparations s))) \<le> 4"
    and "length (filter is_priority (co_workers (sv_preparations s))) \<le> 4"
    using ok cap unfolding slots_ok_def by linarith+
  ultimately show ?thesis using sum by blast
qed

interpretation limits: service_invariant "\<lambda>s. sv_maxPending s = 64"
  by unfold_locales (simp_all add: prep_simps)

text \<open>C33: the backlog of priority alerts never exceeds its limit of 64 requests.\<close>

theorem backlog_within_limit:
  assumes "service_reachable s"
  shows "length (sv_pending s) \<le> 64"
proof -
  have "int (length (sv_pending s)) \<le> pending_limit s"
    by (rule backlog.reachable [OF _ assms]) (simp add: newService_def pending_limit_def)
  moreover have "sv_maxPending s = 64"
    by (rule limits.reachable [OF _ assms]) (simp add: newService_def)
  ultimately show ?thesis by (simp add: pending_limit_def)
qed

text \<open>A service with one feed and one running alert preparation, for the witnesses.\<close>

definition sample_senv :: service_env where
  "sample_senv = \<lparr>se_planner = (\<lambda>f. sample_env), se_now = 1000 * second, se_done = False, se_parseTime = (\<lambda>t. 0),
     se_codec = sample_codec sample_packet, se_order = [''feed''], se_commit = (\<lambda>p. None)\<rparr>"

definition sample_broadcast :: message where
  "sample_broadcast = [(''data'', ObjV [(''alert_id'', StrV ''A1''), (''feed_id'', StrV ''feed'')]),
     (''type'', StrV ''cap.alert.broadcast.requested'')]"

definition jingle_event :: message where
  "jingle_event = [(''data'', ObjV [(''audio_path'', StrV ''jingle.wav''), (''feed_id'', StrV ''feed''),
     (''kind'', StrV ''audio'')]), (''type'', StrV ''playlist.insert'')]"

definition sample_service :: service where
  "sample_service = handleEvent sample_senv False sample_broadcast (newService [(''feed'', sample_env)] 0)"

lemma sample_service_reachable: "service_reachable sample_service"
  unfolding sample_service_def by (rule service_reachable.step [OF service_reachable.init service_step.event])

theorem workers_never_block_witness:
  "length (co_workers (sv_preparations sample_service)) = 1 \<and>
   length (co_workers (sv_preparations sample_service)) + length (co_results (sv_preparations sample_service)) \<le> 8"
proof -
  have "length (co_workers (sv_preparations sample_service)) = 1" by code_simp
  with workers_never_block [OF sample_service_reachable] show ?thesis by blast
qed

theorem backlog_within_limit_witness:
  "service_reachable sample_service \<and> length (sv_pending sample_service) \<le> 64"
  using backlog_within_limit [OF sample_service_reachable] sample_service_reachable by blast

end
