(* ===== verification/Service_Schedule.thy ===== *)
theory Service_Schedule
  imports Planner_Schedule Service_Invariants
begin

text \<open>
  The schedule invariant in the running service, where items are prepared by workers on a snapshot
  of the planner and committed later: a contract for properties of a planner that every operation
  of the planner keeps, the queueing of a rebased item included, and the proof that such a property
  holds for every planner in every reachable state of the service. The contract is interpreted by
  the schedule and by the mode machine.
\<close>

section \<open>What the workers deliver\<close>

text \<open>The items of a prepared result have a length that is not negative; when they were prepared, and behind
  which timeline, does not matter.\<close>

definition result_forward :: "preparationResult \<Rightarrow> bool" where
  "result_forward result =
     (case result of RoutineResult r \<Rightarrow> list_all forward (rt_items (rr_prepared r)) | PriorityResult r \<Rightarrow> True)"

definition worker_forward :: "worker \<Rightarrow> bool" where
  "worker_forward w = (case w of Sender result \<Rightarrow> result_forward result | _ \<Rightarrow> True)"

definition deliveries_ok :: "preparationCoordinator \<Rightarrow> bool" where
  "deliveries_ok c \<longleftrightarrow> list_all result_forward (co_results c) \<and> list_all worker_forward (co_workers c)"

lemma primer_items_forward:
  "startup_primer_loop env clocks ctxErr index pkgs tlEnd now items p = (q, items') \<Longrightarrow>
   list_all forward items \<Longrightarrow> list_all forward items'"
proof (induction pkgs arbitrary: index tlEnd now items p)
  case (Cons pkgID pkgs)
  obtain p1 res where built: "buildProduct env pkgID ''startup'' (primer_target index p) tlEnd now p = (p1, res)"
    by (cases "buildProduct env pkgID ''startup'' (primer_target index p) tlEnd now p")
  show ?case
  proof (cases res)
    case (Inl e)
    with Cons.prems built show ?thesis by (auto intro: Cons.IH split: if_splits)
  next
    case (Inr item)
    from buildProduct_placed [OF built [unfolded Inr]] have "list_all forward (items @ [item])"
      using Cons.prems(2) by (simp add: placed_def)
    with Cons.prems(1) built Inr Cons.prems(2) show ?thesis
      by (auto intro: Cons.IH split: if_splits)
  qed
qed simp

lemma prepareRoutine_forward: "list_all forward (rt_items (prepareRoutine env clocks ctxErr startup now planner))"
  by (auto simp: prepareRoutine_def prepareStartupPrimer_def placed_def
      dest!: primer_items_forward nextPlannedItem_placed split: prod.splits option.splits
      simp del: startup_primer_loop.simps)

lemma prepareInsert_forward: "list_all forward (rt_items (prepareInsert env data p))"
  by (auto simp: prepareInsert_def Let_def placed_def dest!: insert_item_placed split: prod.splits sum.splits)

lemma work_forward: "result_forward (routine_work_result env clocks ctxErr work)"
  by (simp add: result_forward_def routine_work_result_def prepareRoutine_forward prepareInsert_forward)

lemma deliveries_worker:
  assumes "deliveries_ok c" and "i < length (co_workers c)" and "co_workers c ! i = Sender result"
  shows "result_forward result"
  using assms by (auto simp: deliveries_ok_def list_all_length worker_forward_def split: worker.splits)

lemma list_all_update: "list_all P xs \<Longrightarrow> P y \<Longrightarrow> list_all P (xs[i := y])"
  by (auto simp: list_all_iff dest!: set_update_subset_insert [THEN subsetD])

lemma list_all_remove: "list_all P xs \<Longrightarrow> list_all P (take i xs @ drop (Suc i) xs)"
  by (auto simp: list_all_iff dest: in_set_takeD in_set_dropD)

lemma deliveries_finish:
  assumes "deliveries_ok c"
  shows "result_forward result \<Longrightarrow> deliveries_ok (finish_routine result i c)"
    and "deliveries_ok (finish_priority prepared err job i c)"
  using assms by (auto simp: deliveries_ok_def finish_routine_def finish_priority_def worker_forward_def
      result_forward_def intro!: list_all_update)

lemma deliveries_sent:
  assumes "deliveries_ok c" and "i < length (co_workers c)" and "co_workers c ! i = Sender result"
  shows "send_result result i c = Some c' \<Longrightarrow> deliveries_ok c'" and "deliveries_ok (drop_result i c)"
  using assms deliveries_worker [OF assms]
  by (auto simp: deliveries_ok_def send_result_def drop_result_def remove_worker_def releaseResultSlot_def
      list_all_remove [simplified] split: if_splits)

lemma deliveries_started:
  "deliveries_ok c \<Longrightarrow> try_routine_slot work c = Some c' \<Longrightarrow> deliveries_ok c'"
  "deliveries_ok c \<Longrightarrow> tryStartPriority job c = Some c' \<Longrightarrow> deliveries_ok c'"
  by (auto simp: deliveries_ok_def try_routine_slot_def tryStartPriority_def reserveResultSlot_def
      worker_forward_def split: if_splits option.splits)

lemma deliveries_popped:
  "deliveries_ok c \<Longrightarrow> co_results c = result # rest \<Longrightarrow>
   result_forward result \<and> deliveries_ok (releaseResultSlot (c\<lparr>co_results := rest\<rparr>))"
  by (simp add: deliveries_ok_def releaseResultSlot_def)

text \<open>So only such results ever arrive, whatever the planners do meanwhile.\<close>

interpretation deliveries: service_invariant "\<lambda>s. deliveries_ok (sv_preparations s)"
proof unfold_locales
  fix s :: service and work i env clocks ctxErr
  assume "deliveries_ok (sv_preparations s)"
  then show "deliveries_ok (sv_preparations (with_co (finish_routine (routine_work_result env clocks ctxErr work) i
      (sv_preparations s)) s))"
    by (simp add: prep_simps deliveries_finish work_forward)
qed (auto simp: prep_simps deliveries_finish dest: deliveries_started deliveries_sent deliveries_popped)

lemma reachable_deliveries: "service_reachable s \<Longrightarrow> deliveries_ok (sv_preparations s)"
  by (rule deliveries.reachable) (simp_all add: newService_def newPreparationCoordinator_def deliveries_ok_def)

section \<open>Changes that leave the planners alone\<close>

lemma release_feeds [prep_simps]:
  "sv_feeds (releasePriorityVersion f a s) = sv_feeds s"
  "sv_feeds (foldl (\<lambda>s x. releasePriorityVersion (g x) (h x) s) s xs) = sv_feeds s"
proof -
  show one: "sv_feeds (releasePriorityVersion f a s) = sv_feeds s" for f a s
    by (simp add: releasePriorityVersion_def prep_simps split: option.splits)
  show "sv_feeds (foldl (\<lambda>s x. releasePriorityVersion (g x) (h x) s) s xs) = sv_feeds s"
    by (induction xs arbitrary: s) (simp_all add: one)
qed

lemma pool_feeds [prep_simps]:
  "sv_feeds (startRoutinePreparation p now startup s) = sv_feeds s"
  "sv_feeds (invalidateRoutinePreparation f s) = sv_feeds s"
  "sv_feeds (pruneStalePriorityPreparations senv s) = sv_feeds s"
  "sv_feeds (cancelPriorityPreparations f data s) = sv_feeds s"
  "sv_feeds (publishAutomationDispatchStatus senv f data st e s) = sv_feeds s"
  "sv_feeds (push_priority f a data s) = sv_feeds s"
  "sv_feeds (start_job job rest c s) = sv_feeds s"
  by (auto simp: startRoutinePreparation_def invalidateRoutinePreparation_def pruneStalePriorityPreparations_def
      release_versions_def cancelPriorityPreparations_def publishAutomationDispatchStatus_def push_priority_def
      start_job_def Let_def prep_simps release_feeds(2) [where g = "\<lambda>x. f" and h = "\<lambda>x. x"] split: option.splits)

lemma start_pending_feeds [prep_simps]: "sv_feeds (start_pending s) = sv_feeds s"
proof (induction s rule: start_pending.induct)
  case (1 s)
  then show ?case by (subst start_pending.simps) (auto simp: prep_simps split: option.splits)
qed

lemma startPending_feeds [prep_simps]: "sv_feeds (startPendingPriorityPreparations senv s) = sv_feeds s"
  by (simp add: startPendingPriorityPreparations_def prep_simps)

section \<open>Properties every planner of the service keeps\<close>

definition planners_all :: "(feedPlanner \<Rightarrow> bool) \<Rightarrow> service \<Rightarrow> bool" where
  "planners_all K s \<longleftrightarrow> (\<forall>feedID p. sv_feeds s feedID = Some p \<longrightarrow> K p)"

locale planner_law =
  fixes K :: "feedPlanner \<Rightarrow> bool"
  assumes fresh: "K (newFeedPlanner feedID env)"
    and frame: "core q = core p \<Longrightarrow> K p \<Longrightarrow> K q"
    and primed: "K p \<Longrightarrow> K (p\<lparr>pl_startupPrimerPending := False\<rparr>)"
    and flushed: "K p \<Longrightarrow> K (p\<lparr>pl_queue := []\<rparr>)"
    and aged: "K p \<Longrightarrow> K (dropCompleted env p)"
    and rebased: "K p \<Longrightarrow> forward item \<Longrightarrow>
      K (p\<lparr>pl_queue := pl_queue p @ [rebasePreparedItem env p item now]\<rparr>)"
    and controlled: "K p \<Longrightarrow> K (applyControl action p)"
    and began: "K p \<Longrightarrow> K (markStarted qid p)"
    and interrupted: "K p \<Longrightarrow> K (markInterrupted qid p)"
    and finished: "K p \<Longrightarrow> K (markCompleted qid p)"
    and alerts_changed: "K p \<Longrightarrow> K (invalidateRoutineAlerts env stopCurrent p)"
    and alert_began: "K p \<Longrightarrow> K (markPriorityStarted env p)"
    and alert_finished: "K p \<Longrightarrow> K (markPriorityCompleted env p)"
begin

lemma error_noted: "K p \<Longrightarrow> K (p\<lparr>pl_lastError := e\<rparr>)"
  by (rule frame [of _ p]) simp_all

lemma insert_positioned: "K p \<Longrightarrow> K (prepareInsertPosition env data p)"
proof -
  assume "K p"
  have "K ((p\<lparr>pl_queue := []\<rparr>)\<lparr>pl_events := es\<rparr>)" for es
    by (rule frame [OF _ flushed [OF \<open>K p\<close>]]) simp
  with \<open>K p\<close> flushed [OF \<open>K p\<close>] show ?thesis by (auto simp: prepareInsertPosition_def Let_def)
qed

lemma rebased_all: "K p \<Longrightarrow> list_all forward items \<Longrightarrow> K (queue_rebased env items p)"
proof (induction items arbitrary: p)
  case (Cons item items)
  let ?item = "rebasePreparedItem env p item (env_clock env)"
  let ?q = "p\<lparr>pl_queue := pl_queue p @ [?item]\<rparr>"
  obtain q e where pub: "publishReady env ?item ?q = (q, e)" by (cases "publishReady env ?item ?q")
  have "K q"
    by (rule frame [OF publishReady_core [OF pub]]) (use rebased Cons.prems in auto)
  with Cons pub show ?case by (auto simp: Let_def error_noted split: option.splits)
qed simp

lemma items_committed:
  assumes "K p" and "list_all forward (rt_items (rr_prepared result))"
  shows "K (commit_routine env result p)"
proof -
  have "K (applyRoutinePlanningState prepared p)" for prepared
    by (rule frame [OF _ assms(1)]) simp
  then show ?thesis using assms(2) by (simp add: commit_routine_def Let_def rebased_all primed)
qed

lemma replaced: "planners_all K s \<Longrightarrow> K p \<Longrightarrow> planners_all K (set_planner feedID p s)"
  by (simp add: planners_all_def set_planner_def)

lemma untouched: "planners_all K s \<Longrightarrow> sv_feeds t = sv_feeds s \<Longrightarrow> planners_all K t"
  by (simp add: planners_all_def)

lemma known: "planners_all K s \<Longrightarrow> sv_feeds s feedID = Some p \<Longrightarrow> K p"
  by (simp add: planners_all_def)

lemma state_set: "planners_all K s \<Longrightarrow> planners_all K (set_state feedID st s)"
  by (erule untouched) (simp add: prep_simps)

lemma coordinator_set: "planners_all K s \<Longrightarrow> planners_all K (s\<lparr>sv_preparations := c\<rparr>)"
  by (erule untouched) simp

lemma planner_updated:
  "planners_all K s \<Longrightarrow> (\<And>p. K p \<Longrightarrow> K (f p)) \<Longrightarrow> planners_all K (update_planner feedID f s)"
  by (auto simp: update_planner_def intro: replaced dest: known split: option.splits)

lemma error_set: "planners_all K s \<Longrightarrow> planners_all K (set_lastError feedID e s)"
  by (auto simp: set_lastError_def intro: replaced error_noted dest: known split: option.splits)

lemma insert_started: "planners_all K s \<Longrightarrow> K p \<Longrightarrow> planners_all K (startRoutineInsert p data s)"
  by (auto simp: startRoutineInsert_def Let_def intro!: replaced error_noted state_set coordinator_set
      split: option.splits)

lemma feed_ticked:
  assumes "planners_all K s"
  shows "planners_all K (tickFeedAsync senv feedID now s)"
proof (cases "sv_feeds s feedID")
  case (Some p)
  let ?p = "replayPendingItemsIfDue (se_planner senv feedID) now (dropCompleted (se_planner senv feedID) p)"
  have "K ?p" by (rule frame [OF _ aged]) (use known [OF assms Some] in auto)
  note stored = replaced [OF assms this, of feedID]
  from stored have "planners_all K (startRoutinePreparation q now b (set_planner feedID ?p s))" for q b
    by (rule untouched) (simp add: prep_simps)
  moreover from assms have "planners_all K (startRoutinePreparation q now b s)" for q b
    by (rule untouched) (simp add: prep_simps)
  ultimately show ?thesis
    using assms Some stored by (auto simp: tickFeedAsync_def Let_def)
qed (simp add: tickFeedAsync_def assms)

lemma feeds_folded:
  "planners_all K s \<Longrightarrow> planners_all K (foldl (\<lambda>s feedID. if feedID = completedFeedID then s
      else tickFeedAsync senv feedID now s) s feedIDs)"
  by (induction feedIDs arbitrary: s) (simp_all add: feed_ticked)

lemma feeds_ticked: "planners_all K s \<Longrightarrow> planners_all K (tickFeeds senv now completedFeedID s)"
  using feeds_folded [of s completedFeedID senv now "se_order senv"]
  by (auto simp: tickFeeds_def Let_def feed_ticked)

lemma routine_handled:
  assumes "planners_all K s" and "list_all forward (rt_items (rr_prepared r))"
  shows "planners_all K (handleRoutinePreparationResult senv r s)"
  unfolding handleRoutinePreparationResult_def Let_def
  using assms by (auto intro!: feeds_ticked replaced state_set items_committed dest: known split: option.splits)

lemma settled: "planners_all K s \<Longrightarrow> planners_all K (settle_priority senv r owner current s)"
proof -
  assume ok: "planners_all K s"
  have quiet: "planners_all K (publishAutomationDispatchStatus senv f data st e t)" if "planners_all K t"
    for f data st e t
    by (rule untouched [OF that]) (simp add: prep_simps)
  have "planners_all K (s\<lparr>sv_commits := js\<rparr>)" for js by (rule untouched [OF ok]) simp
  with ok show ?thesis
    by (auto simp: settle_priority_def commitPriorityAlert_def Let_def intro!: quiet error_set split: option.splits)
qed

lemma priority_handled: "planners_all K s \<Longrightarrow> planners_all K (handlePriorityPreparationResult senv r s)"
proof -
  assume ok: "planners_all K s"
  then have "planners_all K (take_priority_result senv r s)"
    by (simp add: take_priority_result_def Let_def settled state_set)
  then have "planners_all K (releasePriorityVersion f a
      (startPendingPriorityPreparations senv (take_priority_result senv r s)))" for f a
    by (rule untouched) (simp add: prep_simps)
  with ok show ?thesis by (auto simp: handlePriorityPreparationResult_def split: option.splits)
qed

lemma result_handled:
  assumes "planners_all K s" and "result_forward result"
  shows "planners_all K (handlePreparationResult senv result s)"
  using assms by (auto simp: handlePreparationResult_def Let_def result_forward_def
      intro!: routine_handled priority_handled coordinator_set split: preparationResult.splits)

lemma enqueued: "planners_all K s \<Longrightarrow> planners_all K (fst (enqueuePriorityPreparation senv feedID data s))"
proof -
  assume ok: "planners_all K s"
  define t where "t = pruneStalePriorityPreparations senv (invalidateRoutinePreparation feedID s)"
  have feeds: "sv_feeds t = sv_feeds s" by (simp add: t_def prep_simps)
  with ok have t: "planners_all K t" by (rule untouched)
  then have "planners_all K (startPendingPriorityPreparations senv (push_priority feedID a d t))" for a d
    by (rule untouched) (simp add: prep_simps)
  with ok t show ?thesis
    by (auto simp: enqueuePriorityPreparation_def t_def [symmetric] Let_def
        intro!: replaced error_noted dest: known split: option.splits prod.splits)
qed

lemma for_all_feeds:
  "(\<And>feedID s. planners_all K s \<Longrightarrow> planners_all K (f feedID s)) \<Longrightarrow> planners_all K s \<Longrightarrow>
   planners_all K (for_feeds feedIDs f s)"
  unfolding for_feeds_def by (induction feedIDs arbitrary: s) simp_all

lemma invalidated: "planners_all K s \<Longrightarrow> planners_all K (invalidateRoutinePreparation feedID s)"
  by (erule untouched) (simp add: prep_simps)

lemma insert_handled: "planners_all K s \<Longrightarrow> planners_all K (handle_insert senv data feedID s)"
proof -
  assume "planners_all K s"
  then have ok: "planners_all K (invalidateRoutinePreparation feedID s)" by (rule invalidated)
  show ?thesis
  proof (cases "sv_feeds (invalidateRoutinePreparation feedID s) feedID")
    case (Some p)
    with known [OF ok Some] ok show ?thesis
      by (simp add: handle_insert_def Let_def insert_started replaced insert_positioned)
  qed (simp add: handle_insert_def Let_def ok)
qed

lemma broadcast_handled: "planners_all K s \<Longrightarrow> planners_all K (handle_broadcast senv data feedID s)"
proof -
  assume "planners_all K s"
  then have ok: "planners_all K (fst (enqueuePriorityPreparation senv feedID data s))" by (rule enqueued)
  have "planners_all K (publishAutomationDispatchStatus senv feedID data st e
      (fst (enqueuePriorityPreparation senv feedID data s)))" for st e
    by (rule untouched [OF ok]) (simp add: prep_simps)
  then show ?thesis by (cases "enqueuePriorityPreparation senv feedID data s") (auto simp: handle_broadcast_def split: option.splits)
qed

lemma controls_handled:
  "planners_all K s \<Longrightarrow> planners_all K (handle_control action feedID s)"
  "planners_all K s \<Longrightarrow> planners_all K (handle_cancelled senv data feedID s)"
  "planners_all K s \<Longrightarrow> planners_all K (handle_registry senv feedID s)"
  "planners_all K s \<Longrightarrow> planners_all K (handle_alert_started senv feedID s)"
proof -
  have cancel: "planners_all K s \<Longrightarrow> planners_all K (cancelPriorityPreparations feedID data s)"
    by (erule untouched) (simp add: prep_simps)
  show "planners_all K s \<Longrightarrow> planners_all K (handle_control action feedID s)"
    "planners_all K s \<Longrightarrow> planners_all K (handle_cancelled senv data feedID s)"
    "planners_all K s \<Longrightarrow> planners_all K (handle_registry senv feedID s)"
    "planners_all K s \<Longrightarrow> planners_all K (handle_alert_started senv feedID s)"
    by (simp_all add: handle_control_def handle_cancelled_def handle_registry_def handle_alert_started_def
        planner_updated invalidated controlled alerts_changed alert_began cancel)
qed

lemma replayed: "K p \<Longrightarrow> K (replayItemsAt env now includeCurrent p)"
  by (rule frame [OF replayItemsAt_core])

lemma event_handled:
  assumes "planners_all K s"
  shows "planners_all K (handleEvent senv rust event s)"
proof -
  have each: "planners_all K (for_feeds feedIDs f s)"
    if "\<And>feedID s. planners_all K s \<Longrightarrow> planners_all K (f feedID s)" for feedIDs f
    by (rule for_all_feeds [OF that assms])
  have "planners_all K (for_feeds feedIDs (handle_control action) s)"
    "planners_all K (for_feeds feedIDs (handle_insert senv data) s)"
    "planners_all K (for_feeds feedIDs (handle_broadcast senv data) s)"
    "planners_all K (for_feeds feedIDs (handle_cancelled senv data) s)"
    "planners_all K (for_feeds feedIDs (handle_registry senv) s)"
    "planners_all K (for_feeds feedIDs (handle_alert_started senv) s)" for feedIDs action data
    by (rule each, simp add: controls_handled insert_handled broadcast_handled)+
  moreover have "planners_all K (for_feeds feedIDs (\<lambda>id. update_planner id (markPriorityCompleted (se_planner senv id))) s)"
    "planners_all K (for_feeds feedIDs (\<lambda>id. update_planner id
       (replayItemsAt (se_planner senv id) (env_clock (se_planner senv id)) True)) s)" for feedIDs
    by (rule each, simp add: planner_updated alert_finished replayed)+
  moreover have "planners_all K (update_planner f (markStarted qid) s)"
    "planners_all K (update_planner f (markInterrupted qid) s)"
    "planners_all K (update_planner f (markCompleted qid) s)" for f qid
    using assms by (simp_all add: planner_updated began interrupted finished)
  ultimately show ?thesis unfolding handleEvent_def Let_def using assms by simp
qed

lemma stepped:
  assumes "service_step s t" and "planners_all K s" and "deliveries_ok (sv_preparations s)"
  shows "planners_all K t"
  using assms
proof (cases rule: service_step.cases)
  case (received result rest senv)
  with assms(3) have "result_forward result" by (simp add: deliveries_ok_def)
  moreover have "planners_all K (with_co c s)" for c by (rule untouched [OF assms(2)]) (simp add: prep_simps)
  ultimately show ?thesis using received by (simp add: result_handled)
qed (auto simp: event_handled feeds_ticked prep_simps elim: untouched)

theorem planners_reachable: "service_reachable s \<Longrightarrow> planners_all K s"
proof (induction rule: service_reachable.induct)
  case (init feeds lookahead)
  show ?case by (auto simp: planners_all_def newService_def fresh dest!: map_of_SomeD)
next
  case (step s t)
  then show ?case using stepped reachable_deliveries by blast
qed

end

section \<open>The schedule and the mode machine\<close>

interpretation schedule: planner_law timeline_ok
proof unfold_locales
  show "core q = core p \<Longrightarrow> timeline_ok p \<Longrightarrow> timeline_ok q" for p q by (drule core_timeline_ok) simp
  show "timeline_ok p \<Longrightarrow> forward item \<Longrightarrow>
      timeline_ok (p\<lparr>pl_queue := pl_queue p @ [rebasePreparedItem env p item now]\<rparr>)" for p item env now
    by (erule timeline_ok_append, erule rebasePreparedItem_placed)
  show "timeline_ok (newFeedPlanner feedID env)" for feedID env
    by (simp add: newFeedPlanner_def timeline_ok_def scheduled_def on_air_def)
  show "timeline_ok p \<Longrightarrow> timeline_ok (p\<lparr>pl_startupPrimerPending := False\<rparr>)" for p
    by (simp add: timeline_ok_def scheduled_def on_air_def)
qed (simp_all add: applyControl_timeline markStarted_timeline markInterrupted_timeline markCompleted_timeline
    invalidateRoutineAlerts_timeline priority_timeline dropCompleted_timeline)

interpretation modes: planner_law mode_ok
proof unfold_locales
  show "core q = core p \<Longrightarrow> mode_ok p \<Longrightarrow> mode_ok q" for p q by (drule core_mode_ok) simp
  show "mode_ok p \<Longrightarrow> mode_ok (dropCompleted env p)" for env p by (simp add: mode_ok_def dropCompleted_def)
  show "mode_ok p \<Longrightarrow> mode_ok (p\<lparr>pl_startupPrimerPending := False\<rparr>)"
    "mode_ok p \<Longrightarrow> mode_ok (p\<lparr>pl_queue := items\<rparr>)"
    "mode_ok p \<Longrightarrow> mode_ok (p\<lparr>pl_queue := items\<rparr>)" for p items
    by (simp_all add: mode_ok_def)
  show "mode_ok (newFeedPlanner feedID env)" for feedID env by (simp add: mode_ok_def newFeedPlanner_def)
qed (simp_all add: control_mode priority_mode)

section \<open>Properties\<close>

text \<open>C2: in every reachable state of the service, whatever events, ticks, finished preparations and received
  results led to it, no two items of a feed's schedule (the item on air and the queue) overlap and no
  item ends before it starts; the mode is \<open>priority\<close> only while an alert is on air, and the mode to
  return to is never \<open>priority\<close>. The items are prepared by workers on a snapshot of the planner and
  are placed behind the timeline the planner has when they are committed.\<close>

theorem service_schedule_invariant:
  assumes "service_reachable s" and "sv_feeds s feedID = Some p"
  shows "timeline_ok p \<and> mode_ok p"
  using schedule.planners_reachable [OF assms(1)] modes.planners_reachable [OF assms(1)] assms(2)
  by (simp add: planners_all_def)

text \<open>An insert, prepared by a worker and committed when its result is received.\<close>

definition inserted_service :: service where
  "inserted_service =
     receive_first sample_senv (insert_prepared sample_senv jingle_event (newService [(''feed'', sample_env)] 0))"

lemma inserted_service_reachable: "service_reachable inserted_service"
  unfolding inserted_service_def
  by (intro driven_reachable insert_prepared_reachable service_reachable.init)

theorem service_schedule_invariant_witness:
  "let p = the (sv_feeds inserted_service ''feed'')
   in map it_predictedStartAt (pl_queue p) = [1000 * second] \<and> timeline_ok p \<and> mode_ok p"
proof -
  have "sv_feeds inserted_service ''feed'' \<noteq> None" by code_simp
  then have "sv_feeds inserted_service ''feed'' = Some (the (sv_feeds inserted_service ''feed''))" by simp
  note service_schedule_invariant [OF inserted_service_reachable this]
  moreover have "map it_predictedStartAt (pl_queue (the (sv_feeds inserted_service ''feed''))) = [1000 * second]"
    by code_simp
  ultimately show ?thesis by (simp add: Let_def)
qed

end
