(* ===== verification/Priority_Alerts.thy ===== *)
theory Priority_Alerts
  imports Service_Invariants "HOL-Library.Multiset"
begin

text \<open>
  The bookkeeping of priority alerts: which preparation of an alert may still be committed. A request
  carries a token (unique) and the version of its alert; a cancellation or a newer request raises the
  version. The theory interprets the contract of \<open>Service_Invariants\<close> by the well-formedness of the
  bookkeeping (\<open>priority_ok\<close>) and by the statement that a set of requests is void for good
  (\<open>withdrawn\<close>), and derives that a cancelled or superseded request is never committed.
\<close>

section \<open>The bookkeeping\<close>

abbreviation active :: "service \<Rightarrow> string \<Rightarrow> activePriorityPreparation option" where
  "active s f \<equiv> fs_priorityActive (preparationState s f)"

abbreviation versions :: "service \<Rightarrow> string \<Rightarrow> string \<Rightarrow> nat option" where
  "versions s f \<equiv> fs_priorityVersions (preparationState s f)"

definition result_jobs :: "preparationResult \<Rightarrow> priorityPreparationJob list" where
  "result_jobs r = (case r of RoutineResult x \<Rightarrow> [] | PriorityResult x \<Rightarrow> [pr_job x])"

definition worker_jobs :: "worker \<Rightarrow> priorityPreparationJob list" where
  "worker_jobs w = (case w of RoutineWorker x \<Rightarrow> [] | PriorityWorker job \<Rightarrow> [job] | Sender r \<Rightarrow> result_jobs r)"

text \<open>The alert preparations that are on their way: with a worker or in the result channel.\<close>

definition outstanding :: "preparationCoordinator \<Rightarrow> priorityPreparationJob list" where
  "outstanding c = concat (map worker_jobs (co_workers c)) @ concat (map result_jobs (co_results c))"

definition of_feed :: "string \<Rightarrow> priorityPreparationJob list \<Rightarrow> priorityPreparationJob list" where
  "of_feed f jobs = filter (\<lambda>job. pj_feedID job = f) jobs"

definition owns :: "priorityPreparationJob \<Rightarrow> activePriorityPreparation option \<Rightarrow> bool" where
  "owns job a \<longleftrightarrow> a = Some \<lparr>ap_token = pj_token job, ap_alertID = pj_alertID job, ap_version = pj_version job\<rparr>"

text \<open>
  \<^item> a feed has at most one outstanding preparation, and it is the one its state calls active;
  \<^item> the version of a pending request is the current one, and there is at most one pending request
    per feed and alert;
  \<^item> the version of an active preparation is at most the current one, and below it if there is a
    pending request for the same alert;
  \<^item> tokens have been drawn from the counter.
\<close>

definition active_ok :: "service \<Rightarrow> bool" where
  "active_ok s \<longleftrightarrow>
     (\<forall>f. length (of_feed f (outstanding (sv_preparations s))) \<le> 1) \<and>
     (\<forall>job\<in>set (outstanding (sv_preparations s)). owns job (active s (pj_feedID job)))"

definition pending_ok :: "service \<Rightarrow> bool" where
  "pending_ok s \<longleftrightarrow>
     distinct (map (\<lambda>job. (pj_feedID job, pj_alertID job)) (sv_pending s)) \<and>
     (\<forall>job\<in>set (sv_pending s). versions s (pj_feedID job) (pj_alertID job) = Some (pj_version job) \<and>
        pj_token job \<le> sv_nextToken s)"

definition version_ok :: "service \<Rightarrow> bool" where
  "version_ok s \<longleftrightarrow>
     (\<forall>f a. active s f = Some a \<longrightarrow> ap_token a \<le> sv_nextToken s \<and>
        (\<exists>v. versions s f (ap_alertID a) = Some v \<and> ap_version a \<le> v) \<and>
        (\<forall>job\<in>set (sv_pending s). pj_feedID job = f \<and> pj_alertID job = ap_alertID a \<longrightarrow>
           ap_version a < pj_version job))"

definition priority_ok :: "service \<Rightarrow> bool" where
  "priority_ok s \<longleftrightarrow> active_ok s \<and> pending_ok s \<and> version_ok s"

lemmas priority_defs = priority_ok_def active_ok_def pending_ok_def version_ok_def

text \<open>The invariant only looks at these parts.\<close>

lemma priority_ok_cong:
  assumes "outstanding (sv_preparations t) = outstanding (sv_preparations s)" and "sv_pending t = sv_pending s"
    and "sv_nextToken t = sv_nextToken s" and "\<And>f. active t f = active s f" and "\<And>f. versions t f = versions s f"
  shows "priority_ok t = priority_ok s"
  using assms by (simp add: priority_defs)

section \<open>Outstanding jobs under the moves of the workers\<close>

lemma concat_map_replace:
  assumes "i < length xs" and "g y = g (xs ! i)"
  shows "concat (map g (xs[i := y])) = concat (map g xs)"
  using assms by (metis list_update_id map_update)

lemma worker_jobs_simps [simp]:
  "worker_jobs (RoutineWorker w) = []" "worker_jobs (PriorityWorker job) = [job]"
  "worker_jobs (Sender r) = result_jobs r"
  "result_jobs (RoutineResult x) = []" "result_jobs (PriorityResult y) = [pr_job y]"
  by (simp_all add: worker_jobs_def result_jobs_def)

lemma outstanding_release [simp]: "outstanding (releaseResultSlot c) = outstanding c"
  by (simp add: releaseResultSlot_def outstanding_def)

lemma outstanding_finish_routine:
  "i < length (co_workers c) \<Longrightarrow> co_workers c ! i = RoutineWorker w \<Longrightarrow>
   outstanding (finish_routine (routine_work_result env clocks ctxErr w) i c) = outstanding c"
  by (simp add: outstanding_def finish_routine_def routine_work_result_def concat_map_replace)

lemma outstanding_finish_priority:
  "i < length (co_workers c) \<Longrightarrow> co_workers c ! i = PriorityWorker job \<Longrightarrow>
   outstanding (finish_priority prepared err job i c) = outstanding c"
  by (simp add: outstanding_def finish_priority_def concat_map_replace)

lemma outstanding_routine_slot: "try_routine_slot w c = Some c' \<Longrightarrow> outstanding c' = outstanding c"
  by (drule try_routine_slot_Some) (simp add: outstanding_def)

lemma outstanding_start:
  "tryStartPriority job c = Some c' \<Longrightarrow>
   outstanding c' = concat (map worker_jobs (co_workers c)) @ [job] @ concat (map result_jobs (co_results c))"
  by (drule tryStartPriority_Some) (simp add: outstanding_def)

lemma outstanding_pop:
  "co_results c = r # q \<Longrightarrow>
   outstanding c = concat (map worker_jobs (co_workers c)) @ result_jobs r @ concat (map result_jobs q)"
  by (simp add: outstanding_def)

lemma concat_map_remove:
  "i < length xs \<Longrightarrow>
   concat (map g xs) = concat (map g (take i xs)) @ g (xs ! i) @ concat (map g (drop (Suc i) xs))"
  by (subst id_take_nth_drop [of i xs]) (simp_all add: nth_append)

lemma outstanding_remove:
  assumes "i < length (co_workers c)" and "co_workers c ! i = Sender r"
  shows "outstanding c = concat (map worker_jobs (take i (co_workers c))) @ result_jobs r @
     concat (map worker_jobs (drop (Suc i) (co_workers c))) @ concat (map result_jobs (co_results c))"
  using concat_map_remove [OF assms(1), of worker_jobs] assms(2) by (simp add: outstanding_def)

lemma outstanding_sent:
  assumes "i < length (co_workers c)" and "co_workers c ! i = Sender r" and "send_result r i c = Some c'"
  shows "mset (outstanding c') = mset (outstanding c)"
  unfolding send_result_Some [OF assms(3)] outstanding_remove [OF assms(1,2)]
  by (simp add: remove_worker_def outstanding_def)

lemma outstanding_dropped:
  assumes "i < length (co_workers c)" and "co_workers c ! i = Sender r"
  shows "mset (outstanding (drop_result i c)) \<subseteq># mset (outstanding c)"
  using outstanding_remove [OF assms]
  by (simp only: drop_result_def outstanding_release) (simp add: remove_worker_def outstanding_def)

section \<open>The laws of the contract\<close>

lemma active_ok_shrinks:
  assumes "active_ok s" and "mset (outstanding (sv_preparations t)) \<subseteq># mset (outstanding (sv_preparations s))"
    and "\<And>f. active t f = active s f"
  shows "active_ok t"
proof -
  have "length (of_feed f (outstanding (sv_preparations t))) \<le> length (of_feed f (outstanding (sv_preparations s)))" for f
    using multiset_filter_mono [OF assms(2), of "\<lambda>job. pj_feedID job = f"]
    by (metis mset_filter of_feed_def size_mset size_mset_mono)
  moreover have "set (outstanding (sv_preparations t)) \<subseteq> set (outstanding (sv_preparations s))"
    using set_mset_mono [OF assms(2)] by simp
  ultimately show ?thesis
    using assms(1) unfolding active_ok_def assms(3) by (meson order_trans subsetD)
qed

lemma priority_ok_shrinks:
  assumes "priority_ok s" and "mset (outstanding (sv_preparations t)) \<subseteq># mset (outstanding (sv_preparations s))"
    and "\<And>f. active t f = active s f" and "\<And>f. versions t f = versions s f"
    and "sv_pending t = sv_pending s" and "sv_nextToken t = sv_nextToken s"
  shows "priority_ok t"
proof -
  have "active_ok t" by (rule active_ok_shrinks [of s]) (use assms in \<open>auto simp: priority_ok_def\<close>)
  moreover have "pending_ok t" "version_ok t"
    using assms unfolding priority_ok_def pending_ok_def version_ok_def by simp_all
  ultimately show ?thesis by (simp add: priority_ok_def)
qed

text \<open>Removing pending requests and dropping the versions of alerts that are neither pending nor active.\<close>

lemma priority_ok_forget:
  assumes "priority_ok s" and "outstanding (sv_preparations t) = outstanding (sv_preparations s)"
    and "\<And>f. active t f = active s f" and "sv_nextToken t = sv_nextToken s"
    and "\<exists>P. sv_pending t = filter P (sv_pending s)"
    and "\<And>job. job \<in> set (sv_pending t) \<Longrightarrow>
      versions t (pj_feedID job) (pj_alertID job) = versions s (pj_feedID job) (pj_alertID job)"
    and "\<And>f a v. active s f = Some a \<Longrightarrow> versions s f (ap_alertID a) = Some v \<Longrightarrow>
      \<exists>v'. versions t f (ap_alertID a) = Some v' \<and> v \<le> v'"
  shows "priority_ok t"
proof -
  from assms(5) obtain P where P: "sv_pending t = filter P (sv_pending s)" ..
  have "active_ok t" using assms(1-3) by (simp add: priority_ok_def active_ok_def)
  moreover have "pending_ok t"
    using assms(1,4,6) P unfolding priority_ok_def pending_ok_def by (auto simp: distinct_map_filter)
  moreover have "version_ok t"
  proof -
    from assms(1) have old: "version_ok s" by (simp add: priority_ok_def)
    show ?thesis
      unfolding version_ok_def
    proof (intro allI impI)
      fix f a
      assume act: "active t f = Some a"
      then have act': "active s f = Some a" by (simp add: assms(3))
      with old obtain v where "ap_token a \<le> sv_nextToken s" "versions s f (ap_alertID a) = Some v" "ap_version a \<le> v"
        and pend: "\<forall>job\<in>set (sv_pending s). pj_feedID job = f \<and> pj_alertID job = ap_alertID a \<longrightarrow> ap_version a < pj_version job"
        unfolding version_ok_def by blast
      moreover obtain v' where "versions t f (ap_alertID a) = Some v'" "v \<le> v'"
        using assms(7) [OF act' \<open>versions s f (ap_alertID a) = Some v\<close>] by blast
      ultimately show "ap_token a \<le> sv_nextToken t \<and> (\<exists>v. versions t f (ap_alertID a) = Some v \<and> ap_version a \<le> v) \<and>
          (\<forall>job\<in>set (sv_pending t). pj_feedID job = f \<and> pj_alertID job = ap_alertID a \<longrightarrow> ap_version a < pj_version job)"
        using P assms(4) by auto
    qed
  qed
  ultimately show ?thesis by (simp add: priority_ok_def)
qed

lemma release_versions_at:
  "versions (releasePriorityVersion f a s) g b =
     (if g = f \<and> b = a \<and> \<not> (\<exists>x. active s f = Some x \<and> ap_alertID x = a) \<and>
         \<not> list_ex (\<lambda>job. pj_feedID job = f \<and> pj_alertID job = a) (sv_pending s)
      then None else versions s g b)"
proof (cases "sv_states s f")
  case None
  then have "versions s f = Map.empty" by (simp add: preparationState_def newPreparationState_def)
  with None show ?thesis by (simp add: releasePriorityVersion_def)
next
  case (Some st)
  then have "preparationState s f = st" by (simp add: preparationState_def)
  with Some show ?thesis
    by (simp add: releasePriorityVersion_def prep_simps split: option.splits)
qed

lemma release_priority_ok: "priority_ok s \<Longrightarrow> priority_ok (releasePriorityVersion f a s)"
  by (rule priority_ok_forget [of s])
    (auto simp: prep_simps release_versions_at list_ex_iff intro: exI [of _ "\<lambda>x. True"])

lemma release_all_priority_ok:
  "priority_ok s \<Longrightarrow> priority_ok (foldl (\<lambda>s x. releasePriorityVersion (h x) (k x) s) s xs)"
  by (induction xs arbitrary: s) (simp_all add: release_priority_ok)

lemma prune_priority_ok:
  assumes "priority_ok s"
  shows "priority_ok (pruneStalePriorityPreparations senv s)"
proof -
  let ?t = "s\<lparr>sv_pending := filter (\<lambda>job. \<not> stale senv (pj_data job)) (sv_pending s)\<rparr>"
  have "priority_ok ?t"
    by (rule priority_ok_forget [OF assms]) (auto simp: prep_simps)
  then show ?thesis
    unfolding pruneStalePriorityPreparations_def release_versions_def Let_def by (rule release_all_priority_ok)
qed

lemma bump_at: "bump i vs x = (if x = i then Some (case vs i of None \<Rightarrow> 1 | Some v \<Rightarrow> v + 1) else vs x)"
  by (simp add: bump_def)

lemma bump_versions_other: "x \<notin> set ids \<Longrightarrow> bump_versions ids vs x = vs x"
  by (induction ids arbitrary: vs) (auto simp: bump_at)

lemma bump_versions_grow:
  "vs x = Some v \<Longrightarrow> \<exists>v'. bump_versions ids vs x = Some v' \<and> v \<le> v' \<and> (x \<in> set ids \<longrightarrow> v < v')"
proof (induction ids arbitrary: vs v)
  case (Cons i ids)
  define w where "w = (if x = i then v + 1 else v)"
  have "bump i vs x = Some w" using Cons.prems by (auto simp: bump_at w_def)
  from Cons.IH [of "bump i vs" w, OF this] show ?case by (auto simp: w_def split: if_split_asm)
qed simp

lemma cancel_priority_ok:
  assumes "priority_ok s"
  shows "priority_ok (cancelPriorityPreparations f data s)"
proof -
  let ?ids = "priorityAlertIDs data"
  let ?state = "preparationState s f"
  let ?t = "(set_state f (?state\<lparr>fs_priorityVersions := bump_versions ?ids (fs_priorityVersions ?state)\<rparr>) s)
    \<lparr>sv_pending := filter (\<lambda>job. \<not> (pj_feedID job = f \<and> pj_alertID job \<in> set ?ids)) (sv_pending s)\<rparr>"
  have "priority_ok ?t"
    by (rule priority_ok_forget [OF assms])
      (auto simp: prep_simps bump_versions_other dest: bump_versions_grow [where ids = ?ids])
  then have "priority_ok (foldl (\<lambda>s x. releasePriorityVersion f x s) ?t ?ids)"
    using release_all_priority_ok [of ?t "\<lambda>x. f" "\<lambda>x. x"] by simp
  with assms show ?thesis
    by (simp add: cancelPriorityPreparations_def Let_def prep_simps)
qed

lemma push_state:
  "preparationState (push_priority f a d s) g =
     (if g = f then (preparationState s f)\<lparr>fs_priorityVersions := bump a (versions s f)\<rparr> else preparationState s g)"
  by (simp add: push_priority_def Let_def prep_simps)

definition pushed_job :: "string \<Rightarrow> string \<Rightarrow> message \<Rightarrow> service \<Rightarrow> priorityPreparationJob" where
  "pushed_job f a d s =
     \<lparr>pj_token = sv_nextToken s + 1, pj_feedID = f, pj_alertID = a,
      pj_version = (case versions s f a of None \<Rightarrow> 1 | Some v \<Rightarrow> v + 1), pj_data = d\<rparr>"

lemma push_pending: "sv_pending (push_priority f a d s) = without_alert f a s @ [pushed_job f a d s]"
  by (simp add: push_priority_def pushed_job_def Let_def prep_simps)

lemma pushed_job_fields [simp]:
  "pj_feedID (pushed_job f a d s) = f" "pj_alertID (pushed_job f a d s) = a"
  "pj_token (pushed_job f a d s) = sv_nextToken s + 1"
  "Some (pj_version (pushed_job f a d s)) = bump a (versions s f) a"
  by (simp_all add: pushed_job_def bump_at)

lemma push_versions: "versions (push_priority f a d s) g b = (if g = f then bump a (versions s f) b else versions s g b)"
  by (simp add: push_state)

lemma push_priority_ok:
  assumes "priority_ok s"
  shows "priority_ok (push_priority f a d s)"
proof -
  let ?t = "push_priority f a d s"
  have act: "active ?t g = active s g" for g by (simp add: push_state)
  have "active_ok ?t"
    using assms unfolding priority_ok_def active_ok_def act push_fields by simp
  moreover have "pending_ok ?t"
  proof -
    from assms have old: "distinct (map (\<lambda>job. (pj_feedID job, pj_alertID job)) (sv_pending s))"
      "\<And>job. job \<in> set (sv_pending s) \<Longrightarrow> versions s (pj_feedID job) (pj_alertID job) = Some (pj_version job) \<and>
         pj_token job \<le> sv_nextToken s"
      by (simp_all add: priority_ok_def pending_ok_def)
    have "versions ?t (pj_feedID job) (pj_alertID job) = Some (pj_version job) \<and> pj_token job \<le> sv_nextToken s + 1"
      if "job \<in> set (without_alert f a s)" for job
      using that old(2) [of job] by (auto simp: without_alert_def push_versions bump_at)
    moreover have "versions ?t f a = Some (pj_version (pushed_job f a d s))"
      by (simp add: push_versions pushed_job_fields(4) [symmetric])
    moreover have "distinct (map (\<lambda>job. (pj_feedID job, pj_alertID job)) (without_alert f a s))"
      using old(1) by (simp add: without_alert_def distinct_map_filter)
    ultimately show ?thesis
      unfolding pending_ok_def push_pending push_fields by (auto simp: without_alert_def)
  qed
  moreover have "version_ok ?t"
    unfolding version_ok_def act
  proof (intro allI impI)
    fix g x
    assume x: "active s g = Some x"
    with assms obtain v where v: "ap_token x \<le> sv_nextToken s" "versions s g (ap_alertID x) = Some v" "ap_version x \<le> v"
      and pend: "\<forall>job\<in>set (sv_pending s). pj_feedID job = g \<and> pj_alertID job = ap_alertID x \<longrightarrow> ap_version x < pj_version job"
      unfolding priority_ok_def version_ok_def by blast
    let ?v = "if g = f \<and> ap_alertID x = a then v + 1 else v"
    have "versions ?t g (ap_alertID x) = Some ?v" using v by (auto simp: push_versions bump_at)
    moreover have "ap_version x < pj_version (pushed_job f a d s)" if "g = f" "ap_alertID x = a"
      using that v by (simp add: pushed_job_def)
    moreover have "ap_version x \<le> ?v" using v by simp
    moreover have "\<forall>job\<in>set (without_alert f a s). pj_feedID job = g \<and> pj_alertID job = ap_alertID x \<longrightarrow>
        ap_version x < pj_version job"
      using pend by (simp add: without_alert_def)
    ultimately show "ap_token x \<le> sv_nextToken ?t \<and> (\<exists>v. versions ?t g (ap_alertID x) = Some v \<and> ap_version x \<le> v) \<and>
        (\<forall>job\<in>set (sv_pending ?t). pj_feedID job = g \<and> pj_alertID job = ap_alertID x \<longrightarrow> ap_version x < pj_version job)"
      using v(1) unfolding push_pending push_fields by auto
  qed
  ultimately show ?thesis by (simp add: priority_ok_def)
qed

lemma start_state:
  "preparationState (start_job job rest c s) g =
     (if g = pj_feedID job then (preparationState s g)\<lparr>fs_priorityActive :=
        Some \<lparr>ap_token = pj_token job, ap_alertID = pj_alertID job, ap_version = pj_version job\<rparr>\<rparr>
      else preparationState s g)"
  by (simp add: start_job_def prep_simps)

lemma start_priority_ok:
  assumes "priority_ok s" and "take_startable (startable s) (sv_pending s) = Some (job, rest)"
    and "tryStartPriority job (sv_preparations s) = Some c"
  shows "priority_ok (start_job job rest c s)"
proof -
  let ?t = "start_job job rest c s" and ?f = "pj_feedID job"
  from take_startable_split [OF assms(2)] obtain before after
    where split: "sv_pending s = before @ job # after" "rest = before @ after" and "startable s job" by blast
  then have idle: "active s ?f = None" by (simp add: startable_def)
  have out: "outstanding (sv_preparations ?t) = concat (map worker_jobs (co_workers (sv_preparations s))) @ [job] @
      concat (map result_jobs (co_results (sv_preparations s)))"
    using outstanding_start [OF assms(3)] by (simp add: prep_simps)
  have mem: "set (outstanding (sv_preparations ?t)) = insert job (set (outstanding (sv_preparations s)))"
    unfolding out by (auto simp: outstanding_def)
  have other: "pj_feedID j \<noteq> ?f" if "j \<in> set (outstanding (sv_preparations s))" for j
    using that assms(1) idle by (auto simp: priority_ok_def active_ok_def owns_def)
  have count: "length (of_feed g (outstanding (sv_preparations ?t))) =
      length (of_feed g (outstanding (sv_preparations s))) + (if g = ?f then 1 else 0)" for g
    unfolding out by (simp add: outstanding_def of_feed_def)
  have none: "of_feed ?f (outstanding (sv_preparations s)) = []"
    using other by (auto simp: of_feed_def filter_empty_conv)
  have "active_ok ?t"
    unfolding active_ok_def mem
  proof (intro conjI allI ballI)
    fix g show "length (of_feed g (outstanding (sv_preparations ?t))) \<le> 1"
      using assms(1) none by (cases "g = ?f") (simp_all add: count priority_ok_def active_ok_def)
  next
    fix j assume "j \<in> insert job (set (outstanding (sv_preparations s)))"
    then show "owns j (active ?t (pj_feedID j))"
      using other [of j] assms(1) by (auto simp: start_state owns_def priority_ok_def active_ok_def)
  qed
  moreover have ver: "versions ?t g = versions s g" for g by (simp add: start_state)
  have "pending_ok ?t"
    using assms(1) unfolding priority_ok_def pending_ok_def ver start_job_fields unfolding split by auto
  moreover have "version_ok ?t"
    unfolding version_ok_def ver
  proof (intro allI impI)
    fix g x
    assume x: "active ?t g = Some x"
    have pend: "pending_ok s" using assms(1) by (simp add: priority_ok_def)
    show "ap_token x \<le> sv_nextToken ?t \<and> (\<exists>v. versions s g (ap_alertID x) = Some v \<and> ap_version x \<le> v) \<and>
        (\<forall>j\<in>set (sv_pending ?t). pj_feedID j = g \<and> pj_alertID j = ap_alertID x \<longrightarrow> ap_version x < pj_version j)"
    proof (cases "g = ?f")
      case True
      with x have "x = \<lparr>ap_token = pj_token job, ap_alertID = pj_alertID job, ap_version = pj_version job\<rparr>"
        by (simp add: start_state)
      moreover have "(pj_feedID j, pj_alertID j) \<noteq> (?f, pj_alertID job)" if "j \<in> set rest" for j
        using pend that unfolding pending_ok_def split by (auto simp: image_iff)
      ultimately show ?thesis
        using True pend unfolding start_job_fields pending_ok_def split by auto
    next
      case False
      with x have "active s g = Some x" by (simp add: start_state)
      with assms(1) show ?thesis
        unfolding priority_ok_def version_ok_def start_job_fields split by auto
    qed
  qed
  ultimately show ?thesis by (simp add: priority_ok_def)
qed

lemma take_result_state:
  "preparationState (take_priority_result senv r s) g =
     (let f = pj_feedID (pr_job r)
      in if g = f \<and> (\<exists>a. active s f = Some a \<and> ap_token a = pj_token (pr_job r))
         then (preparationState s f)\<lparr>fs_priorityActive := None\<rparr> else preparationState s g)"
  by (auto simp: take_priority_result_def Let_def prep_simps split: option.splits)

lemma owns_token: "owns job a \<Longrightarrow> \<exists>x. a = Some x \<and> ap_token x = pj_token job"
  by (simp add: owns_def)

lemma settled_priority_ok:
  assumes "priority_ok s" and "co_results (sv_preparations s) = PriorityResult r # q"
  shows "priority_ok (take_priority_result senv r (pop_result q s))"
proof -
  let ?t = "take_priority_result senv r (pop_result q s)" and ?f = "pj_feedID (pr_job r)"
  let ?rest = "concat (map worker_jobs (co_workers (sv_preparations s))) @ concat (map result_jobs q)"
  have out: "mset (outstanding (sv_preparations s)) = add_mset (pr_job r) (mset ?rest)"
    using outstanding_pop [OF assms(2)] by simp
  have out': "outstanding (sv_preparations ?t) = ?rest"
    by (simp only: take_result_fields pop_fields outstanding_release) (simp add: outstanding_def)
  have in_out: "pr_job r \<in># mset (outstanding (sv_preparations s))" unfolding out by simp
  then have own: "owns (pr_job r) (active s ?f)"
    using assms(1) by (simp add: priority_ok_def active_ok_def)
  note owner = owns_token [OF own]
  have state: "preparationState ?t g =
      (if g = ?f then (preparationState s ?f)\<lparr>fs_priorityActive := None\<rparr> else preparationState s g)" for g
    using owner by (simp add: take_result_state prep_simps)
  have ver: "versions ?t g = versions s g" for g by (simp add: state)
  have count: "length (of_feed g (outstanding (sv_preparations s))) =
      length (of_feed g ?rest) + (if g = ?f then 1 else 0)" for g
    using arg_cong [OF out, of "\<lambda>M. size (filter_mset (\<lambda>job. pj_feedID job = g) M)"]
    by (simp add: of_feed_def mset_filter [symmetric] del: mset_filter)
  have one: "length (of_feed g (outstanding (sv_preparations s))) \<le> 1" for g
    using assms(1) by (simp add: priority_ok_def active_ok_def)
  have "length (of_feed ?f ?rest) = 0" using count [of ?f] one [of ?f] by simp
  then have other: "pj_feedID j \<noteq> ?f" if "j \<in> set ?rest" for j
    using that by (auto simp: of_feed_def filter_empty_conv)
  have "set ?rest \<subseteq> set (outstanding (sv_preparations s))"
    using arg_cong [OF out, of set_mset] by auto
  with assms(1) have "owns j (active s (pj_feedID j))" if "j \<in> set ?rest" for j
    using that unfolding priority_ok_def active_ok_def by blast
  then have owned: "\<forall>j\<in>set ?rest. owns j (active ?t (pj_feedID j))"
    using other by (simp add: state)
  have "length (of_feed g ?rest) \<le> 1" for g using count [of g] one [of g] by linarith
  with owned have "active_ok ?t" unfolding active_ok_def out' by blast
  moreover have "pending_ok ?t"
    using assms(1) unfolding priority_ok_def pending_ok_def ver take_result_fields pop_fields by simp
  moreover have "version_ok ?t"
    using assms(1) unfolding priority_ok_def version_ok_def take_result_fields pop_fields by (auto simp: state)
  ultimately show ?thesis by (simp add: priority_ok_def)
qed

lemma popped_priority_ok:
  assumes "priority_ok s" and "co_results (sv_preparations s) = r # q"
  shows "priority_ok (pop_result q s)"
proof (rule priority_ok_shrinks [OF assms(1)])
  show "mset (outstanding (sv_preparations (pop_result q s))) \<subseteq># mset (outstanding (sv_preparations s))"
    using outstanding_pop [OF assms(2)]
    by (simp only: pop_fields outstanding_release) (simp add: outstanding_def)
qed (simp_all add: prep_simps)

lemma co_priority_ok:
  assumes "priority_ok s" and "mset (outstanding c) \<subseteq># mset (outstanding (sv_preparations s))"
  shows "priority_ok (with_co c s)"
  by (rule priority_ok_shrinks [OF assms(1)]) (simp_all add: prep_simps assms(2))

interpretation priority: service_invariant priority_ok
proof unfold_locales
  fix s f p assume "priority_ok s"
  then show "priority_ok (set_planner f p s)"
    by (rule priority_ok_shrinks) (simp_all add: prep_simps)
next
  fix s d assume "priority_ok s"
  then show "priority_ok (s\<lparr>sv_dispatch := d\<rparr>)"
    by (rule priority_ok_shrinks) (simp_all add: prep_simps)
next
  fix s f and st :: feedPreparationState
  assume ok: "priority_ok s" and st: "fs_priorityVersions st = versions s f" "fs_priorityActive st = active s f"
  show "priority_ok (set_state f st s)"
    by (rule priority_ok_shrinks [OF ok]) (simp_all add: prep_simps st)
next
  fix s w c
  assume ok: "priority_ok s" and c: "try_routine_slot w (sv_preparations s) = Some c"
  show "priority_ok (s\<lparr>sv_preparations := c\<rparr>)"
    by (rule priority_ok_shrinks [OF ok]) (simp_all add: prep_simps outstanding_routine_slot [OF c])
qed (simp_all only: prune_priority_ok push_priority_ok start_priority_ok release_priority_ok cancel_priority_ok
    settled_priority_ok popped_priority_ok, auto intro!: co_priority_ok
    simp: outstanding_finish_routine outstanding_finish_priority outstanding_sent outstanding_dropped)

section \<open>Withdrawn requests\<close>

text \<open>All requests for alert \<open>a\<close> of feed \<open>f\<close> with a token up to \<open>n\<close> are void: none is pending, an
  active one is outdated, and none has been committed since the commits were \<open>C\<close>.\<close>

definition withdrawn :: "string \<Rightarrow> string \<Rightarrow> nat \<Rightarrow> priorityPreparationJob list \<Rightarrow> service \<Rightarrow> bool" where
  "withdrawn f a n C s \<longleftrightarrow>
     n \<le> sv_nextToken s \<and>
     (\<forall>job\<in>set (sv_pending s). pj_feedID job = f \<and> pj_alertID job = a \<longrightarrow> n < pj_token job) \<and>
     (\<forall>x. active s f = Some x \<and> ap_alertID x = a \<longrightarrow>
        n < ap_token x \<or> (\<exists>v. versions s f a = Some v \<and> ap_version x < v)) \<and>
     (\<exists>fresh. sv_commits s = C @ fresh \<and>
        (\<forall>job\<in>set fresh. pj_feedID job = f \<and> pj_alertID job = a \<longrightarrow> n < pj_token job))"

lemma withdrawn_outdated:
  assumes "withdrawn f a n C s" and "active s f = Some x" and "ap_alertID x = a"
    and "\<And>v. versions s f a = Some v \<Longrightarrow> \<exists>v'. versions t f a = Some v' \<and> v \<le> v'"
  shows "n < ap_token x \<or> (\<exists>v. versions t f a = Some v \<and> ap_version x < v)"
proof -
  from assms(1-3) consider "n < ap_token x" | v where "versions s f a = Some v" "ap_version x < v"
    unfolding withdrawn_def by blast
  then show ?thesis using assms(4) by cases (auto intro: less_le_trans)
qed

lemma withdrawn_keeps:
  assumes "withdrawn f a n C s" and "sv_nextToken s \<le> sv_nextToken t" and "set (sv_pending t) \<subseteq> set (sv_pending s)"
    and "active t f = active s f" and "sv_commits t = sv_commits s"
    and "\<And>x v. active s f = Some x \<Longrightarrow> versions s f (ap_alertID x) = Some v \<Longrightarrow>
      \<exists>v'. versions t f (ap_alertID x) = Some v' \<and> v \<le> v'"
  shows "withdrawn f a n C t"
proof -
  have "n < ap_token x \<or> (\<exists>v. versions t f a = Some v \<and> ap_version x < v)"
    if "active t f = Some x" "ap_alertID x = a" for x
    by (rule withdrawn_outdated [OF assms(1) _ that(2)]) (use that assms(4,6) in auto)
  with assms(1-3,5) show ?thesis unfolding withdrawn_def by (auto simp: subset_iff)
qed

lemma release_versions_active:
  "active s f = Some x \<Longrightarrow>
   versions (foldl (\<lambda>s y. releasePriorityVersion (h y) (k y) s) s ys) f (ap_alertID x) = versions s f (ap_alertID x)"
proof (induction ys arbitrary: s)
  case (Cons y ys)
  have "active (releasePriorityVersion (h y) (k y) s) f = Some x" using Cons.prems by (simp add: prep_simps)
  moreover have "versions (releasePriorityVersion (h y) (k y) s) f (ap_alertID x) = versions s f (ap_alertID x)"
    using Cons.prems by (auto simp: release_versions_at)
  ultimately show ?case using Cons.IH by simp
qed simp

lemma cancel_state:
  assumes "priorityAlertIDs data \<noteq> []"
  shows "cancelPriorityPreparations f data s =
    foldl (\<lambda>s alertID. releasePriorityVersion f alertID s)
      ((set_state f ((preparationState s f)\<lparr>fs_priorityVersions := bump_versions (priorityAlertIDs data) (versions s f)\<rparr>) s)
        \<lparr>sv_pending := filter (\<lambda>job. \<not> (pj_feedID job = f \<and> pj_alertID job \<in> set (priorityAlertIDs data))) (sv_pending s)\<rparr>)
      (priorityAlertIDs data)"
  using assms by (simp add: cancelPriorityPreparations_def Let_def prep_simps)

text \<open>Cancelling an alert outdates its running preparation.\<close>

lemma cancel_versions_grow:
  assumes "active s g = Some x" and "versions s g (ap_alertID x) = Some v"
  shows "\<exists>v'. versions (cancelPriorityPreparations f data s) g (ap_alertID x) = Some v' \<and> v \<le> v' \<and>
    (g = f \<and> ap_alertID x \<in> set (priorityAlertIDs data) \<longrightarrow> v < v')"
proof (cases "priorityAlertIDs data = []")
  case True
  with assms(2) show ?thesis by (simp add: cancelPriorityPreparations_def)
next
  case False
  let ?ids = "priorityAlertIDs data"
  let ?t = "(set_state f ((preparationState s f)\<lparr>fs_priorityVersions := bump_versions ?ids (versions s f)\<rparr>) s)
    \<lparr>sv_pending := filter (\<lambda>job. \<not> (pj_feedID job = f \<and> pj_alertID job \<in> set ?ids)) (sv_pending s)\<rparr>"
  obtain w where w: "versions ?t g (ap_alertID x) = Some w" "v \<le> w" "g = f \<and> ap_alertID x \<in> set ?ids \<longrightarrow> v < w"
  proof (cases "g = f")
    case True
    with bump_versions_grow [of "versions s g" "ap_alertID x" v ?ids] assms(2) show thesis
      by (auto simp: prep_simps intro: that)
  next
    case False
    with assms(2) show thesis by (auto simp: prep_simps intro: that)
  qed
  have "active ?t g = Some x" using assms(1) by (auto simp: prep_simps)
  from release_versions_active [OF this, of "\<lambda>y. f" "\<lambda>y. y" ?ids] w show ?thesis
    unfolding cancel_state [OF False] by simp
qed

lemma withdrawn_cancel: "withdrawn f a n C s \<Longrightarrow> withdrawn f a n C (cancelPriorityPreparations g data s)"
proof (erule withdrawn_keeps)
  fix x v
  assume "active s f = Some x" "versions s f (ap_alertID x) = Some v"
  from cancel_versions_grow [OF this] show "\<exists>v'. versions (cancelPriorityPreparations g data s) f (ap_alertID x) = Some v' \<and> v \<le> v'"
    by blast
qed (auto simp: cancelPriorityPreparations_def Let_def prep_simps)

lemma withdrawn_push:
  assumes "withdrawn f a n C s"
  shows "withdrawn f a n C (push_priority g b d s)"
proof -
  have grow: "\<exists>v'. versions (push_priority g b d s) f x = Some v' \<and> v \<le> v'" if "versions s f x = Some v" for x v
    using that by (auto simp: push_versions bump_at)
  have act: "active (push_priority g b d s) f = active s f" by (simp add: push_state)
  have "n < ap_token x \<or> (\<exists>v. versions (push_priority g b d s) f a = Some v \<and> ap_version x < v)"
    if "active s f = Some x" "ap_alertID x = a" for x
    using assms that grow [of a] by (rule withdrawn_outdated)
  with assms show ?thesis
    unfolding withdrawn_def push_pending push_fields act by (auto simp: without_alert_def)
qed

lemma withdrawn_start:
  assumes "withdrawn f a n C s" and "take_startable (startable s) (sv_pending s) = Some (job, rest)"
  shows "withdrawn f a n C (start_job job rest c s)"
proof -
  from take_startable_split [OF assms(2)] have "job \<in> set (sv_pending s)" "set rest \<subseteq> set (sv_pending s)" by auto
  with assms(1) show ?thesis
    unfolding withdrawn_def start_job_fields by (auto simp: start_state split: if_split_asm)
qed

lemma take_result_commits:
  "sv_commits (take_priority_result senv r s) = sv_commits s \<or>
   sv_commits (take_priority_result senv r s) = sv_commits s @ [pr_job r] \<and>
   (\<exists>x. active s (pj_feedID (pr_job r)) = Some x \<and> ap_token x = pj_token (pr_job r)) \<and>
   (case versions s (pj_feedID (pr_job r)) (pj_alertID (pr_job r)) of None \<Rightarrow> 0 | Some v \<Rightarrow> v) = pj_version (pr_job r)"
proof -
  let ?f = "pj_feedID (pr_job r)"
  let ?owner = "case active s ?f of None \<Rightarrow> False | Some x \<Rightarrow> ap_token x = pj_token (pr_job r)"
  let ?state = "if ?owner then (preparationState s ?f)\<lparr>fs_priorityActive := None\<rparr> else preparationState s ?f"
  let ?current = "(case versions s ?f (pj_alertID (pr_job r)) of None \<Rightarrow> 0 | Some v \<Rightarrow> v) = pj_version (pr_job r)"
  have t: "take_priority_result senv r s = settle_priority senv r ?owner ?current (set_state ?f ?state s)"
    by (auto simp: take_priority_result_def Let_def)
  have "?owner \<Longrightarrow> \<exists>x. active s ?f = Some x \<and> ap_token x = pj_token (pr_job r)" by (simp split: option.split_asm)
  with settle_commits [of senv r ?owner ?current "set_state ?f ?state s"] show ?thesis
    unfolding t set_state_fields by blast
qed

lemma withdrawn_settled:
  assumes "priority_ok s" and "withdrawn f a n C s" and "co_results (sv_preparations s) = PriorityResult r # q"
  shows "withdrawn f a n C (take_priority_result senv r (pop_result q s))"
proof -
  let ?t = "take_priority_result senv r (pop_result q s)" and ?f = "pj_feedID (pr_job r)"
  have "pr_job r \<in> set (outstanding (sv_preparations s))"
    using outstanding_pop [OF assms(3)] by simp
  then have own: "owns (pr_job r) (active s ?f)"
    using assms(1) by (simp add: priority_ok_def active_ok_def)
  have fresh: "n < pj_token (pr_job r)"
    if "sv_commits ?t \<noteq> sv_commits s" "?f = f" "pj_alertID (pr_job r) = a"
  proof -
    from take_result_commits [of senv r "pop_result q s"] that(1)
    have "(case versions s ?f (pj_alertID (pr_job r)) of None \<Rightarrow> 0 | Some v \<Rightarrow> v) = pj_version (pr_job r)"
      unfolding pop_fields by blast
    with own assms(2) that(2,3) show ?thesis unfolding withdrawn_def by (auto simp: owns_def)
  qed
  have state: "preparationState ?t g =
      (if g = ?f then (preparationState s ?f)\<lparr>fs_priorityActive := None\<rparr> else preparationState s g)" for g
    using owns_token [OF own] by (simp add: take_result_state prep_simps)
  obtain old where "sv_commits s = C @ old" "\<forall>job\<in>set old. pj_feedID job = f \<and> pj_alertID job = a \<longrightarrow> n < pj_token job"
    using assms(2) unfolding withdrawn_def by blast
  then have "\<exists>later. sv_commits ?t = C @ later \<and> (\<forall>job\<in>set later. pj_feedID job = f \<and> pj_alertID job = a \<longrightarrow> n < pj_token job)"
    using take_result_commits [of senv r "pop_result q s"] fresh unfolding pop_fields
    by (cases "sv_commits ?t = sv_commits s") auto
  with assms(2) show ?thesis
    unfolding withdrawn_def take_result_fields pop_fields by (auto simp: state split: if_split_asm)
qed

lemma withdrawn_same:
  assumes "withdrawn f a n C s" and "sv_nextToken t = sv_nextToken s" and "sv_pending t = sv_pending s"
    and "active t f = active s f" and "versions t f = versions s f" and "sv_commits t = sv_commits s"
  shows "withdrawn f a n C t"
  using assms unfolding withdrawn_def by simp

lemma withdrawn_release: "withdrawn f a n C s \<Longrightarrow> withdrawn f a n C (releasePriorityVersion g b s)"
  by (erule withdrawn_keeps) (auto simp: prep_simps release_versions_at)

lemma withdrawn_prune: "withdrawn f a n C s \<Longrightarrow> withdrawn f a n C (pruneStalePriorityPreparations senv s)"
  unfolding pruneStalePriorityPreparations_def release_versions_def Let_def
  by (erule withdrawn_keeps) (auto simp: prep_simps release_versions_active)

lemmas withdrawn_frame = withdrawn_same [where t = "set_planner g p s" for g p s]
  withdrawn_same [where t = "s\<lparr>sv_dispatch := d\<rparr>" for s d]
  withdrawn_same [where t = "s\<lparr>sv_preparations := c\<rparr>" for s c]
  withdrawn_same [where t = "with_co c s" for s c]
  withdrawn_same [where t = "pop_result q s" for s q]
  withdrawn_same [where t = "set_state g st s" for g st s]

interpretation withdrawn: service_invariant "\<lambda>s. priority_ok s \<and> withdrawn f a n C s" for f a n C
  apply unfold_locales
  apply (auto intro: priority.planner priority.dispatch priority.routine_state priority.routine_slot
    priority.prune priority.push priority.start priority.release priority.cancel priority.popped priority.settled
    priority.routine_finished priority.priority_finished priority.result_sent priority.result_dropped
    withdrawn_cancel withdrawn_push withdrawn_start withdrawn_release withdrawn_settled withdrawn_prune
    withdrawn_frame simp: prep_simps)
  done

section \<open>Properties\<close>

lemma reachable_priority_ok: "service_reachable s \<Longrightarrow> priority_ok s"
  by (rule priority.reachable)
    (simp_all add: priority_defs newService_def newPreparationCoordinator_def outstanding_def of_feed_def
      preparationState_def newPreparationState_def)

text \<open>A cancellation and an accepted request both withdraw the earlier requests for the alert.\<close>

lemma cancel_withdraws:
  assumes "priority_ok s" and "a \<in> set (priorityAlertIDs data)"
  shows "withdrawn f a (sv_nextToken s) (sv_commits s) (cancelPriorityPreparations f data s)"
proof -
  let ?t = "cancelPriorityPreparations f data s"
  from assms(2) have ids: "priorityAlertIDs data \<noteq> []" by auto
  have act: "active ?t f = active s f" unfolding cancel_state [OF ids] by (simp add: prep_simps)
  have "\<exists>v. versions ?t f a = Some v \<and> ap_version x < v" if x: "active s f = Some x" "ap_alertID x = a" for x
  proof -
    from assms(1) x(1) obtain v where "versions s f (ap_alertID x) = Some v" "ap_version x \<le> v"
      unfolding priority_ok_def version_ok_def by blast
    with cancel_versions_grow [OF x(1) this(1), of f data] assms(2) x(2) show ?thesis by (auto intro: le_less_trans)
  qed
  moreover have "sv_pending ?t = filter (\<lambda>job. \<not> (pj_feedID job = f \<and> pj_alertID job \<in> set (priorityAlertIDs data))) (sv_pending s)"
    "sv_nextToken ?t = sv_nextToken s" "sv_commits ?t = sv_commits s"
    unfolding cancel_state [OF ids] by (simp_all add: prep_simps)
  ultimately show ?thesis using assms(2) unfolding withdrawn_def act by auto
qed

lemma push_withdraws:
  assumes "priority_ok s"
  shows "withdrawn f a (sv_nextToken s) (sv_commits s) (push_priority f a d s)"
proof -
  have act: "active (push_priority f a d s) f = active s f" by (simp add: push_state)
  have "\<exists>v. versions (push_priority f a d s) f a = Some v \<and> ap_version x < v"
    if "active s f = Some x" "ap_alertID x = a" for x
    using assms that unfolding priority_ok_def version_ok_def by (fastforce simp: push_versions bump_at)
  then show ?thesis
    unfolding withdrawn_def act push_pending push_fields by (auto simp: without_alert_def)
qed

lemma cancelled_fields:
  "sv_nextToken (handle_cancelled senv data f s) = sv_nextToken s"
  "sv_commits (handle_cancelled senv data f s) = sv_commits s"
  by (simp_all add: handle_cancelled_def update_planner_def invalidateRoutinePreparation_def Let_def
      cancelPriorityPreparations_def prep_simps split: option.splits)

lemma cancelled_withdraws:
  assumes "priority_ok s" and "a \<in> set (priorityAlertIDs data)"
  shows "priority_ok (handle_cancelled senv data f s) \<and>
    withdrawn f a (sv_nextToken s) (sv_commits s) (handle_cancelled senv data f s)"
  unfolding handle_cancelled_def
  by (intro withdrawn.planner_updated withdrawn.invalidated conjI cancel_withdraws priority.cancel assms)

lemma all_cancelled_withdraw:
  assumes "priority_ok s" and "a \<in> set (priorityAlertIDs data)" and "f \<in> set feedIDs"
  shows "priority_ok (for_feeds feedIDs (handle_cancelled senv data) s) \<and>
    withdrawn f a (sv_nextToken s) (sv_commits s) (for_feeds feedIDs (handle_cancelled senv data) s)"
  using assms
proof (induction feedIDs arbitrary: s)
  case (Cons g feedIDs)
  let ?s = "handle_cancelled senv data g s"
  have step: "for_feeds (g # feedIDs) (handle_cancelled senv data) s = for_feeds feedIDs (handle_cancelled senv data) ?s"
    by (simp add: for_feeds_def)
  show ?case
  proof (cases "g = f")
    case True
    show ?thesis
      unfolding step by (rule withdrawn.for_all_feeds) (use True Cons.prems cancelled_withdraws withdrawn.controls_handled(2) in auto)
  next
    case False
    have "priority_ok ?s" using Cons.prems(1) by (rule priority.controls_handled)
    with Cons.IH [OF this] Cons.prems False show ?thesis by (simp add: step cancelled_fields)
  qed
qed simp

text \<open>C1: once an alert has been cancelled for a feed, no request for it that was accepted before the
  cancellation is ever committed to the playout, whatever the service does afterwards and in whatever
  order the preparation workers finish; a later commit of the alert belongs to a newer request.\<close>

theorem cancelled_alert_not_committed:
  assumes "service_reachable s" and "stringAt event ''type'' = ''cap.alert.cancelled''"
    and "f \<in> set (matchFeedsFromEvent senv s event)"
    and "a \<in> set (priorityAlertIDs (eventDataWithIdentity event))"
    and "service_step\<^sup>*\<^sup>* (handleEvent senv False event s) t"
  shows "\<exists>fresh. sv_commits t = sv_commits s @ fresh \<and>
     (\<forall>job\<in>set fresh. pj_feedID job = f \<and> pj_alertID job = a \<longrightarrow> sv_nextToken s < pj_token job)"
proof -
  have "handleEvent senv False event s =
      for_feeds (matchFeedsFromEvent senv s event) (handle_cancelled senv (eventDataWithIdentity event)) s"
    using assms(2) by (simp add: handleEvent_def shouldDeferCAPPlayoutToRust_def Let_def)
  with all_cancelled_withdraw [OF reachable_priority_ok [OF assms(1)] assms(4,3)]
  have "withdrawn f a (sv_nextToken s) (sv_commits s) t"
    using withdrawn.steps [OF assms(5)] by metis
  then show ?thesis unfolding withdrawn_def by blast
qed

text \<open>C6: a request that is accepted for an alert replaces every earlier request for it: the
  preparation that is under way for an earlier one is never committed.\<close>

theorem superseded_request_not_committed:
  assumes "service_reachable s" and "sv_feeds s f \<noteq> None"
    and "snd (enqueuePriorityPreparation senv f raw s) = None"
    and "service_step\<^sup>*\<^sup>* (handle_broadcast senv raw f s) t"
  shows "\<exists>fresh. sv_commits t = sv_commits s @ fresh \<and>
     (\<forall>job\<in>set fresh. pj_feedID job = f \<and> pj_alertID job = snd (normalizePriorityAlertRequest senv raw) \<longrightarrow>
        sv_nextToken s < pj_token job)"
proof -
  obtain data a where norm: "normalizePriorityAlertRequest senv raw = (data, a)" by (cases "normalizePriorityAlertRequest senv raw")
  let ?u = "pruneStalePriorityPreparations senv (invalidateRoutinePreparation f s)"
  have u: "priority_ok ?u" "sv_nextToken ?u = sv_nextToken s" "sv_commits ?u = sv_commits s"
    using priority.prune [OF priority.invalidated [OF reachable_priority_ok [OF assms(1)]]]
    by (simp_all add: prep_simps invalidateRoutinePreparation_def Let_def)
  have enq: "enqueuePriorityPreparation senv f raw s =
      (startPendingPriorityPreparations senv (push_priority f a data ?u), None)"
    using assms(2,3) norm by (auto simp: enqueuePriorityPreparation_def Let_def split: if_split_asm)
  have "priority_ok (push_priority f a data ?u) \<and> withdrawn f a (sv_nextToken s) (sv_commits s) (push_priority f a data ?u)"
    using push_priority_ok [OF u(1)] push_withdraws [OF u(1)] u(2,3) by simp
  then have "priority_ok (handle_broadcast senv raw f s) \<and> withdrawn f a (sv_nextToken s) (sv_commits s) (handle_broadcast senv raw f s)"
    unfolding handle_broadcast_def enq prod.case option.case by (intro withdrawn.dispatched withdrawn.pending_started)
  then have "withdrawn f a (sv_nextToken s) (sv_commits s) t" using withdrawn.steps [OF assms(4)] by blast
  then show ?thesis using norm unfolding withdrawn_def by auto
qed

text \<open>The loop that starts the pending requests ends when none can start or no slot is left.\<close>

lemma take_startable_None: "take_startable P jobs = None \<Longrightarrow> job \<in> set jobs \<Longrightarrow> \<not> P job"
  by (induction jobs) (auto split: if_split_asm)

lemma start_pending_exhausts:
  "take_startable (startable (start_pending s)) (sv_pending (start_pending s)) = Some (job, rest) \<Longrightarrow>
   tryStartPriority job (sv_preparations (start_pending s)) = None"
proof (induction s rule: start_pending.induct)
  case (1 s)
  then show ?case
    by (subst (asm) (2 3) start_pending.simps, subst start_pending.simps) (auto split: option.splits prod.splits)
qed

text \<open>All priority workers are preparing, or every place for a result is taken by a worker or by a result that waits.\<close>

definition pool_exhausted :: "service \<Rightarrow> bool" where
  "pool_exhausted s \<longleftrightarrow>
     length (filter is_priority (co_workers (sv_preparations s))) = 4 \<or>
     length (co_workers (sv_preparations s)) + length (co_results (sv_preparations s)) = 8"

lemma started_exhausts:
  assumes "slots_ok (sv_preparations s)" and "caps s = (4, 4)" and "\<not> se_done senv"
    and "job \<in> set (sv_pending (startPendingPriorityPreparations senv s))"
    and "startable (startPendingPriorityPreparations senv s) job"
  shows "pool_exhausted (startPendingPriorityPreparations senv s)"
proof -
  let ?t = "startPendingPriorityPreparations senv s"
  from assms(3) obtain u where t: "?t = start_pending u" by (simp add: startPendingPriorityPreparations_def)
  have "take_startable (startable ?t) (sv_pending ?t) \<noteq> None" using take_startable_None assms(4,5) by blast
  then obtain found rest where "take_startable (startable ?t) (sv_pending ?t) = Some (found, rest)" by auto
  then have "tryStartPriority found (sv_preparations ?t) = None" unfolding t by (rule start_pending_exhausts)
  moreover have "slots_ok (sv_preparations ?t)" "caps ?t = (4, 4)"
    using slots.pending_started [OF assms(1)] pools.pending_started [OF assms(2)] by auto
  ultimately show ?thesis
    by (auto simp: pool_exhausted_def tryStartPriority_def reserveResultSlot_def slots_ok_def caps_def
        result_cap_def split: if_split_asm)
qed

lemma release_keeps_waiting:
  "startable (releasePriorityVersion f a s) job = startable s job"
  "pool_exhausted (releasePriorityVersion f a s) = pool_exhausted s"
  by (simp_all add: startable_def pool_exhausted_def prep_simps)
    (simp add: releasePriorityVersion_def prep_simps split: option.splits)

text \<open>C30: when the service has accepted an alert, and when it has handled the result of a prepared alert, a
  waiting alert of a feed that is known and has no alert under preparation is left waiting only if
  all priority workers are preparing or all places for results are taken.\<close>

theorem pending_alert_starts:
  assumes "service_reachable s" and "\<not> se_done senv"
    and "sv_feeds s f \<noteq> None \<and> enqueuePriorityPreparation senv f data s = (t, None) \<or>
      co_results (sv_preparations s) = PriorityResult r # rest \<and> sv_feeds s (pj_feedID (pr_job r)) \<noteq> None \<and>
      t = handlePreparationResult senv (PriorityResult r) (with_co ((sv_preparations s)\<lparr>co_results := rest\<rparr>) s)"
    and "job \<in> set (sv_pending t)" and "startable t job"
  shows "pool_exhausted t"
proof -
  note ok = reachable_slots_ok [OF assms(1)] reachable_caps [OF assms(1)]
  from assms(3) consider
      a d where "t = startPendingPriorityPreparations senv
        (push_priority f a d (pruneStalePriorityPreparations senv (invalidateRoutinePreparation f s)))"
        and "int (length (without_alert f a (pruneStalePriorityPreparations senv (invalidateRoutinePreparation f s))))
          < pending_limit (pruneStalePriorityPreparations senv (invalidateRoutinePreparation f s))"
    | "co_results (sv_preparations s) = PriorityResult r # rest"
        "t = releasePriorityVersion (pj_feedID (pr_job r)) (pj_alertID (pr_job r))
          (startPendingPriorityPreparations senv (take_priority_result senv r (pop_result rest s)))"
    by (auto simp: enqueuePriorityPreparation_def Let_def handlePreparationResult_def
        handlePriorityPreparationResult_def pop_result_def with_co_def split: if_splits option.splits prod.splits)
  then show ?thesis
  proof cases
    case 1
    let ?u = "pruneStalePriorityPreparations senv (invalidateRoutinePreparation f s)"
    have "slots_ok (sv_preparations (push_priority f a d ?u))" "caps (push_priority f a d ?u) = (4, 4)"
      using slots.push [OF slots.prune [OF slots.invalidated [OF ok(1)]] 1(2)]
        pools.push [OF pools.prune [OF pools.invalidated [OF ok(2)]] 1(2)] by auto
    from started_exhausts [OF this assms(2)] assms(4,5) 1(1) show ?thesis by simp
  next
    case 2
    let ?u = "take_priority_result senv r (pop_result rest s)"
    have "slots_ok (sv_preparations ?u)" "caps ?u = (4, 4)"
      using slots.settled [OF ok(1) 2(1)] pools.settled [OF ok(2) 2(1)] by auto
    from started_exhausts [OF this assms(2)] assms(4,5) 2(2) show ?thesis
      by (simp add: release_keeps_waiting prep_simps)
  qed
qed

section \<open>Witnesses\<close>

definition sample_cancellation :: message where
  "sample_cancellation = [(''data'', ObjV [(''alert_id'', StrV ''A1''), (''feed_id'', StrV ''feed'')]),
     (''type'', StrV ''cap.alert.cancelled'')]"

theorem cancelled_alert_not_committed_witness:
  "length (outstanding (sv_preparations sample_service)) = 1 \<and>
   (\<exists>fresh. sv_commits (handleEvent sample_senv False sample_cancellation sample_service) = sv_commits sample_service @ fresh \<and>
     (\<forall>job\<in>set fresh. pj_feedID job = ''feed'' \<and> pj_alertID job = ''A1'' \<longrightarrow> sv_nextToken sample_service < pj_token job))"
proof -
  have "stringAt sample_cancellation ''type'' = ''cap.alert.cancelled''" by code_simp
  moreover have "list_ex (\<lambda>x. x = ''feed'') (matchFeedsFromEvent sample_senv sample_service sample_cancellation)" by code_simp
  moreover have "list_ex (\<lambda>x. x = ''A1'') (priorityAlertIDs (eventDataWithIdentity sample_cancellation))" by code_simp
  moreover have "length (outstanding (sv_preparations sample_service)) = 1" by code_simp
  ultimately show ?thesis
    using cancelled_alert_not_committed [OF sample_service_reachable, of sample_cancellation "''feed''" sample_senv "''A1''"]
    by (auto simp: list_ex_iff)
qed

definition sample_request :: message where
  "sample_request = [(''alert_id'', StrV ''A1''), (''feed_id'', StrV ''feed'')]"

theorem superseded_request_not_committed_witness:
  "snd (enqueuePriorityPreparation sample_senv ''feed'' sample_request sample_service) = None \<and>
   (\<exists>fresh. sv_commits (handle_broadcast sample_senv sample_request ''feed'' sample_service) = sv_commits sample_service @ fresh \<and>
     (\<forall>job\<in>set fresh. pj_feedID job = ''feed'' \<and>
        pj_alertID job = snd (normalizePriorityAlertRequest sample_senv sample_request) \<longrightarrow>
        sv_nextToken sample_service < pj_token job))"
proof -
  have "sv_feeds sample_service ''feed'' \<noteq> None" by code_simp
  moreover have "snd (enqueuePriorityPreparation sample_senv ''feed'' sample_request sample_service) = None" by code_simp
  ultimately show ?thesis
    using superseded_request_not_committed [OF sample_service_reachable] by blast
qed

definition crowded_feeds :: "string list" where
  "crowded_feeds = [''f1'', ''f2'', ''f3'', ''f4'', ''f5'']"

definition crowded_senv :: service_env where
  "crowded_senv = sample_senv\<lparr>se_order := crowded_feeds\<rparr>"

definition crowded_service :: service where
  "crowded_service =
     handleEvent crowded_senv False
       [(''data'', ObjV [(''alert_id'', StrV ''A1''), (''feed_id'', StrV ''*'')]), (''type'', StrV ''cap.alert.broadcast.requested'')]
       (newService (map (\<lambda>f. (f, sample_env)) crowded_feeds) 0)"

theorem pending_alert_starts_witness:
  "let t = fst (enqueuePriorityPreparation crowded_senv ''f5'' sample_request crowded_service)
   in list_ex (startable t) (sv_pending t) \<and> pool_exhausted t"
proof -
  let ?r = "enqueuePriorityPreparation crowded_senv ''f5'' sample_request crowded_service"
  have "service_reachable crowded_service"
    unfolding crowded_service_def by (rule service_reachable.step [OF service_reachable.init service_step.event])
  moreover have "\<not> se_done crowded_senv" by code_simp
  moreover have "sv_feeds crowded_service ''f5'' \<noteq> None" by code_simp
  moreover have "snd ?r = None" by code_simp
  moreover have "list_ex (startable (fst ?r)) (sv_pending (fst ?r))" by code_simp
  ultimately show ?thesis
    using pending_alert_starts [of crowded_service crowded_senv "''f5''" sample_request "fst ?r"]
      prod.collapse [of ?r] unfolding Let_def list_ex_iff by auto
qed

end
