(* ===== verification/Stranded_Alert.thy ===== *)
theory Stranded_Alert
  imports Priority_Alerts
begin

text \<open>
  A waiting alert is looked at again when another alert is accepted and when a prepared alert comes
  back, but not when a routine result frees the place it waits for. This theory computes a run
  of the service that leaves an alert waiting with every worker idle, and shows that neither ticks nor
  routine results ever start it.
\<close>

section \<open>An alert that is left waiting\<close>

text \<open>
  Eight operator inserts are prepared before the service receives their results, and an alert
  arrives. It cannot start, because every place for a result is taken; then the results are received.
\<close>

definition stranded_service :: service where
  "stranded_service =
     (receive_first sample_senv ^^ 8) (handleEvent sample_senv False sample_broadcast
       ((insert_prepared sample_senv jingle_event ^^ 8) (newService [(''feed'', sample_env)] 0)))"

lemma funpow_reachable:
  "(\<And>s. service_reachable s \<Longrightarrow> service_reachable (f s)) \<Longrightarrow> service_reachable s \<Longrightarrow> service_reachable ((f ^^ n) s)"
  by (induction n) simp_all

lemma stranded_service_reachable: "service_reachable stranded_service"
  unfolding stranded_service_def
  by (intro funpow_reachable driven_reachable insert_prepared_reachable service_reachable.init)

text \<open>The service with one feed, no worker and a number of routine results that wait.\<close>

definition one_feed :: "service \<Rightarrow> bool" where
  "one_feed s \<longleftrightarrow> dom (sv_feeds s) = {''feed''} \<and>
     pl_feedID (the (sv_feeds s ''feed'')) = ''feed'' \<and>
     fs_priorityActive (preparationState s ''feed'') = None"

definition results_waiting :: "nat \<Rightarrow> preparationCoordinator \<Rightarrow> bool" where
  "results_waiting n c \<longleftrightarrow>
     co_routineWorkers c = 4 \<and> co_priorityWorkers c = 4 \<and> co_workers c = [] \<and> co_routineSlots c = 0 \<and>
     co_prioritySlots c = 0 \<and> co_resultSlots c = n \<and> length (co_results c) = n \<and>
     list_all (\<lambda>r. case r of RoutineResult x \<Rightarrow> True | PriorityResult x \<Rightarrow> False) (co_results c)"

lemma set_planner_feeds: "sv_feeds (set_planner feedID p s) = (sv_feeds s)(feedID \<mapsto> p)"
  by (simp add: set_planner_def)

lemma prepareInsertPosition_feed: "pl_feedID (prepareInsertPosition env data p) = pl_feedID p"
  by (simp add: prepareInsertPosition_def Let_def)

lemma commit_feed: "pl_feedID (commit_routine env r p) = pl_feedID p"
proof -
  have "pl_feedID (queue_rebased env items p) = pl_feedID p" for items p
  proof (induction items arbitrary: p)
    case (Cons item items)
    let ?item = "rebasePreparedItem env p item (env_clock env)"
    obtain q e where pub: "publishReady env ?item (p\<lparr>pl_queue := pl_queue p @ [?item]\<rparr>) = (q, e)"
      by (cases "publishReady env ?item (p\<lparr>pl_queue := pl_queue p @ [?item]\<rparr>)")
    then have "pl_feedID q = pl_feedID p" by (auto simp: publishReady_def split: if_splits option.splits)
    with Cons.IH [of q] pub show ?case by (auto simp: Let_def split: option.splits)
  qed simp
  moreover have "pl_feedID (applyRoutinePlanningState q p) = pl_feedID p" for q
    by (simp add: applyRoutinePlanningState_def split: option.splits)
  ultimately show ?thesis by (simp add: commit_routine_def Let_def)
qed

lemma insert_event_fields:
  "stringAt jingle_event ''type'' = ''playlist.insert''"
  "firstText jingle_event (mapAt jingle_event ''data'') [''feed_id''] = ''feed''"
  "stringAt (mapAt jingle_event ''data'') ''feed_id'' = ''feed''" "stringAt jingle_event ''feed_id'' = []"
  "trimSpace ''feed'' = ''feed''"
  by code_simp+

lemma nothing_deferred: "shouldDeferCAPPlayoutToRust False event = False"
  by (simp add: shouldDeferCAPPlayoutToRust_def)

lemma insert_event_handled:
  assumes "sv_feeds s ''feed'' \<noteq> None"
  shows "handleEvent sample_senv False jingle_event s =
    handle_insert sample_senv (mapAt jingle_event ''data'') ''feed'' s"
  using assms by (simp add: handleEvent_def Let_def insert_event_fields nothing_deferred matchFeeds_def for_feeds_def)

lemma one_feedE:
  assumes "one_feed s"
  obtains p where "sv_feeds s ''feed'' = Some p" and "pl_feedID p = ''feed''"
proof -
  from assms have "''feed'' \<in> dom (sv_feeds s)" by (simp add: one_feed_def)
  then obtain p where "sv_feeds s ''feed'' = Some p" by auto
  with assms that show thesis by (simp add: one_feed_def)
qed

lemma one_feed_known:
  assumes "one_feed s" and "sv_feeds s feedID = Some p"
  shows "feedID = ''feed''" and "pl_feedID p = ''feed''"
proof -
  from assms(2) have "feedID \<in> dom (sv_feeds s)" by (rule domI)
  with assms(1) show id: "feedID = ''feed''" by (simp add: one_feed_def)
  with assms show "pl_feedID p = ''feed''" by (simp add: one_feed_def)
qed

lemma insert_waits:
  assumes "one_feed s" and "results_waiting n (sv_preparations s)" and "sv_pending s = []" and "n < 8"
  shows "one_feed (insert_prepared sample_senv jingle_event s) \<and>
    results_waiting (Suc n) (sv_preparations (insert_prepared sample_senv jingle_event s)) \<and>
    sv_pending (insert_prepared sample_senv jingle_event s) = []"
proof -
  from assms(1) obtain p where p: "sv_feeds s ''feed'' = Some p" "pl_feedID p = ''feed''" by (rule one_feedE)
  show ?thesis
    using assms p
    by (simp add: insert_prepared_def insert_event_fields insert_event_handled handle_insert_def Let_def
        invalidateRoutinePreparation_def prep_simps set_planner_feeds prepareInsertPosition_feed startRoutineInsert_def
        tryStartInsert_def try_routine_slot_def reserveResultSlot_def results_waiting_def result_cap_def
        finish_first_def send_first_def finish_routine_def send_result_def remove_worker_def
        routine_work_result_def one_feed_def)
qed

lemma inserts_wait:
  assumes "one_feed s" and "results_waiting 0 (sv_preparations s)" and "sv_pending s = []" and "n \<le> 8"
  shows "one_feed ((insert_prepared sample_senv jingle_event ^^ n) s) \<and>
    results_waiting n (sv_preparations ((insert_prepared sample_senv jingle_event ^^ n) s)) \<and>
    sv_pending ((insert_prepared sample_senv jingle_event ^^ n) s) = []"
  using assms(4) by (induction n) (use assms insert_waits in auto)

text \<open>The alert arrives.\<close>

definition stranding_request :: message where
  "stranding_request = fst (normalizePriorityAlertRequest sample_senv (eventDataWithIdentity sample_broadcast))"

lemma broadcast_fields:
  "stringAt sample_broadcast ''type'' = ''cap.alert.broadcast.requested''"
  "firstText sample_broadcast (mapAt sample_broadcast ''data'') [''feed_id''] = ''feed''"
  "stringListAny (firstValue sample_broadcast (mapAt sample_broadcast ''data'') [''feed_ids'']) = []"
  "snd (normalizePriorityAlertRequest sample_senv (eventDataWithIdentity sample_broadcast)) = ''A1''"
  "\<not> stale sample_senv stranding_request"
  "\<not> se_done sample_senv"
  by code_simp+

lemma broadcast_matches:
  assumes "sv_feeds s ''feed'' \<noteq> None"
  shows "matchFeedsFromEvent sample_senv s sample_broadcast = [''feed'']"
  unfolding matchFeedsFromEvent_def Let_def broadcast_fields
  using assms by (simp add: matchFeeds_def insert_event_fields)

definition alert_waiting :: "service \<Rightarrow> bool" where
  "alert_waiting s \<longleftrightarrow> one_feed s \<and> map pj_alertID (sv_pending s) = [''A1''] \<and>
     list_all (\<lambda>job. pj_feedID job = ''feed'' \<and> pj_data job = stranding_request) (sv_pending s)"

lemma nothing_pruned:
  "list_all (\<lambda>job. \<not> stale senv (pj_data job)) (sv_pending s) \<Longrightarrow> pruneStalePriorityPreparations senv s = s"
proof -
  assume fresh: "list_all (\<lambda>job. \<not> stale senv (pj_data job)) (sv_pending s)"
  then have "filter (\<lambda>job. \<not> stale senv (pj_data job)) (sv_pending s) = sv_pending s"
    and "filter (\<lambda>job. stale senv (pj_data job)) (sv_pending s) = []"
    by (simp_all add: list_all_iff filter_empty_conv)
  then show ?thesis by (simp add: pruneStalePriorityPreparations_def release_versions_def Let_def)
qed

lemma no_slot_no_start:
  assumes "results_waiting 8 (sv_preparations s)"
  shows "start_pending s = s"
proof -
  have "tryStartPriority job (sv_preparations s) = None" for job
    using assms by (simp add: tryStartPriority_def reserveResultSlot_def results_waiting_def result_cap_def)
  then show ?thesis by (subst start_pending.simps) (auto split: option.splits)
qed

lemma broadcast_waits:
  assumes "one_feed s" and "results_waiting 8 (sv_preparations s)" and "sv_pending s = []" and "sv_maxPending s = 64"
  shows "alert_waiting (handleEvent sample_senv False sample_broadcast s) \<and>
    results_waiting 8 (sv_preparations (handleEvent sample_senv False sample_broadcast s))"
proof -
  let ?u = "invalidateRoutinePreparation ''feed'' s"
  let ?v = "push_priority ''feed'' ''A1'' stranding_request ?u"
  from assms(1) obtain p where p: "sv_feeds s ''feed'' = Some p" "pl_feedID p = ''feed''" by (rule one_feedE)
  have norm: "normalizePriorityAlertRequest sample_senv (eventDataWithIdentity sample_broadcast) = (stranding_request, ''A1'')"
    using broadcast_fields(4) by (simp add: stranding_request_def prod_eq_iff)
  have event: "handleEvent sample_senv False sample_broadcast s =
      handle_broadcast sample_senv (eventDataWithIdentity sample_broadcast) ''feed'' s"
    unfolding handleEvent_def Let_def broadcast_fields(1) nothing_deferred
    using p by (simp add: broadcast_matches for_feeds_def)
  have u: "pruneStalePriorityPreparations sample_senv ?u = ?u" "without_alert ''feed'' ''A1'' ?u = []" "pending_limit ?u = 64"
    using assms(3,4) by (simp_all add: nothing_pruned without_alert_def pending_limit_def
        invalidateRoutinePreparation_def prep_simps Let_def)
  have v: "alert_waiting ?v" "results_waiting 8 (sv_preparations ?v)"
    using assms u(2) by (simp_all add: alert_waiting_def one_feed_def push_priority_def
        invalidateRoutinePreparation_def prep_simps Let_def)
  then have "startPendingPriorityPreparations sample_senv ?v = ?v"
    using broadcast_fields(5) nothing_pruned [of sample_senv ?v] no_slot_no_start [of ?v]
    by (simp add: startPendingPriorityPreparations_def alert_waiting_def list_all_iff)
  then have "enqueuePriorityPreparation sample_senv ''feed'' (eventDataWithIdentity sample_broadcast) s = (?v, None)"
    unfolding enqueuePriorityPreparation_def norm using p broadcast_fields(5) u by (simp add: Let_def)
  with v show ?thesis
    unfolding event handle_broadcast_def
    by (simp add: publishAutomationDispatchStatus_def Let_def alert_waiting_def one_feed_def preparationState_def)
qed

text \<open>While the alert waits the feed is not ticked, and a routine result only gives its place back.\<close>

lemma waiting_not_ticked:
  assumes "alert_waiting s"
  shows "tickFeeds senv now completedFeedID s = s"
proof -
  have "tickFeedAsync senv f now s = s" for f
  proof (cases "sv_feeds s f")
    case (Some p)
    with assms have "pl_feedID p = ''feed''" unfolding alert_waiting_def by (blast dest: one_feed_known)
    with assms have "hasPriorityPreparation s (pl_feedID p)"
      by (auto simp: alert_waiting_def hasPriorityPreparation_def list_ex_iff list_all_iff)
    with Some show ?thesis by (simp add: tickFeedAsync_def Let_def)
  qed (simp add: tickFeedAsync_def)
  then have "foldl (\<lambda>s f. if f = completedFeedID then s else tickFeedAsync senv f now s) s fs = s" for fs
    by (induction fs) simp_all
  with \<open>\<And>f. tickFeedAsync senv f now s = s\<close> show ?thesis by (simp add: tickFeeds_def Let_def)
qed

lemma result_received:
  assumes "alert_waiting s" and "results_waiting (Suc n) (sv_preparations s)"
  shows "alert_waiting (receive_first senv s) \<and> results_waiting n (sv_preparations (receive_first senv s))"
proof -
  from assms(2) obtain r rest where results: "co_results (sv_preparations s) = RoutineResult r # rest"
    by (cases "co_results (sv_preparations s)") (auto simp: results_waiting_def split: preparationResult.splits)
  define u where "u = s\<lparr>sv_preparations := releaseResultSlot ((sv_preparations s)\<lparr>co_results := rest\<rparr>)\<rparr>"
  have u: "alert_waiting u" "results_waiting n (sv_preparations u)"
    using assms results
    by (simp_all add: u_def alert_waiting_def one_feed_def preparationState_def results_waiting_def releaseResultSlot_def)
  have received: "receive_first senv s = handleRoutinePreparationResult senv r u"
    by (simp add: receive_first_def results handlePreparationResult_def with_co_def u_def)
  show ?thesis
  proof (cases "sv_feeds u (rr_feedID r)")
    case None
    with u received show ?thesis by (simp add: handleRoutinePreparationResult_def)
  next
    case (Some p)
    with u(1) have feed: "rr_feedID r = ''feed''" "pl_feedID p = ''feed''"
      unfolding alert_waiting_def by (blast dest: one_feed_known)+
    have keep: "alert_waiting (set_state ''feed'' st u)" "alert_waiting (set_planner ''feed'' q (set_state ''feed'' st u))"
      if "fs_priorityActive st = None" "pl_feedID q = ''feed''" for st q
      using u(1) that by (simp_all add: alert_waiting_def one_feed_def prep_simps set_planner_feeds)
    have "fs_priorityActive (preparationState u ''feed'') = None" using u(1) by (simp add: alert_waiting_def one_feed_def)
    with keep u(2) Some feed show ?thesis
      unfolding received handleRoutinePreparationResult_def Let_def
      by (simp add: waiting_not_ticked commit_feed prep_simps)
  qed
qed

lemma results_received:
  assumes "alert_waiting s" and "results_waiting n (sv_preparations s)"
  shows "alert_waiting ((receive_first senv ^^ n) s) \<and> results_waiting 0 (sv_preparations ((receive_first senv ^^ n) s))"
  using assms
proof (induction n arbitrary: s)
  case (Suc n)
  with result_received [of s n senv] show ?case by (simp only: funpow_Suc_right o_apply)
qed simp

text \<open>C31: the service can leave an alert waiting although nothing runs and nothing is outstanding. After eight
  prepared inserts, an alert and the receipt of the eight results no worker runs, no result waits
  and every slot is free, the alert is fresh and could start, and still it is pending; a tick of
  the timer changes nothing at all, so the alert waits for the next alert that is accepted.\<close>

theorem waiting_alert_stranded:
  "service_reachable stranded_service \<and>
   map pj_alertID (sv_pending stranded_service) = [''A1''] \<and>
   list_all (\<lambda>job. startable stranded_service job \<and> \<not> stale sample_senv (pj_data job)) (sv_pending stranded_service) \<and>
   co_workers (sv_preparations stranded_service) = [] \<and> co_results (sv_preparations stranded_service) = [] \<and>
   co_resultSlots (sv_preparations stranded_service) = 0 \<and>
   (\<forall>senv now. tickFeeds senv now [] stranded_service = stranded_service)"
proof -
  let ?s = "newService [(''feed'', sample_env)] 0"
  let ?i = "(insert_prepared sample_senv jingle_event ^^ 8) ?s"
  have "one_feed ?s" "results_waiting 0 (sv_preparations ?s)" "sv_pending ?s = []"
    by (simp_all add: one_feed_def results_waiting_def newService_def newPreparationCoordinator_def
        preparationState_def newPreparationState_def newFeedPlanner_def)
  then have i: "one_feed ?i" "results_waiting 8 (sv_preparations ?i)" "sv_pending ?i = []"
    using inserts_wait [of ?s 8] by auto
  have "service_reachable ?i"
    by (intro funpow_reachable insert_prepared_reachable service_reachable.init)
  then have "sv_maxPending ?i = 64" by (rule limits.reachable [rotated]) (simp add: newService_def)
  from broadcast_waits [OF i this] have
    "alert_waiting stranded_service \<and> results_waiting 0 (sv_preparations stranded_service)"
    unfolding stranded_service_def using results_received by blast
  then show ?thesis
    using stranded_service_reachable broadcast_fields(5)
    by (auto simp: waiting_not_ticked alert_waiting_def results_waiting_def list_all_iff startable_def one_feed_def)
qed

end
