(* ===== verification/Cap_Same.thy ===== *)
theory Cap_Same
  imports Go_Strings
begin

text \<open>
  The SAME/EAS event code of a CAP alert, \<open>internal/capsame/event.go\<close>: explicit codes, the table of
  hazards, the alert class, the NAADS mapping file and the default. The mapping file is an argument:
  the entries of its object in the order in which the loop over the decoded map visits them, and \<open>None\<close>
  when it cannot be read or decoded.
\<close>

section \<open>Data\<close>

record eventResolution =
  er_Event :: string
  er_Source :: string
  er_Reason :: string
  er_Confidence :: string
  er_AlertClass :: string
  er_Phenomenon :: string
  er_Evidence :: "string list"

record namedText =
  nt_Name :: string
  nt_Value :: string

text \<open>The fields of \<open>capmodel.AlertInfo\<close> that the resolution reads; \<open>capmodel.NameValue\<close> is a \<open>namedText\<close>.\<close>

record alertInfo =
  ai_Event :: string
  ai_Headline :: string
  ai_EventCodes :: "namedText list"
  ai_Parameters :: "namedText list"

record hazardRule =
  hr_Phenomenon :: string
  hr_Terms :: "string list"
  hr_Watch :: string
  hr_Warning :: string
  hr_Statement :: string
  hr_Advisory :: string
  hr_Default :: string

definition noResolution :: eventResolution where
  "noResolution =
     \<lparr>er_Event = [], er_Source = [], er_Reason = [], er_Confidence = [], er_AlertClass = [],
      er_Phenomenon = [], er_Evidence = []\<rparr>"

definition hazardRules :: "hazardRule list" where
  "hazardRules = [
  \<lparr>hr_Phenomenon = ''tornado'', hr_Terms = [''tornado''],
    hr_Watch = ''TOA'', hr_Warning = ''TOR'', hr_Statement = [], hr_Advisory = [], hr_Default = ''TOR''\<rparr>,
  \<lparr>hr_Phenomenon = ''severe thunderstorm'', hr_Terms = [''severe thunderstorm''],
    hr_Watch = ''SVA'', hr_Warning = ''SVR'', hr_Statement = ''SVS'', hr_Advisory = [], hr_Default = ''SVR''\<rparr>,
  \<lparr>hr_Phenomenon = ''thunderstorm'', hr_Terms = [''thunderstorm''],
    hr_Watch = ''SVA'', hr_Warning = ''SVR'', hr_Statement = ''SVS'', hr_Advisory = [], hr_Default = ''SVR''\<rparr>,
  \<lparr>hr_Phenomenon = ''flash flood'', hr_Terms = [''flash flood''],
    hr_Watch = ''FFA'', hr_Warning = ''FFW'', hr_Statement = ''FFS'', hr_Advisory = [], hr_Default = ''FFW''\<rparr>,
  \<lparr>hr_Phenomenon = ''flood'', hr_Terms = [''flood''],
    hr_Watch = ''FLA'', hr_Warning = ''FLW'', hr_Statement = ''FLS'', hr_Advisory = [], hr_Default = ''FLW''\<rparr>,
  \<lparr>hr_Phenomenon = ''snow squall'', hr_Terms = [''snow squall'', ''squall''],
    hr_Watch = [], hr_Warning = ''SQW'', hr_Statement = [], hr_Advisory = [], hr_Default = ''SQW''\<rparr>,
  \<lparr>hr_Phenomenon = ''blizzard'', hr_Terms = [''blizzard''],
    hr_Watch = [], hr_Warning = ''BZW'', hr_Statement = [], hr_Advisory = [], hr_Default = ''BZW''\<rparr>,
  \<lparr>hr_Phenomenon = ''winter storm'', hr_Terms = [''winter storm''],
    hr_Watch = ''WSA'', hr_Warning = ''WSW'', hr_Statement = [], hr_Advisory = [], hr_Default = ''WSW''\<rparr>,
  \<lparr>hr_Phenomenon = ''hurricane'', hr_Terms = [''hurricane''],
    hr_Watch = ''HUA'', hr_Warning = ''HUW'', hr_Statement = ''HLS'', hr_Advisory = [], hr_Default = ''HUW''\<rparr>,
  \<lparr>hr_Phenomenon = ''tropical storm'', hr_Terms = [''tropical storm''],
    hr_Watch = ''TRA'', hr_Warning = ''TRW'', hr_Statement = ''HLS'', hr_Advisory = [], hr_Default = ''TRW''\<rparr>,
  \<lparr>hr_Phenomenon = ''storm surge'', hr_Terms = [''storm surge''],
    hr_Watch = ''SSA'', hr_Warning = ''SSW'', hr_Statement = [], hr_Advisory = [], hr_Default = ''SSW''\<rparr>,
  \<lparr>hr_Phenomenon = ''wildfire'', hr_Terms = [''wildfire'', ''wild fire'', ''forest fire''],
    hr_Watch = ''WFA'', hr_Warning = ''WFW'', hr_Statement = [], hr_Advisory = [], hr_Default = ''WFW''\<rparr>
]"

section \<open>Text helpers\<close>

text \<open>The verb \<open>%q\<close>: quotes, backslashes and ASCII control characters are escaped; the bytes of
  non-ASCII characters are kept.\<close>

definition hex_digit :: "nat \<Rightarrow> char" where
  "hex_digit n = (''0123456789abcdef'' ! (n mod 16))"

definition escape_char :: "char \<Rightarrow> string" where
  "escape_char c =
     (if c = CHR 0x22 \<or> c = CHR 0x5C then [CHR 0x5C, c]
      else if c = CHR 0x07 then [CHR 0x5C, CHR ''a''] else if c = CHR 0x08 then [CHR 0x5C, CHR ''b'']
      else if c = CHR 0x0C then [CHR 0x5C, CHR ''f''] else if c = CHR 0x0A then [CHR 0x5C, CHR ''n'']
      else if c = CHR 0x0D then [CHR 0x5C, CHR ''r''] else if c = CHR 0x09 then [CHR 0x5C, CHR ''t'']
      else if c = CHR 0x0B then [CHR 0x5C, CHR ''v'']
      else if (of_char c :: nat) < 32 \<or> c = CHR 0x7F
      then [CHR 0x5C, CHR ''x'', hex_digit (of_char c div 16), hex_digit (of_char c)]
      else [c])"

definition quoted :: "string \<Rightarrow> string" where
  "quoted s = [CHR 0x22] @ concat (map escape_char s) @ [CHR 0x22]"

definition evidenceText :: "string \<Rightarrow> string \<Rightarrow> string" where
  "evidenceText name val =
     (if trimSpace name = [] \<or> trimSpace val = [] then [] else trimSpace name @ ''='' @ trimSpace val)"

definition compactEvidence :: "string list \<Rightarrow> string list" where
  "compactEvidence vals =
     collect_unique (\<lambda>val. if trimSpace val = [] then None else Some (trimSpace val)) (\<lambda>val. val) [] vals"

definition normalizeEventKey :: "string \<Rightarrow> string" where
  "normalizeEventKey raw = filter (\<lambda>ch. is_lower ch \<or> is_digit ch) (toLower (trimSpace raw))"

definition containsWord :: "string \<Rightarrow> string \<Rightarrow> bool" where
  "containsWord raw word =
     list_ex (\<lambda>part. part = toLower (trimSpace word))
       (fieldsFunc (\<lambda>ch. \<not> is_lower ch \<and> \<not> is_digit ch) (toLower raw))"

definition containsAnyPhrase :: "string \<Rightarrow> string list \<Rightarrow> bool" where
  "containsAnyPhrase text phrases = list_ex (\<lambda>phrase. containsStr text (toLower phrase)) phrases"

definition alertParamContaining :: "alertInfo \<Rightarrow> string \<Rightarrow> string" where
  "alertParamContaining info token =
     (case find (\<lambda>param. containsStr (toLower (trimSpace (nt_Name param))) (toLower (trimSpace token)))
             (ai_Parameters info) of
        None \<Rightarrow> []
      | Some param \<Rightarrow> trimSpace (nt_Value param))"

definition capTextFields :: "alertInfo \<Rightarrow> namedText list" where
  "capTextFields info =
     [\<lparr>nt_Name = ''Alert_Name'', nt_Value = alertParamContaining info ''alert_name''\<rparr>,
      \<lparr>nt_Name = ''headline'', nt_Value = ai_Headline info\<rparr>,
      \<lparr>nt_Name = ''event'', nt_Value = ai_Event info\<rparr>,
      \<lparr>nt_Name = ''Alert_Type'', nt_Value = alertParamContaining info ''alert_type''\<rparr>] @
     map (\<lambda>code. \<lparr>nt_Name = ''eventCode '' @ nt_Name code, nt_Value = nt_Value code\<rparr>) (ai_EventCodes info)"

definition capTextEvidence :: "alertInfo \<Rightarrow> string list" where
  "capTextEvidence info = map (\<lambda>field. evidenceText (nt_Name field) (nt_Value field)) (capTextFields info)"

section \<open>Codes\<close>

definition originatorCode :: "string \<Rightarrow> bool" where
  "originatorCode val \<longleftrightarrow> toUpper (trimSpace val) \<in> {''CIV'', ''EAS'', ''PEP'', ''WXR''}"

definition validSAMEEventCode :: "string \<Rightarrow> bool" where
  "validSAMEEventCode val \<longleftrightarrow> length val = 3 \<and> \<not> originatorCode val \<and> list_all is_upper val"

definition eventCodeTokens :: "string \<Rightarrow> string list" where
  "eventCodeTokens raw =
     filter (\<lambda>part. part \<noteq> [])
       (map (\<lambda>part. toUpper (trimSpace part))
         (fieldsFunc
           (\<lambda>ch. ch \<in> {CHR '','', CHR '';'', CHR ''|'', CHR ''/'', CHR 0x5C, CHR '' '', CHR 0x09, CHR 0x0A, CHR 0x0D})
           raw))"

definition explicitEventCode :: "string \<Rightarrow> string \<Rightarrow> string" where
  "explicitEventCode name raw =
     (let label = toLower (trimSpace name)
      in if \<not> containsStr label ''same'' \<and> \<not> containsStr label ''eas'' then []
         else (case find validSAMEEventCode (eventCodeTokens raw) of None \<Rightarrow> [] | Some token \<Rightarrow> token))"

text \<open>The first entry that supplies an explicit code.\<close>

fun first_explicit :: "namedText list \<Rightarrow> (namedText \<times> string) option" where
  "first_explicit [] = None"
| "first_explicit (code # codes) =
     (if explicitEventCode (nt_Name code) (nt_Value code) \<noteq> []
      then Some (code, explicitEventCode (nt_Name code) (nt_Value code))
      else first_explicit codes)"

definition explicitCAPEvent :: "alertInfo \<Rightarrow> eventResolution" where
  "explicitCAPEvent info =
     (case first_explicit (ai_EventCodes info) of
        Some (code, event) \<Rightarrow>
          noResolution
            \<lparr>er_Event := event, er_Source := ''cap_event_code'',
             er_Reason := ''CAP eventCode '' @ trimSpace (nt_Name code) @ '' supplied explicit SAME/EAS event '' @ event,
             er_Confidence := ''high'', er_Evidence := [evidenceText (''eventCode '' @ nt_Name code) (nt_Value code)]\<rparr>
      | None \<Rightarrow>
          (case first_explicit (ai_Parameters info) of
             Some (param, event) \<Rightarrow>
               noResolution
                 \<lparr>er_Event := event, er_Source := ''cap_parameter'',
                  er_Reason := ''CAP parameter '' @ trimSpace (nt_Name param) @ '' supplied explicit SAME/EAS event '' @ event,
                  er_Confidence := ''high'', er_Evidence := [evidenceText (''parameter '' @ nt_Name param) (nt_Value param)]\<rparr>
           | None \<Rightarrow> noResolution))"

section \<open>Alert class and hazards\<close>

definition class_fields :: "alertInfo \<Rightarrow> namedText list" where
  "class_fields info =
     [\<lparr>nt_Name = ''Alert_Type'', nt_Value = alertParamContaining info ''alert_type''\<rparr>,
      \<lparr>nt_Name = ''Alert_Name'', nt_Value = alertParamContaining info ''alert_name''\<rparr>,
      \<lparr>nt_Name = ''headline'', nt_Value = ai_Headline info\<rparr>,
      \<lparr>nt_Name = ''event'', nt_Value = ai_Event info\<rparr>]"

fun detect_class :: "namedText list \<Rightarrow> string list \<Rightarrow> string \<times> string list" where
  "detect_class texts [] = ([], [])"
| "detect_class texts (cls # classes) =
     (case find (\<lambda>field. containsWord (nt_Value field) cls) texts of
        Some field \<Rightarrow> (cls, [evidenceText (nt_Name field) (nt_Value field)])
      | None \<Rightarrow> detect_class texts classes)"

definition detectAlertClass :: "alertInfo \<Rightarrow> string \<times> string list" where
  "detectAlertClass info = detect_class (class_fields info) [''watch'', ''warning'', ''advisory'', ''statement'']"

definition eventForClass :: "hazardRule \<Rightarrow> string \<Rightarrow> string" where
  "eventForClass rule alertClass =
     (if alertClass = ''watch'' then firstNonBlank [hr_Watch rule, hr_Default rule]
      else if alertClass = ''warning'' then firstNonBlank [hr_Warning rule, hr_Default rule]
      else if alertClass = ''statement'' then firstNonBlank [hr_Statement rule, ''SPS'']
      else if alertClass = ''advisory'' then firstNonBlank [hr_Advisory rule, hr_Statement rule, ''SPS'']
      else hr_Default rule)"

text \<open>The two loops of \<open>classifiedEvent\<close>: the first text field and the first rule that apply.\<close>

definition rule_applies :: "string \<Rightarrow> string \<Rightarrow> hazardRule \<Rightarrow> bool" where
  "rule_applies text alertClass rule \<longleftrightarrow>
     containsAnyPhrase text (hr_Terms rule) \<and> eventForClass rule alertClass \<noteq> []"

fun match_hazard :: "string \<Rightarrow> namedText list \<Rightarrow> (namedText \<times> hazardRule) option" where
  "match_hazard alertClass [] = None"
| "match_hazard alertClass (field # texts) =
     (if toLower (nt_Value field) = [] then match_hazard alertClass texts
      else
        (case find (rule_applies (toLower (nt_Value field)) alertClass) hazardRules of
           Some rule \<Rightarrow> Some (field, rule)
         | None \<Rightarrow> match_hazard alertClass texts))"

definition hazard_resolution :: "string \<Rightarrow> string list \<Rightarrow> namedText \<Rightarrow> hazardRule \<Rightarrow> eventResolution" where
  "hazard_resolution alertClass classEvidence field rule =
     (let reason = ''CAP '' @ nt_Name field @ '' '' @ quoted (trimSpace (nt_Value field)) @ '' matched '' @ hr_Phenomenon rule
      in \<lparr>er_Event = eventForClass rule alertClass,
          er_Source = (if alertClass = [] then ''cap_hazard'' else ''cap_alert_class''),
          er_Reason = (if alertClass \<noteq> [] then reason @ '' with '' @ alertClass @ '' metadata'' else reason),
          er_Confidence = (if alertClass = [] then ''medium'' else ''high''),
          er_AlertClass = alertClass, er_Phenomenon = hr_Phenomenon rule,
          er_Evidence = compactEvidence (classEvidence @ [evidenceText (nt_Name field) (nt_Value field)])\<rparr>)"

definition classified_as :: "alertInfo \<Rightarrow> string \<Rightarrow> string list \<Rightarrow> eventResolution" where
  "classified_as info alertClass classEvidence =
     (case match_hazard alertClass (capTextFields info) of
        Some (field, rule) \<Rightarrow> hazard_resolution alertClass classEvidence field rule
      | None \<Rightarrow>
          if alertClass = ''statement'' then
            noResolution
              \<lparr>er_Event := ''SPS'', er_Source := ''cap_alert_class'',
               er_Reason := ''CAP metadata identified a weather statement without a more specific SAME event'',
               er_Confidence := ''medium'', er_AlertClass := alertClass,
               er_Evidence := compactEvidence (classEvidence @ capTextEvidence info)\<rparr>
          else noResolution)"

definition classifiedEvent :: "alertInfo \<Rightarrow> string \<Rightarrow> string list \<Rightarrow> eventResolution" where
  "classifiedEvent info alertClass classEvidence =
     (if alertClass = [] then (case detectAlertClass info of (cls, evidence) \<Rightarrow> classified_as info cls evidence)
      else classified_as info alertClass classEvidence)"

section \<open>The mapping file and the resolution\<close>

definition loadNAADSToEASMapping :: "(string \<times> string) list option \<Rightarrow> (string \<rightharpoonup> string)" where
  "loadNAADSToEASMapping naads =
     (case naads of
        None \<Rightarrow> Map.empty
      | Some entries \<Rightarrow>
          foldl (\<lambda>out (key, val).
              if validSAMEEventCode (toUpper (trimSpace val))
              then out(normalizeEventKey key \<mapsto> toUpper (trimSpace val)) else out)
            Map.empty entries)"

text \<open>\<open>mapping[key]\<close> with the empty string for a missing key.\<close>

definition mapped_event :: "(string \<rightharpoonup> string) \<Rightarrow> string \<Rightarrow> string" where
  "mapped_event mapping raw = (case mapping (normalizeEventKey raw) of None \<Rightarrow> [] | Some event \<Rightarrow> event)"

definition map_resolution :: "alertInfo \<Rightarrow> (string \<rightharpoonup> string) \<Rightarrow> string \<Rightarrow> string list \<Rightarrow> eventResolution" where
  "map_resolution info mapping alertClass classEvidence =
     (case find (\<lambda>code. mapped_event mapping (nt_Value code) \<noteq> []) (ai_EventCodes info) of
        Some code \<Rightarrow>
          noResolution
            \<lparr>er_Event := mapped_event mapping (nt_Value code), er_Source := ''cap_event_code_mapping'',
             er_Reason := ''mapped CAP eventCode '' @ trimSpace (nt_Name code) @ ''='' @
               quoted (trimSpace (nt_Value code)) @ '' through sameMapping.json'',
             er_Confidence := ''medium'', er_AlertClass := alertClass,
             er_Evidence := compactEvidence (classEvidence @ [evidenceText (''eventCode '' @ nt_Name code) (nt_Value code)])\<rparr>
      | None \<Rightarrow>
          if mapped_event mapping (ai_Event info) \<noteq> [] then
            noResolution
              \<lparr>er_Event := mapped_event mapping (ai_Event info), er_Source := ''cap_event_mapping'',
               er_Reason := ''mapped CAP event '' @ quoted (trimSpace (ai_Event info)) @ '' through sameMapping.json'',
               er_Confidence := ''medium'', er_AlertClass := alertClass,
               er_Evidence := compactEvidence (classEvidence @ [evidenceText ''event'' (ai_Event info)])\<rparr>
          else noResolution)"

definition ResolveEvent :: "(string \<times> string) list option \<Rightarrow> alertInfo \<Rightarrow> eventResolution" where
  "ResolveEvent naads info =
     (if er_Event (explicitCAPEvent info) \<noteq> [] then explicitCAPEvent info
      else
        (case detectAlertClass info of
           (alertClass, classEvidence) \<Rightarrow>
             if er_Event (classifiedEvent info alertClass classEvidence) \<noteq> []
             then classifiedEvent info alertClass classEvidence
             else if er_Event (map_resolution info (loadNAADSToEASMapping naads) alertClass classEvidence) \<noteq> []
             then map_resolution info (loadNAADSToEASMapping naads) alertClass classEvidence
             else if er_Event (classifiedEvent info [] []) \<noteq> []
             then (classifiedEvent info [] [])\<lparr>er_Source := ''cap_hazard_fallback'', er_Confidence := ''low''\<rparr>
             else
               noResolution
                 \<lparr>er_Event := ''ADR'', er_Source := ''default'',
                  er_Reason := ''no explicit SAME code, CAP alert class, known hazard phrase, or NAADS mapping matched'',
                  er_Confidence := ''low'', er_AlertClass := alertClass,
                  er_Evidence := compactEvidence (capTextEvidence info)\<rparr>))"

section \<open>Lemmas\<close>

lemma explicitEventCode_valid:
  "explicitEventCode name raw \<noteq> [] \<Longrightarrow> validSAMEEventCode (explicitEventCode name raw)"
  by (auto simp: explicitEventCode_def Let_def split: option.split_asm if_split_asm option.splits dest: find_SomeD)

lemma first_explicit_Some:
  "first_explicit codes = Some (code, event) \<Longrightarrow> code \<in> set codes \<and> validSAMEEventCode event \<and>
     event = explicitEventCode (nt_Name code) (nt_Value code)"
  by (induction codes) (auto split: if_split_asm dest: explicitEventCode_valid)

lemma validSAMEEventCode_nonempty: "validSAMEEventCode e \<Longrightarrow> e \<noteq> []"
  by (auto simp: validSAMEEventCode_def)

text \<open>Every code of the table is a valid event code.\<close>

definition code_or_none :: "string \<Rightarrow> bool" where
  "code_or_none e \<longleftrightarrow> e = [] \<or> validSAMEEventCode e \<and> trimSpace e = e"

lemma hazardRules_codes:
  "list_all (\<lambda>rule. code_or_none (hr_Watch rule) \<and> code_or_none (hr_Warning rule) \<and> code_or_none (hr_Statement rule) \<and>
     code_or_none (hr_Advisory rule) \<and> code_or_none (hr_Default rule)) hazardRules"
  by code_simp

lemma SPS_valid: "validSAMEEventCode ''SPS''" "trimSpace ''SPS'' = ''SPS''" "validSAMEEventCode ''ADR''"
  by code_simp+

lemma firstNonBlank_codes: "list_all code_or_none vs \<Longrightarrow> code_or_none (firstNonBlank vs)"
  by (induction vs) (auto simp: code_or_none_def)

lemma eventForClass_valid:
  assumes "rule \<in> set hazardRules" and "eventForClass rule alertClass \<noteq> []"
  shows "validSAMEEventCode (eventForClass rule alertClass)"
proof -
  have "code_or_none (hr_Watch rule)" "code_or_none (hr_Warning rule)" "code_or_none (hr_Statement rule)"
    "code_or_none (hr_Advisory rule)" "code_or_none (hr_Default rule)" "code_or_none ''SPS''"
    using hazardRules_codes assms(1) SPS_valid by (auto simp: list_all_iff code_or_none_def)
  then have "code_or_none (eventForClass rule alertClass)"
    by (simp add: eventForClass_def firstNonBlank_codes del: firstNonBlank.simps)
  with assms(2) show ?thesis by (simp add: code_or_none_def)
qed

lemma match_hazard_Some:
  "match_hazard alertClass texts = Some (field, rule) \<Longrightarrow>
   field \<in> set texts \<and> rule \<in> set hazardRules \<and> rule_applies (toLower (nt_Value field)) alertClass rule"
  by (induction texts) (auto split: if_split_asm option.split_asm dest: find_SomeD)

lemma classifiedEvent_valid:
  assumes "er_Event (classifiedEvent info alertClass ev) \<noteq> []"
  shows "validSAMEEventCode (er_Event (classifiedEvent info alertClass ev))"
proof -
  have "validSAMEEventCode (er_Event (classified_as info c e))" if "er_Event (classified_as info c e) \<noteq> []" for c e
    using that SPS_valid(1)
    by (auto simp: classified_as_def hazard_resolution_def Let_def noResolution_def rule_applies_def
        split: option.splits if_splits dest!: match_hazard_Some intro: eventForClass_valid)
  with assms show ?thesis by (auto simp: classifiedEvent_def split: prod.splits if_splits)
qed

lemma mapping_valid:
  assumes "loadNAADSToEASMapping naads k = Some event"
  shows "validSAMEEventCode event"
proof -
  have "\<forall>k event. foldl (\<lambda>out (key, val).
              if validSAMEEventCode (toUpper (trimSpace val))
              then out(normalizeEventKey key \<mapsto> toUpper (trimSpace val)) else out) m entries k = Some event \<longrightarrow>
            validSAMEEventCode event"
    if "\<forall>k event. m k = Some event \<longrightarrow> validSAMEEventCode event" for m entries
    using that
  proof (induction entries arbitrary: m)
    case (Cons e entries)
    show ?case
      unfolding foldl_Cons by (rule Cons.IH) (use Cons.prems in \<open>auto split: prod.splits if_split_asm\<close>)
  qed auto
  from this [of Map.empty] assms show ?thesis
    by (auto simp: loadNAADSToEASMapping_def split: option.splits)
qed

lemma mapped_event_valid:
  "mapped_event (loadNAADSToEASMapping naads) raw \<noteq> [] \<Longrightarrow>
   validSAMEEventCode (mapped_event (loadNAADSToEASMapping naads) raw)"
  by (auto simp: mapped_event_def intro: mapping_valid split: option.splits)

lemma map_resolution_valid:
  assumes "er_Event (map_resolution info (loadNAADSToEASMapping naads) c ev) \<noteq> []"
  shows "validSAMEEventCode (er_Event (map_resolution info (loadNAADSToEASMapping naads) c ev))"
  using assms mapped_event_valid [of naads]
  by (auto simp: map_resolution_def noResolution_def split: option.splits if_splits dest: find_SomeD)

text \<open>Running the classification again without a class gives the same result.\<close>

lemma classifiedEvent_again:
  "detectAlertClass info = (alertClass, ev) \<Longrightarrow> classifiedEvent info [] [] = classifiedEvent info alertClass ev"
  by (auto simp: classifiedEvent_def)

interpretation evidence: cleaner "\<lambda>val. if trimSpace val = [] then None else Some (trimSpace val)" "\<lambda>val. val"
  by unfold_locales (auto split: if_split_asm)

lemma compactEvidence_clean:
  "distinct (compactEvidence vals)" "val \<in> set (compactEvidence vals) \<Longrightarrow> val \<noteq> [] \<and> trimSpace val = val"
  using evidence.keys_distinct [of vals] evidence.members_clean [of val vals]
  by (auto simp: compactEvidence_def split: if_split_asm)

section \<open>Properties\<close>

text \<open>C28: whatever the alert and the mapping file contain, the resolution is a well-formed SAME event
  code: three capital letters and none of the originator codes.\<close>

theorem resolved_event_valid: "validSAMEEventCode (er_Event (ResolveEvent naads info))"
proof -
  have "validSAMEEventCode (er_Event (explicitCAPEvent info))" if "er_Event (explicitCAPEvent info) \<noteq> []"
    using that by (auto simp: explicitCAPEvent_def noResolution_def split: option.splits dest: first_explicit_Some)
  then show ?thesis
    using classifiedEvent_valid map_resolution_valid SPS_valid(3)
    by (auto simp: ResolveEvent_def noResolution_def split: prod.splits)
qed

text \<open>C36: the last classification in \<open>ResolveEvent\<close> repeats the first one, so the source
  \<open>cap_hazard_fallback\<close> is never reported.\<close>

theorem hazard_fallback_unreachable: "er_Source (ResolveEvent naads info) \<noteq> ''cap_hazard_fallback''"
proof -
  obtain alertClass ev where cls: "detectAlertClass info = (alertClass, ev)" by (cases "detectAlertClass info")
  have "er_Source (explicitCAPEvent info) \<noteq> ''cap_hazard_fallback''"
    by (auto simp: explicitCAPEvent_def noResolution_def split: option.splits)
  moreover have "er_Source (classifiedEvent info c e) \<noteq> ''cap_hazard_fallback''" for c e
    by (auto simp: classifiedEvent_def classified_as_def hazard_resolution_def Let_def noResolution_def
        split: option.splits prod.splits)
  moreover have "er_Source (map_resolution info m c e) \<noteq> ''cap_hazard_fallback''" for m c e
    by (auto simp: map_resolution_def noResolution_def split: option.splits)
  ultimately show ?thesis
    by (auto simp: ResolveEvent_def cls classifiedEvent_again [OF cls] noResolution_def)
qed

text \<open>An explicit SAME or EAS code of the alert has precedence over every derived one: the result is
  the valid code of the first \<open>eventCode\<close> that has one, with high confidence.\<close>

theorem explicit_code_wins:
  assumes "ai_EventCodes info = before @ code # after"
    and "\<forall>c\<in>set before. explicitEventCode (nt_Name c) (nt_Value c) = []"
    and "explicitEventCode (nt_Name code) (nt_Value code) \<noteq> []"
  shows "er_Event (ResolveEvent naads info) = explicitEventCode (nt_Name code) (nt_Value code) \<and>
    er_Source (ResolveEvent naads info) = ''cap_event_code'' \<and> er_Confidence (ResolveEvent naads info) = ''high''"
proof -
  have "first_explicit (before @ code # after) = Some (code, explicitEventCode (nt_Name code) (nt_Value code))"
    using assms(2,3) by (induction before) auto
  with assms(1,3) show ?thesis by (simp add: ResolveEvent_def explicitCAPEvent_def noResolution_def)
qed

definition sample_info :: alertInfo where
  "sample_info = \<lparr>ai_Event = ''thunderstorm'', ai_Headline = ''severe thunderstorm watch'',
     ai_EventCodes = [\<lparr>nt_Name = ''profile'', nt_Value = ''tornado''\<rparr>, \<lparr>nt_Name = ''SAME'', nt_Value = ''WXR, TOR''\<rparr>],
     ai_Parameters = []\<rparr>"

theorem explicit_code_wins_witness:
  "er_Event (ResolveEvent None sample_info) = ''TOR'' \<and> er_Source (ResolveEvent None sample_info) = ''cap_event_code''"
proof -
  let ?before = "[\<lparr>nt_Name = ''profile'', nt_Value = ''tornado''\<rparr>]"
  let ?code = "\<lparr>nt_Name = ''SAME'', nt_Value = ''WXR, TOR''\<rparr>"
  have "ai_EventCodes sample_info = ?before @ ?code # []" by (simp add: sample_info_def)
  moreover have "explicitEventCode ''profile'' ''tornado'' = []" by code_simp
  moreover have "explicitEventCode ''SAME'' ''WXR, TOR'' = ''TOR''" by code_simp
  ultimately show ?thesis using explicit_code_wins [of sample_info ?before ?code "[]" None] by simp
qed

end
