(* ===== verification/Listener_Tracker.thy ===== *)
theory Listener_Tracker
  imports Go_Strings "HOL-Library.AList" "HOL-Library.Multiset"
begin

text \<open>
  The listener statistics of the web gateway, \<open>internal/webgateway/listener_tracker.go\<close>: connections are
  counted per feed and client address, and the peak of distinct clients is kept. The closure that
  \<open>TryAcquire\<close> returns is the pair of feed and client it releases; its \<open>sync.Once\<close> makes further calls
  have no effect, so an open connection is released once. Maps are association lists with distinct keys.
\<close>

section \<open>Data\<close>

record feedListenerStats =
  fl_Current :: int
  fl_Peak :: int
  fl_PeakAt :: instant

record listenerFeedState =
  ls_active :: "(string \<times> int) list"
  ls_peak :: int
  ls_peakAt :: instant

type_synonym tracker = "(string \<times> listenerFeedState) list"

definition newFeedState :: listenerFeedState where
  "newFeedState = \<lparr>ls_active = [], ls_peak = 0, ls_peakAt = 0\<rparr>"

definition feedState :: "tracker \<Rightarrow> string \<Rightarrow> listenerFeedState" where
  "feedState t feedID = (case map_of t feedID of None \<Rightarrow> newFeedState | Some state \<Rightarrow> state)"

definition listenerStatsLocked :: "listenerFeedState \<Rightarrow> feedListenerStats" where
  "listenerStatsLocked state =
     \<lparr>fl_Current = int (length (ls_active state)), fl_Peak = ls_peak state, fl_PeakAt = ls_peakAt state\<rparr>"

definition noStats :: feedListenerStats where
  "noStats = \<lparr>fl_Current = 0, fl_Peak = 0, fl_PeakAt = 0\<rparr>"

section \<open>Operations\<close>

definition connections :: "listenerFeedState \<Rightarrow> string \<Rightarrow> int" where
  "connections state clientID = (case map_of (ls_active state) clientID of None \<Rightarrow> 0 | Some n \<Rightarrow> n)"

definition raise_peak :: "int \<Rightarrow> instant \<Rightarrow> listenerFeedState \<Rightarrow> listenerFeedState" where
  "raise_peak current now state =
     (if current > ls_peak state then state\<lparr>ls_peak := current, ls_peakAt := now\<rparr> else state)"

definition acquire_client :: "string \<Rightarrow> instant \<Rightarrow> listenerFeedState \<Rightarrow> listenerFeedState" where
  "acquire_client clientID now state =
     (if connections state clientID > 0
      then state\<lparr>ls_active := AList.update clientID (connections state clientID + 1) (ls_active state)\<rparr>
      else
        (let state = state\<lparr>ls_active := AList.update clientID 1 (ls_active state)\<rparr>
         in raise_peak (int (length (ls_active state))) now state))"

definition client_name :: "string \<Rightarrow> string" where
  "client_name clientID = (if trimSpace clientID = [] then ''unknown'' else trimSpace clientID)"

text \<open>The result is the released pair of the closure (none for a blank feed), the statistics and the tracker.\<close>

definition TryAcquire ::
  "string \<Rightarrow> string \<Rightarrow> instant \<Rightarrow> tracker \<Rightarrow> (string \<times> string) option \<times> feedListenerStats \<times> tracker" where
  "TryAcquire rawFeed clientID now t =
     (let feedID = trimSpace rawFeed
      in if feedID = [] then (None, noStats, t)
         else
           (let state = acquire_client (client_name clientID) now (feedState t feedID)
            in (Some (feedID, client_name clientID), listenerStatsLocked state, AList.update feedID state t)))"

definition release_client :: "string \<Rightarrow> listenerFeedState \<Rightarrow> listenerFeedState" where
  "release_client clientID state =
     (if connections state clientID \<le> 1 then state\<lparr>ls_active := AList.delete clientID (ls_active state)\<rparr>
      else state\<lparr>ls_active := AList.update clientID (connections state clientID - 1) (ls_active state)\<rparr>)"

definition release :: "string \<times> string \<Rightarrow> tracker \<Rightarrow> tracker" where
  "release handle t =
     (case map_of t (fst handle) of
        None \<Rightarrow> t
      | Some current \<Rightarrow> AList.update (fst handle) (release_client (snd handle) current) t)"

text \<open>A snapshot with the clients another service reports: they count unless they are already connected.\<close>

definition external_clients :: "listenerFeedState \<Rightarrow> string list \<Rightarrow> string list" where
  "external_clients state clients =
     collect_unique (\<lambda>clientID. if map_of (ls_active state) (client_name clientID) \<noteq> None then None else Some (client_name clientID))
       (\<lambda>clientID. clientID) [] clients"

definition add_feeds :: "string list \<Rightarrow> tracker \<Rightarrow> tracker" where
  "add_feeds feedIDs t =
     foldl (\<lambda>t feedID. if trimSpace feedID = [] \<or> map_of t (trimSpace feedID) \<noteq> None then t
                        else AList.update (trimSpace feedID) newFeedState t) t feedIDs"

definition snapshot_feed :: "(string \<times> string list) list \<Rightarrow> instant \<Rightarrow> string \<times> listenerFeedState \<Rightarrow> (string \<times> listenerFeedState) \<times> (string \<times> feedListenerStats)" where
  "snapshot_feed external now feed =
     (let state = snd feed;
          extra = external_clients state (case map_of external (fst feed) of None \<Rightarrow> [] | Some clients \<Rightarrow> clients);
          current = int (length (ls_active state)) + int (length extra);
          state = raise_peak current now state
      in ((fst feed, state), (fst feed, (listenerStatsLocked state)\<lparr>fl_Current := current\<rparr>)))"

definition SnapshotWithExternal ::
  "(string \<times> string list) list \<Rightarrow> instant \<Rightarrow> tracker \<Rightarrow> tracker \<times> (string \<times> feedListenerStats) list" where
  "SnapshotWithExternal external now t =
     (let feeds = map (snapshot_feed external now) (add_feeds (map fst external) t)
      in (map fst feeds, map snd feeds))"

definition Snapshot :: "instant \<Rightarrow> tracker \<Rightarrow> tracker \<times> (string \<times> feedListenerStats) list" where
  "Snapshot now t = SnapshotWithExternal [] now t"

definition listenerStatsForFeed :: "(string \<times> feedListenerStats) list \<Rightarrow> string \<Rightarrow> feedListenerStats" where
  "listenerStatsForFeed stats feedID =
     (case map_of stats (trimSpace feedID) of None \<Rightarrow> noStats | Some s \<Rightarrow> s)"

section \<open>The tracker over time\<close>

text \<open>A tracker together with its open connections.\<close>

inductive tracker_reachable :: "tracker \<Rightarrow> (string \<times> string) multiset \<Rightarrow> bool" where
  new: "tracker_reachable [] {#}"
| acquired: "tracker_reachable t opened \<Longrightarrow> TryAcquire feedID clientID now t = (Some handle, stats, t') \<Longrightarrow>
    tracker_reachable t' (add_mset handle opened)"
| refused: "tracker_reachable t opened \<Longrightarrow> TryAcquire feedID clientID now t = (None, stats, t') \<Longrightarrow>
    tracker_reachable t' opened"
| released: "tracker_reachable t (add_mset handle opened) \<Longrightarrow> tracker_reachable (release handle t) opened"
| snapshot: "tracker_reachable t opened \<Longrightarrow> tracker_reachable (fst (SnapshotWithExternal external now t)) opened"

text \<open>The counts of one feed are those of its open connections.\<close>

definition counts :: "listenerFeedState \<Rightarrow> (string \<Rightarrow> nat) \<Rightarrow> bool" where
  "counts state n \<longleftrightarrow>
     distinct (map fst (ls_active state)) \<and>
     (\<forall>c. map_of (ls_active state) c = (if n c = 0 then None else Some (int (n c)))) \<and>
     int (length (ls_active state)) \<le> ls_peak state"

lemma connections_counts: "counts state n \<Longrightarrow> connections state c = int (n c)"
  by (auto simp: counts_def connections_def)

lemma counts_raise: "counts state n \<Longrightarrow> counts (raise_peak current now state) n"
  by (auto simp: counts_def raise_peak_def)

lemma counts_new: "counts newFeedState (\<lambda>c. 0)"
  by (simp add: counts_def newFeedState_def)

lemma length_update_alist:
  "length (AList.update k v ws) = (if map_of ws k = None then length ws + 1 else length ws)"
  by (induction ws) auto

lemma counts_acquire:
  assumes "counts state n"
  shows "counts (acquire_client c now state) (n(c := n c + 1))"
proof (cases "n c = 0")
  case True
  let ?state = "state\<lparr>ls_active := AList.update c 1 (ls_active state)\<rparr>"
  have "acquire_client c now state = raise_peak (int (length (ls_active ?state))) now ?state"
    using True by (simp add: acquire_client_def connections_counts [OF assms] Let_def)
  with True assms show ?thesis
    by (auto simp: counts_def raise_peak_def AList.distinct_update AList.update_conv')
next
  case False
  with assms show ?thesis
    by (auto simp: acquire_client_def connections_counts [OF assms] counts_def AList.distinct_update
        AList.update_conv' length_update_alist)
qed

lemma counts_release:
  assumes "counts state n" and "0 < n c"
  shows "counts (release_client c state) (n(c := n c - 1))"
proof (cases "n c = 1")
  case True
  with assms AList.length_delete_le [of c "ls_active state"] show ?thesis
    by (auto simp: release_client_def connections_counts [OF assms(1)] counts_def AList.distinct_delete AList.delete_conv')
next
  case False
  with assms show ?thesis
    by (auto simp: release_client_def connections_counts [OF assms(1)] counts_def AList.distinct_update
        AList.update_conv' length_update_alist of_nat_diff)
qed

definition tracked :: "tracker \<Rightarrow> (string \<times> string) multiset \<Rightarrow> bool" where
  "tracked t opened \<longleftrightarrow> distinct (map fst t) \<and> (\<forall>f. counts (feedState t f) (\<lambda>c. count opened (f, c))) "

lemma feedState_update: "feedState (AList.update f state t) g = (if g = f then state else feedState t g)"
  by (simp add: feedState_def AList.update_conv')

lemma tracked_add_feeds: "tracked t opened \<Longrightarrow> tracked (add_feeds feedIDs t) opened"
proof (induction feedIDs arbitrary: t)
  case (Cons f feedIDs)
  have "tracked (AList.update (trimSpace f) newFeedState t) opened" if "map_of t (trimSpace f) = None"
  proof -
    have "feedState (AList.update (trimSpace f) newFeedState t) = feedState t"
      using that by (auto simp: fun_eq_iff feedState_update) (simp add: feedState_def)
    with Cons.prems show ?thesis by (simp add: tracked_def AList.distinct_update)
  qed
  then have "tracked (if trimSpace f = [] \<or> map_of t (trimSpace f) \<noteq> None then t
      else AList.update (trimSpace f) newFeedState t) opened"
    using Cons.prems by simp
  from Cons.IH [OF this] show ?case by (simp add: add_feeds_def)
qed (simp add: add_feeds_def)

lemma tracked_snapshot:
  assumes "tracked t opened"
  shows "tracked (fst (SnapshotWithExternal external now t)) opened"
proof -
  let ?t = "add_feeds (map fst external) t"
  have ok: "tracked ?t opened" using assms by (rule tracked_add_feeds)
  have keys: "map (fst \<circ> (fst \<circ> snapshot_feed external now)) ?t = map fst ?t"
    by (simp add: snapshot_feed_def Let_def)
  have "\<exists>current. feedState (map (fst \<circ> snapshot_feed external now) ts) f = raise_peak current now (feedState ts f) \<or>
      feedState (map (fst \<circ> snapshot_feed external now) ts) f = feedState ts f" for ts f
    by (induction ts) (auto simp: feedState_def snapshot_feed_def Let_def)
  then have "counts (feedState (map (fst \<circ> snapshot_feed external now) ?t) f) (\<lambda>c. count opened (f, c))" for f
    using ok counts_raise unfolding tracked_def by metis
  with ok keys show ?thesis
    unfolding tracked_def SnapshotWithExternal_def Let_def by (simp del: map_eq_conv)
qed

lemma tracker_tracked: "tracker_reachable t opened \<Longrightarrow> tracked t opened"
proof (induction rule: tracker_reachable.induct)
  case new
  show ?case by (simp add: tracked_def feedState_def counts_new)
next
  case (acquired t opened feedID clientID now handle stats t')
  then have h: "handle = (trimSpace feedID, client_name clientID)"
    and t': "t' = AList.update (trimSpace feedID) (acquire_client (client_name clientID) now (feedState t (trimSpace feedID))) t"
    by (auto simp: TryAcquire_def Let_def split: if_split_asm)
  have "counts (feedState t' f) (\<lambda>c. count (add_mset handle opened) (f, c))" for f
    using acquired.IH counts_acquire [of "feedState t (trimSpace feedID)" "\<lambda>c. count opened (trimSpace feedID, c)" "client_name clientID" now]
    by (auto simp: tracked_def t' h feedState_update fun_upd_def elim!: back_subst [of "counts _"])
  with acquired.IH show ?case by (simp add: tracked_def t' AList.distinct_update)
next
  case (refused t opened feedID clientID now stats t')
  then show ?case by (auto simp: TryAcquire_def Let_def split: if_split_asm)
next
  case (released t handle opened)
  obtain f c where h: "handle = (f, c)" by (cases handle)
  have "counts (feedState t f) (\<lambda>c'. count (add_mset handle opened) (f, c'))"
    using released.IH by (simp add: tracked_def)
  then have rel: "counts (release_client c (feedState t f)) (\<lambda>c'. count opened (f, c'))"
    using counts_release [of "feedState t f" "\<lambda>c'. count (add_mset handle opened) (f, c')" c]
    by (auto simp: h fun_upd_def elim!: back_subst [of "counts _"])
  have "feedState t f \<noteq> newFeedState"
  proof
    assume "feedState t f = newFeedState"
    then have "count (add_mset handle opened) (f, c) = 0"
      using released.IH unfolding tracked_def counts_def newFeedState_def
      by (metis listenerFeedState.select_convs(1) map_of.simps(1) option.distinct(1))
    then show False by (simp add: h)
  qed
  then have "map_of t f \<noteq> None" by (auto simp: feedState_def split: option.split_asm)
  then obtain current where "map_of t f = Some current" by auto
  then have t': "release handle t = AList.update f (release_client c (feedState t f)) t"
    by (simp add: release_def h feedState_def)
  have other: "counts (feedState t g) (\<lambda>c. count opened (g, c))" if "g \<noteq> f" for g
    using released.IH that by (auto simp: tracked_def h dest!: spec [of _ g])
  have "distinct (map fst t)" using released.IH by (simp add: tracked_def)
  with rel other show ?case
    by (simp add: tracked_def t' feedState_update AList.distinct_update)
next
  case (snapshot t opened external now)
  from snapshot.IH show ?case by (rule tracked_snapshot)
qed

section \<open>Properties\<close>

text \<open>C37: the tracker counts what is open: after any history the number of current listeners of a feed is
  the number of distinct clients with an open connection to it, however many connections each of them
  has, and the recorded peak is never below it.\<close>

theorem listeners_counted:
  assumes "tracker_reachable t opened"
  shows "fl_Current (listenerStatsLocked (feedState t f)) = int (card {c. (f, c) \<in># opened}) \<and>
    int (card {c. (f, c) \<in># opened}) \<le> fl_Peak (listenerStatsLocked (feedState t f))"
proof -
  let ?a = "ls_active (feedState t f)"
  have ok: "counts (feedState t f) (\<lambda>c. count opened (f, c))"
    using tracker_tracked [OF assms] by (simp add: tracked_def)
  then have "set (map fst ?a) = {c. (f, c) \<in># opened}"
    by (auto simp: counts_def dom_map_of_conv_image_fst [symmetric] dom_def split: if_split_asm)
  moreover have "length ?a = card (set (map fst ?a))"
    using ok distinct_card [of "map fst ?a"] by (simp add: counts_def)
  ultimately show ?thesis using ok by (simp add: counts_def listenerStatsLocked_def)
qed

theorem listeners_counted_witness:
  "fl_Current (listenerStatsLocked (feedState
     (snd (snd (TryAcquire ''feed'' ''ip'' 2 (snd (snd (TryAcquire ''feed'' ''ip'' 1 [])))))) ''feed'')) = 1"
proof -
  let ?t1 = "snd (snd (TryAcquire ''feed'' ''ip'' 1 []))"
  let ?t2 = "snd (snd (TryAcquire ''feed'' ''ip'' 2 ?t1))"
  have trim: "trimSpace ''feed'' = ''feed''" "trimSpace ''ip'' = ''ip''" by code_simp+
  have "tracker_reachable ?t1 {#(''feed'', ''ip'')#}"
    by (rule tracker_reachable.acquired [OF tracker_reachable.new, of "''feed''" "''ip''" 1])
      (simp add: TryAcquire_def Let_def trim client_name_def)
  then have "tracker_reachable ?t2 {#(''feed'', ''ip''), (''feed'', ''ip'')#}"
    by (rule tracker_reachable.acquired [of _ _ "''feed''" "''ip''" 2])
      (simp add: TryAcquire_def Let_def trim client_name_def)
  from listeners_counted [OF this, of "''feed''"] show ?thesis by simp
qed

end
