(* ===== verification/Same_Request.thy ===== *)
theory Same_Request
  imports Playlist_Data Alert_Packet
begin

text \<open>
  The SAME message of a priority alert, \<open>internal/playlist/same.go\<close> and the transmitter data of
  \<open>internal/playlist/config.go\<close>: the request that is built from the alert data and the feed, its location
  codes, and the generation of header and end-of-message.
  \<^item> The generator is another program: an argument that maps a request to its decoded JSON answer or an error.
  \<^item> The location catalogue and the CSV table of the base zones are files: their rows are arguments.
  \<^item> Decoding base64 and the conversion of a JSON number to an integer are arguments.
\<close>

section \<open>Configuration\<close>

record transmitterXML =
  tx_HostName :: string
  tx_SiteName :: string
  tx_Callsign :: string
  tx_Relationship :: string
  tx_Frequency :: string

record coverageRegionXML =
  rg_ID :: string
  rg_Subregions :: "string list"

record same_feed =
  sf_regions :: "coverageRegionXML list"
  sf_transmitters :: "transmitterXML list"

definition xmlBool :: "string \<Rightarrow> bool \<Rightarrow> bool" where
  "xmlBool raw fallback =
     (let text = toLower (trimSpace raw)
      in if text = [] then fallback
         else if text \<in> {''1'', ''true'', ''yes'', ''on'', ''enabled''} then True
         else if text \<in> {''0'', ''false'', ''no'', ''off'', ''disabled''} then False
         else fallback)"

definition tx_empty :: "transmitterXML \<Rightarrow> bool" where
  "tx_empty t \<longleftrightarrow> trimSpace (tx_SiteName t) = [] \<and> trimSpace (tx_Callsign t) = [] \<and> trimSpace (tx_Relationship t) = [] \<and>
     trimSpace (tx_HostName t) = [] \<and> trimSpace (tx_Frequency t) = []"

definition relationship :: "transmitterXML \<Rightarrow> string" where
  "relationship t =
     (let r = toLower (trimSpace (tx_Relationship t))
      in if r = ''secondary/repeater'' then ''secondary'' else if r = [] then ''unknown'' else r)"

definition isRelationship :: "transmitterXML \<Rightarrow> string \<Rightarrow> bool" where
  "isRelationship t raw \<longleftrightarrow>
     (let wanted = toLower (trimSpace raw)
      in relationship t = wanted \<or> wanted = ''repeater'' \<and> relationship t = ''secondary'')"

definition transmitterList :: "same_feed \<Rightarrow> transmitterXML list" where
  "transmitterList feed = filter (\<lambda>t. \<not> tx_empty t) (sf_transmitters feed)"

definition tx_named :: "transmitterXML \<Rightarrow> bool" where
  "tx_named t \<longleftrightarrow> trimSpace (tx_Callsign t) \<noteq> [] \<or> trimSpace (tx_SiteName t) \<noteq> []"

definition stationTransmitter :: "same_feed \<Rightarrow> transmitterXML" where
  "stationTransmitter feed =
     (let ts = transmitterList feed
      in case find (\<lambda>t. isRelationship t ''primary'') ts of
           Some t \<Rightarrow> t
         | None \<Rightarrow>
             (case find (\<lambda>t. \<not> isRelationship t ''replaces'' \<and> \<not> isRelationship t ''ip'' \<and> tx_named t) ts of
                Some t \<Rightarrow> t
              | None \<Rightarrow>
                  (case find tx_named ts of
                     Some t \<Rightarrow> t
                   | None \<Rightarrow>
                       (case ts of
                          t # rest \<Rightarrow> t
                        | [] \<Rightarrow> \<lparr>tx_HostName = [], tx_SiteName = [], tx_Callsign = [], tx_Relationship = [], tx_Frequency = []\<rparr>))))"

definition feedCallsign :: "same_feed \<Rightarrow> string" where
  "feedCallsign feed = trimSpace (tx_Callsign (stationTransmitter feed))"

section \<open>Codes\<close>

definition sameLocationCode :: "string \<Rightarrow> string" where
  "sameLocationCode raw = (let digits = filter is_digit raw in if length digits \<noteq> 6 then [] else digits)"

definition normalizeSAMEDuration :: "string \<Rightarrow> string" where
  "normalizeSAMEDuration raw =
     (let digits = filter is_digit raw
      in if length digits \<ge> 4 then take 4 digits else replicate (4 - length digits) (CHR ''0'') @ digits)"

text \<open>The closures \<open>add\<close>: a code that is valid and new is appended, up to the limit if there is one.\<close>

definition add_code :: "nat option \<Rightarrow> string list \<Rightarrow> string \<Rightarrow> string list" where
  "add_code limit out raw =
     (let code = sameLocationCode raw
      in if (case limit of None \<Rightarrow> False | Some n \<Rightarrow> length out \<ge> n) \<or> code = [] \<or> code \<in> set out then out
         else out @ [code])"

definition packet_codes :: "packet \<Rightarrow> string list" where
  "packet_codes p =
     concat (map (\<lambda>r. map li_Value (filter (\<lambda>i. toLower (trimSpace (li_Scheme i)) \<in> {''same'', ''fips'', ''clc''})
                        (lr_CanonicalIdentifiers r)))
       (filter (\<lambda>r. lr_Actionable r \<and> \<not> lr_Ambiguous r \<and> trimSpace (lr_CanonicalID r) \<noteq> []) (ar_Locations (pk_Areas p))))"

definition sameLocationsFromData :: "codec \<Rightarrow> message \<Rightarrow> string list" where
  "sameLocationsFromData cd data =
     (let out = (case FromMap cd data of (p, ok) \<Rightarrow> if ok then foldl (add_code (Some 31)) [] (packet_codes p) else [])
      in foldl (add_code (Some 31)) out (stringListAny (firstValue [] data [''same_locations'', ''locations''])))"

section \<open>Wildcards\<close>

definition matches_wildcard :: "string list \<Rightarrow> string \<Rightarrow> bool" where
  "matches_wildcard wildcards code \<longleftrightarrow>
     code \<noteq> [] \<and> \<not> hasSuffix code ''00'' \<and> list_ex (\<lambda>w. hasPrefix code (take 4 w)) wildcards"

text \<open>\<open>None\<close> stands for a table that cannot be opened or has no header row.\<close>

definition clcWildcardChildren :: "(string list \<times> string list list) option \<Rightarrow> string list \<Rightarrow> string list" where
  "clcWildcardChildren table wildcards =
     (case table of
        None \<Rightarrow> []
      | Some (header, rows) \<Rightarrow>
          (case find (\<lambda>i. equalFold (trimSpace (header ! i)) ''CLC'') [0..<length header] of
             None \<Rightarrow> []
           | Some clcIndex \<Rightarrow>
               filter (matches_wildcard wildcards)
                 (map (\<lambda>row. sameLocationCode (row ! clcIndex)) (filter (\<lambda>row. clcIndex < length row) rows))))"

definition clcWildcardChildrenForBase ::
  "string list option \<Rightarrow> (string list \<times> string list list) option \<Rightarrow> string list \<Rightarrow> string list" where
  "clcWildcardChildrenForBase places table wildcards =
     (let children = (case places of None \<Rightarrow> []
                      | Some codes \<Rightarrow> filter (matches_wildcard wildcards) (map sameLocationCode codes))
      in if children \<noteq> [] then children else clcWildcardChildren table wildcards)"

definition expandWildcardSAMELocations ::
  "string list option \<Rightarrow> (string list \<times> string list list) option \<Rightarrow> string list \<Rightarrow> string list" where
  "expandWildcardSAMELocations places table locations =
     (let out = foldl (add_code None) [] locations;
          wildcards = filter (\<lambda>code. hasSuffix code ''00'' \<and> length code = 6) (map sameLocationCode locations);
          out = (if wildcards \<noteq> []
                 then foldl (add_code None) out (clcWildcardChildrenForBase places table wildcards) else out)
      in take 31 out)"

section \<open>Requests\<close>

record sameGenerateRequest =
  sr_Originator :: string
  sr_Event :: string
  sr_Locations :: "string list"
  sr_Duration :: string
  sr_Callsign :: string
  sr_Tone :: string
  sr_Sequence :: string

record same_env =
  se_feed :: same_feed
  se_places :: "string list option"
  se_table :: "(string list \<times> string list list) option"
  se_packetCodec :: codec
  se_generator :: "sameGenerateRequest \<Rightarrow> go_error + message"
  se_base64 :: "string \<Rightarrow> go_error + byte list"
  se_number :: "string \<Rightarrow> int"
  se_sampleRate :: int
  se_channels :: int

definition includeSameAlert :: "message \<Rightarrow> bool" where
  "includeSameAlert data =
     (case map_of data ''include_same'' of
        Some (BoolV b) \<Rightarrow> b
      | Some (StrV s) \<Rightarrow> xmlBool s False
      | _ \<Rightarrow> False)"

definition coverage_codes :: "same_feed \<Rightarrow> string list" where
  "coverage_codes feed =
     filter (\<lambda>code. code \<noteq> [])
       (concat (map (\<lambda>region. map sameLocationCode (rg_ID region # rg_Subregions region)) (sf_regions feed)))"

definition same_event :: "message \<Rightarrow> string" where
  "same_event data = toUpper (fallbackText (firstText [] data [''same_event'', ''event'']) ''ADR'')"

definition sameLocationsForData :: "same_env \<Rightarrow> message \<Rightarrow> string list" where
  "sameLocationsForData env data =
     (let found = sameLocationsFromData (se_packetCodec env) data;
          locations = (if found = [] then coverage_codes (se_feed env) else found)
      in if same_event data \<noteq> ''SVR'' \<and> same_event data \<noteq> ''TOR'' then locations
         else expandWildcardSAMELocations (se_places env) (se_table env) locations)"

definition buildSAMERequest :: "same_env \<Rightarrow> message \<Rightarrow> string \<Rightarrow> sameGenerateRequest" where
  "buildSAMERequest env data sequence =
     (let callsign = fallbackText (firstText [] data [''same_callsign'', ''callsign'']) (feedCallsign (se_feed env))
      in \<lparr>sr_Originator = toUpper (fallbackText (firstText [] data [''same_originator'', ''originator'']) ''WXR''),
          sr_Event = same_event data,
          sr_Locations = sameLocationsForData env data,
          sr_Duration = normalizeSAMEDuration (fallbackText (firstText [] data [''same_duration'', ''duration'']) ''0015''),
          sr_Callsign = (if callsign = [] then ''HAZE'' else callsign),
          sr_Tone = toUpper (fallbackText (firstText [] data [''same_tone'', ''tone_type'']) ''WXR''),
          sr_Sequence = toLower (fallbackText sequence ''full'')\<rparr>)"

section \<open>Generation\<close>

record sameAudioPayload =
  sp_Header :: string
  sp_Audio :: "byte list"
  sp_SampleRate :: int
  sp_Channels :: int

definition intFromResult :: "same_env \<Rightarrow> message \<Rightarrow> string \<Rightarrow> int \<Rightarrow> int" where
  "intFromResult env source key fallback =
     (case map_of source key of Some (NumV n) \<Rightarrow> se_number env n | _ \<Rightarrow> fallback)"

definition text_result :: "message \<Rightarrow> string \<Rightarrow> string" where
  "text_result result key = (case map_of result key of Some (StrV s) \<Rightarrow> s | _ \<Rightarrow> [])"

definition sameAudioFromResult :: "same_env \<Rightarrow> message \<Rightarrow> int \<Rightarrow> int \<Rightarrow> go_error + sameAudioPayload" where
  "sameAudioFromResult env result fallbackSampleRate fallbackChannels =
     (if text_result result ''audio_base64'' = [] then Inl ''SAME generator returned no audio payload''
      else
        (case se_base64 env (text_result result ''audio_base64'') of
           Inl e \<Rightarrow> Inl (''decode SAME audio payload: '' @ e)
         | Inr audio \<Rightarrow>
             if text_result result ''header'' = [] then Inl ''SAME generator returned no header''
             else Inr \<lparr>sp_Header = text_result result ''header'', sp_Audio = audio,
                       sp_SampleRate = intFromResult env result ''sample_rate'' fallbackSampleRate,
                       sp_Channels = intFromResult env result ''channels'' fallbackChannels\<rparr>))"

definition generatePrioritySAME ::
  "same_env \<Rightarrow> message \<Rightarrow> string \<Rightarrow> sameGenerateRequest \<times> (go_error + message)" where
  "generatePrioritySAME env data sequence =
     (let request = buildSAMERequest env data sequence
      in if sr_Locations request = [] then (request, Inl ''no SAME locations were supplied'')
         else (request, se_generator env request))"

text \<open>The two parts are generated concurrently and collected from a channel by their sequence name;
  \<open>order\<close> is the order in which they arrive.\<close>

definition collect_parts ::
  "(sameGenerateRequest \<Rightarrow> go_error + message) \<Rightarrow> sameGenerateRequest list \<Rightarrow> (string \<rightharpoonup> go_error + message)" where
  "collect_parts gen order = foldl (\<lambda>parts request. parts(sr_Sequence request \<mapsto> gen request)) Map.empty order"

text \<open>\<open>parts[name]\<close>: a missing part is an empty answer without error.\<close>

definition part :: "(string \<rightharpoonup> go_error + message) \<Rightarrow> string \<Rightarrow> go_error + message" where
  "part parts name = (case parts name of None \<Rightarrow> Inr [] | Some r \<Rightarrow> r)"

definition eom_request :: "sameGenerateRequest \<Rightarrow> sameGenerateRequest" where
  "eom_request request = request\<lparr>sr_Sequence := ''eom''\<rparr>"

definition assemble_pair ::
  "same_env \<Rightarrow> (string \<rightharpoonup> go_error + message) \<Rightarrow> go_error + sameAudioPayload \<times> sameAudioPayload" where
  "assemble_pair env parts =
     (case part parts ''header'' of
        Inl e \<Rightarrow> Inl (''SAME header generation failed: '' @ e)
      | Inr result \<Rightarrow>
          (case sameAudioFromResult env result (se_sampleRate env) (se_channels env) of
             Inl e \<Rightarrow> Inl (''SAME header generation failed: '' @ e)
           | Inr header \<Rightarrow>
               (case part parts ''eom'' of
                  Inl e \<Rightarrow> Inl (''SAME EOM generation failed: '' @ e)
                | Inr result \<Rightarrow>
                    (case sameAudioFromResult env result (sp_SampleRate header) (sp_Channels header) of
                       Inl e \<Rightarrow> Inl (''SAME EOM generation failed: '' @ e)
                     | Inr eom \<Rightarrow> Inr (header, eom)))))"

definition generatePrioritySAMEPair ::
  "same_env \<Rightarrow> message \<Rightarrow> (sameGenerateRequest list \<Rightarrow> sameGenerateRequest list) \<Rightarrow>
   sameGenerateRequest \<times> (go_error + sameAudioPayload \<times> sameAudioPayload)" where
  "generatePrioritySAMEPair env data arrival =
     (let headerRequest = buildSAMERequest env data ''header''
      in if sr_Locations headerRequest = []
         then (headerRequest, Inl ''SAME header generation failed: no SAME locations were supplied'')
         else (headerRequest,
               assemble_pair env (collect_parts (se_generator env) (arrival [headerRequest, eom_request headerRequest]))))"

section \<open>Lemmas\<close>

definition same_code :: "string \<Rightarrow> bool" where
  "same_code code \<longleftrightarrow> length code = 6 \<and> list_all is_digit code"

lemma sameLocationCode_code: "sameLocationCode raw \<noteq> [] \<Longrightarrow> same_code (sameLocationCode raw)"
  by (auto simp: sameLocationCode_def same_code_def Let_def list_all_iff split: if_split_asm)

definition codes_ok :: "string list \<Rightarrow> bool" where
  "codes_ok codes \<longleftrightarrow> distinct codes \<and> list_all same_code codes"

lemma add_code_ok: "codes_ok out \<Longrightarrow> codes_ok (add_code limit out raw)"
  by (auto simp: add_code_def codes_ok_def Let_def sameLocationCode_code)

lemma add_codes_ok: "codes_ok out \<Longrightarrow> codes_ok (foldl (add_code limit) out raws)"
  by (induction raws arbitrary: out) (simp_all add: add_code_ok)

lemma add_codes_limit: "length out \<le> n \<Longrightarrow> length (foldl (add_code (Some n)) out raws) \<le> n"
  by (induction raws arbitrary: out) (auto simp: add_code_def Let_def)

lemma fromData_ok: "codes_ok (sameLocationsFromData cd data) \<and> length (sameLocationsFromData cd data) \<le> 31"
  by (auto simp: sameLocationsFromData_def Let_def codes_ok_def [of "[]"] intro!: add_codes_ok add_codes_limit split: prod.splits)

lemma codes_ok_take: "codes_ok out \<Longrightarrow> codes_ok (take n out)"
  by (auto simp: codes_ok_def list_all_iff dest: in_set_takeD)

lemma expand_ok:
  "codes_ok (expandWildcardSAMELocations places table locations) \<and> length (expandWildcardSAMELocations places table locations) \<le> 31"
  by (auto simp: expandWildcardSAMELocations_def Let_def codes_ok_def [of "[]"] intro!: codes_ok_take add_codes_ok)

lemma coverage_codes_ok: "list_all same_code (coverage_codes feed)"
  by (auto simp: coverage_codes_def list_all_iff intro: sameLocationCode_code)

section \<open>Properties\<close>

text \<open>C38: every request for the SAME generator is well formed: its locations are codes of six digits, its
  duration has four digits, and its callsign is not empty. A list of locations that comes from the alert or
  belongs to a severe thunderstorm or tornado warning has no duplicates and at most 31 entries, the
  limit of the SAME protocol.\<close>

theorem same_request_wellformed:
  "let request = buildSAMERequest env data sequence in
     list_all same_code (sr_Locations request) \<and>
     length (sr_Duration request) = 4 \<and> list_all is_digit (sr_Duration request) \<and> sr_Callsign request \<noteq> [] \<and>
     (if sameLocationsFromData (se_packetCodec env) data \<noteq> [] \<or> same_event data = ''SVR'' \<or> same_event data = ''TOR''
      then distinct (sr_Locations request) \<and> length (sr_Locations request) \<le> 31 else True)"
proof -
  have "list_all same_code (sameLocationsForData env data)"
    using fromData_ok expand_ok coverage_codes_ok by (auto simp: sameLocationsForData_def Let_def codes_ok_def)
  moreover have "length (normalizeSAMEDuration raw) = 4 \<and> list_all is_digit (normalizeSAMEDuration raw)" for raw
    by (auto simp: normalizeSAMEDuration_def Let_def list_all_iff is_digit_def char_between_def dest: in_set_takeD)
  moreover have "if sameLocationsFromData (se_packetCodec env) data \<noteq> [] \<or> same_event data = ''SVR'' \<or> same_event data = ''TOR''
      then distinct (sameLocationsForData env data) \<and> length (sameLocationsForData env data) \<le> 31 else True"
    using fromData_ok expand_ok by (auto simp: sameLocationsForData_def Let_def codes_ok_def)
  ultimately show ?thesis by (auto simp: buildSAMERequest_def Let_def)
qed

text \<open>A list that comes from the coverage of the feed is not limited: for any other event a feed with 32
  regions yields a request with 32 locations, more than a SAME header may carry.\<close>

theorem coverage_exceeds_same_limit:
  assumes "sameLocationsFromData (se_packetCodec env) data = []" and "same_event data = ''ADR''"
    and "list_all (\<lambda>region. same_code (rg_ID region)) (sf_regions (se_feed env))"
  shows "length (sf_regions (se_feed env)) \<le> length (sr_Locations (buildSAMERequest env data sequence))"
proof -
  have code: "sameLocationCode (rg_ID region) = rg_ID region" if "same_code (rg_ID region)" for region
    using that by (simp add: same_code_def sameLocationCode_def Let_def list_all_iff filter_id_conv)
  have "length regions \<le> length (filter (\<lambda>code. code \<noteq> [])
      (concat (map (\<lambda>region. map sameLocationCode (rg_ID region # rg_Subregions region)) regions)))"
    if "list_all (\<lambda>region. same_code (rg_ID region)) regions" for regions
    using that by (induction regions) (auto simp: code same_code_def)
  from this [OF assms(3)] assms(1,2) show ?thesis
    by (simp add: buildSAMERequest_def Let_def sameLocationsForData_def coverage_codes_def)
qed

text \<open>The result of generating header and end-of-message does not depend on which of them finishes first.\<close>

theorem same_pair_order_independent:
  assumes "set (arrival [h, eom_request h]) = {h, eom_request h}" and "h = buildSAMERequest env data ''header''"
    and "length (arrival [h, eom_request h]) = 2"
  shows "generatePrioritySAMEPair env data arrival = generatePrioritySAMEPair env data (\<lambda>requests. requests)"
proof -
  have seq: "sr_Sequence h = ''header''"
  proof -
    have "toLower (fallbackText ''header'' ''full'') = ''header''" by code_simp
    then show ?thesis by (simp add: assms(2) buildSAMERequest_def Let_def)
  qed
  have "h \<noteq> eom_request h" using seq by (auto simp: eom_request_def dest: arg_cong [of _ _ sr_Sequence])
  then have "arrival [h, eom_request h] = [h, eom_request h] \<or> arrival [h, eom_request h] = [eom_request h, h]"
    using assms(1,3) by (auto simp: numeral_2_eq_2 length_Suc_conv doubleton_eq_iff)
  then have "collect_parts (se_generator env) (arrival [h, eom_request h]) = collect_parts (se_generator env) [h, eom_request h]"
    using seq by (auto simp: collect_parts_def eom_request_def fun_upd_twist)
  then show ?thesis unfolding generatePrioritySAMEPair_def Let_def assms(2) [symmetric] by simp
qed

section \<open>Witnesses\<close>

definition sample_same_env :: same_env where
  "sample_same_env =
     \<lparr>se_feed = \<lparr>sf_regions = replicate 32 \<lparr>rg_ID = ''041610'', rg_Subregions = []\<rparr>, sf_transmitters = []\<rparr>, se_places = None, se_table = None,
      se_packetCodec = sample_codec sample_packet,
      se_generator = (\<lambda>request. Inr [(''audio_base64'', StrV ''AA==''), (''header'', StrV ''ZCZC'')]),
      se_base64 = (\<lambda>s. Inr [0]), se_number = (\<lambda>n. 0), se_sampleRate = 48000, se_channels = 1\<rparr>"

theorem same_request_wellformed_witness:
  "length (sr_Duration (buildSAMERequest sample_same_env sample_map ''header'')) = 4 \<and>
   sr_Callsign (buildSAMERequest sample_same_env sample_map ''header'') \<noteq> []"
  using same_request_wellformed [of sample_same_env sample_map "''header''"] by (simp add: Let_def)

theorem coverage_exceeds_same_limit_witness:
  "31 < length (sr_Locations (buildSAMERequest sample_same_env [] ''full''))"
proof -
  have "sameLocationsFromData (se_packetCodec sample_same_env) [] = []" by code_simp
  moreover have "same_event [] = ''ADR''" by code_simp
  moreover have "list_all (\<lambda>region. same_code (rg_ID region)) (sf_regions (se_feed sample_same_env))" by code_simp
  ultimately show ?thesis using coverage_exceeds_same_limit [of sample_same_env "[]" "''full''"]
    by (simp add: sample_same_env_def)
qed

theorem same_pair_order_independent_witness:
  "generatePrioritySAMEPair sample_same_env [] rev = generatePrioritySAMEPair sample_same_env [] (\<lambda>requests. requests)"
  by (rule same_pair_order_independent [OF _ refl]) auto

end
