(* ===== verification/Go_Net.thy ===== *)
theory Go_Net
  imports Go_Strings
begin

text \<open>
  What the services use of the package \<open>net\<close>: parsing and printing of addresses, networks and host-port
  pairs. A \<open>net.IP\<close> is the list of its 16 bytes, the form in which \<open>ParseIP\<close> returns it.
\<close>

section \<open>Parsing addresses\<close>

type_synonym ip = "byte list"

definition v4InV6Prefix :: ip where
  "v4InV6Prefix = [0, 0, 0, 0, 0, 0, 0, 0, 0, 0, 255, 255]"

definition To4 :: "ip \<Rightarrow> ip option" where
  "To4 a = (if length a = 4 then Some a else if length a = 16 \<and> take 12 a = v4InV6Prefix then Some (drop 12 a) else None)"

text \<open>The loop of \<open>netip.parseIPv4Fields\<close>: the previous character, the value and the number of digits of the
  current field, and the fields read so far.\<close>

fun ipv4_loop :: "char option \<Rightarrow> nat \<Rightarrow> nat \<Rightarrow> byte list \<Rightarrow> string \<Rightarrow> byte list option" where
  "ipv4_loop prev val digits octets [] = (if length octets < 3 then None else Some (octets @ [of_nat val]))"
| "ipv4_loop prev val digits octets (c # s) =
     (if is_digit c then
        (let v = val * 10 + (of_char c - 48)
         in if digits = 1 \<and> val = 0 \<or> v > 255 then None else ipv4_loop (Some c) v (Suc digits) octets s)
      else if c = CHR ''.'' then
        (if prev = None \<or> s = [] \<or> prev = Some CHR ''.'' \<or> length octets = 3 then None
         else ipv4_loop (Some c) 0 0 (octets @ [of_nat val]) s)
      else None)"

definition parseIPv4Fields :: "string \<Rightarrow> byte list option" where
  "parseIPv4Fields s = ipv4_loop None 0 0 [] s"

definition hex_value :: "char \<Rightarrow> nat option" where
  "hex_value c =
     (if is_digit c then Some (of_char c - 48)
      else if char_between CHR ''a'' CHR ''f'' c then Some (of_char c - 87)
      else if char_between CHR ''A'' CHR ''F'' c then Some (of_char c - 55)
      else None)"

text \<open>One group of hexadecimal digits: its value, its length and the rest; a fifth digit is an error.\<close>

fun hex_group :: "nat \<Rightarrow> nat \<Rightarrow> string \<Rightarrow> (nat \<times> nat \<times> string) option" where
  "hex_group acc off [] = Some (acc, off, [])"
| "hex_group acc off (c # s) =
     (case hex_value c of
        None \<Rightarrow> Some (acc, off, c # s)
      | Some d \<Rightarrow> if off > 3 then None else hex_group (acc * 16 + d) (Suc off) s)"

text \<open>The loop of \<open>netip.parseIPv6\<close>: the bytes read so far, the position of the ellipsis and the rest of the text.\<close>

function ipv6_loop :: "byte list \<Rightarrow> nat option \<Rightarrow> string \<Rightarrow> (byte list \<times> nat option \<times> string) option" where
  "ipv6_loop acc ellipsis s =
     (if length acc \<ge> 16 then Some (acc, ellipsis, s)
      else
        (case hex_group 0 0 s of
           None \<Rightarrow> None
         | Some (v, off, rest) \<Rightarrow>
             if off = 0 then None
             else
               (case rest of
                  [] \<Rightarrow> Some (acc @ [of_nat (v div 256), of_nat (v mod 256)], ellipsis, [])
                | c # t \<Rightarrow>
                    if c = CHR ''.'' then
                      (if ellipsis = None \<and> length acc \<noteq> 12 \<or> length acc + 4 > 16 then None
                       else (case parseIPv4Fields s of None \<Rightarrow> None | Some octets \<Rightarrow> Some (acc @ octets, ellipsis, [])))
                    else if c \<noteq> CHR '':'' \<or> t = [] then None
                    else
                      (let acc' = acc @ [of_nat (v div 256), of_nat (v mod 256)]
                       in if hd t \<noteq> CHR '':'' then ipv6_loop acc' ellipsis t
                          else if ellipsis \<noteq> None then None
                          else if tl t = [] then Some (acc', Some (length acc'), [])
                          else ipv6_loop acc' (Some (length acc')) (tl t)))))"
  by pat_completeness auto
termination by (relation "measure (\<lambda>(acc, ellipsis, s). 16 - length acc)") auto

declare ipv6_loop.simps [simp del]

definition parseIPv6 :: "string \<Rightarrow> ip option" where
  "parseIPv6 s =
     (let leading = hasPrefix s ''::''; s' = (if leading then drop 2 s else s)
      in if leading \<and> s' = [] then Some (replicate 16 0)
         else
           (case ipv6_loop [] (if leading then Some 0 else None) s' of
              None \<Rightarrow> None
            | Some (acc, ellipsis, rest) \<Rightarrow>
                if rest \<noteq> [] then None
                else if length acc < 16 then
                  (case ellipsis of
                     None \<Rightarrow> None
                   | Some e \<Rightarrow> Some (take e acc @ replicate (16 - length acc) 0 @ drop e acc))
                else if ellipsis \<noteq> None then None
                else Some acc))"

text \<open>\<open>net.ParseIP\<close>: the first of \<open>.\<close>, \<open>:\<close> and \<open>%\<close> decides about the form, and an address with a zone is refused.\<close>

definition ip_form :: "string \<Rightarrow> char option" where
  "ip_form s = find (\<lambda>c. c = CHR ''.'' \<or> c = CHR '':'' \<or> c = CHR ''%'') s"

definition ParseIP :: "string \<Rightarrow> ip option" where
  "ParseIP s =
     (if CHR ''%'' \<in> set s then None
      else if ip_form s = Some CHR ''.'' then map_option (\<lambda>octets. v4InV6Prefix @ octets) (parseIPv4Fields s)
      else if ip_form s = Some CHR '':'' then parseIPv6 s
      else None)"

section \<open>Printing addresses\<close>

definition dotted :: "byte list \<Rightarrow> string" where
  "dotted octets = join ''.'' (map (\<lambda>b. itoa (unat b)) octets)"

definition hex_char :: "nat \<Rightarrow> char" where
  "hex_char d = (if d < 10 then char_of (48 + d) else char_of (87 + d))"

fun hex_text :: "nat \<Rightarrow> string" where
  "hex_text n = (if n < 16 then [hex_char n] else hex_text (n div 16) @ [hex_char (n mod 16)])"

declare hex_text.simps [simp del]

fun groups :: "byte list \<Rightarrow> nat list" where
  "groups (a # b # rest) = (unat a * 256 + unat b) # groups rest"
| "groups _ = []"

text \<open>The longest run of at least two zero groups, the first of equal ones: its start and its length.\<close>

definition run_at :: "nat list \<Rightarrow> nat \<Rightarrow> nat" where
  "run_at gs i = length (takeWhile (\<lambda>g. g = 0) (drop i gs))"

definition longer_run :: "nat list \<Rightarrow> (nat \<times> nat) option \<Rightarrow> nat \<Rightarrow> (nat \<times> nat) option" where
  "longer_run gs best i =
     (let len = run_at gs i
      in if len \<ge> 2 \<and> len > (case best of None \<Rightarrow> 0 | Some (start, longest) \<Rightarrow> longest) then Some (i, len) else best)"

definition zero_run :: "nat list \<Rightarrow> (nat \<times> nat) option" where
  "zero_run gs = foldl (longer_run gs) None [0..<length gs]"

definition ipv6_text :: "nat list \<Rightarrow> string" where
  "ipv6_text gs =
     (case zero_run gs of
        None \<Rightarrow> join '':'' (map hex_text gs)
      | Some (start, len) \<Rightarrow>
          join '':'' (map hex_text (take start gs)) @ ''::'' @ join '':'' (map hex_text (drop (start + len) gs)))"

definition ip_String :: "ip \<Rightarrow> string" where
  "ip_String a = (case To4 a of Some octets \<Rightarrow> dotted octets | None \<Rightarrow> ipv6_text (groups a))"

section \<open>Networks\<close>

record ipNet =
  net_IP :: ip
  net_Mask :: "byte list"

text \<open>\<open>net.CIDRMask\<close>.\<close>

fun CIDRMask :: "nat \<Rightarrow> nat \<Rightarrow> byte list" where
  "CIDRMask n 0 = []"
| "CIDRMask n (Suc len) =
     (if n \<ge> 8 then 255 # CIDRMask (n - 8) len else of_nat (256 - 2 ^ (8 - n)) # CIDRMask 0 len)"

definition and_bytes :: "byte list \<Rightarrow> byte list \<Rightarrow> byte list" where
  "and_bytes = map2 and"

definition decimal :: "string \<Rightarrow> nat option" where
  "decimal s =
     (if s = [] \<or> \<not> list_all is_digit s \<or> digits_value 0 s \<ge> 16777215 then None else Some (nat (digits_value 0 s)))"

definition ParseCIDR :: "string \<Rightarrow> ipNet option" where
  "ParseCIDR s =
     (let addr = takeWhile (\<lambda>c. c \<noteq> CHR ''/'') s;
          bits = drop (Suc (length addr)) s
      in if CHR ''/'' \<notin> set s then None
         else
           (case (ParseIP addr, decimal bits) of
              (Some a, Some n) \<Rightarrow>
                (let v4 = (ip_form addr = Some CHR ''.'')
                 in if n > (if v4 then 32 else 128) then None
                    else if v4 then Some \<lparr>net_IP = and_bytes (drop 12 a) (CIDRMask n 4), net_Mask = CIDRMask n 4\<rparr>
                    else Some \<lparr>net_IP = and_bytes a (CIDRMask n 16), net_Mask = CIDRMask n 16\<rparr>)
            | _ \<Rightarrow> None))"

text \<open>\<open>IPNet.Contains\<close> with \<open>networkNumberAndMask\<close>.\<close>

definition net_Contains :: "ipNet \<Rightarrow> ip \<Rightarrow> bool" where
  "net_Contains n a =
     (let number = (case To4 (net_IP n) of Some four \<Rightarrow> four | None \<Rightarrow> net_IP n);
          mask_bytes = (if length (net_Mask n) = 16 \<and> length number = 4 then drop 12 (net_Mask n) else net_Mask n);
          addr = (case To4 a of Some four \<Rightarrow> four | None \<Rightarrow> a)
      in length mask_bytes = length number \<and> length addr = length number \<and>
         and_bytes number mask_bytes = and_bytes addr mask_bytes)"

section \<open>Host and port\<close>

definition index_byte :: "char \<Rightarrow> string \<Rightarrow> nat option" where
  "index_byte c s = (if c \<in> set s then Some (length (takeWhile (\<lambda>d. d \<noteq> c) s)) else None)"

definition SplitHostPort :: "string \<Rightarrow> (string \<times> string) option" where
  "SplitHostPort hostport =
     (case lastIndex hostport '':'' of
        None \<Rightarrow> None
      | Some i \<Rightarrow>
          if hd hostport = CHR ''['' then
            (case index_byte CHR '']'' hostport of
               None \<Rightarrow> None
             | Some close \<Rightarrow>
                 if close + 1 \<noteq> i then None
                 else if CHR ''['' \<in> set (drop 1 hostport) \<or> CHR '']'' \<in> set (drop (close + 1) hostport) then None
                 else Some (slice hostport 1 close, drop (i + 1) hostport))
          else if CHR '':'' \<in> set (take i hostport) then None
          else if CHR ''['' \<in> set hostport \<or> CHR '']'' \<in> set hostport then None
          else Some (take i hostport, drop (i + 1) hostport))"

section \<open>Printed addresses parse back\<close>

lemma byte_less: "unat (b :: byte) < 256"
  using unsigned_less [of b, where ?'a = nat] by simp

lemma digit_split: "n div (k * m) * m + n div k mod m = (n div k :: nat)"
  by (simp add: div_mult2_eq)

lemma digit_char: "d < 10 \<Longrightarrow> is_digit (char_of (48 + d)) \<and> (of_char (char_of (48 + d)) :: nat) = 48 + d"
  by (simp add: is_digit_def char_between_def of_char_char_of_small)

lemma itoa_octet:
  "n < 256 \<Longrightarrow> itoa n =
     (if n < 10 then [char_of (48 + n)]
      else if n < 100 then [char_of (48 + n div 10), char_of (48 + n mod 10)]
      else [char_of (48 + n div 100), char_of (48 + n div 10 mod 10), char_of (48 + n mod 10)])"
  by (simp add: itoa.simps [of n] itoa.simps [of "n div 10"] itoa.simps [of "n div 100"] div_mult2_eq [symmetric]
      div_less_iff_less_mult)

lemma ipv4_loop_digit:
  "d < 10 \<Longrightarrow> val * 10 + d \<le> 255 \<Longrightarrow> \<not> (digits = 1 \<and> val = 0) \<Longrightarrow>
   ipv4_loop prev val digits octets (char_of (48 + d) # s) =
     ipv4_loop (Some (char_of (48 + d))) (val * 10 + d) (Suc digits) octets s"
  using digit_char [of d] by (auto simp: Let_def)

lemma ipv4_loop_octet:
  assumes "n < 256"
  shows "\<exists>c digits. is_digit c \<and> ipv4_loop prev 0 0 octets (itoa n @ rest) = ipv4_loop (Some c) n digits octets rest"
proof -
  have d: "n div 100 < 10" "n div 10 mod 10 < 10" "n mod 10 < 10" using assms by auto
  have v: "n div 100 * 10 + n div 10 mod 10 = n div 10" using digit_split [of n 10 10] by simp
  have w: "n div 10 * 10 + n mod 10 = n" using digit_split [of n 1 10] by simp
  have c: "is_digit (char_of (48 + n mod 10))" using digit_char [OF d(3)] by simp
  consider "n < 10" | "10 \<le> n" "n < 100" | "100 \<le> n" by linarith
  then show ?thesis
  proof cases
    case 1
    then have "itoa n = [char_of (48 + n)]" by (simp add: itoa.simps)
    moreover have "ipv4_loop prev 0 0 octets (char_of (48 + n) # rest) = ipv4_loop (Some (char_of (48 + n))) n 1 octets rest"
      using ipv4_loop_digit [of n 0 0 prev octets rest] 1 assms by (simp del: ipv4_loop.simps)
    moreover have "is_digit (char_of (48 + n))" using digit_char [OF 1] by simp
    ultimately show ?thesis by (metis append_Cons append_Nil)
  next
    case 2
    then have i: "itoa n = [char_of (48 + n div 10), char_of (48 + n mod 10)]" using assms by (simp add: itoa_octet)
    have h: "n div 10 < 10" "n div 10 \<noteq> 0" using 2 by auto
    have "ipv4_loop prev 0 0 octets (itoa n @ rest) =
      ipv4_loop (Some (char_of (48 + n div 10))) (n div 10) 1 octets (char_of (48 + n mod 10) # rest)"
      using ipv4_loop_digit [of "n div 10" 0 0 prev octets] h i by (simp del: ipv4_loop.simps)
    also have "\<dots> = ipv4_loop (Some (char_of (48 + n mod 10))) n 2 octets rest"
      using ipv4_loop_digit [of "n mod 10" "n div 10" 1] h w d(3) assms by (simp del: ipv4_loop.simps add: numeral_2_eq_2)
    finally show ?thesis using c by blast
  next
    case 3
    then have i: "itoa n = [char_of (48 + n div 100), char_of (48 + n div 10 mod 10), char_of (48 + n mod 10)]"
      using assms by (simp add: itoa_octet)
    have h: "n div 100 \<noteq> 0" "n div 10 \<noteq> 0" "n div 10 \<le> 255" using 3 assms by auto
    have "ipv4_loop prev 0 0 octets (itoa n @ rest) =
      ipv4_loop (Some (char_of (48 + n div 100))) (n div 100) 1 octets (char_of (48 + n div 10 mod 10) # char_of (48 + n mod 10) # rest)"
      using ipv4_loop_digit [of "n div 100" 0 0 prev octets] d(1) i by (simp del: ipv4_loop.simps)
    also have "\<dots> = ipv4_loop (Some (char_of (48 + n div 10 mod 10))) (n div 10) 2 octets (char_of (48 + n mod 10) # rest)"
      using ipv4_loop_digit [of "n div 10 mod 10" "n div 100" 1] h v d(2) by (simp del: ipv4_loop.simps add: numeral_2_eq_2)
    also have "\<dots> = ipv4_loop (Some (char_of (48 + n mod 10))) n 3 octets rest"
      using ipv4_loop_digit [of "n mod 10" "n div 10" 2] h w d(3) assms by (simp del: ipv4_loop.simps add: numeral_3_eq_3)
    finally show ?thesis using c by blast
  qed
qed

lemma parse_dotted:
  assumes "length octets = 4"
  shows "parseIPv4Fields (dotted octets) = Some octets"
proof -
  obtain a b c d where o: "octets = [a, b, c, d]"
    using assms by (auto simp: length_Suc_conv numeral_eq_Suc)
  have lt: "unat x < 256" for x :: byte by (rule byte_less)
  have ne: "itoa n \<noteq> []" for n by (simp add: itoa.simps [of n])
  have dot: "\<not> is_digit CHR ''.''" by code_simp
  have step: "\<exists>c digits. is_digit c \<and> ipv4_loop prev 0 0 fs (itoa (unat x) @ rest) = ipv4_loop (Some c) (unat x) digits fs rest"
    for prev fs and x :: byte and rest by (rule ipv4_loop_octet [OF lt])
  have sep: "length fs < 3 \<Longrightarrow> is_digit c \<Longrightarrow> rest \<noteq> [] \<Longrightarrow>
      ipv4_loop (Some c) n k fs (CHR ''.'' # rest) = ipv4_loop (Some CHR ''.'') 0 0 (fs @ [of_nat n]) rest" for fs c n k rest
    using dot by auto
  have part: "length fs < 3 \<Longrightarrow> rest \<noteq> [] \<Longrightarrow>
      ipv4_loop prev 0 0 fs (itoa (unat x) @ CHR ''.'' # rest) = ipv4_loop (Some CHR ''.'') 0 0 (fs @ [x]) rest" for fs prev rest x
    using step [of prev fs x "CHR ''.'' # rest"] sep [of fs _ rest "unat x"] by (auto simp del: ipv4_loop.simps)
  have end_part: "length fs = 3 \<Longrightarrow> ipv4_loop prev 0 0 fs (itoa (unat x)) = Some (fs @ [x])" for fs prev x
    using step [of prev fs x "[]"] by auto
  show ?thesis
    unfolding parseIPv4Fields_def dotted_def o by (simp add: part end_part ne del: ipv4_loop.simps)
qed

lemma hex_value_char: "d < 16 \<Longrightarrow> hex_value (hex_char d) = Some d"
  by (auto simp: hex_value_def hex_char_def is_digit_def char_between_def of_char_char_of_small)

lemma hex_text_group:
  "n < 65536 \<Longrightarrow> hex_text n =
     (if n < 16 then [hex_char n]
      else if n < 256 then [hex_char (n div 16), hex_char (n mod 16)]
      else if n < 4096 then [hex_char (n div 256), hex_char (n div 16 mod 16), hex_char (n mod 16)]
      else [hex_char (n div 4096), hex_char (n div 256 mod 16), hex_char (n div 16 mod 16), hex_char (n mod 16)])"
  by (simp add: hex_text.simps [of n] hex_text.simps [of "n div 16"] hex_text.simps [of "n div 256"]
      hex_text.simps [of "n div 4096"] div_mult2_eq [symmetric] div_less_iff_less_mult)

lemma hex_group_end: "rest = [] \<or> hex_value (hd rest) = None \<Longrightarrow> hex_group acc off rest = Some (acc, off, rest)"
  by (cases rest) auto

lemma hex_group_digit: "d < 16 \<Longrightarrow> off \<le> 3 \<Longrightarrow> hex_group acc off (hex_char d # s) = hex_group (acc * 16 + d) (Suc off) s"
  by (simp add: hex_value_char)

lemma hex_group_text:
  assumes "n < 65536" and "rest = [] \<or> hex_value (hd rest) = None"
  shows "\<exists>off. 0 < off \<and> hex_group 0 0 (hex_text n @ rest) = Some (n, off, rest)"
proof -
  have d: "n div 4096 < 16" "n div 256 mod 16 < 16" "n div 16 mod 16 < 16" "n mod 16 < 16" using assms(1) by auto
  have v: "n div 16 * 16 + n mod 16 = n" "n div 256 * 16 + n div 16 mod 16 = n div 16" "n div 4096 * 16 + n div 256 mod 16 = n div 256"
    using digit_split [of n 1 16] digit_split [of n 16 16] digit_split [of n 256 16] by simp_all
  note step = hex_group_digit hex_group_end [OF assms(2)] v
  consider "n < 16" | "16 \<le> n" "n < 256" | "256 \<le> n" "n < 4096" | "4096 \<le> n" by linarith
  then show ?thesis
  proof cases
    case 1
    then show ?thesis using assms(1) by (simp add: hex_text_group step del: hex_group.simps)
  next
    case 2
    then have "n div 16 < 16" by auto
    with 2 show ?thesis using assms(1) d by (simp add: hex_text_group step del: hex_group.simps)
  next
    case 3
    then have "n div 256 < 16" by auto
    with 3 show ?thesis using assms(1) d by (simp add: hex_text_group step del: hex_group.simps)
  next
    case 4
    then show ?thesis using assms(1) d by (simp add: hex_text_group step del: hex_group.simps)
  qed
qed

definition bytes_of :: "nat list \<Rightarrow> byte list" where
  "bytes_of gs = concat (map (\<lambda>g. [of_nat (g div 256), of_nat (g mod 256)]) gs)"

lemma bytes_of_simps [simp]:
  "bytes_of [] = []" "bytes_of (g # gs) = of_nat (g div 256) # of_nat (g mod 256) # bytes_of gs"
  "bytes_of (gs @ hs) = bytes_of gs @ bytes_of hs"
  by (simp_all add: bytes_of_def)

lemma length_bytes_of [simp]: "length (bytes_of gs) = 2 * length gs"
  by (induction gs) simp_all

lemma bytes_of_groups: "even (length a) \<Longrightarrow> bytes_of (groups a) = a"
proof (induction a rule: groups.induct)
  case (1 a b rest)
  have "unat b < 256" by (rule byte_less)
  with 1 show ?case by simp
qed auto

lemma length_groups: "length (groups a) = length a div 2"
  by (induction a rule: groups.induct) auto

lemma groups_less: "g \<in> set (groups a) \<Longrightarrow> g < 65536"
proof (induction a rule: groups.induct)
  case (1 a b rest)
  have "unat a < 256" "unat b < 256" by (rule byte_less)+
  with 1 show ?case by auto
qed auto

lemma colon_not_hex: "hex_value CHR '':'' = None" by code_simp

lemma hex_text_ne: "hex_text n \<noteq> []" by (simp add: hex_text.simps [of n])

lemma hex_char_not: "d < 16 \<Longrightarrow> hex_char d \<noteq> CHR '':'' \<and> hex_char d \<noteq> CHR ''.'' \<and> hex_char d \<noteq> CHR ''%''"
  using hex_value_char [of d] by (auto simp: hex_value_def is_digit_def char_between_def)

lemma hex_text_chars: "c \<in> set (hex_text n) \<Longrightarrow> c \<noteq> CHR '':'' \<and> c \<noteq> CHR ''.'' \<and> c \<noteq> CHR ''%''"
  using hex_char_not
  by (induction n rule: hex_text.induct) (subst (asm) (2) hex_text.simps, auto split: if_split_asm)

lemma hd_hex: "hd (hex_text n @ rest) \<noteq> CHR '':''"
  using hex_text_chars [of "hd (hex_text n)" n] hex_text_ne [of n] by (simp add: hd_append)

lemma ipv6_loop_group:
  assumes "g < 65536" and "length acc < 16"
  shows "ipv6_loop acc e (hex_text g) = Some (acc @ bytes_of [g], e, [])"
proof -
  obtain off where "0 < off" "hex_group 0 0 (hex_text g) = Some (g, off, [])"
    using hex_group_text [OF assms(1), of "[]"] by auto
  with assms(2) show ?thesis by (subst ipv6_loop.simps) simp
qed

lemma ipv6_loop_colon:
  assumes "g < 65536" and "length acc < 16" and "t \<noteq> []" and "hd t \<noteq> CHR '':''"
  shows "ipv6_loop acc e (hex_text g @ CHR '':'' # t) = ipv6_loop (acc @ bytes_of [g]) e t"
proof -
  obtain off where "0 < off" "hex_group 0 0 (hex_text g @ CHR '':'' # t) = Some (g, off, CHR '':'' # t)"
    using hex_group_text [OF assms(1), of "CHR '':'' # t"] colon_not_hex by auto
  with assms show ?thesis by (subst ipv6_loop.simps) (simp add: Let_def)
qed

lemma ipv6_loop_ellipsis:
  assumes "g < 65536" and "length acc < 16"
  shows "ipv6_loop acc None (hex_text g @ CHR '':'' # CHR '':'' # t) =
    (if t = [] then Some (acc @ bytes_of [g], Some (length acc + 2), [])
     else ipv6_loop (acc @ bytes_of [g]) (Some (length acc + 2)) t)"
proof -
  obtain off where "0 < off" "hex_group 0 0 (hex_text g @ CHR '':'' # CHR '':'' # t) = Some (g, off, CHR '':'' # CHR '':'' # t)"
    using hex_group_text [OF assms(1), of "CHR '':'' # CHR '':'' # t"] colon_not_hex by auto
  with assms show ?thesis by (subst ipv6_loop.simps) (simp add: Let_def)
qed

lemma join_hex_ne: "gs \<noteq> [] \<Longrightarrow> join '':'' (map hex_text gs) \<noteq> []"
  by (cases gs rule: list.exhaust; cases "tl gs") (auto simp: hex_text_ne)

lemma join_hex_hd: "gs \<noteq> [] \<Longrightarrow> hd (join '':'' (map hex_text gs) @ rest) \<noteq> CHR '':''"
  by (cases gs; cases "tl gs") (auto simp: hd_hex)

lemma ipv6_loop_join:
  "gs \<noteq> [] \<Longrightarrow> \<forall>g\<in>set gs. g < 65536 \<Longrightarrow> length acc + 2 * length gs \<le> 16 \<Longrightarrow>
   ipv6_loop acc e (join '':'' (map hex_text gs)) = Some (acc @ bytes_of gs, e, [])"
proof (induction gs arbitrary: acc)
  case (Cons g gs)
  show ?case
  proof (cases gs)
    case Nil
    with Cons.prems show ?thesis by (simp add: ipv6_loop_group)
  next
    case (Cons h hs)
    then have "gs \<noteq> []" by simp
    with Cons Cons.IH [of "acc @ bytes_of [g]"] Cons.prems join_hex_ne [OF \<open>gs \<noteq> []\<close>] join_hex_hd [OF \<open>gs \<noteq> []\<close>, of "[]"] show ?thesis
      by (simp add: ipv6_loop_colon)
  qed
qed simp

lemma ipv6_loop_join_ellipsis:
  "gs \<noteq> [] \<Longrightarrow> \<forall>g\<in>set gs. g < 65536 \<Longrightarrow> length acc + 2 * length gs \<le> 16 \<Longrightarrow>
   ipv6_loop acc None (join '':'' (map hex_text gs) @ CHR '':'' # CHR '':'' # t) =
    (if t = [] then Some (acc @ bytes_of gs, Some (length acc + 2 * length gs), [])
     else ipv6_loop (acc @ bytes_of gs) (Some (length acc + 2 * length gs)) t)"
proof (induction gs arbitrary: acc)
  case (Cons g gs)
  show ?case
  proof (cases gs)
    case Nil
    with Cons.prems show ?thesis by (simp add: ipv6_loop_ellipsis)
  next
    case (Cons h hs)
    then have "gs \<noteq> []" by simp
    with Cons Cons.IH [of "acc @ bytes_of [g]"] Cons.prems join_hex_ne [OF \<open>gs \<noteq> []\<close>]
      join_hex_hd [OF \<open>gs \<noteq> []\<close>, of "CHR '':'' # CHR '':'' # t"] show ?thesis
      by (simp add: ipv6_loop_colon)
  qed
qed simp

lemma takeWhile_zero: "takeWhile (\<lambda>g. g = (0::nat)) gs = replicate (length (takeWhile (\<lambda>g. g = 0) gs)) 0"
  by (induction gs) auto

lemma run_at_zeros: "take (run_at gs i) (drop i gs) = replicate (run_at gs i) 0"
  unfolding run_at_def by (metis takeWhile_eq_take takeWhile_zero)

lemma run_at_le: "i \<le> length gs \<Longrightarrow> i + run_at gs i \<le> length gs"
  using length_takeWhile_le [of "\<lambda>g. g = 0" "drop i gs"] by (simp add: run_at_def)

lemma zero_run_Some:
  assumes "zero_run gs = Some (start, len)"
  shows "2 \<le> len \<and> start + len \<le> length gs \<and> len = run_at gs start"
proof -
  have step: "longer_run gs best i = Some (start, len) \<Longrightarrow> best = Some (start, len) \<or> start = i \<and> len = run_at gs i \<and> 2 \<le> len"
    for best i by (auto simp: longer_run_def Let_def split: if_split_asm)
  have "foldl (longer_run gs) None is = Some (start, len) \<Longrightarrow> start \<in> set is \<and> len = run_at gs start \<and> 2 \<le> len" for "is"
    by (induction "is" rule: rev_induct) (auto dest!: step)
  from this [of "[0..<length gs]"] assms show ?thesis using run_at_le [of start gs] by (auto simp: zero_run_def)
qed

lemma zero_run_split:
  assumes "zero_run gs = Some (start, len)"
  shows "gs = take start gs @ replicate len 0 @ drop (start + len) gs"
proof -
  have "take len (drop start gs) = replicate len 0" using zero_run_Some [OF assms] run_at_zeros by metis
  then show ?thesis by (metis append_take_drop_id drop_drop add.commute)
qed


lemma parse_ipv6_text:
  assumes gs: "length gs = 8" "\<forall>g\<in>set gs. g < 65536"
  shows "parseIPv6 (ipv6_text gs) = Some (bytes_of gs)"
proof (cases "zero_run gs")
  case None
  have ne: "gs \<noteq> []" using gs by auto
  have "\<not> hasPrefix (join '':'' (map hex_text gs)) ''::''"
    using join_hex_hd [OF ne, of "[]"] join_hex_ne [OF ne] by (cases "join '':'' (map hex_text gs)") auto
  with None gs ipv6_loop_join [OF ne gs(2), of "[]" None] show ?thesis
    by (simp add: parseIPv6_def ipv6_text_def Let_def)
next
  case (Some r)
  obtain start len where r: "zero_run gs = Some (start, len)" using Some by (cases r) auto
  define p where "p = take start gs"
  define q where "q = drop (start + len) gs"
  have split: "gs = p @ replicate len 0 @ q" unfolding p_def q_def by (rule zero_run_split [OF r])
  have len: "2 \<le> len" "start + len \<le> 8" using zero_run_Some [OF r] gs(1) by auto
  have lp: "length p = start" and lq: "length q = 8 - (start + len)" using gs(1) len by (simp_all add: p_def q_def)
  have lt: "\<forall>g\<in>set p. g < 65536" "\<forall>g\<in>set q. g < 65536" using gs(2) split by (metis Un_iff set_append)+
  have printed: "ipv6_text gs = join '':'' (map hex_text p) @ ''::'' @ join '':'' (map hex_text q)"
    by (simp add: ipv6_text_def r p_def q_def)
  have zeros: "bytes_of (replicate k 0) = replicate (2 * k) 0" for k by (induction k) simp_all
  have whole: "bytes_of gs = bytes_of p @ replicate (2 * len) 0 @ bytes_of q" by (subst split) (simp add: zeros)
  have q_loop: "q \<noteq> [] \<Longrightarrow> 2 * start = length acc \<Longrightarrow> ipv6_loop acc e (join '':'' (map hex_text q)) = Some (acc @ bytes_of q, e, [])" for acc e
    using ipv6_loop_join [of q acc e] lt(2) lq len by auto
  have fill: "2 * len = 16 - length (bytes_of p @ bytes_of q)" using lp lq len by simp
  show ?thesis
  proof (cases "p = []")
    case True
    show ?thesis
    proof (cases "q = []")
      case True
      with \<open>p = []\<close> whole fill show ?thesis by (simp add: printed parseIPv6_def Let_def)
    next
      case False
      with True lp q_loop [of "[]" "Some 0"] join_hex_ne [OF False] whole fill show ?thesis
        using lq len by (simp add: printed parseIPv6_def Let_def)
    qed
  next
    case False
    let ?t = "join '':'' (map hex_text q)"
    have np: "\<not> hasPrefix (ipv6_text gs) ''::''"
      using join_hex_hd [OF False, of "[]"] join_hex_ne [OF False] by (cases "join '':'' (map hex_text p)") (auto simp: printed)
    have loop: "ipv6_loop [] None (ipv6_text gs) = Some (bytes_of p @ bytes_of q, Some (2 * start), [])"
    proof (cases "q = []")
      case True
      with ipv6_loop_join_ellipsis [OF False lt(1), of "[]" ?t] lp len show ?thesis by (simp add: printed)
    next
      case qne: False
      with ipv6_loop_join_ellipsis [OF False lt(1), of "[]" ?t] lp len q_loop [of "bytes_of p"] join_hex_ne [OF qne] show ?thesis
        by (simp add: printed)
    qed
    have "length (bytes_of p @ bytes_of q) < 16" using lp lq len by simp
    with np loop whole fill lp show ?thesis by (simp add: parseIPv6_def Let_def)
  qed
qed

lemma join_chars: "c \<in> set (join sep ss) \<Longrightarrow> c \<in> set sep \<or> (\<exists>s\<in>set ss. c \<in> set s)"
  by (induction sep ss rule: join.induct) auto

lemma ipv6_text_form:
  assumes "length gs = 8"
  shows "CHR ''%'' \<notin> set (ipv6_text gs)" and "ip_form (ipv6_text gs) = Some CHR '':''"
proof -
  have chars: "c \<in> set (ipv6_text gs) \<Longrightarrow> c \<noteq> CHR ''.'' \<and> c \<noteq> CHR ''%''" for c
    using hex_text_chars by (fastforce simp: ipv6_text_def split: option.splits prod.splits dest!: join_chars)
  then show "CHR ''%'' \<notin> set (ipv6_text gs)" by blast
  have "CHR '':'' \<in> set (join '':'' (map hex_text gs))"
    using assms by (cases gs; cases "tl gs") auto
  then have "CHR '':'' \<in> set (ipv6_text gs)" by (auto simp: ipv6_text_def split: option.splits)
  then have "ip_form (ipv6_text gs) \<noteq> None" by (auto simp: ip_form_def find_None_iff)
  then obtain c where c: "ip_form (ipv6_text gs) = Some c" by blast
  then have "c \<in> set (ipv6_text gs)" "c = CHR ''.'' \<or> c = CHR '':'' \<or> c = CHR ''%''"
    using find_SomeD by (fastforce simp: ip_form_def)+
  with chars c show "ip_form (ipv6_text gs) = Some CHR '':''" by blast
qed

lemma itoa_digits: "c \<in> set (itoa n) \<Longrightarrow> is_digit c"
proof (induction n rule: itoa.induct)
  case (1 n)
  have "is_digit (char_of (48 + n mod 10))" using digit_char [of "n mod 10"] by simp
  with 1 digit_char [of n] show ?case by (subst (asm) itoa.simps) (auto split: if_split_asm)
qed

lemma dotted_form:
  assumes "length octets = 4"
  shows "CHR ''%'' \<notin> set (dotted octets)" and "ip_form (dotted octets) = Some CHR ''.''"
proof -
  have digits: "\<not> is_digit CHR ''%''" "\<not> is_digit CHR '':''" by code_simp+
  have chars: "c \<in> set (dotted octets) \<Longrightarrow> c \<noteq> CHR '':'' \<and> c \<noteq> CHR ''%''" for c
    using digits itoa_digits by (fastforce simp: dotted_def dest!: join_chars)
  then show "CHR ''%'' \<notin> set (dotted octets)" by blast
  have "CHR ''.'' \<in> set (dotted octets)"
    using assms by (cases octets; cases "tl octets") (auto simp: dotted_def)
  then have "ip_form (dotted octets) \<noteq> None" by (auto simp: ip_form_def find_None_iff)
  then obtain c where c: "ip_form (dotted octets) = Some c" by blast
  then have "c \<in> set (dotted octets)" "c = CHR ''.'' \<or> c = CHR '':'' \<or> c = CHR ''%''"
    using find_SomeD by (fastforce simp: ip_form_def)+
  with chars c show "ip_form (dotted octets) = Some CHR ''.''" by blast
qed

lemma ParseIP_String:
  assumes "length a = 16"
  shows "ParseIP (ip_String a) = Some a"
proof (cases "take 12 a = v4InV6Prefix")
  case True
  have four: "length (drop 12 a) = 4" using assms by simp
  have "v4InV6Prefix @ drop 12 a = a" using True by (metis append_take_drop_id)
  then show ?thesis
    using assms True dotted_form [OF four] parse_dotted [OF four] by (simp add: ParseIP_def ip_String_def To4_def)
next
  case False
  have gs: "length (groups a) = 8" using assms by (simp add: length_groups)
  then show ?thesis
    using assms False ipv6_text_form [OF gs] parse_ipv6_text [OF gs] groups_less [of _ a] bytes_of_groups [of a]
    by (simp add: ParseIP_def ip_String_def To4_def)
qed

lemma ipv4_loop_length: "ipv4_loop prev val digits octets s = Some out \<Longrightarrow> length octets \<le> 3 \<Longrightarrow> length out = 4"
  by (induction prev val digits octets s rule: ipv4_loop.induct) (auto simp: Let_def split: if_split_asm)

lemma parseIPv4Fields_length: "parseIPv4Fields s = Some octets \<Longrightarrow> length octets = 4"
  unfolding parseIPv4Fields_def by (rule ipv4_loop_length) auto

lemma ipv6_loop_length:
  "ipv6_loop acc e s = Some (out, e', rest) \<Longrightarrow> length acc \<le> 16 \<Longrightarrow> even (length acc) \<Longrightarrow> length out \<le> 16"
proof (induction acc e s rule: ipv6_loop.induct)
  case (1 acc e s)
  show ?case
    using 1
    by (subst (asm) (3) ipv6_loop.simps)
       (auto simp: Let_def dest: parseIPv4Fields_length split: if_split_asm option.split_asm list.split_asm prod.split_asm; presburger?)
qed

lemma ParseIP_length: "ParseIP s = Some a \<Longrightarrow> length a = 16"
  using ipv6_loop_length [of "[]"]
  by (fastforce simp: ParseIP_def parseIPv6_def v4InV6Prefix_def Let_def dest: parseIPv4Fields_length
      split: if_split_asm option.split_asm prod.split_asm)

end
