(* ===== verification/Web_Address.thy ===== *)
theory Web_Address
  imports Go_Net
begin

text \<open>
  Client addresses in the web gateway, \<open>internal/webgateway/account_auth.go\<close>: canonical forms, network lists,
  the walk over the forwarding headers and the test for a secure transport. A request carries the
  fields of \<open>http.Request\<close> that the gateway reads; a missing header is the empty text.
\<close>

section \<open>Addresses and networks\<close>

record request =
  rq_RemoteAddr :: string
  rq_TLS :: bool
  rq_Cookie :: "string option"
  rq_Authorization :: string
  rq_ForwardedFor :: string
  rq_RealIP :: string
  rq_ForwardedProto :: string
  rq_UserAgent :: string

definition trim_brackets :: "string \<Rightarrow> string" where
  "trim_brackets s =
     rev (dropWhile (\<lambda>c. c = CHR ''['' \<or> c = CHR '']'') (rev (dropWhile (\<lambda>c. c = CHR ''['' \<or> c = CHR '']'') s)))"

definition hostOnly :: "string \<Rightarrow> string" where
  "hostOnly raw = (case SplitHostPort (trimSpace raw) of Some (host, port) \<Rightarrow> host | None \<Rightarrow> trim_brackets (trimSpace raw))"

definition canonicalIP :: "string \<Rightarrow> string" where
  "canonicalIP raw = (case ParseIP (trimSpace raw) of None \<Rightarrow> [] | Some a \<Rightarrow> ip_String a)"

fun parseCIDRList :: "string list \<Rightarrow> string + ipNet list" where
  "parseCIDRList [] = Inr []"
| "parseCIDRList (raw # rest) =
     (let text' = trimSpace raw
      in if text' = [] then parseCIDRList rest
         else
           (let cidr = (case ParseIP text' of
                          None \<Rightarrow> text'
                        | Some a \<Rightarrow> text' @ ''/'' @ (if To4 a \<noteq> None then ''32'' else ''128''))
            in case ParseCIDR cidr of
                 None \<Rightarrow> Inl cidr
               | Some network \<Rightarrow>
                   (case parseCIDRList rest of Inl e \<Rightarrow> Inl e | Inr networks \<Rightarrow> Inr (network # networks))))"

definition validCIDR :: "string \<Rightarrow> bool" where
  "validCIDR s \<longleftrightarrow> trimSpace s \<noteq> [] \<and> (case parseCIDRList [s] of Inl e \<Rightarrow> False | Inr networks \<Rightarrow> True)"

definition ipAllowed :: "string \<Rightarrow> ipNet list \<Rightarrow> bool" where
  "ipAllowed rawIP networks =
     (if networks = [] then True
      else (case ParseIP (canonicalIP rawIP) of
              None \<Rightarrow> False
            | Some a \<Rightarrow> list_ex (\<lambda>network. net_Contains network a) networks))"

definition sameCanonicalIP :: "string \<Rightarrow> string \<Rightarrow> bool" where
  "sameCanonicalIP left right =
     (case (ParseIP (canonicalIP left), ParseIP (canonicalIP right)) of
        (Some l, Some r) \<Rightarrow> l = r
      | _ \<Rightarrow> False)"

section \<open>The client of a request\<close>

text \<open>The walk over \<open>X-Forwarded-For\<close> from its last entry: \<open>Inl\<close> a client outside the trusted proxies, \<open>Inr\<close>
  the nearest address when all entries are trusted.\<close>

fun forwarded_loop :: "ipNet list \<Rightarrow> string list \<Rightarrow> string \<Rightarrow> string + string" where
  "forwarded_loop proxies [] remote = Inr remote"
| "forwarded_loop proxies (entry # rest) remote =
     (let candidate = canonicalIP (trimSpace entry)
      in if candidate = [] then forwarded_loop proxies rest remote
         else if \<not> ipAllowed candidate proxies then Inl candidate
         else forwarded_loop proxies rest candidate)"

definition remote_address :: "request \<Rightarrow> string" where
  "remote_address request = canonicalIP (hostOnly (rq_RemoteAddr request))"

definition clientIP :: "ipNet list \<Rightarrow> request \<Rightarrow> string" where
  "clientIP proxies request =
     (let remote = (if remote_address request = [] then ''0.0.0.0'' else remote_address request)
      in if \<not> ipAllowed remote proxies \<or> proxies = [] then remote
         else
           (case forwarded_loop proxies (rev (splitOn (CHR '','') (rq_ForwardedFor request))) remote of
              Inl candidate \<Rightarrow> candidate
            | Inr nearest \<Rightarrow>
                if canonicalIP (rq_RealIP request) \<noteq> [] then canonicalIP (rq_RealIP request) else nearest))"

definition secureRequest :: "ipNet list \<Rightarrow> request \<Rightarrow> bool" where
  "secureRequest proxies request \<longleftrightarrow>
     rq_TLS request \<or>
     remote_address request \<noteq> [] \<and> proxies \<noteq> [] \<and> ipAllowed (remote_address request) proxies \<and>
       equalFold (trimSpace (rq_ForwardedProto request)) ''https''"

definition cleanUserAgent :: "request \<Rightarrow> string" where
  "cleanUserAgent request = take 512 (trimSpace (rq_UserAgent request))"

definition accountTokenFromRequest :: "request \<Rightarrow> string" where
  "accountTokenFromRequest request =
     (case rq_Cookie request of
        Some cookie \<Rightarrow> trimSpace cookie
      | None \<Rightarrow>
          (let header = trimSpace (rq_Authorization request)
           in if hasPrefix (toLower header) ''bearer '' then trimSpace (drop 7 header) else []))"

section \<open>Facts\<close>

lemma itoa_solid: "list_all solid (itoa n)"
proof -
  have "is_digit c \<Longrightarrow> solid c" for c by (auto simp: is_digit_def char_between_def solid_def space1_def)
  then show ?thesis using itoa_digits by (auto simp: list_all_iff)
qed

lemma hex_char_solid: "d < 16 \<Longrightarrow> solid (hex_char d)"
  using hex_value_char [of d]
  by (auto simp: hex_value_def is_digit_def char_between_def solid_def space1_def split: if_split_asm)

lemma hex_text_solid: "list_all solid (hex_text n)"
proof (induction n rule: hex_text.induct)
  case (1 n)
  then show ?case by (subst hex_text.simps) (auto simp: hex_char_solid)
qed

lemma join_solid: "list_all solid sep \<Longrightarrow> \<forall>s\<in>set ss. list_all solid s \<Longrightarrow> list_all solid (join sep ss)"
  by (induction sep ss rule: join.induct) auto

lemma solid_separators: "list_all solid ''.''" "list_all solid '':''"
  by code_simp+

lemma ip_String_solid: "list_all solid (ip_String a)"
  using solid_separators
  by (auto simp: ip_String_def dotted_def ipv6_text_def itoa_solid hex_text_solid intro!: join_solid split: option.splits)

lemma ip_String_ne: "length a = 16 \<Longrightarrow> ip_String a \<noteq> []"
  using ParseIP_String [of a] by (auto simp: ParseIP_def ip_form_def)

lemma canonicalIP_Nil_iff: "canonicalIP raw = [] \<longleftrightarrow> ParseIP (trimSpace raw) = None"
  by (auto simp: canonicalIP_def ip_String_ne ParseIP_length split: option.splits)

lemma trimSpace_canonicalIP [simp]: "trimSpace (canonicalIP raw) = canonicalIP raw"
  by (auto simp: canonicalIP_def trimSpace_solid ip_String_solid split: option.splits)

lemma ParseIP_Nil [simp]: "ParseIP [] = None"
  by (simp add: ParseIP_def ip_form_def)

lemma ParseIP_canonicalIP [simp]: "ParseIP (canonicalIP raw) = ParseIP (trimSpace raw)"
  by (auto simp: canonicalIP_def ParseIP_String ParseIP_length split: option.splits)

lemma canonicalIP_idem [simp]: "canonicalIP (canonicalIP raw) = canonicalIP raw"
  by (cases "ParseIP (trimSpace raw)")
     (simp_all add: canonicalIP_def ParseIP_String ParseIP_length trimSpace_solid ip_String_solid)

lemma canonicalIP_trimSpace [simp]: "canonicalIP (trimSpace raw) = canonicalIP raw"
  by (simp add: canonicalIP_def)

lemma sameCanonicalIP_iff:
  "sameCanonicalIP l r \<longleftrightarrow> (\<exists>a. ParseIP (trimSpace l) = Some a \<and> ParseIP (trimSpace r) = Some a)"
  by (auto simp: sameCanonicalIP_def split: option.splits)

lemma sameCanonicalIP_sym: "sameCanonicalIP l r \<Longrightarrow> sameCanonicalIP r l"
  by (auto simp: sameCanonicalIP_iff)

lemma sameCanonicalIP_trans: "sameCanonicalIP l m \<Longrightarrow> sameCanonicalIP m r \<Longrightarrow> sameCanonicalIP l r"
  by (auto simp: sameCanonicalIP_iff)

lemma ipAllowed_canonicalIP [simp]: "ipAllowed (canonicalIP raw) networks = ipAllowed raw networks"
  by (simp add: ipAllowed_def)

lemma split_acc_append:
  "sep \<notin> set t \<Longrightarrow> split_acc sep cur (s @ sep # t) = split_acc sep cur s @ [t]"
proof (induction sep cur s rule: split_acc.induct)
  case (1 sep cur)
  have "sep \<notin> set t \<Longrightarrow> split_acc sep cur t = [rev cur @ t]" for cur by (induction t arbitrary: cur) auto
  with 1 show ?case by simp
qed auto

lemma splitOn_last: "sep \<notin> set t \<Longrightarrow> splitOn sep (s @ sep # t) = splitOn sep s @ [t]"
  by (simp add: splitOn_def split_acc_append)

lemma splitOn_single: "sep \<notin> set t \<Longrightarrow> splitOn sep t = [t]"
proof -
  have "sep \<notin> set t \<Longrightarrow> split_acc sep cur t = [rev cur @ t]" for cur by (induction t arbitrary: cur) auto
  then show "sep \<notin> set t \<Longrightarrow> splitOn sep t = [t]" by (simp add: splitOn_def)
qed

lemma join_snoc: "xs \<noteq> [] \<Longrightarrow> join sep (xs @ [x]) = join sep xs @ sep @ x"
  by (induction sep xs rule: join.induct) auto

text \<open>The last entries of a list are found again, whatever stands before them.\<close>

lemma splitOn_join_last:
  assumes "prefix = [] \<or> last prefix = sep" and "sep \<notin> set x" and "\<forall>y\<in>set ys. sep \<notin> set y"
  shows "\<exists>before. splitOn sep (prefix @ join [sep] (x # ys)) = before @ x # ys"
  using assms(3)
proof (induction ys rule: rev_induct)
  case Nil
  show ?case
  proof (cases "prefix = []")
    case True
    with assms(2) show ?thesis by (simp add: splitOn_single)
  next
    case False
    with assms(1) have "prefix = butlast prefix @ [sep]" by (metis append_butlast_last_id)
    then have "splitOn sep (prefix @ x) = splitOn sep (butlast prefix) @ [x]"
      using splitOn_last [OF assms(2), of "butlast prefix"] by (metis append.assoc append_Cons append_Nil)
    then show ?thesis by auto
  qed
next
  case (snoc y ys)
  have "prefix @ join [sep] (x # ys @ [y]) = (prefix @ join [sep] (x # ys)) @ sep # y"
    using join_snoc [of "x # ys" "[sep]" y] by simp
  with snoc splitOn_last [of sep y "prefix @ join [sep] (x # ys)"] show ?case by auto
qed

text \<open>The walk passes the entries of trusted proxies, and those that are no address.\<close>

definition trusted_hop :: "ipNet list \<Rightarrow> string \<Rightarrow> bool" where
  "trusted_hop proxies entry \<longleftrightarrow> canonicalIP entry = [] \<or> ipAllowed entry proxies"

lemma forwarded_loop_trusted:
  "\<forall>entry\<in>set hops. trusted_hop proxies entry \<Longrightarrow>
   \<exists>nearest. forwarded_loop proxies (hops @ rest) remote = forwarded_loop proxies rest nearest"
  by (induction hops arbitrary: remote) (auto simp: trusted_hop_def Let_def)

section \<open>Properties\<close>


section \<open>Witnesses\<close>

definition client_request :: request where
  "client_request =
     \<lparr>rq_RemoteAddr = ''10.0.0.2:4711'', rq_TLS = False, rq_Cookie = Some ''tok'', rq_Authorization = [],
      rq_ForwardedFor = ''10.0.0.9,192.0.2.7'', rq_RealIP = [], rq_ForwardedProto = ''https'', rq_UserAgent = ''ua''\<rparr>"

definition sample_proxies :: "ipNet list" where
  "sample_proxies = [\<lparr>net_IP = [10, 0, 0, 0], net_Mask = [255, 0, 0, 0]\<rparr>]"

lemma sample_addresses:
  "remote_address client_request = ''10.0.0.2''" "canonicalIP ''192.0.2.7'' = ''192.0.2.7''"
  "ipAllowed ''10.0.0.2'' sample_proxies" "\<not> ipAllowed ''192.0.2.7'' sample_proxies"
  by code_simp+

text \<open>A client that claims to be \<open>198.51.100.1\<close>, seen by a first proxy, which a second proxy \<open>10.0.0.9\<close> appends.\<close>

definition proxied_request :: request where
  "proxied_request = client_request\<lparr>rq_ForwardedFor := ''198.51.100.1, 192.0.2.7,10.0.0.9'', rq_RealIP := ''198.51.100.1''\<rparr>"


end
