(* ===== verification/Rate_Limits.thy ===== *)
theory Rate_Limits
  imports Go_Strings "HOL-Library.AList"
begin

text \<open>
  The sliding-window limiter of the web gateway, \<open>attemptLimiter\<close> in \<open>internal/webgateway/account_auth.go\<close>.
  The map of windows is an association list with distinct keys; its order is the order in which a range
  over the map visits the entries, which differs from call to call.
\<close>

section \<open>Operations\<close>

type_synonym windows = "(string \<times> instant list) list"

definition maxAttemptLimiterKeys :: nat where
  "maxAttemptLimiterKeys = 4096"

fun pruneLocked :: "duration \<Rightarrow> instant \<Rightarrow> windows \<Rightarrow> windows" where
  "pruneLocked window now [] = []"
| "pruneLocked window now ((key, timestamps) # rest) =
     (let kept = filter (\<lambda>timestamp. now - window < timestamp) timestamps
      in if kept = [] then pruneLocked window now rest else (key, kept) # pruneLocked window now rest)"

text \<open>The loop that looks for the key with the oldest latest attempt; an entry without attempts ends it.\<close>

fun oldest_loop :: "windows \<Rightarrow> string \<Rightarrow> instant \<Rightarrow> string" where
  "oldest_loop [] oldestKey oldest = oldestKey"
| "oldest_loop ((candidate, timestamps) # rest) oldestKey oldest =
     (if timestamps = [] then candidate
      else if oldestKey = [] \<or> last timestamps < oldest then oldest_loop rest candidate (last timestamps)
      else oldest_loop rest oldestKey oldest)"

definition admitKeyLocked :: "string \<Rightarrow> windows \<Rightarrow> windows" where
  "admitKeyLocked key ws =
     (if map_of ws key \<noteq> None \<or> length ws < maxAttemptLimiterKeys then ws
      else AList.delete (oldest_loop ws [] 0) ws)"

definition attempts :: "windows \<Rightarrow> string \<Rightarrow> instant list" where
  "attempts ws key = (case map_of ws key of None \<Rightarrow> [] | Some timestamps \<Rightarrow> timestamps)"

definition Allow :: "string \<Rightarrow> int \<Rightarrow> duration \<Rightarrow> instant \<Rightarrow> windows \<Rightarrow> bool \<times> windows" where
  "Allow key limit window now ws =
     (if limit \<le> 0 \<or> window \<le> 0 then (True, ws)
      else
        (let ws = pruneLocked window now ws
         in if int (length (attempts ws key)) \<ge> limit then (False, ws)
            else (True, AList.update key (attempts ws key @ [now]) (admitKeyLocked key ws))))"

definition Reset :: "string \<Rightarrow> windows \<Rightarrow> windows" where
  "Reset key ws = AList.delete key ws"

definition ResetPrefix :: "string \<Rightarrow> windows \<Rightarrow> windows" where
  "ResetPrefix prefix ws = filter (\<lambda>(key, timestamps). \<not> hasPrefix key prefix) ws"

section \<open>Attempts after each operation\<close>

lemma prune_entry:
  "(key, ts) \<in> set (pruneLocked window now ws) \<Longrightarrow> ts \<noteq> [] \<and> (\<exists>all. (key, all) \<in> set ws \<and> length ts \<le> length all)"
  by (induction window now ws rule: pruneLocked.induct) (auto simp: Let_def split: if_split_asm intro: length_filter_le)

lemma keys_prune: "fst ` set (pruneLocked window now ws) \<subseteq> fst ` set ws"
  using prune_entry by force

lemma distinct_prune: "distinct (map fst ws) \<Longrightarrow> distinct (map fst (pruneLocked window now ws))"
proof (induction window now ws rule: pruneLocked.induct)
  case (2 window now key timestamps rest)
  with keys_prune [of window now rest] show ?case by (auto simp: Let_def)
qed simp

lemma length_prune: "length (pruneLocked window now ws) \<le> length ws"
  by (induction window now ws rule: pruneLocked.induct) (auto simp: Let_def)

lemma map_of_prune:
  "distinct (map fst ws) \<Longrightarrow>
   map_of (pruneLocked window now ws) key =
     (case map_of ws key of
        None \<Rightarrow> None
      | Some ts \<Rightarrow> if filter (\<lambda>t. now - window < t) ts = [] then None else Some (filter (\<lambda>t. now - window < t) ts))"
proof (induction window now ws rule: pruneLocked.induct)
  case (2 window now k ts rest)
  have "map_of (pruneLocked window now rest) k = None"
    using 2(3) keys_prune [of window now rest] by (auto simp: map_of_eq_None_iff)
  with 2 show ?case by (auto simp: Let_def map_of_eq_None_iff)
qed simp

lemma attempts_prune:
  "distinct (map fst ws) \<Longrightarrow> attempts (pruneLocked window now ws) key = filter (\<lambda>t. now - window < t) (attempts ws key)"
  by (auto simp: attempts_def map_of_prune split: option.splits)

lemma attempts_update: "attempts (AList.update key ts ws) k = (if k = key then ts else attempts ws k)"
  by (simp add: attempts_def AList.update_conv')

lemma oldest_loop_member:
  "oldestKey = [] \<and> ws \<noteq> [] \<or> oldestKey \<in> keys \<Longrightarrow> set (map fst ws) \<subseteq> keys \<Longrightarrow> oldest_loop ws oldestKey oldest \<in> keys"
  by (induction ws oldestKey oldest rule: oldest_loop.induct) auto

lemma length_delete_member:
  "distinct (map fst ws) \<Longrightarrow> k \<in> set (map fst ws) \<Longrightarrow> length (AList.delete k ws) + 1 = length ws"
  by (induction ws) auto

lemma length_admit:
  assumes "distinct (map fst ws)" and "length ws \<le> maxAttemptLimiterKeys" and "map_of ws key = None"
  shows "length (admitKeyLocked key ws) < maxAttemptLimiterKeys"
proof (cases "length ws < maxAttemptLimiterKeys")
  case False
  then have "ws \<noteq> []" by (auto simp: maxAttemptLimiterKeys_def)
  then have "oldest_loop ws [] 0 \<in> set (map fst ws)" by (intro oldest_loop_member) auto
  from length_delete_member [OF assms(1) this] False assms(2,3) show ?thesis
    by (simp add: admitKeyLocked_def)
qed (simp add: admitKeyLocked_def)

lemma distinct_admit: "distinct (map fst ws) \<Longrightarrow> distinct (map fst (admitKeyLocked key ws))"
  by (simp add: admitKeyLocked_def AList.distinct_delete)

lemma length_update:
  "length (AList.update k v ws) = (if k \<in> fst ` set ws then length ws else length ws + 1)"
  by (induction ws) auto

lemma set_update_subset: "set (AList.update k v ws) \<subseteq> insert (k, v) (set ws)"
  by (induction ws) auto

section \<open>The limiter over time\<close>

text \<open>A limiter is used with one limit and one window; besides attempts there are resets, and the order of the
  entries may change at any time.\<close>

inductive limiter_reachable :: "int \<Rightarrow> duration \<Rightarrow> windows \<Rightarrow> bool" for limit window where
  empty: "limiter_reachable limit window []"
| allowed: "limiter_reachable limit window ws \<Longrightarrow> limiter_reachable limit window (snd (Allow key limit window now ws))"
| reset: "limiter_reachable limit window ws \<Longrightarrow> limiter_reachable limit window (Reset key ws)"
| reset_prefix: "limiter_reachable limit window ws \<Longrightarrow> limiter_reachable limit window (ResetPrefix prefix ws)"
| reordered: "limiter_reachable limit window ws \<Longrightarrow> distinct (map fst ws') \<Longrightarrow> set ws' = set ws \<Longrightarrow>
    limiter_reachable limit window ws'"

definition limiter_ok :: "int \<Rightarrow> windows \<Rightarrow> bool" where
  "limiter_ok limit ws \<longleftrightarrow>
     distinct (map fst ws) \<and> length ws \<le> maxAttemptLimiterKeys \<and>
     (\<forall>(key, ts)\<in>set ws. ts \<noteq> [] \<and> int (length ts) \<le> limit)"

lemma limiter_ok_prune: "limiter_ok limit ws \<Longrightarrow> limiter_ok limit (pruneLocked window now ws)"
  using length_prune [of window now ws] distinct_prune [of ws window now] unfolding limiter_ok_def
  by (fastforce dest!: prune_entry)

lemma limiter_ok_admit: "limiter_ok limit ws \<Longrightarrow> limiter_ok limit (admitKeyLocked key ws)"
  using AList.length_delete_le [of "oldest_loop ws [] 0" ws] distinct_admit [of ws key]
  unfolding limiter_ok_def by (auto simp: admitKeyLocked_def AList.delete_eq split: if_split_asm intro: le_trans [OF length_filter_le])

lemma limiter_ok_Allow:
  assumes "limiter_ok limit ws"
  shows "limiter_ok limit (snd (Allow key limit window now ws))"
proof (cases "limit \<le> 0 \<or> window \<le> 0 \<or> int (length (attempts (pruneLocked window now ws) key)) \<ge> limit")
  case True
  with assms limiter_ok_prune [OF assms] show ?thesis by (auto simp: Allow_def Let_def)
next
  case False
  let ?ws = "pruneLocked window now ws"
  let ?new = "attempts ?ws key @ [now]" and ?room = "admitKeyLocked key ?ws"
  have pruned: "limiter_ok limit ?ws" and room: "limiter_ok limit ?room"
    using assms by (simp_all add: limiter_ok_prune limiter_ok_admit)
  have short: "length (AList.update key ?new ?room) \<le> maxAttemptLimiterKeys"
  proof (cases "map_of ?ws key = None")
    case True
    with pruned show ?thesis using length_admit [of ?ws key] by (auto simp: limiter_ok_def length_update)
  next
    case False
    then have "?room = ?ws" "key \<in> fst ` set ?ws" by (auto simp: admitKeyLocked_def map_of_eq_None_iff)
    with pruned show ?thesis by (simp add: limiter_ok_def length_update)
  qed
  have "int (length ?new) \<le> limit" using False by simp
  moreover have "set (AList.update key ?new ?room) \<subseteq> insert (key, ?new) (set ?room)"
    by (rule set_update_subset)
  ultimately show ?thesis
    using False room short AList.distinct_update [of ?room key ?new] unfolding limiter_ok_def
    by (auto simp: Allow_def Let_def)
qed

lemma limiter_ok_reordered:
  assumes "limiter_ok limit ws" and "distinct (map fst ws')" and "set ws' = set ws"
  shows "limiter_ok limit ws'"
proof -
  have "distinct ws" "distinct ws'" using assms by (auto simp: limiter_ok_def distinct_map)
  then have "length ws' = length ws" using assms(3) by (metis distinct_card)
  with assms show ?thesis by (simp add: limiter_ok_def)
qed

text \<open>The limiter stays within its bounds: never more than 4096 keys, and never more attempts for a key
  than the limit allows.\<close>

theorem limiter_bounded:
  assumes "limiter_reachable limit window ws"
  shows "length ws \<le> 4096 \<and> (\<forall>key. int (length (attempts ws key)) \<le> max 0 limit)"
proof -
  have "limiter_ok limit ws"
    using assms
  proof induction
    case (reset ws key)
    then show ?case
      by (auto simp: limiter_ok_def Reset_def AList.delete_eq distinct_map_filter intro: le_trans [OF length_filter_le])
  next
    case (reset_prefix ws prefix)
    then show ?case
      by (auto simp: limiter_ok_def ResetPrefix_def distinct_map_filter intro: le_trans [OF length_filter_le])
  qed (auto simp: limiter_ok_Allow limiter_ok_def [of limit "[]"] intro: limiter_ok_reordered)
  then show ?thesis
    by (fastforce simp: limiter_ok_def maxAttemptLimiterKeys_def attempts_def split: option.splits dest: map_of_SomeD)
qed

text \<open>A run of attempts on one limiter; the calls that were admitted are collected.\<close>

fun run_attempts :: "int \<Rightarrow> duration \<Rightarrow> (string \<times> instant) list \<Rightarrow> windows \<Rightarrow> (string \<times> instant) list" where
  "run_attempts limit window [] ws = []"
| "run_attempts limit window ((key, now) # calls) ws =
     (case Allow key limit window now ws of
        (ok, ws') \<Rightarrow> (if ok then [(key, now)] else []) @ run_attempts limit window calls ws')"

definition admitted_times :: "string \<Rightarrow> (string \<times> instant) list \<Rightarrow> instant list" where
  "admitted_times key admitted = map snd (filter (\<lambda>call. fst call = key) admitted)"

text \<open>What links the windows to the attempts \<open>past\<close> admitted so far, up to time \<open>T\<close>.\<close>

definition tracks :: "int \<Rightarrow> duration \<Rightarrow> (string \<times> instant) list \<Rightarrow> instant \<Rightarrow> windows \<Rightarrow> bool" where
  "tracks limit window past T ws \<longleftrightarrow>
     distinct (map fst ws) \<and> fst ` set ws \<subseteq> fst ` set past \<and>
     (\<forall>key. filter (\<lambda>t. T - window < t) (attempts ws key) = filter (\<lambda>t. T - window < t) (admitted_times key past)) \<and>
     (\<forall>call\<in>set past. snd call \<le> T) \<and>
     (\<forall>key t. int (length (filter (\<lambda>x. t - window < x \<and> x \<le> t) (admitted_times key past))) \<le> limit)"

lemma filter_later:
  "T \<le> now \<Longrightarrow> filter (\<lambda>t. T - window < t) xs = filter (\<lambda>t. T - window < t) ys \<Longrightarrow>
   filter (\<lambda>t. now - window < t) xs = filter (\<lambda>t. now - window < (t :: int)) ys"
proof -
  assume "T \<le> now" and eq: "filter (\<lambda>t. T - window < t) xs = filter (\<lambda>t. T - window < t) ys"
  then have "filter (\<lambda>t. now - window < t) zs = filter (\<lambda>t. now - window < t) (filter (\<lambda>t. T - window < t) zs)" for zs
    by (induction zs) auto
  with eq show ?thesis by metis
qed

lemma length_filter_mono:
  "(\<And>x. x \<in> set xs \<Longrightarrow> P x \<Longrightarrow> Q x) \<Longrightarrow> length (filter P xs) \<le> length (filter Q xs)"
  by (induction xs) (auto intro: le_SucI)

lemma window_bound:
  assumes "tracks limit window past T ws" and "T \<le> now"
    and "int (length (filter (\<lambda>t. now - window < t) (admitted_times key past))) < limit"
  shows "int (length (filter (\<lambda>x. t - window < x \<and> x \<le> t) (admitted_times k (past @ [(key, now)])))) \<le> limit"
proof (cases "k = key \<and> t - window < now \<and> now \<le> t")
  case True
  then have "length (filter (\<lambda>x. t - window < x \<and> x \<le> t) (admitted_times key past)) \<le>
      length (filter (\<lambda>t. now - window < t) (admitted_times key past))"
    by (intro length_filter_mono) auto
  with True assms(3) show ?thesis by (simp add: admitted_times_def)
next
  case False
  then have "filter (\<lambda>x. t - window < x \<and> x \<le> t) (admitted_times k (past @ [(key, now)])) =
      filter (\<lambda>x. t - window < x \<and> x \<le> t) (admitted_times k past)"
    by (auto simp: admitted_times_def)
  with assms(1) show ?thesis by (simp add: tracks_def)
qed

lemma tracks_pruned:
  assumes "tracks limit window past T ws" and "T \<le> now"
  shows "tracks limit window past now (pruneLocked window now ws)"
    and "attempts (pruneLocked window now ws) key = filter (\<lambda>t. now - window < t) (admitted_times key past)"
proof -
  have dist: "distinct (map fst ws)" using assms(1) by (simp add: tracks_def)
  show *: "attempts (pruneLocked window now ws) key = filter (\<lambda>t. now - window < t) (admitted_times key past)" for key
    unfolding attempts_prune [OF dist] using assms(1) by (intro filter_later [OF assms(2)]) (simp add: tracks_def)
  show "tracks limit window past now (pruneLocked window now ws)"
    using assms keys_prune [of window now ws] distinct_prune [OF dist, of window now]
    unfolding tracks_def * by (auto intro: order_trans)
qed

lemma tracks_Allow:
  assumes "tracks limit window past T ws" and "T \<le> now" and "0 < limit" and "0 < window"
    and "card (insert key (fst ` set past)) \<le> maxAttemptLimiterKeys"
  shows "tracks limit window (past @ (if fst (Allow key limit window now ws) then [(key, now)] else [])) now
    (snd (Allow key limit window now ws))"
proof -
  let ?ws = "pruneLocked window now ws"
  note pruned = tracks_pruned [OF assms(1,2)]
  show ?thesis
  proof (cases "int (length (attempts ?ws key)) \<ge> limit")
    case True
    with pruned(1) assms(3,4) show ?thesis by (simp add: Allow_def Let_def)
  next
    case False
    have "admitKeyLocked key ?ws = ?ws"
    proof (cases "map_of ?ws key = None")
      case True
      then have "card (fst ` set ?ws) < card (insert key (fst ` set past))"
        using pruned(1) by (intro psubset_card_mono) (auto simp: tracks_def map_of_eq_None_iff)
      moreover have "card (fst ` set ?ws) = length ?ws"
        using pruned(1) distinct_card [of "map fst ?ws"] by (simp add: tracks_def)
      ultimately show ?thesis using assms(5) by (simp add: admitKeyLocked_def)
    qed (simp add: admitKeyLocked_def)
    then have allow: "Allow key limit window now ws = (True, AList.update key (attempts ?ws key @ [now]) ?ws)"
      using False assms(3,4) by (simp add: Allow_def Let_def)
    have "filter (\<lambda>t. now - window < t) (attempts (AList.update key (attempts ?ws key @ [now]) ?ws) k) =
        filter (\<lambda>t. now - window < t) (admitted_times k (past @ [(key, now)]))" for k
      using assms(4) pruned(2) by (simp add: attempts_update admitted_times_def)
    moreover have "int (length (filter (\<lambda>x. t - window < x \<and> x \<le> t) (admitted_times k (past @ [(key, now)])))) \<le> limit" for k t
      using False pruned(2) by (intro window_bound [OF assms(1,2)]) simp
    ultimately show ?thesis
      using pruned(1) unfolding allow tracks_def
      by (auto simp: AList.dom_update AList.distinct_update)
  qed
qed

lemma run_attempts_tracks:
  assumes "tracks limit window past T ws" and "sorted (T # map snd calls)" and "0 < limit" and "0 < window"
    and "card (fst ` set past \<union> fst ` set calls) \<le> maxAttemptLimiterKeys"
  shows "\<exists>T' ws'. tracks limit window (past @ run_attempts limit window calls ws) T' ws'"
  using assms
proof (induction calls arbitrary: past T ws)
  case (Cons call calls)
  obtain key now where call: "call = (key, now)" by (cases call)
  obtain ok ws' where allow: "Allow key limit window now ws = (ok, ws')" by (cases "Allow key limit window now ws")
  let ?past = "past @ (if ok then [(key, now)] else [])"
  have sub: "insert key (fst ` set past) \<subseteq> fst ` set past \<union> fst ` set (call # calls)" by (auto simp: call)
  have "tracks limit window ?past now ws'"
    using tracks_Allow [OF Cons.prems(1), of now key] Cons.prems(2-5) card_mono [OF _ sub] allow
    by (auto simp: call)
  moreover have "card (fst ` set ?past \<union> fst ` set calls) \<le> maxAttemptLimiterKeys"
    using Cons.prems(5) by (rule le_trans [rotated]) (rule card_mono; auto simp: call)
  ultimately have "\<exists>T' ws''. tracks limit window (?past @ run_attempts limit window calls ws') T' ws''"
    using Cons.prems(2-4) by (intro Cons.IH) (auto simp: call)
  then show ?case by (simp add: call allow)
qed auto

text \<open>C7: of the attempts made with one key, in any span of one window at most the limit are admitted, for
  every sequence of attempts in which the clock does not go back, at most 4096 different keys occur and no
  key is reset. With more keys the limiter makes room by forgetting the oldest key, and then the bound does
  not hold.\<close>

theorem sliding_window_limit:
  assumes "sorted (map snd calls)" and "card (fst ` set calls) \<le> 4096" and "0 < limit" and "0 < window"
  shows "int (length (filter (\<lambda>x. t - window < x \<and> x \<le> t) (admitted_times key (run_attempts limit window calls [])))) \<le> limit"
proof (cases calls)
  case (Cons call rest)
  have "tracks limit window [] (snd call) []" using assms(3) by (simp add: tracks_def admitted_times_def attempts_def)
  moreover have "sorted (snd call # map snd calls)" using assms(1) Cons by auto
  ultimately obtain T' ws' where "tracks limit window ([] @ run_attempts limit window calls []) T' ws'"
    using run_attempts_tracks assms(2-4) unfolding maxAttemptLimiterKeys_def by fastforce
  then show ?thesis by (simp add: tracks_def)
qed (use assms(3) in \<open>simp add: admitted_times_def\<close>)

section \<open>Witnesses\<close>

theorem limiter_bounded_witness:
  "length (snd (Allow ''user'' 2 10 100 [])) \<le> 4096 \<and> attempts (snd (Allow ''user'' 2 10 100 [])) ''user'' = [100]"
proof -
  have "limiter_reachable 2 10 (snd (Allow ''user'' 2 10 100 []))" by (intro limiter_reachable.intros)
  from limiter_bounded [OF this] show ?thesis
    by (simp add: Allow_def attempts_def admitKeyLocked_def maxAttemptLimiterKeys_def)
qed

theorem sliding_window_limit_witness:
  "run_attempts 2 10 [(''u'', 1), (''u'', 2), (''u'', 3), (''u'', 12)] [] = [(''u'', 1), (''u'', 2), (''u'', 12)] \<and>
   int (length (filter (\<lambda>x. 3 - 10 < x \<and> x \<le> 3) (admitted_times ''u'' (run_attempts 2 10 [(''u'', 1), (''u'', 2), (''u'', 3), (''u'', 12)] [])))) \<le> 2"
proof -
  have "run_attempts 2 10 [(''u'', 1), (''u'', 2), (''u'', 3), (''u'', 12)] [] = [(''u'', 1), (''u'', 2), (''u'', 12)]"
    by code_simp
  moreover have "card (fst ` set [(''u'', 1 :: int), (''u'', 2), (''u'', 3), (''u'', 12)]) \<le> 4096" by simp
  ultimately show ?thesis
    using sliding_window_limit [of "[(''u'', 1), (''u'', 2), (''u'', 3), (''u'', 12)]" 2 10 3 "''u''"] by simp
qed

end
