(* ===== verification/Go_Base64.thy ===== *)
theory Go_Base64
  imports Go_Strings
begin

text \<open>
  The unpadded encodings of the package \<open>encoding/base64\<close>. An encoding is its alphabet of 64 characters;
  decoding skips line breaks and ignores the unused bits of the last character, as the package does.
\<close>

section \<open>Encoding and decoding\<close>

definition url_alphabet :: string where
  "url_alphabet = ''ABCDEFGHIJKLMNOPQRSTUVWXYZabcdefghijklmnopqrstuvwxyz0123456789-_''"

definition std_alphabet :: string where
  "std_alphabet = ''ABCDEFGHIJKLMNOPQRSTUVWXYZabcdefghijklmnopqrstuvwxyz0123456789+/''"

fun sextets :: "byte list \<Rightarrow> nat list" where
  "sextets [] = []"
| "sextets [a] = [unat a div 4, unat a mod 4 * 16]"
| "sextets [a, b] = [unat a div 4, unat a mod 4 * 16 + unat b div 16, unat b mod 16 * 4]"
| "sextets (a # b # c # rest) =
     [unat a div 4, unat a mod 4 * 16 + unat b div 16, unat b mod 16 * 4 + unat c div 64, unat c mod 64] @ sextets rest"

fun octets :: "nat list \<Rightarrow> byte list option" where
  "octets [] = Some []"
| "octets [s] = None"
| "octets [s, t] = Some [of_nat (s * 4 + t div 16)]"
| "octets [s, t, u] = Some [of_nat (s * 4 + t div 16), of_nat (t mod 16 * 16 + u div 4)]"
| "octets (s # t # u # v # rest) =
     map_option (\<lambda>bs. of_nat (s * 4 + t div 16) # of_nat (t mod 16 * 16 + u div 4) # of_nat (u mod 4 * 64 + v) # bs) (octets rest)"

definition raw_encode :: "string \<Rightarrow> byte list \<Rightarrow> string" where
  "raw_encode alphabet bs = map (\<lambda>s. alphabet ! s) (sextets bs)"

fun position :: "string \<Rightarrow> char \<Rightarrow> nat option" where
  "position [] c = None"
| "position (d # ds) c = (if c = d then Some 0 else map_option Suc (position ds c))"

fun positions :: "string \<Rightarrow> string \<Rightarrow> nat list option" where
  "positions alphabet [] = Some []"
| "positions alphabet (c # cs) =
     (if c = CHR 0x0A \<or> c = CHR 0x0D then positions alphabet cs
      else
        (case (position alphabet c, positions alphabet cs) of
           (Some p, Some ps) \<Rightarrow> Some (p # ps)
         | _ \<Rightarrow> None))"

definition raw_decode :: "string \<Rightarrow> string \<Rightarrow> byte list option" where
  "raw_decode alphabet s = (case positions alphabet s of None \<Rightarrow> None | Some ps \<Rightarrow> octets ps)"

abbreviation rawURLEncoding :: "byte list \<Rightarrow> string" where
  "rawURLEncoding \<equiv> raw_encode url_alphabet"

abbreviation rawStdEncoding :: "byte list \<Rightarrow> string" where
  "rawStdEncoding \<equiv> raw_encode std_alphabet"

section \<open>Decoding inverts encoding\<close>

lemma byte_bound: "unat (b :: byte) < 256"
  using unsigned_less [of b, where ?'a = nat] by simp

lemma sextets_less: "s \<in> set (sextets bs) \<Longrightarrow> s < 64"
proof (induction bs rule: sextets.induct)
  case (2 a)
  then show ?case using byte_bound [of a] by auto
next
  case (3 a b)
  then show ?case using byte_bound [of a] byte_bound [of b] by auto
next
  case (4 a b c rest)
  then show ?case using byte_bound [of a] byte_bound [of b] byte_bound [of c] by auto
qed simp

lemma split_byte:
  "of_nat (unat b div 4 * 4 + (unat b mod 4 * 16 + x) div 16) = (b :: byte)" if "x < 16" for b
proof -
  have "(unat b mod 4 * 16 + x) div 16 = unat b mod 4" using that by simp
  then show ?thesis by simp
qed

lemma join_nibbles:
  "of_nat ((y * 16 + unat b div 16) mod 16 * 16 + (unat b mod 16 * 4 + z) div 4) = (b :: byte)" if "z < 4" for b
proof -
  have "unat b div 16 < 16" using byte_bound [of b] by simp
  then have "(y * 16 + unat b div 16) mod 16 = unat b div 16" "(unat b mod 16 * 4 + z) div 4 = unat b mod 16"
    using that by simp_all
  then show ?thesis by simp
qed

lemma join_last: "of_nat ((y * 4 + unat c div 64) mod 4 * 64 + unat c mod 64) = (c :: byte)"
proof -
  have "unat c div 64 < 4" using byte_bound [of c] by simp
  then have "(y * 4 + unat c div 64) mod 4 = unat c div 64" by simp
  then show ?thesis by simp
qed

lemma octets_sextets: "octets (sextets bs) = Some bs"
proof (induction bs rule: sextets.induct)
  case (2 a)
  then show ?case using split_byte [of 0 a] by simp
next
  case (3 a b)
  have "unat b div 16 < 16" using byte_bound [of b] by simp
  then show ?case using split_byte [of "unat b div 16" a] join_nibbles [of 0 "unat a mod 4" b] by simp
next
  case (4 a b c rest)
  have "unat b div 16 < 16" "unat c div 64 < 4" using byte_bound [of b] byte_bound [of c] by simp_all
  then show ?case
    using split_byte [of "unat b div 16" a] join_nibbles [of "unat c div 64" "unat a mod 4" b] join_last [of "unat b mod 16" c]
    by (simp add: 4)
qed simp

lemma position_nth: "distinct ds \<Longrightarrow> i < length ds \<Longrightarrow> position ds (ds ! i) = Some i"
proof (induction ds arbitrary: i)
  case (Cons d ds)
  then show ?case by (cases i) auto
qed simp

lemma positions_map:
  assumes "distinct alphabet" and "length alphabet = 64" and "\<forall>c\<in>set alphabet. c \<noteq> CHR 0x0A \<and> c \<noteq> CHR 0x0D" and "\<forall>s\<in>set ss. s < 64"
  shows "positions alphabet (map (\<lambda>s. alphabet ! s) ss) = Some ss"
  using assms(4)
proof (induction ss)
  case (Cons s ss)
  then have "alphabet ! s \<in> set alphabet" using assms(2) by simp
  with Cons assms(1-3) show ?case by (auto simp: position_nth)
qed simp

lemma alphabets:
  "distinct url_alphabet" "length url_alphabet = 64" "\<forall>c\<in>set url_alphabet. c \<noteq> CHR 0x0A \<and> c \<noteq> CHR 0x0D"
  "distinct std_alphabet" "length std_alphabet = 64" "\<forall>c\<in>set std_alphabet. c \<noteq> CHR 0x0A \<and> c \<noteq> CHR 0x0D"
  by code_simp+

lemma decode_encode [simp]:
  "raw_decode url_alphabet (raw_encode url_alphabet bs) = Some bs"
  "raw_decode std_alphabet (raw_encode std_alphabet bs) = Some bs"
proof -
  have "\<forall>s\<in>set (sextets bs). s < 64" using sextets_less by blast
  from positions_map [OF alphabets(1-3) this] positions_map [OF alphabets(4-6) this]
  show "raw_decode url_alphabet (raw_encode url_alphabet bs) = Some bs" "raw_decode std_alphabet (raw_encode std_alphabet bs) = Some bs"
    by (simp_all only: raw_decode_def raw_encode_def octets_sextets option.case)
qed

lemma encode_chars: "c \<in> set (raw_encode url_alphabet bs) \<Longrightarrow> c \<in> set url_alphabet"
  "c \<in> set (raw_encode std_alphabet bs) \<Longrightarrow> c \<in> set std_alphabet"
  using sextets_less [of _ bs] alphabets(2,5) nth_mem by (fastforce simp: raw_encode_def)+

lemma encode_url_solid: "list_all solid (raw_encode url_alphabet bs)"
proof -
  have "list_all solid url_alphabet" by code_simp
  then show ?thesis using encode_chars(1) by (auto simp: list_all_iff)
qed

lemma encode_Nil_iff: "raw_encode alphabet bs = [] \<longleftrightarrow> bs = []"
  by (cases bs rule: sextets.cases) (simp_all add: raw_encode_def)

end
