(* ===== verification/Web_Sessions.thy ===== *)
theory Web_Sessions
  imports Go_Base64 "HOL-Library.AList"
begin

text \<open>
  Session leases of the web gateway, \<open>internal/webgateway/session_registry.go\<close>: the interface
  \<open>sessionRegistry\<close> as a record of operations, its contract as a locale, and the registry in memory that
  implements it. The registry in Redis keeps its leases in a database server and is not modelled; the
  contract is the one it shares. The hash function \<open>sha256\<close> is an argument, and \<open>now\<close> is the clock at the
  time of a call.
\<close>

section \<open>Data and interface\<close>

record activeSession =
  as_ID :: string
  as_UserID :: string
  as_Username :: string
  as_IP :: string
  as_UserAgent :: string
  as_Persistent :: bool
  as_AuthVersion :: int
  as_CreatedAt :: instant
  as_LastSeenAt :: instant
  as_ExpiresAt :: instant

datatype registryError = SessionNotFound | RegistryFailed string

record 's sessionRegistry =
  sr_Put :: "instant \<Rightarrow> string \<Rightarrow> activeSession \<Rightarrow> 's \<Rightarrow> 's \<times> registryError option"
  sr_Get :: "instant \<Rightarrow> string \<Rightarrow> 's \<Rightarrow> 's \<times> (registryError + activeSession)"
  sr_Touch :: "instant \<Rightarrow> string \<Rightarrow> instant \<Rightarrow> 's \<Rightarrow> 's \<times> registryError option"
  sr_Delete :: "string \<Rightarrow> 's \<Rightarrow> 's \<times> registryError option"
  sr_DeleteDigest :: "string \<Rightarrow> 's \<Rightarrow> 's \<times> registryError option"
  sr_DeleteUser :: "string \<Rightarrow> 's \<Rightarrow> 's \<times> registryError option"
  sr_ListUser :: "instant \<Rightarrow> string \<Rightarrow> 's \<Rightarrow> 's \<times> (registryError + activeSession list)"

definition sessionIDDigest :: "(string \<Rightarrow> byte list) \<Rightarrow> string \<Rightarrow> string" where
  "sessionIDDigest hash raw = (if trimSpace raw = [] then [] else rawURLEncoding (hash (trimSpace raw)))"

section \<open>The registry in memory\<close>

type_synonym sessions = "(string \<times> activeSession) list"

definition cleanupLocked :: "instant \<Rightarrow> sessions \<Rightarrow> sessions" where
  "cleanupLocked now ss = filter (\<lambda>(digest, session). now < as_ExpiresAt session) ss"

definition memory_Put :: "(string \<Rightarrow> byte list) \<Rightarrow> instant \<Rightarrow> string \<Rightarrow> activeSession \<Rightarrow> sessions \<Rightarrow> sessions \<times> registryError option" where
  "memory_Put hash now raw session ss =
     (let digest = sessionIDDigest hash raw
      in if digest = [] then (ss, Some (RegistryFailed ''session ID is required''))
         else (AList.update digest (session\<lparr>as_ID := digest\<rparr>) (cleanupLocked now ss), None))"

definition memory_Get :: "(string \<Rightarrow> byte list) \<Rightarrow> instant \<Rightarrow> string \<Rightarrow> sessions \<Rightarrow> sessions \<times> (registryError + activeSession)" where
  "memory_Get hash now raw ss =
     (let ss = cleanupLocked now ss
      in (ss, case map_of ss (sessionIDDigest hash raw) of None \<Rightarrow> Inl SessionNotFound | Some session \<Rightarrow> Inr session))"

definition memory_Touch :: "(string \<Rightarrow> byte list) \<Rightarrow> instant \<Rightarrow> string \<Rightarrow> instant \<Rightarrow> sessions \<Rightarrow> sessions \<times> registryError option" where
  "memory_Touch hash now raw lastSeen ss =
     (let digest = sessionIDDigest hash raw
      in case map_of ss digest of
           None \<Rightarrow> (AList.delete digest ss, Some SessionNotFound)
         | Some session \<Rightarrow>
             if \<not> lastSeen < as_ExpiresAt session then (AList.delete digest ss, Some SessionNotFound)
             else (AList.update digest (session\<lparr>as_LastSeenAt := lastSeen\<rparr>) ss, None))"

definition memory_DeleteDigest :: "string \<Rightarrow> sessions \<Rightarrow> sessions \<times> registryError option" where
  "memory_DeleteDigest digest ss = (AList.delete (trimSpace digest) ss, None)"

definition memory_Delete :: "(string \<Rightarrow> byte list) \<Rightarrow> string \<Rightarrow> sessions \<Rightarrow> sessions \<times> registryError option" where
  "memory_Delete hash raw ss = memory_DeleteDigest (sessionIDDigest hash raw) ss"

definition memory_DeleteUser :: "string \<Rightarrow> sessions \<Rightarrow> sessions \<times> registryError option" where
  "memory_DeleteUser userID ss = (filter (\<lambda>(digest, session). as_UserID session \<noteq> userID) ss, None)"

definition memory_ListUser :: "instant \<Rightarrow> string \<Rightarrow> sessions \<Rightarrow> sessions \<times> (registryError + activeSession list)" where
  "memory_ListUser now userID ss =
     (let ss = cleanupLocked now ss
      in (ss, Inr (sort_key (\<lambda>session. - as_LastSeenAt session)
                (filter (\<lambda>session. as_UserID session = userID) (map snd ss)))))"

definition memorySessionRegistry :: "(string \<Rightarrow> byte list) \<Rightarrow> sessions sessionRegistry" where
  "memorySessionRegistry hash =
     \<lparr>sr_Put = memory_Put hash, sr_Get = memory_Get hash, sr_Touch = memory_Touch hash,
      sr_Delete = memory_Delete hash, sr_DeleteDigest = memory_DeleteDigest, sr_DeleteUser = memory_DeleteUser,
      sr_ListUser = memory_ListUser\<rparr>"

section \<open>The contract\<close>

text \<open>The calls of the interface, for statements about arbitrary histories.\<close>

datatype registryCall =
    CallPut instant string activeSession
  | CallGet instant string
  | CallTouch instant string instant
  | CallDelete string
  | CallDeleteDigest string
  | CallDeleteUser string
  | CallListUser instant string

fun registry_call :: "'s sessionRegistry \<Rightarrow> registryCall \<Rightarrow> 's \<Rightarrow> 's" where
  "registry_call R (CallPut now raw session) s = fst (sr_Put R now raw session s)"
| "registry_call R (CallGet now raw) s = fst (sr_Get R now raw s)"
| "registry_call R (CallTouch now raw lastSeen) s = fst (sr_Touch R now raw lastSeen s)"
| "registry_call R (CallDelete raw) s = fst (sr_Delete R raw s)"
| "registry_call R (CallDeleteDigest digest) s = fst (sr_DeleteDigest R digest s)"
| "registry_call R (CallDeleteUser userID) s = fst (sr_DeleteUser R userID s)"
| "registry_call R (CallListUser now userID) s = fst (sr_ListUser R now userID s)"

definition registry_run :: "'s sessionRegistry \<Rightarrow> registryCall list \<Rightarrow> 's \<Rightarrow> 's" where
  "registry_run R calls s = foldl (\<lambda>s call. registry_call R call s) s calls"

fun puts :: "(string \<Rightarrow> string) \<Rightarrow> string \<Rightarrow> registryCall \<Rightarrow> bool" where
  "puts dg digest (CallPut now raw session) = (dg raw = digest)"
| "puts dg digest _ = False"

text \<open>
  \<open>lease s d\<close> is the lease a registry holds for a digest, expired or not; \<open>live\<close> restricts it to a time. A
  registry may drop expired leases at any time, so the laws are about live leases.
\<close>

definition live_of :: "('s \<Rightarrow> string \<Rightarrow> activeSession option) \<Rightarrow> instant \<Rightarrow> 's \<Rightarrow> string \<Rightarrow> activeSession option" where
  "live_of lease t s d =
     (case lease s d of None \<Rightarrow> None | Some session \<Rightarrow> if t < as_ExpiresAt session then Some session else None)"

locale session_registry =
  fixes R :: "'s sessionRegistry" and ok :: "'s \<Rightarrow> bool" and lease :: "'s \<Rightarrow> string \<Rightarrow> activeSession option"
    and dg :: "string \<Rightarrow> string"
  assumes kept: "ok s \<Longrightarrow> ok (registry_call R call s)"
    and put: "ok s \<Longrightarrow> sr_Put R now raw session s = (s', None) \<Longrightarrow> now \<le> t \<Longrightarrow>
      live_of lease t s' d =
        (if d = dg raw then (if t < as_ExpiresAt session then Some (session\<lparr>as_ID := dg raw\<rparr>) else None)
         else live_of lease t s d)"
    and get: "ok s \<Longrightarrow> sr_Get R now raw s = (s', Inr session) \<Longrightarrow> live_of lease now s (dg raw) = Some session"
    and get_missing: "ok s \<Longrightarrow> sr_Get R now raw s = (s', Inl SessionNotFound) \<Longrightarrow> live_of lease now s (dg raw) = None"
    and delete: "ok s \<Longrightarrow> sr_Delete R raw s = (s', None) \<Longrightarrow> lease s' (dg raw) = None"
    and delete_digest: "ok s \<Longrightarrow> sr_DeleteDigest R digest s = (s', None) \<Longrightarrow> lease s' (trimSpace digest) = None"
    and delete_user: "ok s \<Longrightarrow> sr_DeleteUser R userID s = (s', None) \<Longrightarrow> lease s' d = Some session \<Longrightarrow>
      as_UserID session \<noteq> userID"
    and none_created: "ok s \<Longrightarrow> \<not> puts dg d call \<Longrightarrow> lease s d = None \<Longrightarrow> lease (registry_call R call s) d = None"
begin

lemma run_ok: "ok s \<Longrightarrow> ok (registry_run R calls s)"
  unfolding registry_run_def by (induction calls arbitrary: s) (simp_all add: kept)

text \<open>A digest without a lease gets one only by \<open>Put\<close>.\<close>

lemma absent_stays:
  "ok s \<Longrightarrow> lease s d = None \<Longrightarrow> \<forall>call\<in>set calls. \<not> puts dg d call \<Longrightarrow> lease (registry_run R calls s) d = None"
  unfolding registry_run_def by (induction calls arbitrary: s) (simp_all add: kept none_created)

lemma get_absent: "ok s \<Longrightarrow> lease s (dg raw) = None \<Longrightarrow> sr_Get R now raw s \<noteq> (s', Inr session)"
  using get [of s now raw s' session] by (auto simp: live_of_def)

lemma deleted_stays:
  assumes "ok s" and "sr_Delete R raw s = (s', None)" and "\<forall>call\<in>set calls. \<not> puts dg (dg raw) call"
  shows "snd (sr_Get R now raw (registry_run R calls s')) \<noteq> Inr session"
proof -
  have ok': "ok s'" using kept [OF assms(1), of "CallDelete raw"] assms(2) by simp
  have "lease (registry_run R calls s') (dg raw) = None"
    using absent_stays [OF ok' delete [OF assms(1,2)] assms(3)] .
  from get_absent [OF run_ok [OF ok'] this] show ?thesis by (metis prod.collapse)
qed

lemma put_then_get:
  assumes "ok s" and "sr_Put R now raw session s = (s', None)" and "now \<le> t" and "t < as_ExpiresAt session"
    and "sr_Get R t raw s' = (s'', r)"
  shows "r = Inr (session\<lparr>as_ID := dg raw\<rparr>) \<or> (\<exists>e. r = Inl (RegistryFailed e))"
proof -
  have ok': "ok s'" using kept [OF assms(1), of "CallPut now raw session"] assms(2) by simp
  have live: "live_of lease t s' (dg raw) = Some (session\<lparr>as_ID := dg raw\<rparr>)"
    using put [OF assms(1-3)] assms(4) by simp
  show ?thesis
  proof (cases r)
    case (Inl e)
    with live get_missing [OF ok', of t raw s''] assms(5) show ?thesis by (cases e) auto
  next
    case (Inr x)
    with live get [OF ok', of t raw s'' x] assms(5) show ?thesis by simp
  qed
qed

end

section \<open>The registry in memory implements the contract\<close>

lemma trimSpace_digest [simp]: "trimSpace (sessionIDDigest hash raw) = sessionIDDigest hash raw"
  by (simp add: sessionIDDigest_def trimSpace_solid encode_url_solid)

lemma map_of_filter:
  "distinct (map fst ss) \<Longrightarrow>
   map_of (filter (\<lambda>(d, x). P x) ss) d = (case map_of ss d of None \<Rightarrow> None | Some x \<Rightarrow> if P x then Some x else None)"
proof (induction ss)
  case (Cons e ss)
  then have "map_of ss (fst e) = None" by (auto simp: map_of_eq_None_iff)
  with Cons show ?case by (cases e) auto
qed simp

lemmas memory_defs = memorySessionRegistry_def memory_Put_def memory_Get_def memory_Touch_def memory_Delete_def
  memory_DeleteDigest_def memory_DeleteUser_def memory_ListUser_def cleanupLocked_def

lemma distinct_filter_keys: "distinct (map fst ss) \<Longrightarrow> distinct (map fst (filter P ss))"
  by (rule distinct_map_filter)

lemma cleanup_live:
  "distinct (map fst ss) \<Longrightarrow> now \<le> t \<Longrightarrow> live_of map_of t (cleanupLocked now ss) d = live_of map_of t ss d"
  by (auto simp: live_of_def cleanupLocked_def map_of_filter split: option.splits)

lemma cleanup_now: "distinct (map fst ss) \<Longrightarrow> map_of (cleanupLocked now ss) d = live_of map_of now ss d"
  by (auto simp: live_of_def cleanupLocked_def map_of_filter split: option.splits)

interpretation memory: session_registry "memorySessionRegistry hash" "\<lambda>ss. distinct (map fst ss)" map_of "sessionIDDigest hash" for hash
proof (unfold_locales, goal_cases)
  case (1 s call)
  then show ?case
    by (cases call) (auto simp: memory_defs Let_def AList.distinct_update AList.distinct_delete distinct_filter_keys
        split: option.splits)
next
  case (2 s now raw session s' t d)
  then have s': "s' = AList.update (sessionIDDigest hash raw) (session\<lparr>as_ID := sessionIDDigest hash raw\<rparr>) (cleanupLocked now s)"
    by (auto simp: memorySessionRegistry_def memory_Put_def Let_def split: if_split_asm)
  show ?case
    using cleanup_live [OF 2(1,3), of d] by (simp add: s' live_of_def AList.update_conv')
next
  case (3 s now raw s' session)
  then show ?case
    by (auto simp: memorySessionRegistry_def memory_Get_def Let_def cleanup_now split: option.splits)
next
  case (4 s now raw s')
  then show ?case
    by (auto simp: memorySessionRegistry_def memory_Get_def Let_def cleanup_now split: option.splits)
next
  case (5 s raw s')
  then show ?case by (auto simp: memory_defs AList.delete_conv')
next
  case (6 s digest s')
  then show ?case by (auto simp: memory_defs AList.delete_conv')
next
  case (7 s userID s' d session)
  then show ?case
    by (auto simp: memorySessionRegistry_def memory_DeleteUser_def map_of_filter split: option.splits if_split_asm)
next
  case (8 s d call)
  then show ?case
    by (cases call) (auto simp: memorySessionRegistry_def memory_Put_def memory_Get_def memory_Touch_def memory_Delete_def
        memory_DeleteDigest_def memory_DeleteUser_def memory_ListUser_def cleanupLocked_def Let_def map_of_filter
        AList.update_conv' AList.delete_conv' split: option.splits)
qed

section \<open>Properties\<close>

text \<open>A session that was revoked stays revoked: whatever is called afterwards, unless a session with the
  same identifier is put again, no later request finds it.\<close>

theorem revoked_session_stays_revoked:
  assumes "distinct (map fst ss)"
    and "\<forall>call\<in>set calls. \<not> puts (sessionIDDigest hash) (sessionIDDigest hash raw) call"
  shows "snd (memory_Get hash now raw (registry_run (memorySessionRegistry hash) calls (fst (memory_Delete hash raw ss)))) \<noteq>
    Inr session"
proof -
  have "sr_Delete (memorySessionRegistry hash) raw ss = (fst (memory_Delete hash raw ss), None)"
    by (simp add: memory_defs)
  from memory.deleted_stays [OF assms(1) this assms(2), of now session] show ?thesis
    by (simp add: memorySessionRegistry_def)
qed

text \<open>A session that was stored is found until it expires, with the digest as its identifier.\<close>

theorem stored_session_found:
  assumes "distinct (map fst ss)" and "sessionIDDigest hash raw \<noteq> []" and "now \<le> t" and "t < as_ExpiresAt session"
  shows "snd (memory_Get hash t raw (fst (memory_Put hash now raw session ss))) =
    Inr (session\<lparr>as_ID := sessionIDDigest hash raw\<rparr>)"
proof -
  let ?s = "fst (memory_Put hash now raw session ss)"
  have "sr_Put (memorySessionRegistry hash) now raw session ss = (?s, None)"
    using assms(2) by (simp add: memory_defs Let_def)
  from memory.put_then_get [OF assms(1) this assms(3,4), of "fst (memory_Get hash t raw ?s)" "snd (memory_Get hash t raw ?s)"]
  show ?thesis by (auto simp: memorySessionRegistry_def memory_Get_def Let_def split: option.splits)
qed

section \<open>Witnesses\<close>

definition sample_session :: activeSession where
  "sample_session = \<lparr>as_ID = [], as_UserID = ''u1'', as_Username = ''ops'', as_IP = ''192.0.2.1'', as_UserAgent = [], as_Persistent = False,
     as_AuthVersion = 1, as_CreatedAt = 100, as_LastSeenAt = 100, as_ExpiresAt = 200\<rparr>"

theorem revoked_session_stays_revoked_witness:
  "snd (memory_Get (\<lambda>s. [1, 2]) 150 ''sid'' (registry_run (memorySessionRegistry (\<lambda>s. [1, 2])) [CallGet 140 ''sid'']
     (fst (memory_Delete (\<lambda>s. [1, 2]) ''sid'' [(''AQI'', sample_session)])))) \<noteq> Inr sample_session"
proof (rule revoked_session_stays_revoked [where hash = "\<lambda>s. [1, 2]"])
  show "\<forall>call\<in>set [CallGet 140 ''sid'']. \<not> puts (sessionIDDigest (\<lambda>s. [1, 2])) (sessionIDDigest (\<lambda>s. [1, 2]) ''sid'') call"
    by simp
qed simp

theorem stored_session_found_witness:
  "snd (memory_Get (\<lambda>s. [1, 2]) 150 ''sid'' (fst (memory_Put (\<lambda>s. [1, 2]) 100 ''sid'' sample_session []))) =
   Inr (sample_session\<lparr>as_ID := sessionIDDigest (\<lambda>s. [1, 2]) ''sid''\<rparr>)"
proof (rule stored_session_found)
  have "trimSpace ''sid'' \<noteq> []" by code_simp
  then show "sessionIDDigest (\<lambda>s. [1, 2]) ''sid'' \<noteq> []" by (simp add: sessionIDDigest_def encode_Nil_iff)
qed (simp_all add: sample_session_def)

end
