(* ===== verification/Account_Store.thy ===== *)
theory Account_Store
  imports Web_Address "HOL-Library.Char_ord" "HOL-Library.List_Lexorder"
begin

text \<open>
  The accounts of the web panel and their table, \<open>internal/webgateway/accounts_store.go\<close>.
  \<^item> The table \<open>users\<close> is the list of its rows; a column that may be NULL holds the empty text or the zero
    time instead, as \<open>scanAccount\<close> reads it. Identifiers and lower-cased usernames are unique keys, and a
    statement that would break a key fails.
  \<^item> A statement or transaction takes effect as a whole. What happens when the database itself fails is
    in the clients: the call returns an error and the table is unchanged.
  \<^item> An error made by \<open>fmt.Errorf\<close> is its format with its arguments. \<open>now\<close> is the clock of a call, and the
    random identifier of a new account is an argument.
\<close>

section \<open>Accounts\<close>

record account =
  ac_ID :: string
  ac_Username :: string
  ac_SenderID :: string
  ac_ForceSenderID :: bool
  ac_LastIP :: string
  ac_LastLoginAt :: instant
  ac_PasswordChangedAt :: instant
  ac_AllowOrigination :: bool
  ac_AllowedOriginators :: "string list"
  ac_BlockedEventCodes :: "string list"
  ac_ForceOriginatorName :: bool
  ac_OriginatorNameText :: string
  ac_IncludeIPInBrackets :: bool
  ac_CanViewLogs :: bool
  ac_AllowPersistentSessions :: bool
  ac_PasswordExpiryDays :: int
  ac_AllowUserPasswordChange :: bool
  ac_LoggingEnabled :: bool
  ac_AccountLocked :: bool
  ac_FailedLoginAttempts :: int
  ac_MFAEnabled :: bool
  ac_MFAConfigured :: bool
  ac_IsAdmin :: bool
  ac_CIDRWhitelist :: "string list"
  ac_CreatedAt :: instant
  ac_UpdatedAt :: instant
  ac_passwordHash :: string
  ac_mfaSecret :: string
  ac_mfaLastStep :: int
  ac_authVersion :: int
  ac_failedLoginWindowStartedAt :: instant

datatype storeError = AccountNotFound | VersionChanged | StoreError string "string list"

type_synonym users = "account list"

text \<open>The regular expressions.\<close>

definition alnum :: "char \<Rightarrow> bool" where
  "alnum c \<longleftrightarrow> is_upper c \<or> is_lower c \<or> is_digit c"

definition validUsername :: "string \<Rightarrow> bool" where
  "validUsername s \<longleftrightarrow> 1 \<le> length s \<and> length s \<le> 50 \<and>
     list_all (\<lambda>c. alnum c \<or> c = CHR ''_'' \<or> c = CHR ''.'' \<or> c = CHR ''-'') s"

definition validSenderID :: "string \<Rightarrow> bool" where
  "validSenderID s \<longleftrightarrow> length s = 8 \<and> list_all (\<lambda>c. is_upper c \<or> is_digit c \<or> c = CHR ''/'') s"

definition validEventCode :: "string \<Rightarrow> bool" where
  "validEventCode s \<longleftrightarrow> length s = 3 \<and> list_all (\<lambda>c. is_upper c \<or> is_digit c) s"

definition allowedOriginatorCodes :: "string list" where
  "allowedOriginatorCodes = [''CIV'', ''EAS'', ''PEP'', ''WXR'']"

definition clean_code :: "string \<Rightarrow> string" where
  "clean_code raw = toUpper (trimSpace raw)"

definition normalizeOriginators :: "string list \<Rightarrow> string list" where
  "normalizeOriginators values =
     sort (collect_unique (\<lambda>raw. if clean_code raw \<in> set allowedOriginatorCodes then Some (clean_code raw) else None) id [] values)"

definition normalizeEventCodes :: "string list \<Rightarrow> string list" where
  "normalizeEventCodes values =
     sort (collect_unique (\<lambda>raw. if validEventCode (clean_code raw) then Some (clean_code raw) else None) id [] values)"

definition normalizeCIDRs :: "string list \<Rightarrow> string list" where
  "normalizeCIDRs values =
     sort (collect_unique (\<lambda>raw. if trimSpace raw \<noteq> [] then Some (trimSpace raw) else None) id [] values)"

text \<open>\<open>validateAccount\<close>: the account with its fields cleaned, or the first rule it breaks. The stages follow the
  source: identity and sender, originator name, codes, networks.\<close>

definition clean_sender :: "account \<Rightarrow> storeError + account" where
  "clean_sender a =
     (let a = a\<lparr>ac_Username := trimSpace (ac_Username a)\<rparr>
      in if \<not> validUsername (ac_Username a)
         then Inl (StoreError ''username must be 1 to 50 letters, numbers, periods, underscores, or hyphens'' [])
         else
           (let a = (if ac_IsAdmin a then a\<lparr>ac_AccountLocked := False\<rparr> else a);
                a = a\<lparr>ac_SenderID := toUpper (replaceByte CHR ''-'' CHR ''/'' (trimSpace (ac_SenderID a)))\<rparr>
            in if ac_ForceSenderID a \<and> \<not> validSenderID (ac_SenderID a)
               then Inl (StoreError ''forced SAME sender ID must be exactly 8 ASCII letters, numbers, or slashes'' [])
               else Inr (if ac_ForceSenderID a then a else a\<lparr>ac_SenderID := []\<rparr>)))"

definition clean_originator_name :: "account \<Rightarrow> storeError + account" where
  "clean_originator_name a =
     (let a = a\<lparr>ac_OriginatorNameText := trimSpace (ac_OriginatorNameText a)\<rparr>
      in if length (ac_OriginatorNameText a) > 100 \<or>
            list_ex (\<lambda>c. c = CHR 0x0D \<or> c = CHR 0x0A \<or> c = CHR 0x00) (ac_OriginatorNameText a)
         then Inl (StoreError ''originator name must be at most 100 characters without control characters'' [])
         else if ac_ForceOriginatorName a \<and> ac_OriginatorNameText a = []
         then Inl (StoreError ''originator name is required when the override is enabled'' [])
         else
           (let a = (if ac_ForceOriginatorName a then a
                     else a\<lparr>ac_OriginatorNameText := [], ac_IncludeIPInBrackets := False\<rparr>)
            in if ac_PasswordExpiryDays a < 0 \<or> ac_PasswordExpiryDays a > 3650
               then Inl (StoreError ''password expiry must be between 0 and 3650 days'' [])
               else Inr a))"

definition clean_codes :: "account \<Rightarrow> storeError + account" where
  "clean_codes a =
     (case find (\<lambda>raw. clean_code raw \<noteq> [] \<and> clean_code raw \<notin> set allowedOriginatorCodes) (ac_AllowedOriginators a) of
        Some raw \<Rightarrow> Inl (StoreError ''unsupported originator %q'' [clean_code raw])
      | None \<Rightarrow>
          (let a = a\<lparr>ac_AllowedOriginators := normalizeOriginators (ac_AllowedOriginators a)\<rparr>
           in if ac_AllowOrigination a \<and> ac_AllowedOriginators a = []
              then Inl (StoreError ''at least one originator must be allowed'' [])
              else
                (case find (\<lambda>raw. \<not> validEventCode (clean_code raw)) (ac_BlockedEventCodes a) of
                   Some raw \<Rightarrow> Inl (StoreError ''invalid blocked SAME event code %q'' [raw])
                 | None \<Rightarrow> Inr (a\<lparr>ac_BlockedEventCodes := normalizeEventCodes (ac_BlockedEventCodes a)\<rparr>))))"

definition clean_networks :: "account \<Rightarrow> storeError + account" where
  "clean_networks a =
     (case find (\<lambda>cidr. \<not> validCIDR cidr) (ac_CIDRWhitelist a) of
        Some cidr \<Rightarrow> Inl (StoreError ''invalid CIDR %q'' [cidr])
      | None \<Rightarrow> Inr (a\<lparr>ac_CIDRWhitelist := normalizeCIDRs (ac_CIDRWhitelist a)\<rparr>))"

definition and_then :: "'e + 'a \<Rightarrow> ('a \<Rightarrow> 'e + 'b) \<Rightarrow> 'e + 'b" where
  "and_then r f = (case r of Inl e \<Rightarrow> Inl e | Inr x \<Rightarrow> f x)"

definition validateAccount :: "account \<Rightarrow> storeError + account" where
  "validateAccount a =
     and_then (clean_sender a) (\<lambda>a. and_then (clean_originator_name a) (\<lambda>a. and_then (clean_codes a) clean_networks))"

section \<open>Rows\<close>

definition keys_ok :: "users \<Rightarrow> bool" where
  "keys_ok us \<longleftrightarrow> distinct (map ac_ID us) \<and> distinct (map (\<lambda>a. toLower (ac_Username a)) us)"

text \<open>What \<open>scanAccount\<close> makes of a row.\<close>

definition scanAccount :: "account \<Rightarrow> storeError + account" where
  "scanAccount row =
     (case find (\<lambda>code. clean_code code \<notin> set allowedOriginatorCodes) (ac_AllowedOriginators row) of
        Some code \<Rightarrow> Inl (StoreError ''account contains unsupported originator policy %q'' [code])
      | None \<Rightarrow>
          (case find (\<lambda>cidr. \<not> validCIDR cidr) (ac_CIDRWhitelist row) of
             Some cidr \<Rightarrow> Inl (StoreError ''account contains invalid CIDR policy %q'' [cidr])
           | None \<Rightarrow>
               Inr (row\<lparr>ac_MFAConfigured := (trimSpace (ac_mfaSecret row) \<noteq> []),
                        ac_AllowedOriginators := normalizeOriginators (ac_AllowedOriginators row),
                        ac_BlockedEventCodes := normalizeEventCodes (ac_BlockedEventCodes row),
                        ac_CIDRWhitelist := normalizeCIDRs (ac_CIDRWhitelist row)\<rparr>)))"

definition queryOne :: "(account \<Rightarrow> bool) \<Rightarrow> users \<Rightarrow> storeError + account" where
  "queryOne P us = (case find P us of None \<Rightarrow> Inl AccountNotFound | Some row \<Rightarrow> scanAccount row)"

definition ByUsername :: "string \<Rightarrow> users \<Rightarrow> storeError + account" where
  "ByUsername username us = queryOne (\<lambda>row. toLower (ac_Username row) = toLower (trimSpace username)) us"

definition ByID :: "string \<Rightarrow> users \<Rightarrow> storeError + account" where
  "ByID i us = queryOne (\<lambda>row. ac_ID row = trimSpace i) us"

fun scan_rows :: "users \<Rightarrow> storeError + account list" where
  "scan_rows [] = Inr []"
| "scan_rows (row # rows) =
     (case scanAccount row of
        Inl e \<Rightarrow> Inl e
      | Inr a \<Rightarrow> (case scan_rows rows of Inl e \<Rightarrow> Inl e | Inr rest \<Rightarrow> Inr (a # rest)))"

definition List :: "users \<Rightarrow> storeError + account list" where
  "List us = scan_rows (sort_key (\<lambda>row. toLower (ac_Username row)) us)"

text \<open>\<open>UPDATE users SET \<dots> WHERE \<dots>\<close>: the new rows and the number of rows affected.\<close>

definition update_where :: "(account \<Rightarrow> bool) \<Rightarrow> (account \<Rightarrow> account) \<Rightarrow> users \<Rightarrow> users \<times> nat" where
  "update_where P f us = (map (\<lambda>row. if P row then f row else row) us, length (filter P us))"

definition requireAffected :: "users \<times> nat \<Rightarrow> users \<times> (storeError + unit)" where
  "requireAffected r = (case r of (us, count) \<Rightarrow> (us, if count = 0 then Inl AccountNotFound else Inr ()))"

definition require_current :: "users \<times> nat \<Rightarrow> users \<times> (storeError + unit)" where
  "require_current r = (case r of (us, count) \<Rightarrow> (us, if count \<noteq> 1 then Inl VersionChanged else Inr ()))"

definition versionRequired :: storeError where
  "versionRequired = StoreError ''expected account authentication version is required'' []"

section \<open>Operations\<close>

definition new_row :: "string \<Rightarrow> instant \<Rightarrow> account \<Rightarrow> string \<Rightarrow> account" where
  "new_row uuid now a passwordHash =
     a\<lparr>ac_ID := (if ac_ID a = [] then uuid else ac_ID a),
       ac_passwordHash := passwordHash,
       ac_SenderID := trimSpace (ac_SenderID a),
       ac_LastIP := trimSpace (ac_LastIP a),
       ac_OriginatorNameText := trimSpace (ac_OriginatorNameText a),
       ac_mfaSecret := trimSpace (ac_mfaSecret a),
       ac_PasswordChangedAt := (if ac_PasswordChangedAt a = 0 then now else ac_PasswordChangedAt a),
       ac_authVersion := max (ac_authVersion a) 1,
       ac_CreatedAt := now, ac_UpdatedAt := now\<rparr>"

definition Create :: "string \<Rightarrow> instant \<Rightarrow> account \<Rightarrow> string \<Rightarrow> users \<Rightarrow> users \<times> (storeError + unit)" where
  "Create uuid now a passwordHash us =
     (case validateAccount a of
        Inl e \<Rightarrow> (us, Inl e)
      | Inr a \<Rightarrow>
          if trimSpace passwordHash = [] then (us, Inl (StoreError ''password hash is required'' []))
          else if \<not> keys_ok (us @ [new_row uuid now a passwordHash]) then (us, Inl (StoreError ''create account: %w'' []))
          else (us @ [new_row uuid now a passwordHash], Inr ()))"

definition other_admin :: "string \<Rightarrow> users \<Rightarrow> bool" where
  "other_admin excludedID us \<longleftrightarrow> list_ex (\<lambda>row. ac_ID row \<noteq> excludedID \<and> ac_IsAdmin row \<and> \<not> ac_AccountLocked row) us"

definition requireOtherUnlockedAdministrator :: "string \<Rightarrow> users \<Rightarrow> storeError + unit" where
  "requireOtherUnlockedAdministrator excludedID us =
     (if other_admin excludedID us then Inr ()
      else Inl (StoreError ''at least one other unlocked administrator account is required'' []))"

definition saved_row :: "instant \<Rightarrow> account \<Rightarrow> account \<Rightarrow> account" where
  "saved_row now a row =
     row\<lparr>ac_Username := ac_Username a, ac_SenderID := trimSpace (ac_SenderID a), ac_ForceSenderID := ac_ForceSenderID a,
         ac_AllowOrigination := ac_AllowOrigination a, ac_AllowedOriginators := ac_AllowedOriginators a,
         ac_BlockedEventCodes := ac_BlockedEventCodes a, ac_ForceOriginatorName := ac_ForceOriginatorName a,
         ac_OriginatorNameText := trimSpace (ac_OriginatorNameText a), ac_IncludeIPInBrackets := ac_IncludeIPInBrackets a,
         ac_CanViewLogs := ac_CanViewLogs a, ac_AllowPersistentSessions := ac_AllowPersistentSessions a,
         ac_PasswordExpiryDays := ac_PasswordExpiryDays a, ac_AllowUserPasswordChange := ac_AllowUserPasswordChange a,
         ac_LoggingEnabled := ac_LoggingEnabled a, ac_AccountLocked := ac_AccountLocked a, ac_MFAEnabled := ac_MFAEnabled a,
         ac_IsAdmin := ac_IsAdmin a, ac_CIDRWhitelist := ac_CIDRWhitelist a,
         ac_authVersion := ac_authVersion row + 1, ac_UpdatedAt := now\<rparr>"

definition Save :: "instant \<Rightarrow> account \<Rightarrow> users \<Rightarrow> users \<times> (storeError + unit)" where
  "Save now a us =
     (case validateAccount a of
        Inl e \<Rightarrow> (us, Inl e)
      | Inr a \<Rightarrow>
          (case find (\<lambda>row. ac_ID row = ac_ID a) us of
             None \<Rightarrow> (us, Inl AccountNotFound)
           | Some before \<Rightarrow>
               if ac_IsAdmin before \<and> (\<not> ac_IsAdmin a \<or> ac_AccountLocked a) \<and> \<not> other_admin (ac_ID a) us
               then (us, requireOtherUnlockedAdministrator (ac_ID a) us)
               else
                 (case update_where (\<lambda>row. ac_ID row = ac_ID a) (saved_row now a) us of
                    (us', count) \<Rightarrow>
                      if \<not> keys_ok us' then (us, Inl (StoreError ''save account: %w'' []))
                      else requireAffected (us', count))))"

definition with_password :: "instant \<Rightarrow> string \<Rightarrow> account \<Rightarrow> account" where
  "with_password now passwordHash row =
     row\<lparr>ac_passwordHash := passwordHash, ac_PasswordChangedAt := now, ac_FailedLoginAttempts := 0,
         ac_failedLoginWindowStartedAt := 0, ac_AccountLocked := False, ac_authVersion := ac_authVersion row + 1,
         ac_UpdatedAt := now\<rparr>"

definition SetPassword :: "instant \<Rightarrow> string \<Rightarrow> string \<Rightarrow> users \<Rightarrow> users \<times> (storeError + unit)" where
  "SetPassword now accountID passwordHash us =
     requireAffected (update_where (\<lambda>row. ac_ID row = accountID) (with_password now passwordHash) us)"

definition SetPasswordIfAuthVersion :: "instant \<Rightarrow> string \<Rightarrow> string \<Rightarrow> int \<Rightarrow> users \<Rightarrow> users \<times> (storeError + unit)" where
  "SetPasswordIfAuthVersion now accountID passwordHash expectedVersion us =
     (if expectedVersion < 1 then (us, Inl versionRequired)
      else require_current (update_where
        (\<lambda>row. ac_ID row = accountID \<and> ac_authVersion row = expectedVersion \<and> \<not> ac_AccountLocked row \<and>
               ac_AllowUserPasswordChange row) (with_password now passwordHash) us))"

definition with_mfa :: "instant \<Rightarrow> string \<Rightarrow> bool \<Rightarrow> account \<Rightarrow> account" where
  "with_mfa now secret enabled row =
     row\<lparr>ac_mfaSecret := trimSpace secret, ac_MFAEnabled := enabled, ac_mfaLastStep := 0,
         ac_authVersion := ac_authVersion row + 1, ac_UpdatedAt := now\<rparr>"

definition SetMFA :: "instant \<Rightarrow> string \<Rightarrow> string \<Rightarrow> bool \<Rightarrow> users \<Rightarrow> users \<times> (storeError + unit)" where
  "SetMFA now accountID encryptedSecret enabled us =
     requireAffected (update_where (\<lambda>row. ac_ID row = accountID) (with_mfa now encryptedSecret enabled) us)"

definition SetMFAIfAuthVersion :: "instant \<Rightarrow> string \<Rightarrow> string \<Rightarrow> int \<Rightarrow> users \<Rightarrow> users \<times> (storeError + unit)" where
  "SetMFAIfAuthVersion now accountID encryptedSecret expectedVersion us =
     (if expectedVersion < 1 then (us, Inl versionRequired)
      else require_current (update_where
        (\<lambda>row. ac_ID row = accountID \<and> ac_authVersion row = expectedVersion \<and> \<not> ac_AccountLocked row \<and> ac_mfaSecret row = [])
        (with_mfa now encryptedSecret False) us))"

definition EnableMFA :: "instant \<Rightarrow> string \<Rightarrow> users \<Rightarrow> users \<times> (storeError + unit)" where
  "EnableMFA now accountID us =
     requireAffected (update_where (\<lambda>row. ac_ID row = accountID) (\<lambda>row. row\<lparr>ac_MFAEnabled := True, ac_UpdatedAt := now\<rparr>) us)"

definition EnableMFAIfAuthVersion :: "instant \<Rightarrow> string \<Rightarrow> int \<Rightarrow> users \<Rightarrow> users \<times> (storeError + unit)" where
  "EnableMFAIfAuthVersion now accountID expectedVersion us =
     (if expectedVersion < 1 then (us, Inl versionRequired)
      else require_current (update_where
        (\<lambda>row. ac_ID row = accountID \<and> ac_authVersion row = expectedVersion \<and> \<not> ac_AccountLocked row \<and> ac_mfaSecret row \<noteq> [])
        (\<lambda>row. row\<lparr>ac_MFAEnabled := True, ac_UpdatedAt := now\<rparr>) us))"

definition AcceptMFAStep :: "instant \<Rightarrow> string \<Rightarrow> int \<Rightarrow> int \<Rightarrow> users \<Rightarrow> users \<times> (storeError + unit)" where
  "AcceptMFAStep now accountID expectedVersion step us =
     (if expectedVersion < 1 then (us, Inl versionRequired)
      else
        (case update_where
           (\<lambda>row. ac_ID row = accountID \<and> ac_authVersion row = expectedVersion \<and> \<not> ac_AccountLocked row \<and> ac_mfaLastStep row < step)
           (\<lambda>row. row\<lparr>ac_mfaLastStep := step, ac_UpdatedAt := now\<rparr>) us of
           (us', count) \<Rightarrow> (us', if count = 0 then Inl (StoreError ''MFA code was already used'' []) else Inr ())))"

text \<open>The new row of a failed login, and whether the account has just been locked.\<close>

definition failed_row :: "int \<Rightarrow> duration \<Rightarrow> instant \<Rightarrow> account \<Rightarrow> account" where
  "failed_row lockAt window now row =
     (let started = ac_failedLoginWindowStartedAt row;
          fresh = (started = 0 \<or> now < started \<or> now - started \<ge> window);
          attempts = (if fresh then 0 else ac_FailedLoginAttempts row) + 1;
          newlyLocked = (\<not> ac_IsAdmin row \<and> \<not> ac_AccountLocked row \<and> attempts \<ge> lockAt)
      in row\<lparr>ac_FailedLoginAttempts := attempts,
             ac_failedLoginWindowStartedAt := (if fresh \<or> newlyLocked then now else started),
             ac_AccountLocked := (ac_AccountLocked row \<or> newlyLocked),
             ac_authVersion := ac_authVersion row + (if newlyLocked then 1 else 0),
             ac_UpdatedAt := now\<rparr>)"

definition recordLoginFailure ::
  "instant \<Rightarrow> string \<Rightarrow> int \<Rightarrow> int \<Rightarrow> duration \<Rightarrow> instant \<Rightarrow> users \<Rightarrow> users \<times> (storeError + account)" where
  "recordLoginFailure clock accountID expectedVersion lockAt window at us =
     (let lockAt = (if lockAt \<le> 0 then 5 else lockAt);
          window = (if window \<le> 0 then 15 * minute else window);
          now = (if at = 0 then clock else at)
      in case find (\<lambda>row. ac_ID row = accountID) us of
           None \<Rightarrow> (us, Inl AccountNotFound)
         | Some row \<Rightarrow>
             if expectedVersion > 0 \<and> ac_authVersion row \<noteq> expectedVersion then (us, Inl VersionChanged)
             else
               (case update_where
                      (\<lambda>row. ac_ID row = accountID \<and> (expectedVersion > 0 \<longrightarrow> ac_authVersion row = expectedVersion))
                      (failed_row lockAt window now) us of
                  (us', count) \<Rightarrow>
                    if count \<noteq> 1 then (us, Inl (if expectedVersion > 0 then VersionChanged else AccountNotFound))
                    else (us', ByID accountID us')))"

definition RecordLoginFailure :: "instant \<Rightarrow> string \<Rightarrow> int \<Rightarrow> duration \<Rightarrow> instant \<Rightarrow> users \<Rightarrow> users \<times> (storeError + account)" where
  "RecordLoginFailure clock accountID lockAt window at us = recordLoginFailure clock accountID 0 lockAt window at us"

definition RecordLoginFailureIfAuthVersion ::
  "instant \<Rightarrow> string \<Rightarrow> int \<Rightarrow> int \<Rightarrow> duration \<Rightarrow> instant \<Rightarrow> users \<Rightarrow> users \<times> (storeError + account)" where
  "RecordLoginFailureIfAuthVersion clock accountID expectedVersion lockAt window at us =
     (if expectedVersion < 1 then (us, Inl versionRequired)
      else recordLoginFailure clock accountID expectedVersion lockAt window at us)"

definition RecordLoginSuccess :: "instant \<Rightarrow> string \<Rightarrow> string \<Rightarrow> int \<Rightarrow> users \<Rightarrow> users \<times> (storeError + unit)" where
  "RecordLoginSuccess now accountID clientAddress expectedVersion us =
     (if expectedVersion < 1 then (us, Inl versionRequired)
      else require_current (update_where
        (\<lambda>row. ac_ID row = accountID \<and> ac_authVersion row = expectedVersion \<and> \<not> ac_AccountLocked row)
        (\<lambda>row. row\<lparr>ac_LastIP := trimSpace clientAddress, ac_LastLoginAt := now, ac_FailedLoginAttempts := 0,
                   ac_failedLoginWindowStartedAt := 0, ac_UpdatedAt := now\<rparr>) us))"

definition unlocked_row :: "instant \<Rightarrow> account \<Rightarrow> account" where
  "unlocked_row now row =
     row\<lparr>ac_AccountLocked := False, ac_FailedLoginAttempts := 0, ac_failedLoginWindowStartedAt := 0,
         ac_authVersion := ac_authVersion row + 1, ac_UpdatedAt := now\<rparr>"

definition Unlock :: "instant \<Rightarrow> string \<Rightarrow> users \<Rightarrow> users \<times> (storeError + unit)" where
  "Unlock now accountID us = requireAffected (update_where (\<lambda>row. ac_ID row = accountID) (unlocked_row now) us)"

definition UnlockLockedIfAuthVersion :: "instant \<Rightarrow> string \<Rightarrow> int \<Rightarrow> instant \<Rightarrow> users \<Rightarrow> users \<times> (storeError + bool)" where
  "UnlockLockedIfAuthVersion clock accountID expectedVersion at us =
     (if expectedVersion < 1 then (us, Inl versionRequired)
      else
        (case update_where (\<lambda>row. ac_ID row = accountID \<and> ac_authVersion row = expectedVersion \<and> ac_AccountLocked row)
                (unlocked_row (if at = 0 then clock else at)) us of
           (us', count) \<Rightarrow> (us', Inr (count = 1))))"

definition bumped_row :: "instant \<Rightarrow> account \<Rightarrow> account" where
  "bumped_row now row = row\<lparr>ac_authVersion := ac_authVersion row + 1, ac_UpdatedAt := now\<rparr>"

definition BumpAuthVersion :: "instant \<Rightarrow> string \<Rightarrow> users \<Rightarrow> users \<times> (storeError + unit)" where
  "BumpAuthVersion now accountID us =
     requireAffected (update_where (\<lambda>row. ac_ID row = accountID) (bumped_row now) us)"

definition store_Delete :: "string \<Rightarrow> users \<Rightarrow> users \<times> (storeError + unit)" where
  "store_Delete accountID us =
     (case find (\<lambda>row. ac_ID row = accountID) us of
        None \<Rightarrow> (us, Inl AccountNotFound)
      | Some before \<Rightarrow>
          if ac_IsAdmin before \<and> \<not> other_admin accountID us then (us, requireOtherUnlockedAdministrator accountID us)
          else (filter (\<lambda>row. ac_ID row \<noteq> accountID) us, Inr ()))"


lemma bumped_row_simps [simp]:
  "ac_ID (bumped_row now row) = ac_ID row" "ac_authVersion (bumped_row now row) = ac_authVersion row + 1"
  by (simp_all add: bumped_row_def)

section \<open>Histories of the table\<close>

datatype storeCall =
    DoCreate string instant account string
  | DoSave instant account
  | DoSetPassword instant string string
  | DoSetPasswordIf instant string string int
  | DoSetMFA instant string string bool
  | DoSetMFAIf instant string string int
  | DoEnableMFA instant string
  | DoEnableMFAIf instant string int
  | DoAcceptMFAStep instant string int int
  | DoFailure instant string int duration instant
  | DoFailureIf instant string int int duration instant
  | DoSuccess instant string string int
  | DoUnlock instant string
  | DoUnlockIf instant string int instant
  | DoBump instant string
  | DoDelete string

fun store_call :: "storeCall \<Rightarrow> users \<Rightarrow> users" where
  "store_call (DoCreate uuid now a h) us = fst (Create uuid now a h us)"
| "store_call (DoSave now a) us = fst (Save now a us)"
| "store_call (DoSetPassword now i h) us = fst (SetPassword now i h us)"
| "store_call (DoSetPasswordIf now i h v) us = fst (SetPasswordIfAuthVersion now i h v us)"
| "store_call (DoSetMFA now i secret enabled) us = fst (SetMFA now i secret enabled us)"
| "store_call (DoSetMFAIf now i secret v) us = fst (SetMFAIfAuthVersion now i secret v us)"
| "store_call (DoEnableMFA now i) us = fst (EnableMFA now i us)"
| "store_call (DoEnableMFAIf now i v) us = fst (EnableMFAIfAuthVersion now i v us)"
| "store_call (DoAcceptMFAStep now i v step) us = fst (AcceptMFAStep now i v step us)"
| "store_call (DoFailure clock i lockAt window at) us = fst (RecordLoginFailure clock i lockAt window at us)"
| "store_call (DoFailureIf clock i v lockAt window at) us = fst (RecordLoginFailureIfAuthVersion clock i v lockAt window at us)"
| "store_call (DoSuccess now i addr v) us = fst (RecordLoginSuccess now i addr v us)"
| "store_call (DoUnlock now i) us = fst (Unlock now i us)"
| "store_call (DoUnlockIf clock i v at) us = fst (UnlockLockedIfAuthVersion clock i v at us)"
| "store_call (DoBump now i) us = fst (BumpAuthVersion now i us)"
| "store_call (DoDelete i) us = fst (store_Delete i us)"

definition store_run :: "storeCall list \<Rightarrow> users \<Rightarrow> users" where
  "store_run calls us = foldl (\<lambda>us call. store_call call us) us calls"

text \<open>A call that puts a row with this identifier into the table.\<close>

fun creates :: "string \<Rightarrow> storeCall \<Rightarrow> bool" where
  "creates i (DoCreate uuid now a h) = (i = uuid \<or> i = ac_ID a)"
| "creates i _ = False"

text \<open>How a row may change: it keeps its identifier, and its authentication version never falls. While the
  version stays the same, so do the credentials and the policy, the last accepted MFA step does not
  fall, and MFA is not switched off.\<close>

definition same_credentials :: "account \<Rightarrow> account \<Rightarrow> bool" where
  "same_credentials r r' \<longleftrightarrow> ac_passwordHash r' = ac_passwordHash r \<and> ac_Username r' = ac_Username r \<and>
     ac_AccountLocked r' = ac_AccountLocked r \<and> ac_mfaSecret r' = ac_mfaSecret r \<and>
     ac_AllowedOriginators r' = ac_AllowedOriginators r \<and> ac_CIDRWhitelist r' = ac_CIDRWhitelist r \<and>
     ac_mfaLastStep r \<le> ac_mfaLastStep r' \<and> (ac_MFAEnabled r \<longrightarrow> ac_MFAEnabled r')"

definition succeeds :: "account \<Rightarrow> account \<Rightarrow> bool" where
  "succeeds r r' \<longleftrightarrow> ac_ID r' = ac_ID r \<and> ac_authVersion r \<le> ac_authVersion r' \<and>
     (ac_authVersion r = ac_authVersion r' \<longrightarrow> same_credentials r r')"

definition same_role :: "account \<Rightarrow> account \<Rightarrow> bool" where
  "same_role r r' \<longleftrightarrow> ac_Username r' = ac_Username r \<and> ac_IsAdmin r' = ac_IsAdmin r \<and>
     (ac_IsAdmin r \<and> \<not> ac_AccountLocked r \<longrightarrow> \<not> ac_AccountLocked r')"

lemma succeeds_refl [simp]: "succeeds r r"
  by (simp add: succeeds_def same_credentials_def)

lemma same_role_refl [simp]: "same_role r r"
  by (simp add: same_role_def)

lemma same_credentials_trans: "same_credentials a b \<Longrightarrow> same_credentials b c \<Longrightarrow> same_credentials a c"
  unfolding same_credentials_def by (elim conjE) (intro conjI, simp_all)

lemma succeeds_trans: "succeeds a b \<Longrightarrow> succeeds b c \<Longrightarrow> succeeds a c"
  unfolding succeeds_def using same_credentials_trans [of a b c] by (elim conjE) (intro conjI impI, simp_all)

fun row_change :: "storeCall \<Rightarrow> bool" where
  "row_change (DoCreate uuid now a h) = False"
| "row_change (DoSave now a) = False"
| "row_change (DoDelete i) = False"
| "row_change _ = True"

lemma failed_row_succeeds: "succeeds row (failed_row lockAt window now row)"
  by (simp add: failed_row_def Let_def succeeds_def same_credentials_def)

lemma failed_row_role: "same_role row (failed_row lockAt window now row)"
  by (simp add: failed_row_def Let_def same_role_def)

definition evolves :: "account \<Rightarrow> account \<Rightarrow> bool" where
  "evolves r r' \<longleftrightarrow> succeeds r r' \<and> same_role r r'"

lemma evolves_rows: "list_all2 evolves us us"
  by (simp add: list_all2_same evolves_def)

lemma evolves_update:
  "(\<And>row. P row \<Longrightarrow> evolves row (f row)) \<Longrightarrow> list_all2 evolves us (fst (update_where P f us))"
  by (simp add: update_where_def list_all2_conv_all_nth) (simp add: evolves_def)

lemma fst_requireAffected [simp]: "fst (requireAffected r) = fst r"
  by (simp add: requireAffected_def split: prod.split)

lemma fst_require_current [simp]: "fst (require_current r) = fst r"
  by (simp add: require_current_def split: prod.split)

lemma evolves_changes:
  "evolves row (with_password now h row)" "evolves row (with_mfa now secret enabled row)" "evolves row (unlocked_row now row)"
  "evolves row (failed_row lockAt window now row)" "evolves row (bumped_row now row)"
  by (simp_all add: evolves_def failed_row_succeeds failed_row_role)
     (simp_all add: with_password_def with_mfa_def unlocked_row_def bumped_row_def succeeds_def same_role_def)

lemma failure_rows:
  "fst (recordLoginFailure clock i v lockAt window at us) = us \<or>
   (\<exists>P lockAt' window' now. fst (recordLoginFailure clock i v lockAt window at us) = fst (update_where P (failed_row lockAt' window' now) us))"
  unfolding recordLoginFailure_def Let_def case_prod_beta
  by (cases "find (\<lambda>row. ac_ID row = i) us") (simp_all, blast)

lemma evolves_failure: "list_all2 evolves us (fst (recordLoginFailure clock i v lockAt window at us))"
proof -
  have upd: "list_all2 evolves us (fst (update_where P (failed_row l w now) us))" for P l w now
    by (rule evolves_update) (rule evolves_changes)
  from failure_rows [of clock i v lockAt window at us] show ?thesis by (auto simp: evolves_rows upd)
qed

lemmas row_ops = SetPassword_def SetPasswordIfAuthVersion_def SetMFA_def SetMFAIfAuthVersion_def EnableMFA_def
  EnableMFAIfAuthVersion_def AcceptMFAStep_def RecordLoginFailure_def RecordLoginFailureIfAuthVersion_def
  RecordLoginSuccess_def Unlock_def UnlockLockedIfAuthVersion_def BumpAuthVersion_def

lemma row_change_evolves: "row_change call \<Longrightarrow> list_all2 evolves us (store_call call us)"
  by (cases call)
     (auto simp: row_ops case_prod_beta evolves_rows evolves_changes evolves_failure intro!: evolves_update,
      auto simp: evolves_def succeeds_def same_credentials_def same_role_def)

text \<open>What \<open>validateAccount\<close> leaves alone, and that an administrator is not locked.\<close>

definition same_identity :: "account \<Rightarrow> account \<Rightarrow> bool" where
  "same_identity a b \<longleftrightarrow> ac_ID b = ac_ID a \<and> ac_IsAdmin b = ac_IsAdmin a \<and> ac_authVersion b = ac_authVersion a \<and>
     ac_AccountLocked b = ac_AccountLocked a"

lemma clean_sender_keeps:
  "clean_sender a = Inr b \<Longrightarrow>
   ac_ID b = ac_ID a \<and> ac_IsAdmin b = ac_IsAdmin a \<and> ac_authVersion b = ac_authVersion a \<and> (ac_IsAdmin b \<longrightarrow> \<not> ac_AccountLocked b)"
  by (auto simp: clean_sender_def Let_def split: if_split_asm)

lemma clean_originator_name_keeps: "clean_originator_name a = Inr b \<Longrightarrow> same_identity a b"
  by (auto simp: clean_originator_name_def Let_def same_identity_def split: if_split_asm)

lemma clean_codes_keeps: "clean_codes a = Inr b \<Longrightarrow> same_identity a b"
  by (auto simp: clean_codes_def Let_def same_identity_def split: if_split_asm option.split_asm)

lemma clean_networks_keeps: "clean_networks a = Inr b \<Longrightarrow> same_identity a b"
  by (auto simp: clean_networks_def same_identity_def split: option.split_asm)

lemma validateAccount_keeps:
  "validateAccount a = Inr b \<Longrightarrow>
   ac_ID b = ac_ID a \<and> ac_IsAdmin b = ac_IsAdmin a \<and> ac_authVersion b = ac_authVersion a \<and> (ac_IsAdmin b \<longrightarrow> \<not> ac_AccountLocked b)"
  by (auto simp: validateAccount_def and_then_def same_identity_def split: sum.split_asm
      dest!: clean_sender_keeps clean_originator_name_keeps clean_codes_keeps clean_networks_keeps)

text \<open>Every row of the table after a call comes from a row before it.\<close>

lemma create_rows:
  "r \<in> set (fst (Create uuid now a h us)) \<Longrightarrow> r \<in> set us \<or> (\<exists>b. validateAccount a = Inr b \<and> r = new_row uuid now b h)"
  by (auto simp: Create_def split: sum.splits if_split_asm)

lemma new_row_ID: "ac_ID (new_row uuid now b h) = (if ac_ID b = [] then uuid else ac_ID b)"
  by (simp add: new_row_def)

lemma save_rows:
  "fst (Save now a us) = us \<or>
   (\<exists>b before. validateAccount a = Inr b \<and> find (\<lambda>row. ac_ID row = ac_ID b) us = Some before \<and>
      (ac_IsAdmin before \<and> (\<not> ac_IsAdmin b \<or> ac_AccountLocked b) \<longrightarrow> other_admin (ac_ID b) us) \<and>
      fst (Save now a us) = fst (update_where (\<lambda>row. ac_ID row = ac_ID b) (saved_row now b) us) \<and> keys_ok (fst (Save now a us)))"
  by (auto simp: Save_def case_prod_beta split: sum.splits option.splits)

lemma delete_rows:
  "fst (store_Delete i us) = us \<or>
   (\<exists>before. find (\<lambda>row. ac_ID row = i) us = Some before \<and> (ac_IsAdmin before \<longrightarrow> other_admin i us) \<and>
      fst (store_Delete i us) = filter (\<lambda>row. ac_ID row \<noteq> i) us)"
  by (auto simp: store_Delete_def split: option.splits)

lemma saved_row_succeeds: "ac_ID row = ac_ID b \<Longrightarrow> succeeds row (saved_row now b row)"
  by (simp add: saved_row_def succeeds_def)

lemma row_origin:
  assumes "r' \<in> set (store_call call us)" and "\<not> creates (ac_ID r') call"
  shows "\<exists>r\<in>set us. succeeds r r'"
proof (cases "row_change call")
  case True
  from row_change_evolves [OF this, of us] assms(1) show ?thesis
    by (auto simp: list_all2_conv_all_nth in_set_conv_nth evolves_def) (metis nth_mem)
next
  case False
  show ?thesis
  proof (cases call)
    case (DoCreate uuid now a h)
    then have "r' \<in> set us"
      using assms create_rows [of r' uuid now a h us] validateAccount_keeps [of a] by (auto simp: new_row_ID split: if_split_asm)
    then show ?thesis using succeeds_refl by blast
  next
    case (DoSave now a)
    from save_rows [of now a us] show ?thesis
    proof
      assume "fst (Save now a us) = us"
      then show ?thesis using DoSave assms(1) succeeds_refl by (metis store_call.simps(2))
    next
      assume "\<exists>b before. validateAccount a = Inr b \<and> find (\<lambda>row. ac_ID row = ac_ID b) us = Some before \<and>
        (ac_IsAdmin before \<and> (\<not> ac_IsAdmin b \<or> ac_AccountLocked b) \<longrightarrow> other_admin (ac_ID b) us) \<and>
        fst (Save now a us) = fst (update_where (\<lambda>row. ac_ID row = ac_ID b) (saved_row now b) us) \<and> keys_ok (fst (Save now a us))"
      then obtain b where "fst (Save now a us) = fst (update_where (\<lambda>row. ac_ID row = ac_ID b) (saved_row now b) us)" by blast
      then show ?thesis
        using DoSave assms(1) saved_row_succeeds by (auto simp: update_where_def intro: succeeds_refl)
    qed
  next
    case (DoDelete i)
    then show ?thesis using assms(1) delete_rows [of i us] by (auto intro: succeeds_refl)
  qed (use False in simp_all)
qed

section \<open>The contract of the table\<close>

text \<open>What the authentication relies on: a row that is not created anew succeeds an earlier row.\<close>

locale account_table =
  fixes call :: "'c \<Rightarrow> 's \<Rightarrow> 's" and rows :: "'s \<Rightarrow> account set" and creating :: "string \<Rightarrow> 'c \<Rightarrow> bool"
  assumes origin: "r' \<in> rows (call c s) \<Longrightarrow> \<not> creating (ac_ID r') c \<Longrightarrow> \<exists>r\<in>rows s. succeeds r r'"
begin

lemma run_origin:
  "r' \<in> rows (foldl (\<lambda>s c. call c s) s cs) \<Longrightarrow> \<forall>c\<in>set cs. \<not> creating (ac_ID r') c \<Longrightarrow> \<exists>r\<in>rows s. succeeds r r'"
proof (induction cs arbitrary: s)
  case (Cons c cs)
  then obtain r where "r \<in> rows (call c s)" "succeeds r r'" by auto
  moreover from this Cons.prems(2) have "\<not> creating (ac_ID r) c" by (auto simp: succeeds_def)
  ultimately show ?case using origin succeeds_trans by blast
qed (auto intro: succeeds_refl)

text \<open>A version that is outdated stays outdated.\<close>

lemma run_outdated:
  assumes "\<And>r. r \<in> rows s \<Longrightarrow> ac_ID r = i \<Longrightarrow> v < ac_authVersion r" and "\<forall>c\<in>set cs. \<not> creating i c"
    and "r' \<in> rows (foldl (\<lambda>s c. call c s) s cs)" and "ac_ID r' = i"
  shows "v < ac_authVersion r'"
  using run_origin [OF assms(3)] assms(1,2,4) by (fastforce simp: succeeds_def)

text \<open>An MFA step that was used up stays used up for its version.\<close>

lemma run_step_used:
  assumes "\<And>r. r \<in> rows s \<Longrightarrow> ac_ID r = i \<Longrightarrow> ac_authVersion r = v \<Longrightarrow> step \<le> ac_mfaLastStep r"
    and "\<And>r. r \<in> rows s \<Longrightarrow> ac_ID r = i \<Longrightarrow> v \<le> ac_authVersion r" and "\<forall>c\<in>set cs. \<not> creating i c"
    and "r' \<in> rows (foldl (\<lambda>s c. call c s) s cs)" and "ac_ID r' = i" and "ac_authVersion r' = v"
  shows "step \<le> ac_mfaLastStep r'"
proof -
  obtain r where r: "r \<in> rows s" "succeeds r r'" using run_origin [OF assms(4)] assms(3,5) by auto
  then have "ac_ID r = i" "ac_authVersion r = v" using assms(2,5,6) by (auto simp: succeeds_def intro: antisym)
  with r assms(1,6) show ?thesis by (force simp: succeeds_def same_credentials_def)
qed

end

interpretation accounts: account_table store_call set creates
  by unfold_locales (rule row_origin)

section \<open>Keys and administrators\<close>

definition has_admin :: "users \<Rightarrow> bool" where
  "has_admin us \<longleftrightarrow> list_ex (\<lambda>row. ac_IsAdmin row \<and> \<not> ac_AccountLocked row) us"

lemma evolves_keys:
  assumes "list_all2 evolves us us'"
  shows "map ac_ID us' = map ac_ID us \<and> map (\<lambda>a. toLower (ac_Username a)) us' = map (\<lambda>a. toLower (ac_Username a)) us"
  using assms by (induction rule: list_all2_induct) (auto simp: evolves_def succeeds_def same_role_def)

lemma evolves_admin: "list_all2 evolves us us' \<Longrightarrow> has_admin us \<Longrightarrow> has_admin us'"
  by (induction rule: list_all2_induct) (auto simp: has_admin_def evolves_def same_role_def)

lemma keys_kept:
  assumes "keys_ok us"
  shows "keys_ok (store_call call us)"
proof (cases "row_change call")
  case True
  from evolves_keys [OF row_change_evolves [OF this, of us]] assms show ?thesis by (simp add: keys_ok_def)
next
  case False
  have filtered: "keys_ok (filter P us)" for P using assms by (simp add: keys_ok_def distinct_map_filter)
  show ?thesis
  proof (cases call)
    case (DoSave now a)
    with save_rows [of now a us] assms show ?thesis by (metis store_call.simps(2))
  next
    case (DoDelete i)
    with delete_rows [of i us] assms filtered show ?thesis by (metis store_call.simps(16))
  qed (use False assms in \<open>auto simp: Create_def split: sum.split\<close>)
qed

lemma unique_row: "keys_ok us \<Longrightarrow> find (\<lambda>row. ac_ID row = i) us = Some row \<Longrightarrow> r \<in> set us \<Longrightarrow> ac_ID r = i \<Longrightarrow> r = row"
  by (auto simp: keys_ok_def distinct_map inj_on_def dest!: find_SomeD)

lemma row_untouched:
  "r \<in> set us \<Longrightarrow> \<not> P r \<Longrightarrow> ac_IsAdmin r \<Longrightarrow> \<not> ac_AccountLocked r \<Longrightarrow> has_admin (fst (update_where P f us))"
  by (force simp: has_admin_def list_ex_iff update_where_def)

lemma row_updated:
  "r \<in> set us \<Longrightarrow> P r \<Longrightarrow> ac_IsAdmin (f r) \<Longrightarrow> \<not> ac_AccountLocked (f r) \<Longrightarrow> has_admin (fst (update_where P f us))"
  by (force simp: has_admin_def list_ex_iff update_where_def)

lemma admin_saved:
  assumes "keys_ok us" and "has_admin us" and b: "validateAccount a = Inr b"
    and before: "find (\<lambda>row. ac_ID row = ac_ID b) us = Some before"
    and other: "ac_IsAdmin before \<and> (\<not> ac_IsAdmin b \<or> ac_AccountLocked b) \<longrightarrow> other_admin (ac_ID b) us"
  shows "has_admin (fst (update_where (\<lambda>row. ac_ID row = ac_ID b) (saved_row now b) us))"
proof -
  obtain r where r: "r \<in> set us" "ac_IsAdmin r" "\<not> ac_AccountLocked r" using assms(2) by (auto simp: has_admin_def list_ex_iff)
  show ?thesis
  proof (cases "ac_ID r = ac_ID b")
    case True
    then have "r = before" using unique_row [OF assms(1) before r(1)] by simp
    show ?thesis
    proof (cases "ac_IsAdmin b \<and> \<not> ac_AccountLocked b")
      case stays: True
      show ?thesis by (rule row_updated [where P = "\<lambda>row. ac_ID row = ac_ID b", OF r(1)]) (use True stays in \<open>simp_all add: saved_row_def\<close>)
    next
      case False
      with other r \<open>r = before\<close> obtain q where "q \<in> set us" "ac_ID q \<noteq> ac_ID b" "ac_IsAdmin q" "\<not> ac_AccountLocked q"
        by (auto simp: other_admin_def list_ex_iff)
      then show ?thesis by (auto intro: row_untouched)
    qed
  next
    case False
    with r show ?thesis by (auto intro: row_untouched)
  qed
qed

lemma admin_kept:
  assumes "keys_ok us" and "has_admin us"
  shows "has_admin (store_call call us)"
proof (cases "row_change call")
  case True
  from evolves_admin [OF row_change_evolves [OF this] assms(2)] show ?thesis .
next
  case False
  show ?thesis
  proof (cases call)
    case (DoCreate uuid now a h)
    with assms show ?thesis by (auto simp: Create_def has_admin_def split: sum.split)
  next
    case (DoSave now a)
    from save_rows [of now a us] show ?thesis
      by (elim disjE exE conjE) (simp_all add: DoSave assms admin_saved [OF assms])
  next
    case (DoDelete i)
    from delete_rows [of i us] show ?thesis
    proof (elim disjE exE conjE)
      fix before
      assume f: "find (\<lambda>row. ac_ID row = i) us = Some before" and o: "ac_IsAdmin before \<longrightarrow> other_admin i us"
        and d: "fst (store_Delete i us) = filter (\<lambda>row. ac_ID row \<noteq> i) us"
      obtain r where r: "r \<in> set us" "ac_IsAdmin r" "\<not> ac_AccountLocked r" using assms(2) by (auto simp: has_admin_def list_ex_iff)
      from unique_row [OF assms(1) f r(1)] r o show ?thesis
        by (auto simp: DoDelete d has_admin_def list_ex_iff other_admin_def)
    qed (use DoDelete assms in simp)
  qed (use False in simp_all)
qed

section \<open>Properties\<close>

text \<open>C10: whatever operations are run on the accounts, an unlocked administrator remains, and the keys of the
  table stay unique.\<close>

theorem administrator_remains:
  assumes "keys_ok us" and "has_admin us"
  shows "keys_ok (store_run calls us) \<and> has_admin (store_run calls us)"
  using assms unfolding store_run_def
  by (induction calls arbitrary: us) (simp_all add: keys_kept admin_kept)

lemma updated_row: "r \<in> set (fst (update_where P f us)) \<Longrightarrow> \<exists>x\<in>set us. r = (if P x then f x else x)"
  by (auto simp: update_where_def)

lemma accepted_step:
  assumes "keys_ok us" and "snd (AcceptMFAStep now i v step us) = Inr ()" and "r \<in> set (fst (AcceptMFAStep now i v step us))" and "ac_ID r = i"
  shows "ac_authVersion r = v \<and> ac_mfaLastStep r = step"
proof -
  let ?P = "\<lambda>row. ac_ID row = i \<and> ac_authVersion row = v \<and> \<not> ac_AccountLocked row \<and> ac_mfaLastStep row < step"
  obtain row where row: "row \<in> set us" "?P row"
    using assms(2) by (auto simp: AcceptMFAStep_def update_where_def filter_empty_conv split: if_split_asm)
  have only: "x = row" if "x \<in> set us" "ac_ID x = i" for x
    using assms(1) that row by (auto simp: keys_ok_def distinct_map inj_on_def)
  have "fst (AcceptMFAStep now i v step us) = fst (update_where ?P (\<lambda>row. row\<lparr>ac_mfaLastStep := step, ac_UpdatedAt := now\<rparr>) us)"
    using assms(2) by (simp add: AcceptMFAStep_def case_prod_beta split: if_split_asm)
  with assms(3) obtain x where "x \<in> set us" "r = (if ?P x then x\<lparr>ac_mfaLastStep := step, ac_UpdatedAt := now\<rparr> else x)"
    using updated_row [of r ?P "\<lambda>row. row\<lparr>ac_mfaLastStep := step, ac_UpdatedAt := now\<rparr>" us] by metis
  moreover from this assms(4) have "x = row" by (intro only) (auto split: if_split_asm)
  ultimately show ?thesis using row(2) by simp
qed

text \<open>C11: an MFA code is accepted once. After a time step was accepted for an account, no operations on
  the table make the same or an earlier step acceptable again for the same authentication version.\<close>

theorem mfa_step_accepted_once:
  assumes "keys_ok us" and "snd (AcceptMFAStep now i v step us) = Inr ()"
    and "\<forall>call\<in>set calls. \<not> creates i call" and "step' \<le> step"
  shows "snd (AcceptMFAStep now' i v step' (store_run calls (fst (AcceptMFAStep now i v step us)))) \<noteq> Inr ()"
proof -
  let ?us = "fst (AcceptMFAStep now i v step us)"
  have "step \<le> ac_mfaLastStep r" if "r \<in> set (store_run calls ?us)" "ac_ID r = i" "ac_authVersion r = v" for r
    using accounts.run_step_used [of ?us i v step calls r] accepted_step [OF assms(1,2)] assms(3) that
    by (auto simp: store_run_def)
  with assms(4) have "\<not> (ac_ID r = i \<and> ac_authVersion r = v \<and> \<not> ac_AccountLocked r \<and> ac_mfaLastStep r < step')"
    if "r \<in> set (store_run calls ?us)" for r using that by fastforce
  then show ?thesis by (auto simp: AcceptMFAStep_def update_where_def filter_empty_conv)
qed

definition failures :: "string \<Rightarrow> int \<Rightarrow> int \<Rightarrow> duration \<Rightarrow> instant list \<Rightarrow> users \<Rightarrow> users" where
  "failures i v lockAt window stamps us =
     foldl (\<lambda>us t. fst (RecordLoginFailureIfAuthVersion t i v lockAt window t us)) us stamps"

definition row_of :: "string \<Rightarrow> users \<Rightarrow> account option" where
  "row_of i us = find (\<lambda>row. ac_ID row = i) us"

lemma find_map_same: "(\<And>x. P (f x) = P x) \<Longrightarrow> find P (map f xs) = map_option f (find P xs)"
  by (induction xs) auto

lemma one_row: "keys_ok us \<Longrightarrow> row_of i us = Some row \<Longrightarrow> Q row \<Longrightarrow> length (filter (\<lambda>r. ac_ID r = i \<and> Q r) us) = 1"
proof (induction us)
  case (Cons a us)
  have "keys_ok us" using Cons.prems(1) by (simp add: keys_ok_def)
  show ?case
  proof (cases "ac_ID a = i")
    case True
    then have "filter (\<lambda>r. ac_ID r = i \<and> Q r) us = []"
      using Cons.prems(1) by (force simp: keys_ok_def filter_empty_conv image_iff)
    with True Cons.prems show ?thesis by (simp add: row_of_def)
  next
    case False
    with Cons \<open>keys_ok us\<close> show ?thesis by (simp add: row_of_def)
  qed
qed (simp add: row_of_def)

lemma failure_row:
  assumes "keys_ok us" and "row_of i us = Some row" and "1 \<le> v" and "0 < lockAt" and "0 < window" and "t \<noteq> 0"
  shows "row_of i (fst (RecordLoginFailureIfAuthVersion t i v lockAt window t us)) =
    Some (if ac_authVersion row = v then failed_row lockAt window t row else row)"
proof (cases "ac_authVersion row = v")
  case True
  have "length (filter (\<lambda>r. ac_ID r = i \<and> ac_authVersion r = v) us) = 1"
    using one_row [OF assms(1,2), of "\<lambda>r. ac_authVersion r = v"] True by simp
  moreover have "row_of i (map (\<lambda>r. if ac_ID r = i \<and> ac_authVersion r = v then failed_row lockAt window t r else r) us) =
      Some (failed_row lockAt window t row)"
    unfolding row_of_def
    by (subst find_map_same) (use assms(2) True in \<open>auto simp: row_of_def failed_row_def Let_def dest: find_SomeD\<close>)
  ultimately show ?thesis
    using True assms by (simp add: RecordLoginFailureIfAuthVersion_def recordLoginFailure_def update_where_def row_of_def)
next
  case False
  with assms show ?thesis by (simp add: RecordLoginFailureIfAuthVersion_def recordLoginFailure_def row_of_def)
qed

lemma failures_keys: "keys_ok us \<Longrightarrow> keys_ok (failures i v lockAt window stamps us)"
proof (induction stamps arbitrary: us)
  case (Cons t ts)
  have "keys_ok (fst (RecordLoginFailureIfAuthVersion t i v lockAt window t us))"
    using keys_kept [OF Cons.prems, of "DoFailureIf t i v lockAt window t"] by simp
  from Cons.IH [OF this] show ?case by (simp add: failures_def)
qed (simp add: failures_def)

text \<open>C14: failed logins lock an account that is no administrator's exactly at the limit. Of failures within one
  window that the first of them opens, each recorded with the version the account had, the first
  \<open>lockAt - 1\<close> leave the account open and are counted, and the next one locks it and voids its sessions by
  raising the version; later ones change nothing. An administrator's account is never locked, however
  many there are; they are counted and its version stays.\<close>

theorem failed_logins_lock:
  assumes "keys_ok us" and row: "row_of i us = Some row" and "\<not> ac_AccountLocked row"
    and "ac_failedLoginWindowStartedAt row = 0" and "ac_authVersion row = v" and "1 \<le> v" and lockAt: "0 < lockAt" and "0 < window"
    and stamps: "\<forall>t\<in>set stamps. 0 < t \<and> t < hd stamps + window \<and> hd stamps \<le> t"
  shows "\<exists>row'. row_of i (failures i v lockAt window stamps us) = Some row' \<and>
    (if ac_IsAdmin row \<or> int (length stamps) < lockAt
     then \<not> ac_AccountLocked row' \<and> ac_authVersion row' = v \<and> (stamps = [] \<or> ac_FailedLoginAttempts row' = int (length stamps))
     else ac_AccountLocked row' \<and> ac_authVersion row' = v + 1)"
proof -
  have "\<exists>row'. row_of i (failures i v lockAt window stamps us) = Some row' \<and> ac_IsAdmin row' = ac_IsAdmin row \<and>
    (if ac_IsAdmin row \<or> int (length stamps) < lockAt
     then \<not> ac_AccountLocked row' \<and> ac_authVersion row' = v \<and>
       (if stamps = [] then row' = row
        else ac_FailedLoginAttempts row' = int (length stamps) \<and> ac_failedLoginWindowStartedAt row' = hd stamps)
     else ac_AccountLocked row' \<and> ac_authVersion row' = v + 1)"
    using stamps
  proof (induction stamps rule: rev_induct)
    case Nil
    with assms show ?case by (simp add: failures_def)
  next
    case (snoc t ts)
    let ?us = "failures i v lockAt window ts us"
    have hd: "ts \<noteq> [] \<Longrightarrow> hd (ts @ [t]) = hd ts" by simp
    have "\<forall>u\<in>set ts. 0 < u \<and> u < hd ts + window \<and> hd ts \<le> u" using snoc.prems by (cases ts) auto
    from snoc.IH [OF this] obtain r where r: "row_of i ?us = Some r" "ac_IsAdmin r = ac_IsAdmin row"
      and st: "if ac_IsAdmin row \<or> int (length ts) < lockAt
       then \<not> ac_AccountLocked r \<and> ac_authVersion r = v \<and>
         (if ts = [] then r = row
          else ac_FailedLoginAttempts r = int (length ts) \<and> ac_failedLoginWindowStartedAt r = hd ts)
       else ac_AccountLocked r \<and> ac_authVersion r = v + 1" by blast
    have t: "t \<noteq> 0" "0 < t" using snoc.prems by auto
    have next_row: "row_of i (failures i v lockAt window (ts @ [t]) us) =
        Some (if ac_authVersion r = v then failed_row lockAt window t r else r)"
      using failure_row [OF failures_keys [OF assms(1)] r(1) assms(6) lockAt assms(8) t(1)] by (simp add: failures_def)
    show ?case
    proof (cases "ac_IsAdmin row \<or> int (length ts) < lockAt")
      case True
      show ?thesis
      proof (cases "ts = []")
        case ts: True
        with True st assms(3-5) lockAt r(2) next_row show ?thesis by (auto simp: failed_row_def Let_def)
      next
        case False
        have "hd ts \<le> t" "t < hd ts + window" "0 < hd ts" using snoc.prems False hd [OF False] by (cases ts; auto)+
        with True False st r(2) show ?thesis by (simp add: next_row failed_row_def Let_def)
      qed
    next
      case False
      with st r(2) show ?thesis by (simp add: next_row)
    qed
  qed
  then show ?thesis by (auto split: if_split_asm)
qed

section \<open>Witnesses\<close>

definition sample_account :: account where
  "sample_account =
     \<lparr>ac_ID = ''u1'', ac_Username = ''ops'', ac_SenderID = [], ac_ForceSenderID = False, ac_LastIP = [], ac_LastLoginAt = 0,
      ac_PasswordChangedAt = 1, ac_AllowOrigination = True, ac_AllowedOriginators = [''WXR''], ac_BlockedEventCodes = [],
      ac_ForceOriginatorName = False, ac_OriginatorNameText = [], ac_IncludeIPInBrackets = False, ac_CanViewLogs = False,
      ac_AllowPersistentSessions = True, ac_PasswordExpiryDays = 90, ac_AllowUserPasswordChange = True, ac_LoggingEnabled = True,
      ac_AccountLocked = False, ac_FailedLoginAttempts = 0, ac_MFAEnabled = False, ac_MFAConfigured = False, ac_IsAdmin = False,
      ac_CIDRWhitelist = [], ac_CreatedAt = 1, ac_UpdatedAt = 1, ac_passwordHash = ''h'', ac_mfaSecret = [], ac_mfaLastStep = 0,
      ac_authVersion = 1, ac_failedLoginWindowStartedAt = 0\<rparr>"

definition sample_users :: users where
  "sample_users = [sample_account\<lparr>ac_ID := ''u0'', ac_Username := ''root'', ac_IsAdmin := True\<rparr>, sample_account]"

lemma sample_keys: "keys_ok sample_users"
  by code_simp

theorem administrator_remains_witness: "has_admin (store_run [DoDelete ''u0'', DoDelete ''u1''] sample_users)"
proof -
  have "has_admin sample_users" by code_simp
  from administrator_remains [OF sample_keys this] show ?thesis by blast
qed

theorem mfa_step_accepted_once_witness:
  "snd (AcceptMFAStep 9 ''u1'' 1 57 (store_run [DoSuccess 8 ''u1'' ''192.0.2.7'' 1] (fst (AcceptMFAStep 7 ''u1'' 1 57 sample_users)))) \<noteq> Inr ()"
proof (rule mfa_step_accepted_once [OF sample_keys])
  show "snd (AcceptMFAStep 7 ''u1'' 1 57 sample_users) = Inr ()" by code_simp
qed simp_all

theorem failed_logins_lock_witness:
  "\<exists>row'. row_of ''u1'' (failures ''u1'' 1 3 100 [10, 20, 30] sample_users) = Some row' \<and>
    ac_AccountLocked row' \<and> ac_authVersion row' = 2"
proof -
  have "row_of ''u1'' sample_users = Some sample_account" by (simp add: row_of_def sample_users_def sample_account_def)
  from failed_logins_lock [OF sample_keys this, of 1 3 100 "[10, 20, 30]"] show ?thesis by (simp add: sample_account_def)
qed

end
