(* ===== verification/Password_Hash.thy ===== *)
theory Password_Hash
  imports Go_Base64
begin

text \<open>
  Password hashes of the web panel, \<open>internal/webgateway/account_auth.go\<close> and \<open>auth.go\<close>: the PHC text with the fixed
  Argon2id profile, its parser and the verification. Argon2 and HMAC are arguments: \<open>pw_argon peppered salt
  length\<close> is the derived key for the profile, \<open>pw_pepper\<close> the keyed hash of the password. A call also depends on
  the random salt (\<open>None\<close> when the generator fails) and on whether a slot for Argon2 is free before
  the deadline.
\<close>

section \<open>Parameters\<close>

record password_env =
  pw_argon :: "byte list \<Rightarrow> byte list \<Rightarrow> nat \<Rightarrow> byte list"
  pw_pepper :: "string \<Rightarrow> byte list"
  pw_salt :: "byte list option"
  pw_slot :: bool

record argon2Params =
  ap_memory :: "32 word"
  ap_time :: "32 word"
  ap_parallelism :: "32 word"

definition argonMemoryKiB :: nat where "argonMemoryKiB = 65536"
definition argonIterations :: nat where "argonIterations = 3"
definition argonParallelism :: nat where "argonParallelism = 4"
definition argonSaltLength :: nat where "argonSaltLength = 16"
definition argonOutputLength :: nat where "argonOutputLength = 32"
definition maxPasswordBytes :: nat where "maxPasswordBytes = 1024"

text \<open>\<open>strconv.ParseUint\<close> with base 10 and 32 bits.\<close>

definition parseUint32 :: "string \<Rightarrow> nat option" where
  "parseUint32 s =
     (if s = [] \<or> \<not> list_all is_digit s \<or> digits_value 0 s > 4294967295 then None else Some (nat (digits_value 0 s)))"

fun argon2_fields :: "argon2Params \<Rightarrow> string list \<Rightarrow> argon2Params option" where
  "argon2_fields params [] = Some params"
| "argon2_fields params (field # rest) =
     (if CHR ''='' \<notin> set field then argon2_fields params rest
      else
        (let key = takeWhile (\<lambda>c. c \<noteq> CHR ''='') field
         in case parseUint32 (drop (Suc (length key)) field) of
              None \<Rightarrow> None
            | Some parsed \<Rightarrow>
                argon2_fields
                  (if key = ''m'' then params\<lparr>ap_memory := of_nat parsed\<rparr>
                   else if key = ''t'' then params\<lparr>ap_time := of_nat parsed\<rparr>
                   else if key = ''p'' then params\<lparr>ap_parallelism := of_nat parsed\<rparr>
                   else params) rest))"

definition parseArgon2Params :: "string \<Rightarrow> argon2Params option" where
  "parseArgon2Params raw =
     (case argon2_fields \<lparr>ap_memory = 0, ap_time = 0, ap_parallelism = 0\<rparr> (splitOn CHR '','' raw) of
        None \<Rightarrow> None
      | Some params \<Rightarrow>
          if ap_memory params = 0 \<or> ap_time params = 0 \<or> ap_parallelism params = 0 \<or> ap_parallelism params > 255 then None
          else Some params)"

definition decodePHCBase64 :: "string \<Rightarrow> byte list option" where
  "decodePHCBase64 text' = raw_decode std_alphabet text'"

definition parseSecureArgon2Hash :: "string \<Rightarrow> string + argon2Params \<times> byte list \<times> byte list" where
  "parseSecureArgon2Hash encoded =
     (let parts = splitOn CHR ''$'' encoded
      in if length parts \<noteq> 6 \<or> parts ! 1 \<noteq> ''argon2id'' \<or> parts ! 2 \<noteq> ''v=19'' then Inl ''unsupported password hash''
         else
           (case parseArgon2Params (parts ! 3) of
              None \<Rightarrow> Inl ''invalid argon2id parameters''
            | Some params \<Rightarrow>
                if ap_memory params \<noteq> of_nat argonMemoryKiB \<or> ap_time params \<noteq> of_nat argonIterations \<or>
                   ap_parallelism params \<noteq> of_nat argonParallelism
                then Inl ''password hash does not use the required Argon2id profile''
                else
                  (case decodePHCBase64 (parts ! 4) of
                     None \<Rightarrow> Inl ''password hash salt is invalid''
                   | Some salt \<Rightarrow>
                       if length salt < argonSaltLength then Inl ''password hash salt is invalid''
                       else
                         (case decodePHCBase64 (parts ! 5) of
                            None \<Rightarrow> Inl ''password hash output is invalid''
                          | Some expected \<Rightarrow>
                              if length expected < argonOutputLength \<or> length expected > 64
                              then Inl ''password hash output is invalid''
                              else Inr (params, salt, expected)))))"

section \<open>Hashing and verification\<close>

text \<open>\<open>utf8.ValidString\<close> and \<open>utf8.RuneCountInString\<close>: the number of runes, or \<open>None\<close> for an invalid encoding.\<close>

definition in_range :: "nat \<Rightarrow> nat \<Rightarrow> char \<Rightarrow> bool" where
  "in_range lo hi c \<longleftrightarrow> lo \<le> (of_char c :: nat) \<and> (of_char c :: nat) \<le> hi"

definition tail_byte :: "char \<Rightarrow> bool" where
  "tail_byte c = in_range 0x80 0xBF c"

fun utf8_runes :: "string \<Rightarrow> nat option" where
  "utf8_runes [] = Some 0"
| "utf8_runes (a # s) =
     (if in_range 0 0x7F a then map_option Suc (utf8_runes s)
      else
        (case s of
           [] \<Rightarrow> None
         | b # s1 \<Rightarrow>
             if in_range 0xC2 0xDF a then (if tail_byte b then map_option Suc (utf8_runes s1) else None)
             else
               (case s1 of
                  [] \<Rightarrow> None
                | c # s2 \<Rightarrow>
                    if in_range 0xE0 0xEF a then
                      (if tail_byte c \<and>
                          (if a = char_of (0xE0 :: nat) then in_range 0xA0 0xBF b
                           else if a = char_of (0xED :: nat) then in_range 0x80 0x9F b else tail_byte b)
                       then map_option Suc (utf8_runes s2) else None)
                    else
                      (case s2 of
                         [] \<Rightarrow> None
                       | d # s3 \<Rightarrow>
                           if in_range 0xF0 0xF4 a \<and> tail_byte c \<and> tail_byte d \<and>
                              (if a = char_of (0xF0 :: nat) then in_range 0x90 0xBF b
                               else if a = char_of (0xF4 :: nat) then in_range 0x80 0x8F b else tail_byte b)
                           then map_option Suc (utf8_runes s3) else None))))"

definition phc_profile :: string where
  "phc_profile = ''m='' @ itoa argonMemoryKiB @ '',t='' @ itoa argonIterations @ '',p='' @ itoa argonParallelism"

definition hashPassword :: "password_env \<Rightarrow> string \<Rightarrow> string + string" where
  "hashPassword env password =
     (if (case utf8_runes password of None \<Rightarrow> True | Some runes \<Rightarrow> runes < 12)
      then Inl ''password must contain at least 12 characters''
      else if length password > maxPasswordBytes then Inl ''password is too long''
      else
        (case pw_salt env of
           None \<Rightarrow> Inl ''generate password salt''
         | Some salt \<Rightarrow>
             Inr (''$argon2id$v=19$'' @ phc_profile @ ''$'' @ rawStdEncoding salt @ ''$'' @
                  rawStdEncoding (pw_argon env (pw_pepper env password) salt argonOutputLength))))"

definition verifyPassword :: "password_env \<Rightarrow> string \<Rightarrow> string \<Rightarrow> string + bool" where
  "verifyPassword env encoded password =
     (case parseSecureArgon2Hash encoded of
        Inl e \<Rightarrow> Inl e
      | Inr (params, salt, expected) \<Rightarrow>
          if \<not> pw_slot env then Inl ''context deadline exceeded''
          else Inr (pw_argon env (pw_pepper env password) salt (length expected) = expected))"

section \<open>Facts\<close>

lemma split_acc_no_sep: "sep \<notin> set s \<Longrightarrow> split_acc sep cur s = [rev cur @ s]"
  by (induction s arbitrary: cur) auto

lemma split_acc_prefix: "sep \<notin> set s \<Longrightarrow> split_acc sep cur (s @ sep # rest) = (rev cur @ s) # split_acc sep [] rest"
  by (induction s arbitrary: cur) auto

lemma utf8_runes_ascii: "list_all (in_range 0 0x7F) s \<Longrightarrow> utf8_runes s = Some (length s)"
  by (induction s) auto

declare utf8_runes.simps [simp del]

lemma no_dollar: "CHR ''$'' \<notin> set (rawStdEncoding bs)"
proof -
  have "CHR ''$'' \<notin> set std_alphabet" by code_simp
  then show ?thesis using encode_chars(2) by blast
qed

lemma profile_text: "phc_profile = ''m=65536,t=3,p=4''"
proof -
  have "itoa 65536 = ''65536''" "itoa 3 = ''3''" "itoa 4 = ''4''"
    by (simp_all add: itoa.simps char_of_def bit_numeral_rec bit_0)
  then show ?thesis by (simp add: phc_profile_def argonMemoryKiB_def argonIterations_def argonParallelism_def)
qed

lemma phc_parts:
  "splitOn CHR ''$'' (''$argon2id$v=19$'' @ phc_profile @ ''$'' @ rawStdEncoding salt @ ''$'' @ rawStdEncoding key) =
     [[], ''argon2id'', ''v=19'', phc_profile, rawStdEncoding salt, rawStdEncoding key]"
  by (simp add: splitOn_def profile_text split_acc_prefix split_acc_no_sep no_dollar)

lemma profile_accepted:
  "parseArgon2Params phc_profile = Some \<lparr>ap_memory = 65536, ap_time = 3, ap_parallelism = 4\<rparr>"
proof -
  have "splitOn CHR '','' ''m=65536,t=3,p=4'' = [''m=65536'', ''t=3'', ''p=4'']" by code_simp
  moreover have "parseUint32 ''65536'' = Some 65536" "parseUint32 ''3'' = Some 3" "parseUint32 ''4'' = Some 4"
    by (simp_all add: parseUint32_def is_digit_def char_between_def of_char_def)
  ultimately show ?thesis by (simp add: parseArgon2Params_def profile_text)
qed

section \<open>Property\<close>

lemma hash_parses:
  assumes "hashPassword env password = Inr encoded" and "pw_salt env = Some salt" and "length salt = argonSaltLength"
    and "length (pw_argon env (pw_pepper env password) salt argonOutputLength) = argonOutputLength"
  shows "parseSecureArgon2Hash encoded = Inr (\<lparr>ap_memory = 65536, ap_time = 3, ap_parallelism = 4\<rparr>, salt, pw_argon env (pw_pepper env password) salt argonOutputLength)"
proof -
  let ?key = "pw_argon env (pw_pepper env password) salt argonOutputLength"
  have "encoded = ''$argon2id$v=19$'' @ phc_profile @ ''$'' @ rawStdEncoding salt @ ''$'' @ rawStdEncoding ?key"
    using assms(1,2) by (simp add: hashPassword_def split: if_split_asm)
  then have parts: "splitOn CHR ''$'' encoded = [[], ''argon2id'', ''v=19'', phc_profile, rawStdEncoding salt, rawStdEncoding ?key]"
    using phc_parts by simp
  have "length ?key = 32" using assms(4) by (simp add: argonOutputLength_def)
  then show ?thesis
    using assms(3)
    by (simp add: parseSecureArgon2Hash_def Let_def parts profile_accepted decodePHCBase64_def argonMemoryKiB_def argonIterations_def
        argonParallelism_def argonSaltLength_def argonOutputLength_def)
qed

text \<open>A password verifies against its own hash and no other password does unless Argon2 derives the same
  key for both. With a salt of 16 bytes and derived keys of the requested length, the stored text passes
  the strict parser of the verification.\<close>

theorem hashed_password_verifies:
  assumes "hashPassword env password = Inr encoded" and "pw_salt env = Some salt" and "length salt = argonSaltLength"
    and "\<forall>peppered. length (pw_argon env peppered salt argonOutputLength) = argonOutputLength" and "pw_slot env"
  shows "verifyPassword env encoded password = Inr True \<and>
    (verifyPassword env encoded other = Inr True \<longleftrightarrow>
      pw_argon env (pw_pepper env other) salt argonOutputLength = pw_argon env (pw_pepper env password) salt argonOutputLength)"
proof -
  let ?key = "pw_argon env (pw_pepper env password) salt argonOutputLength"
  have "length ?key = argonOutputLength" using assms(4) by simp
  with hash_parses [OF assms(1-3) this] assms(5) show ?thesis by (simp add: verifyPassword_def argonOutputLength_def)
qed

section \<open>Witness\<close>

definition sample_passwords :: password_env where
  "sample_passwords =
     \<lparr>pw_argon = (\<lambda>peppered salt n. take n (peppered @ replicate n 0)), pw_pepper = bytes,
      pw_salt = Some (replicate 16 7), pw_slot = True\<rparr>"

lemma sample_hash: "\<exists>encoded. hashPassword sample_passwords ''correct horse'' = Inr encoded"
proof -
  have "list_all (in_range 0 0x7F) ''correct horse''" by (simp add: in_range_def of_char_def)
  from utf8_runes_ascii [OF this] have "utf8_runes ''correct horse'' = Some 13" by simp
  then show ?thesis by (simp add: hashPassword_def sample_passwords_def maxPasswordBytes_def)
qed

definition sample_hashed :: string where
  "sample_hashed = projr (hashPassword sample_passwords ''correct horse'')"

lemma sample_verifies: "verifyPassword sample_passwords sample_hashed ''correct horse'' = Inr True"
proof -
  obtain encoded where e: "hashPassword sample_passwords ''correct horse'' = Inr encoded" using sample_hash ..
  with hash_parses [OF this, of "replicate 16 7"] show ?thesis
    by (simp add: sample_hashed_def sample_passwords_def argonSaltLength_def verifyPassword_def argonOutputLength_def min_def)
qed

theorem hashed_password_verifies_witness:
  "verifyPassword sample_passwords (projr (hashPassword sample_passwords ''correct horse'')) ''correct horse'' = Inr True"
proof -
  obtain encoded where e: "hashPassword sample_passwords ''correct horse'' = Inr encoded" using sample_hash ..
  have h: "pw_salt sample_passwords = Some (replicate 16 7)" "length (replicate 16 (7 :: byte)) = argonSaltLength"
    "\<forall>peppered. length (pw_argon sample_passwords peppered (replicate 16 7) argonOutputLength) = argonOutputLength"
    "pw_slot sample_passwords"
    by (simp_all add: sample_passwords_def argonSaltLength_def min_def)
  from hashed_password_verifies [OF e h, of "''other''"] show ?thesis unfolding e sum.sel by (rule conjunct1)
qed

end
