(* ===== verification/Web_Auth.thy ===== *)
theory Web_Auth
  imports Rate_Limits Web_Sessions Account_Store Password_Hash
begin

text \<open>
  Authentication of the web panel, \<open>internal/webgateway/account_auth.go\<close>: the lock policy, the revocations, and
  \<open>Authenticate\<close> and \<open>Logout\<close> with everything they change.
  \<^item> The session registry is any implementation of the interface, the argument \<open>R\<close>.
  \<^item> PASETO, TOTP and the cipher of the MFA secrets are other packages and part of \<open>auth_env\<close>.
  \<^item> Other requests run at the same time: before each call to the database, \<open>gw_script\<close> says which operations
    they have done on the table meanwhile, and whether the call fails. In the same way \<open>gw_auditFails\<close> says
    which of the coming audit records cannot be written, and \<open>gw_rates\<close> what the rate limiter in Redis answers.
  \<^item> One call reads the clock once (\<open>ae_now\<close>). Of an audit record the category, the event, the actor and the
    session are kept.
\<close>

section \<open>Data\<close>

record identity =
  id_Account :: account
  id_Session :: activeSession
  id_PasswordChangeRequired :: bool
  id_RawSessionID :: string

datatype authError = AuthError (err_Code: string) (err_Detail: string) (err_HTTPStatus: nat)

text \<open>The claims of a token; \<open>None\<close> where reading the claim fails.\<close>

record claims =
  tk_Jti :: "string option"
  tk_Subject :: "string option"
  tk_IP :: "string option"
  tk_AuthVersion :: "int option"
  tk_IssuedAt :: instant
  tk_NotBefore :: instant
  tk_Expiration :: "instant option"

record auth_env =
  ae_configured :: bool
  ae_initFailed :: bool
  ae_now :: instant
  ae_hash :: "string \<Rightarrow> byte list"
  ae_token :: "instant \<Rightarrow> string \<Rightarrow> claims option"
  ae_expiredToken :: "string \<Rightarrow> claims option"
  ae_issue :: "claims \<Rightarrow> string option"
  ae_proxies :: "ipNet list"
  ae_loginNetworks :: "ipNet list"
  ae_idleTimeout :: duration
  ae_sessionTTL :: duration
  ae_persistentTTL :: duration
  ae_loginWindow :: duration
  ae_lockDuration :: duration
  ae_loginLimit :: int
  ae_originationRate :: int
  ae_enforceMFA :: bool
  ae_redis :: bool
  ae_passwords :: password_env
  ae_totp :: "string \<Rightarrow> string \<Rightarrow> instant \<Rightarrow> string + bool"
  ae_totpKey :: "(string \<times> string) option"
  ae_seal :: "string \<Rightarrow> string \<Rightarrow> byte list option"
  ae_open :: "string \<Rightarrow> byte list \<Rightarrow> byte list \<Rightarrow> string option"
  ae_sessionID :: "string option"
  ae_uuid :: "string option"

type_synonym auditEntry = "string \<times> string \<times> string \<times> string"

record 's gateway =
  gw_sessions :: 's
  gw_users :: users
  gw_audit :: "auditEntry list"
  gw_loginLimiter :: windows
  gw_loginIPLimiter :: windows
  gw_originationLimiter :: windows
  gw_expiryLimiter :: windows
  gw_preauthLimiter :: windows
  gw_script :: "(storeCall list \<times> bool) list"
  gw_auditFails :: "bool list"
  gw_rates :: "(string + bool) list"

section \<open>Calls to the database and the audit log\<close>

definition db :: "(users \<Rightarrow> users \<times> (storeError + 'a)) \<Rightarrow> 's gateway \<Rightarrow> 's gateway \<times> (storeError + 'a)" where
  "db op g =
     (case gw_script g of
        [] \<Rightarrow> (case op (gw_users g) of (us, r) \<Rightarrow> (g\<lparr>gw_users := us\<rparr>, r))
      | (others, fails) # script \<Rightarrow>
          (let g = g\<lparr>gw_users := store_run others (gw_users g), gw_script := script\<rparr>
           in if fails then (g, Inl (StoreError ''database is unavailable'' []))
              else (case op (gw_users g) of (us, r) \<Rightarrow> (g\<lparr>gw_users := us\<rparr>, r))))"

definition db_read :: "(users \<Rightarrow> storeError + 'a) \<Rightarrow> 's gateway \<Rightarrow> 's gateway \<times> (storeError + 'a)" where
  "db_read op g = db (\<lambda>us. (us, op us)) g"

text \<open>\<open>Append\<close> of the audit logger; the result says whether the record was written.\<close>

definition audit_append :: "string \<Rightarrow> string \<Rightarrow> string \<Rightarrow> string \<Rightarrow> 's gateway \<Rightarrow> 's gateway \<times> bool" where
  "audit_append category event actor session g =
     (case gw_auditFails g of
        True # rest \<Rightarrow> (g\<lparr>gw_auditFails := rest\<rparr>, False)
      | False # rest \<Rightarrow> (g\<lparr>gw_auditFails := rest, gw_audit := gw_audit g @ [(category, event, actor, session)]\<rparr>, True)
      | [] \<Rightarrow> (g\<lparr>gw_audit := gw_audit g @ [(category, event, actor, session)]\<rparr>, True))"

definition access_log :: "string \<Rightarrow> string \<Rightarrow> string \<Rightarrow> 's gateway \<Rightarrow> 's gateway" where
  "access_log event actor session g = fst (audit_append ''access'' event actor session g)"

definition rate_call :: "'s gateway \<Rightarrow> 's gateway \<times> (string + bool)" where
  "rate_call g = (case gw_rates g of [] \<Rightarrow> (g, Inr True) | r # rest \<Rightarrow> (g\<lparr>gw_rates := rest\<rparr>, r))"

section \<open>Sessions and limits of a user\<close>

definition forget :: "'s sessionRegistry \<Rightarrow> string \<Rightarrow> 's gateway \<Rightarrow> 's gateway" where
  "forget R raw g = g\<lparr>gw_sessions := fst (sr_Delete R raw (gw_sessions g))\<rparr>"

definition purgeUserSessionLeases :: "'s sessionRegistry \<Rightarrow> string \<Rightarrow> 's gateway \<Rightarrow> 's gateway" where
  "purgeUserSessionLeases R userID g =
     (case sr_DeleteUser R userID (gw_sessions g) of
        (ss, None) \<Rightarrow> g\<lparr>gw_sessions := ss\<rparr>
      | (ss, Some e) \<Rightarrow> access_log ''SESSION_REGISTRY_CLEANUP_FAILED'' userID [] (g\<lparr>gw_sessions := ss\<rparr>))"

definition PurgeUserSessionLeases :: "'s sessionRegistry \<Rightarrow> string \<Rightarrow> 's gateway \<Rightarrow> 's gateway" where
  "PurgeUserSessionLeases R userID g = purgeUserSessionLeases R userID (fst (db_read (ByID userID) g))"

definition RevokeSession :: "'s sessionRegistry \<Rightarrow> string \<Rightarrow> 's gateway \<Rightarrow> 's gateway \<times> registryError option" where
  "RevokeSession R digest g =
     (case sr_DeleteDigest R digest (gw_sessions g) of (ss, e) \<Rightarrow> (g\<lparr>gw_sessions := ss\<rparr>, e))"

definition ListSessions :: "auth_env \<Rightarrow> 's sessionRegistry \<Rightarrow> string \<Rightarrow> 's gateway \<Rightarrow> 's gateway \<times> (registryError + activeSession list)" where
  "ListSessions env R userID g =
     (case sr_ListUser R (ae_now env) userID (gw_sessions g) of (ss, r) \<Rightarrow> (g\<lparr>gw_sessions := ss\<rparr>, r))"

definition RevokeUser :: "auth_env \<Rightarrow> 's sessionRegistry \<Rightarrow> string \<Rightarrow> 's gateway \<Rightarrow> 's gateway \<times> storeError option" where
  "RevokeUser env R userID g =
     (case db_read (ByID userID) g of
        (g, _) \<Rightarrow>
          (case db (BumpAuthVersion (ae_now env) userID) g of
             (g, Inl e) \<Rightarrow> (g, Some e)
           | (g, Inr _) \<Rightarrow> (purgeUserSessionLeases R userID g, None)))"

definition ResetLoginLimits :: "string \<Rightarrow> string \<Rightarrow> 's gateway \<Rightarrow> 's gateway" where
  "ResetLoginLimits username addr g =
     (let name = toLower (trimSpace username);
          g = (if name \<noteq> [] then g\<lparr>gw_loginLimiter := ResetPrefix (name @ ''|'') (gw_loginLimiter g)\<rparr> else g)
      in if canonicalIP addr \<noteq> [] then g\<lparr>gw_loginIPLimiter := Reset (canonicalIP addr) (gw_loginIPLimiter g)\<rparr> else g)"

section \<open>The lock policy\<close>

definition lock_over :: "auth_env \<Rightarrow> account \<Rightarrow> bool" where
  "lock_over env a \<longleftrightarrow>
     ac_IsAdmin a \<or>
     (let lockedAt = (if ac_failedLoginWindowStartedAt a = 0 then ac_UpdatedAt a else ac_failedLoginWindowStartedAt a)
      in lockedAt = 0 \<or> ae_now env < lockedAt \<or> ae_now env - lockedAt \<ge> ae_lockDuration env)"

definition applyAccountLockPolicy ::
  "auth_env \<Rightarrow> 's sessionRegistry \<Rightarrow> account \<Rightarrow> 's gateway \<Rightarrow> 's gateway \<times> (storeError + account)" where
  "applyAccountLockPolicy env R a g =
     (if \<not> ac_AccountLocked a \<or> \<not> lock_over env a then (g, Inr a)
      else
        (case db (UnlockLockedIfAuthVersion (ae_now env) (ac_ID a) (ac_authVersion a) (ae_now env)) g of
           (g, Inl e) \<Rightarrow> (g, Inl e)
         | (g, Inr False) \<Rightarrow> db_read (ByID (ac_ID a)) g
         | (g, Inr True) \<Rightarrow>
             (case audit_append ''access'' ''ACCOUNT_LOCK_AUTO_CLEARED'' (ac_ID a) []
                     (purgeUserSessionLeases R (ac_ID a) (ResetLoginLimits (ac_Username a) [] g)) of
                (g, False) \<Rightarrow> (g, Inl (StoreError ''audit automatic account unlock: %w'' []))
              | (g, True) \<Rightarrow> db_read (ByID (ac_ID a)) g)))"

fun lock_policies :: "auth_env \<Rightarrow> 's sessionRegistry \<Rightarrow> account list \<Rightarrow> 's gateway \<Rightarrow> 's gateway \<times> (storeError + account list)" where
  "lock_policies env R [] g = (g, Inr [])"
| "lock_policies env R (a # rest) g =
     (case (if ac_AccountLocked a then applyAccountLockPolicy env R a g else (g, Inr a)) of
        (g, Inl e) \<Rightarrow> (g, Inl e)
      | (g, Inr b) \<Rightarrow>
          (case lock_policies env R rest g of
             (g, Inl e) \<Rightarrow> (g, Inl e)
           | (g, Inr bs) \<Rightarrow> (g, Inr (b # bs))))"

definition ListAccounts :: "auth_env \<Rightarrow> 's sessionRegistry \<Rightarrow> 's gateway \<Rightarrow> 's gateway \<times> (storeError + account list)" where
  "ListAccounts env R g =
     (case db_read List g of
        (g, Inl e) \<Rightarrow> (g, Inl e)
      | (g, Inr as) \<Rightarrow> lock_policies env R as g)"

definition repairAccountLocks :: "auth_env \<Rightarrow> 's sessionRegistry \<Rightarrow> 's gateway \<Rightarrow> 's gateway \<times> storeError option" where
  "repairAccountLocks env R g =
     (case db_read List g of
        (g, Inl e) \<Rightarrow> (g, Some e)
      | (g, Inr as) \<Rightarrow> (case lock_policies env R as g of (g, Inl e) \<Rightarrow> (g, Some e) | (g, Inr _) \<Rightarrow> (g, None)))"

definition accountLockRepairInterval :: "duration \<Rightarrow> duration" where
  "accountLockRepairInterval lockDuration =
     (let interval = lockDuration div 4
      in if interval < 5 * second then 5 * second else if interval > 15 * second then 15 * second else interval)"

section \<open>Authentication\<close>

definition passwordExpired :: "account \<Rightarrow> instant \<Rightarrow> bool" where
  "passwordExpired a now \<longleftrightarrow>
     ac_PasswordExpiryDays a > 0 \<and> ac_PasswordChangedAt a \<noteq> 0 \<and>
     \<not> now < ac_PasswordChangedAt a + ac_PasswordExpiryDays a * (24 * 60 * minute)"

definition unavailableError :: "auth_env \<Rightarrow> authError" where
  "unavailableError env =
     AuthError ''auth_unavailable''
       (if ae_initFailed env then ''Sign-in is unavailable. Check the server configuration.'' else ''Sign-in is not configured.'') 503"

definition invalid_session :: "string \<Rightarrow> authError" where
  "invalid_session detail = AuthError ''invalid_session'' detail 401"

definition auditExpiredSession :: "auth_env \<Rightarrow> string \<Rightarrow> 's gateway \<Rightarrow> 's gateway" where
  "auditExpiredSession env rawToken g =
     (case ae_expiredToken env rawToken of
        None \<Rightarrow> g
      | Some claims \<Rightarrow>
          (case (tk_Expiration claims, tk_Jti claims) of
             (Some expiresAt, Some raw) \<Rightarrow>
               if ae_now env < expiresAt \<or> raw = [] then g
               else
                 (let digest = sessionIDDigest (ae_hash env) raw
                  in case Allow digest 1 (24 * 60 * minute) (ae_now env) (gw_expiryLimiter g) of
                       (allowed, ws) \<Rightarrow>
                         (let g = g\<lparr>gw_expiryLimiter := ws\<rparr>
                          in if \<not> allowed then g
                             else
                               (case tk_Subject claims of
                                  None \<Rightarrow> g
                                | Some userID \<Rightarrow>
                                    if userID = [] then g
                                    else
                                      (case db_read (ByID userID) g of
                                         (g, Inl e) \<Rightarrow> g
                                       | (g, Inr a) \<Rightarrow>
                                           if ac_LoggingEnabled a then access_log ''SESSION_EXPIRED'' (ac_ID a) digest g else g))))
           | _ \<Rightarrow> g))"

text \<open>The checks on the account once the session is accepted.\<close>

definition authenticate_account ::
  "auth_env \<Rightarrow> 's sessionRegistry \<Rightarrow> string \<Rightarrow> string \<Rightarrow> int \<Rightarrow> activeSession \<Rightarrow> 's gateway \<Rightarrow> 's gateway \<times> (authError + identity)" where
  "authenticate_account env R raw userID version session g =
     (case db_read (ByID userID) g of
        (g, Inl AccountNotFound) \<Rightarrow>
          (forget R raw g, Inl (AuthError ''session_revoked'' ''The account session is no longer active.'' 401))
      | (g, Inl e) \<Rightarrow> (g, Inl (AuthError ''session_unavailable'' ''The account store is unavailable.'' 503))
      | (g, Inr a) \<Rightarrow>
          if ac_AccountLocked a
          then (forget R raw g, Inl (AuthError ''session_revoked'' ''The account session is no longer active.'' 401))
          else if ac_authVersion a \<noteq> version
          then (forget R raw g, Inl (AuthError ''session_revoked'' ''The account credentials or session policy changed.'' 401))
          else
            (let identity = (\<lambda>s. \<lparr>id_Account = a, id_Session = s, id_PasswordChangeRequired = passwordExpired a (ae_now env),
                                  id_RawSessionID = raw\<rparr>)
             in if ae_now env - as_LastSeenAt session \<ge> 30 * second then
                  (case sr_Touch R (ae_now env) raw (ae_now env) (gw_sessions g) of
                     (ss, Some e) \<Rightarrow>
                       (g\<lparr>gw_sessions := ss\<rparr>, Inl (AuthError ''session_unavailable'' ''The session registry is unavailable.'' 503))
                   | (ss, None) \<Rightarrow>
                       (g\<lparr>gw_sessions := ss\<rparr>, Inr (identity (session\<lparr>as_LastSeenAt := ae_now env\<rparr>))))
                else (g, Inr (identity session))))"

definition authenticate_session ::
  "auth_env \<Rightarrow> 's sessionRegistry \<Rightarrow> request \<Rightarrow> string \<Rightarrow> string \<Rightarrow> string \<Rightarrow> int \<Rightarrow> 's gateway \<Rightarrow> 's gateway \<times> (authError + identity)" where
  "authenticate_session env R request raw userID tokenIP version g =
     (case sr_Get R (ae_now env) raw (gw_sessions g) of
        (ss, Inl SessionNotFound) \<Rightarrow>
          (g\<lparr>gw_sessions := ss\<rparr>, Inl (invalid_session ''The session was revoked or is unavailable.''))
      | (ss, Inl (RegistryFailed e)) \<Rightarrow>
          (g\<lparr>gw_sessions := ss\<rparr>, Inl (AuthError ''session_unavailable'' ''The session registry is unavailable.'' 503))
      | (ss, Inr session) \<Rightarrow>
          (let g = g\<lparr>gw_sessions := ss\<rparr>;
               addr = clientIP (ae_proxies env) request
           in if as_UserID session \<noteq> userID \<or> as_AuthVersion session \<noteq> version \<or>
                 \<not> sameCanonicalIP tokenIP addr \<or> \<not> sameCanonicalIP (as_IP session) addr
              then (access_log ''SESSION_IP_MISMATCH'' (as_UserID session) (as_ID session) (forget R raw g),
                    Inl (AuthError ''session_ip_mismatch'' ''The session was revoked because the client address changed.'' 401))
              else if ae_idleTimeout env > 0 \<and> \<not> as_Persistent session \<and>
                      ae_now env - as_LastSeenAt session > ae_idleTimeout env
              then (access_log ''SESSION_IDLE_EXPIRED'' (as_UserID session) (as_ID session) (forget R raw g),
                    Inl (AuthError ''session_expired'' ''The session expired due to inactivity.'' 401))
              else authenticate_account env R raw userID version session g))"

definition Authenticate ::
  "auth_env \<Rightarrow> 's sessionRegistry \<Rightarrow> request \<Rightarrow> 's gateway \<Rightarrow> 's gateway \<times> (authError + identity)" where
  "Authenticate env R request g =
     (if \<not> ae_configured env then (g, Inl (unavailableError env))
      else if \<not> secureRequest (ae_proxies env) request
      then (g, Inl (AuthError ''https_required'' ''This page requires HTTPS.'' 426))
      else if accountTokenFromRequest request = []
      then (g, Inl (AuthError ''unauthorized'' ''Authentication is required.'' 401))
      else
        (case ae_token env (ae_now env) (accountTokenFromRequest request) of
           None \<Rightarrow> (auditExpiredSession env (accountTokenFromRequest request) g,
                    Inl (invalid_session ''The session is invalid or expired.''))
         | Some claims \<Rightarrow>
             (case (tk_Jti claims, tk_Subject claims, tk_IP claims, tk_AuthVersion claims) of
                (Some raw, Some userID, Some tokenIP, Some version) \<Rightarrow>
                  if raw = [] \<or> userID = [] \<or> version < 1 then (g, Inl (invalid_session ''The session is invalid.''))
                  else authenticate_session env R request raw userID tokenIP version g
              | _ \<Rightarrow> (g, Inl (invalid_session ''The session is invalid.'')))))"

definition Logout :: "auth_env \<Rightarrow> 's sessionRegistry \<Rightarrow> request \<Rightarrow> 's gateway \<Rightarrow> 's gateway \<times> authError option" where
  "Logout env R request g =
     (case Authenticate env R request g of
        (g, Inl e) \<Rightarrow> (g, if err_HTTPStatus e = 401 then None else Some e)
      | (g, Inr identity) \<Rightarrow>
          (case sr_Delete R (id_RawSessionID identity) (gw_sessions g) of
             (ss, Some e) \<Rightarrow>
               (g\<lparr>gw_sessions := ss\<rparr>, Some (AuthError ''logout_unavailable'' ''The session could not be revoked.'' 503))
           | (ss, None) \<Rightarrow>
               (let g = g\<lparr>gw_sessions := ss\<rparr>
                in if \<not> ac_LoggingEnabled (id_Account identity) then (g, None)
                   else
                     (case audit_append ''access'' ''LOGOUT'' (ac_ID (id_Account identity)) (as_ID (id_Session identity)) g of
                        (g, True) \<Rightarrow> (g, None)
                      | (g, False) \<Rightarrow>
                          (g, Some (AuthError ''audit_unavailable''
                                ''The session was revoked, but its audit record could not be written.'' 503))))))"

section \<open>What an accepted request implies\<close>

lemma db_read_result: "db_read op g = (g1, Inr x) \<Longrightarrow> op (gw_users g1) = Inr x"
  by (auto simp: db_read_def db_def Let_def split: list.split_asm prod.split_asm if_split_asm)

lemma db_read_users:
  "gw_users (fst (db_read op g)) = store_run (case gw_script g of [] \<Rightarrow> [] | (others, fails) # script \<Rightarrow> others) (gw_users g)"
  by (auto simp: db_read_def db_def Let_def store_run_def split: list.split prod.split)

text \<open>The session of an accepted request is the stored one, but for the time it was last seen.\<close>

definition same_session :: "activeSession \<Rightarrow> activeSession \<Rightarrow> bool" where
  "same_session s t \<longleftrightarrow> (\<exists>at. t = s\<lparr>as_LastSeenAt := at\<rparr>)"

lemma same_session_refl [simp]: "same_session s s" "same_session s (s\<lparr>as_LastSeenAt := at\<rparr>)"
  unfolding same_session_def by (rule exI [of _ "as_LastSeenAt s"], simp) (rule exI [of _ at], simp)

lemma authenticate_account_accepts:
  assumes "authenticate_account env R raw userID version session g = (g', Inr identity)"
  obtains g1 a where "db_read (ByID userID) g = (g1, Inr a)" and "\<not> ac_AccountLocked a" and "ac_authVersion a = version"
    and "id_Account identity = a" and "id_RawSessionID identity = raw" and "same_session session (id_Session identity)"
    and "id_PasswordChangeRequired identity = passwordExpired a (ae_now env)" and "gw_users g' = gw_users g1"
proof -
  obtain g1 r where read: "db_read (ByID userID) g = (g1, r)" by fastforce
  from assms obtain a where a: "r = Inr a" "\<not> ac_AccountLocked a" "ac_authVersion a = version"
    by (auto simp: authenticate_account_def read Let_def split: sum.split_asm storeError.split_asm if_split_asm)
  show ?thesis
    by (rule that [of g1 a]) (use assms read a in \<open>auto simp: authenticate_account_def Let_def
        split: if_split_asm prod.split_asm option.split_asm\<close>)
qed

lemma Authenticate_accepts:
  assumes "Authenticate env R request g = (g', Inr identity)"
  obtains claims raw userID tokenIP version ss session g1 a
  where "secureRequest (ae_proxies env) request"
    and "ae_token env (ae_now env) (accountTokenFromRequest request) = Some claims"
    and "tk_Jti claims = Some raw" and "tk_Subject claims = Some userID" and "tk_IP claims = Some tokenIP"
    and "tk_AuthVersion claims = Some version"
    and "sr_Get R (ae_now env) raw (gw_sessions g) = (ss, Inr session)"
    and "as_UserID session = userID" and "as_AuthVersion session = version"
    and "sameCanonicalIP tokenIP (clientIP (ae_proxies env) request)"
    and "sameCanonicalIP (as_IP session) (clientIP (ae_proxies env) request)"
    and "\<not> (ae_idleTimeout env > 0 \<and> \<not> as_Persistent session \<and> ae_now env - as_LastSeenAt session > ae_idleTimeout env)"
    and "authenticate_account env R raw userID version session (g\<lparr>gw_sessions := ss\<rparr>) = (g', Inr identity)"
  using assms that
  by (auto simp: Authenticate_def authenticate_session_def Let_def
      split: if_split_asm option.split_asm prod.split_asm sum.split_asm registryError.split_asm)

section \<open>What the database calls do to the table\<close>

definition interference :: "'s gateway \<Rightarrow> storeCall list" where
  "interference g = (case gw_script g of [] \<Rightarrow> [] | (others, fails) # script \<Rightarrow> others)"

definition meanwhile :: "string \<Rightarrow> 's gateway \<Rightarrow> bool" where
  "meanwhile i g \<longleftrightarrow> (\<forall>step\<in>set (gw_script g). \<forall>call\<in>set (fst step). \<not> creates i call)"

lemma store_run_Nil [simp]: "store_run [] us = us"
  by (simp add: store_run_def)

lemma meanwhile_interference: "meanwhile i g \<Longrightarrow> \<forall>call\<in>set (interference g). \<not> creates i call"
  by (cases "gw_script g") (auto simp: meanwhile_def interference_def)

lemma db_script: "gw_script (fst (db op g)) = tl (gw_script g)"
  by (auto simp: db_def Let_def split: list.split prod.split)

lemma db_sessions [simp]: "gw_sessions (fst (db op g)) = gw_sessions g"
  by (auto simp: db_def Let_def split: list.split prod.split)

lemma db_done: "db op g = (g1, Inr x) \<Longrightarrow> op (store_run (interference g) (gw_users g)) = (gw_users g1, Inr x)"
  by (auto simp: db_def interference_def Let_def split: list.split_asm prod.split_asm if_split_asm)

lemma db_read_table: "gw_users (fst (db_read op g)) = store_run (interference g) (gw_users g)"
  by (auto simp: db_read_users interference_def split: list.split)

lemma meanwhile_db: "meanwhile i g \<Longrightarrow> meanwhile i (fst (db op g))"
  by (cases "gw_script g") (auto simp: meanwhile_def db_script)

lemma purge_users [simp]: "gw_users (purgeUserSessionLeases R i g) = gw_users g"
  by (auto simp: purgeUserSessionLeases_def access_log_def audit_append_def split: prod.split option.split list.split bool.split)

lemma bump_raises:
  assumes "\<forall>row\<in>set us. ac_ID row = i \<longrightarrow> v \<le> ac_authVersion row"
  shows "\<forall>row\<in>set (fst (BumpAuthVersion now i us)). ac_ID row = i \<longrightarrow> v < ac_authVersion row"
proof (intro ballI impI)
  fix row
  assume row: "row \<in> set (fst (BumpAuthVersion now i us))" and i: "ac_ID row = i"
  have "\<exists>x\<in>set us. row = (if ac_ID x = i then bumped_row now x else x)"
    by (rule updated_row) (use row in \<open>simp add: BumpAuthVersion_def\<close>)
  then obtain x where x: "x \<in> set us" "row = (if ac_ID x = i then bumped_row now x else x)" by blast
  show "v < ac_authVersion row"
  proof (cases "ac_ID x = i")
    case True
    with assms x(1) have "v \<le> ac_authVersion x" by blast
    with True x(2) show ?thesis by simp
  next
    case False
    with x(2) i show ?thesis by simp
  qed
qed

lemma run_at_least:
  assumes "\<forall>row\<in>set us. ac_ID row = i \<longrightarrow> v \<le> ac_authVersion row" and "\<forall>call\<in>set calls. \<not> creates i call"
  shows "\<forall>row\<in>set (store_run calls us). ac_ID row = i \<longrightarrow> v \<le> ac_authVersion row"
  using accounts.run_outdated [of us i "v - 1" calls] assms by (force simp: store_run_def)

lemma run_above:
  assumes "\<forall>row\<in>set us. ac_ID row = i \<longrightarrow> v < ac_authVersion row" and "\<forall>call\<in>set calls. \<not> creates i call"
  shows "\<forall>row\<in>set (store_run calls us). ac_ID row = i \<longrightarrow> v < ac_authVersion row"
  using accounts.run_outdated [of us i v calls] assms by (simp add: store_run_def)

lemma RevokeUser_raises:
  assumes "RevokeUser env R i g = (g1, None)" and "meanwhile i g"
    and "\<forall>row\<in>set (gw_users g). ac_ID row = i \<longrightarrow> v \<le> ac_authVersion row"
  shows "\<forall>row\<in>set (gw_users g1). ac_ID row = i \<longrightarrow> v < ac_authVersion row"
proof -
  obtain ga r where a: "db_read (ByID i) g = (ga, r)" by fastforce
  obtain gb where b: "db (BumpAuthVersion (ae_now env) i) ga = (gb, Inr ())" and g1: "gw_users g1 = gw_users gb"
    using assms(1) by (auto simp: RevokeUser_def a split: prod.split_asm sum.split_asm)
  have ga: "gw_users ga = store_run (interference g) (gw_users g)" "meanwhile i ga"
    using db_read_table [of "ByID i" g] meanwhile_db [OF assms(2), of "\<lambda>us. (us, ByID i us)"] by (simp_all add: a db_read_def [symmetric])
  have "\<forall>row\<in>set (store_run (interference ga) (gw_users ga)). ac_ID row = i \<longrightarrow> v \<le> ac_authVersion row"
    using run_at_least [OF run_at_least [OF assms(3) meanwhile_interference [OF assms(2)]] meanwhile_interference [OF ga(2)]] ga(1) by simp
  from bump_raises [OF this, of "ae_now env"] db_done [OF b] show ?thesis by (simp add: g1)
qed

lemma ByID_row: "ByID i us = Inr a \<Longrightarrow> \<exists>row\<in>set us. ac_ID row = trimSpace i \<and> ac_authVersion row = ac_authVersion a \<and> ac_AccountLocked row = ac_AccountLocked a"
  by (auto simp: ByID_def queryOne_def scanAccount_def split: option.split_asm dest!: find_SomeD)

section \<open>Properties\<close>

text \<open>C9: a request is accepted only over a secure transport, with a token that decrypts and is valid now and
  that was issued to the address of the client, whose session is live in the registry, not idle for too
  long, and belongs to the user and the version of the token and to the address of the client, and whose
  account exists, is not locked and has still the version of the token.\<close>

theorem authenticated_request_valid:
  assumes "distinct (map fst (gw_sessions g))"
    and "Authenticate env (memorySessionRegistry (ae_hash env)) request g = (g', Inr identity)"
  shows "secureRequest (ae_proxies env) request \<and>
    (\<exists>claims raw tokenIP session.
       ae_token env (ae_now env) (accountTokenFromRequest request) = Some claims \<and> tk_Jti claims = Some raw \<and>
       tk_IP claims = Some tokenIP \<and> sameCanonicalIP tokenIP (clientIP (ae_proxies env) request) \<and>
       \<not> (ae_idleTimeout env > 0 \<and> \<not> as_Persistent session \<and> ae_now env - as_LastSeenAt session > ae_idleTimeout env) \<and>
       tk_Subject claims = Some (as_UserID (id_Session identity)) \<and>
       tk_AuthVersion claims = Some (as_AuthVersion (id_Session identity)) \<and>
       live_of map_of (ae_now env) (gw_sessions g) (sessionIDDigest (ae_hash env) raw) = Some session \<and>
       same_session session (id_Session identity)) \<and>
    sameCanonicalIP (as_IP (id_Session identity)) (clientIP (ae_proxies env) request) \<and>
    ByID (as_UserID (id_Session identity)) (gw_users g') = Inr (id_Account identity) \<and>
    \<not> ac_AccountLocked (id_Account identity) \<and>
    ac_authVersion (id_Account identity) = as_AuthVersion (id_Session identity)"
proof (rule Authenticate_accepts [OF assms(2)])
  fix claims raw userID tokenIP version ss session
  assume secure: "secureRequest (ae_proxies env) request"
    and token: "ae_token env (ae_now env) (accountTokenFromRequest request) = Some claims"
      "tk_Jti claims = Some raw" "tk_Subject claims = Some userID" "tk_AuthVersion claims = Some version"
      "tk_IP claims = Some tokenIP" "sameCanonicalIP tokenIP (clientIP (ae_proxies env) request)"
      "\<not> (ae_idleTimeout env > 0 \<and> \<not> as_Persistent session \<and> ae_now env - as_LastSeenAt session > ae_idleTimeout env)"
    and got: "sr_Get (memorySessionRegistry (ae_hash env)) (ae_now env) raw (gw_sessions g) = (ss, Inr session)"
    and sess: "as_UserID session = userID" "as_AuthVersion session = version"
      "sameCanonicalIP (as_IP session) (clientIP (ae_proxies env) request)"
    and acc: "authenticate_account env (memorySessionRegistry (ae_hash env)) raw userID version session (g\<lparr>gw_sessions := ss\<rparr>) = (g', Inr identity)"
  from acc obtain g1 a where read: "db_read (ByID userID) (g\<lparr>gw_sessions := ss\<rparr>) = (g1, Inr a)" and a: "\<not> ac_AccountLocked a" "ac_authVersion a = version"
    "id_Account identity = a" "same_session session (id_Session identity)" "gw_users g' = gw_users g1"
    by (rule authenticate_account_accepts) blast
  have fields': "as_UserID (id_Session identity) = userID" "as_AuthVersion (id_Session identity) = version"
    "as_IP (id_Session identity) = as_IP session"
    using a(4) sess by (auto simp: same_session_def)
  have live: "live_of map_of (ae_now env) (gw_sessions g) (sessionIDDigest (ae_hash env) raw) = Some session"
    by (rule memory.get [OF assms(1) got])
  show ?thesis
    using secure token live a fields' sess(3) db_read_result [OF read]
    by (intro conjI exI [of _ claims] exI [of _ raw] exI [of _ tokenIP] exI [of _ session]) simp_all
qed

text \<open>C5: revoking a user voids every token issued before, for good. Whatever other requests do meanwhile and
  afterwards, as long as no account with the same identifier is created, no request with a token of that
  user for a version the account had before is accepted, even if the registry could not be cleaned.\<close>

theorem revoked_user_rejected:
  assumes "RevokeUser env R i g = (g1, None)" and "meanwhile i g" and "trimSpace i = i"
    and "\<forall>row\<in>set (gw_users g). ac_ID row = i \<longrightarrow> v \<le> ac_authVersion row"
    and "gw_users g2 = store_run calls (gw_users g1)" and "\<forall>call\<in>set calls. \<not> creates i call" and "meanwhile i g2"
    and "ae_token env' (ae_now env') (accountTokenFromRequest request) = Some claims"
    and "tk_Subject claims = Some i" and "tk_AuthVersion claims = Some v"
  shows "snd (Authenticate env' R' request g2) \<noteq> Inr identity"
proof
  assume "snd (Authenticate env' R' request g2) = Inr identity"
  then obtain g3 where "Authenticate env' R' request g2 = (g3, Inr identity)" by (metis prod.collapse)
  then show False
  proof (rule Authenticate_accepts)
    fix claims' raw userID tokenIP version ss session
    assume token: "ae_token env' (ae_now env') (accountTokenFromRequest request) = Some claims'"
        "tk_Subject claims' = Some userID" "tk_AuthVersion claims' = Some version"
      and acc: "authenticate_account env' R' raw userID version session (g2\<lparr>gw_sessions := ss\<rparr>) = (g3, Inr identity)"
    have uv: "userID = i" "version = v" using token assms(8-10) by auto
    let ?g = "g2\<lparr>gw_sessions := ss\<rparr>"
    from acc obtain g4 a where read: "db_read (ByID userID) ?g = (g4, Inr a)" and ver: "ac_authVersion a = version"
      by (rule authenticate_account_accepts) blast
    have "gw_users g4 = store_run (interference ?g) (gw_users g2)" using db_read_table [of "ByID userID" ?g] read by simp
    moreover have "\<forall>call\<in>set (interference ?g). \<not> creates i call"
      using assms(7) by (intro meanwhile_interference) (simp add: meanwhile_def)
    ultimately have "\<forall>row\<in>set (gw_users g4). ac_ID row = i \<longrightarrow> v < ac_authVersion row"
      using run_above [OF run_above [OF RevokeUser_raises [OF assms(1,2,4)] assms(6)]] assms(5) by metis
    moreover obtain row where "row \<in> set (gw_users g4)" "ac_ID row = i" "ac_authVersion row = v"
      using ByID_row [OF db_read_result [OF read]] assms(3) uv ver by auto
    ultimately show False by auto
  qed
qed

text \<open>A session that \<open>Authenticate\<close> or \<open>Logout\<close> removed is gone from the registry.\<close>

lemma memory_forget: "map_of (gw_sessions (forget (memorySessionRegistry hash) raw g)) (sessionIDDigest hash raw) = None"
  by (simp add: forget_def memory_defs AList.delete_conv')

lemma access_log_sessions [simp]: "gw_sessions (access_log event actor session g) = gw_sessions g"
  by (simp add: access_log_def audit_append_def split: list.split bool.split)

lemma audit_append_sessions: "audit_append category event actor session g = (g', ok) \<Longrightarrow> gw_sessions g' = gw_sessions g"
  by (auto simp: audit_append_def split: list.split_asm bool.split_asm)

lemma rejected_account_gone:
  assumes "authenticate_account env (memorySessionRegistry hash) raw userID version session g = (g', Inl e)" and "err_HTTPStatus e = 401"
  shows "map_of (gw_sessions g') (sessionIDDigest hash raw) = None"
proof -
  obtain g1 r where read: "db_read (ByID userID) g = (g1, r)" by fastforce
  from assms show ?thesis
    by (auto simp: authenticate_account_def read memory_forget Let_def
        split: sum.split_asm storeError.split_asm if_split_asm prod.split_asm option.split_asm)
qed

lemma rejected_session_gone:
  assumes "distinct (map fst (gw_sessions g))"
    and "authenticate_session env (memorySessionRegistry hash) request raw userID tokenIP version g = (g', Inl e)" and "err_HTTPStatus e = 401"
  shows "map_of (gw_sessions g') (sessionIDDigest hash raw) = None"
proof -
  obtain ss r where got: "sr_Get (memorySessionRegistry hash) (ae_now env) raw (gw_sessions g) = (ss, r)" by fastforce
  have missing: "r = Inl SessionNotFound \<Longrightarrow> map_of ss (sessionIDDigest hash raw) = None"
    using got by (auto simp: memorySessionRegistry_def memory_Get_def Let_def split: option.split_asm)
  from assms show ?thesis
    by (auto simp: authenticate_session_def got missing memory_forget Let_def
        split: sum.split_asm registryError.split_asm if_split_asm dest: rejected_account_gone)
qed

text \<open>After a logout that reports no error the session of the token is not found any more, also when the
  request was rejected as unauthorized.\<close>

theorem logout_ends_session:
  assumes "distinct (map fst (gw_sessions g))"
    and "Logout env (memorySessionRegistry (ae_hash env)) request g = (g', None)"
    and "accountTokenFromRequest request \<noteq> []"
    and "ae_token env (ae_now env) (accountTokenFromRequest request) = Some claims"
    and "tk_Jti claims = Some raw" and "tk_Subject claims = Some userID" and "tk_IP claims = Some tokenIP"
    and "tk_AuthVersion claims = Some version" and "raw \<noteq> []" and "userID \<noteq> []" and "1 \<le> version"
  shows "snd (memory_Get (ae_hash env) t raw (gw_sessions g')) = Inl SessionNotFound"
proof -
  let ?R = "memorySessionRegistry (ae_hash env)"
  obtain g1 r where auth: "Authenticate env ?R request g = (g1, r)" by fastforce
  have "map_of (gw_sessions g') (sessionIDDigest (ae_hash env) raw) = None"
  proof (cases r)
    case (Inl e)
    then have "err_HTTPStatus e = 401" "g' = g1" using assms(2) auth by (auto simp: Logout_def split: if_split_asm)
    moreover have "authenticate_session env ?R request raw userID tokenIP version g = (g1, Inl e)"
      using auth Inl \<open>err_HTTPStatus e = 401\<close> assms(3-11)
      by (auto simp: Authenticate_def unavailableError_def split: if_split_asm)
    ultimately show ?thesis using rejected_session_gone [OF assms(1)] by simp
  next
    case (Inr identity)
    obtain ss where ss: "sr_Delete ?R (id_RawSessionID identity) (gw_sessions g1) = (ss, None)"
      by (simp add: memory_defs)
    have "gw_sessions g' = ss"
      using assms(2) auth Inr ss by (auto simp: Logout_def Let_def dest: audit_append_sessions split: if_split_asm prod.split_asm bool.split_asm)
    moreover have "id_RawSessionID identity = raw"
      using auth Inr assms(4,5) by (auto elim!: Authenticate_accepts authenticate_account_accepts)
    moreover have "ss = AList.delete (sessionIDDigest (ae_hash env) (id_RawSessionID identity)) (gw_sessions g1)"
      using ss by (simp add: memory_defs)
    ultimately show ?thesis by (simp add: AList.delete_conv')
  qed
  then show ?thesis
    by (auto simp: memory_Get_def Let_def cleanupLocked_def map_of_eq_None_iff split: option.split dest!: map_of_SomeD)
qed

section \<open>Witnesses\<close>

definition sample_claims :: claims where
  "sample_claims =
     \<lparr>tk_Jti = Some ''sid'', tk_Subject = Some ''u1'', tk_IP = Some ''192.0.2.7'', tk_AuthVersion = Some 1, tk_IssuedAt = 100,
      tk_NotBefore = 95, tk_Expiration = Some 200\<rparr>"

definition web_env :: auth_env where
  "web_env =
     \<lparr>ae_configured = True, ae_initFailed = False, ae_now = 150, ae_hash = (\<lambda>s. [1, 2]),
      ae_token = (\<lambda>now token. if token = ''tok'' \<and> now < 200 then Some sample_claims else None),
      ae_expiredToken = (\<lambda>token. None), ae_issue = (\<lambda>claims. Some ''tok''), ae_proxies = sample_proxies, ae_loginNetworks = [],
      ae_idleTimeout = 900, ae_sessionTTL = 100, ae_persistentTTL = 1000, ae_loginWindow = 120, ae_lockDuration = 120,
      ae_loginLimit = 5, ae_originationRate = 2, ae_enforceMFA = False, ae_redis = False, ae_passwords = sample_passwords,
      ae_totp = (\<lambda>passcode secret at. Inr False), ae_totpKey = None, ae_seal = (\<lambda>aad secret. None),
      ae_open = (\<lambda>aad nonce sealed. None), ae_sessionID = Some ''sid'', ae_uuid = None\<rparr>"

definition sample_gateway :: "sessions gateway" where
  "sample_gateway =
     \<lparr>gw_sessions = [(sessionIDDigest (\<lambda>s. [1, 2]) ''sid'', sample_session\<lparr>as_IP := ''192.0.2.7''\<rparr>)], gw_users = sample_users,
      gw_audit = [], gw_loginLimiter = [], gw_loginIPLimiter = [], gw_originationLimiter = [], gw_expiryLimiter = [],
      gw_preauthLimiter = [], gw_script = [], gw_auditFails = [], gw_rates = []\<rparr>"

lemma client_request_facts:
  "secureRequest sample_proxies client_request" "accountTokenFromRequest client_request = ''tok''"
  "clientIP sample_proxies client_request = ''192.0.2.7''" "sameCanonicalIP ''192.0.2.7'' ''192.0.2.7''"
  "trimSpace ''u1'' = ''u1''"
  by code_simp+

lemma sample_ByID: "ByID ''u1'' sample_users = Inr sample_account"
  by code_simp

lemma sample_accepted:
  "\<exists>g' identity. Authenticate web_env (memorySessionRegistry (ae_hash web_env)) client_request sample_gateway = (g', Inr identity)"
  by (simp add: Authenticate_def web_env_def client_request_facts sample_claims_def authenticate_session_def
      memorySessionRegistry_def memory_Get_def cleanupLocked_def sample_gateway_def sample_session_def Let_def
      authenticate_account_def db_read_def db_def sample_ByID)
     (simp add: sample_account_def second_def)

theorem authenticated_request_valid_witness:
  "\<exists>identity. snd (Authenticate web_env (memorySessionRegistry (ae_hash web_env)) client_request sample_gateway) = Inr identity \<and>
     ac_authVersion (id_Account identity) = as_AuthVersion (id_Session identity)"
proof -
  obtain g' identity where "Authenticate web_env (memorySessionRegistry (ae_hash web_env)) client_request sample_gateway = (g', Inr identity)"
    using sample_accepted by blast
  with authenticated_request_valid [OF _ this] show ?thesis by (simp add: sample_gateway_def)
qed

theorem revoked_user_rejected_witness:
  "\<forall>identity. snd (Authenticate web_env (memorySessionRegistry (ae_hash web_env)) client_request
     (fst (RevokeUser web_env (memorySessionRegistry (ae_hash web_env)) ''u1'' sample_gateway))) \<noteq> Inr identity"
proof -
  let ?R = "memorySessionRegistry (ae_hash web_env)"
  obtain g1 e where revoke: "RevokeUser web_env ?R ''u1'' sample_gateway = (g1, e)" by fastforce
  then have "e = None" "gw_script g1 = []"
    by (auto simp: RevokeUser_def db_read_def db_def sample_gateway_def BumpAuthVersion_def requireAffected_def update_where_def
        sample_users_def sample_account_def purgeUserSessionLeases_def memory_defs)
  have old: "\<forall>row\<in>set (gw_users sample_gateway). ac_ID row = ''u1'' \<longrightarrow> 1 \<le> ac_authVersion row"
    by (simp add: sample_gateway_def sample_users_def sample_account_def)
  have "snd (Authenticate web_env ?R client_request g1) \<noteq> Inr identity" for identity
    by (rule revoked_user_rejected [of web_env ?R "''u1''" sample_gateway g1 1 g1 "[]" web_env client_request sample_claims])
       (use revoke \<open>e = None\<close> \<open>gw_script g1 = []\<close> old client_request_facts in
         \<open>simp_all add: meanwhile_def sample_gateway_def web_env_def sample_claims_def\<close>)
  then show ?thesis by (simp add: revoke)
qed

theorem logout_ends_session_witness:
  "snd (memory_Get (ae_hash web_env) 160 ''sid''
     (gw_sessions (fst (Logout web_env (memorySessionRegistry (ae_hash web_env)) client_request sample_gateway)))) = Inl SessionNotFound"
proof -
  let ?R = "memorySessionRegistry (ae_hash web_env)"
  obtain g' e where out: "Logout web_env ?R client_request sample_gateway = (g', e)" by fastforce
  obtain g1 identity where acc: "Authenticate web_env ?R client_request sample_gateway = (g1, Inr identity)"
    using sample_accepted by blast
  moreover have "gw_auditFails g1 = []"
    using acc by (auto simp: Authenticate_def web_env_def client_request_facts sample_claims_def authenticate_session_def
      memorySessionRegistry_def memory_Get_def cleanupLocked_def sample_gateway_def sample_session_def Let_def
      authenticate_account_def db_read_def db_def sample_ByID second_def split: if_split_asm)
  ultimately have "e = None"
    using out by (auto simp: Logout_def memory_defs audit_append_def Let_def split: if_split_asm)
  have "snd (memory_Get (ae_hash web_env) 160 ''sid'' (gw_sessions g')) = Inl SessionNotFound"
    by (rule logout_ends_session [of sample_gateway web_env client_request g' sample_claims "''sid''" "''u1''" "''192.0.2.7''" 1])
       (use out \<open>e = None\<close> client_request_facts in \<open>simp_all add: sample_gateway_def web_env_def sample_claims_def\<close>)
  then show ?thesis by (simp add: out)
qed

end
