(* ===== verification/Web_Login.thy ===== *)
theory Web_Login
  imports Web_Auth
begin

text \<open>
  Signing in to the web panel, \<open>Login\<close> and the functions it calls in \<open>internal/webgateway/account_auth.go\<close>: rate
  limits, password and MFA checks, the enrollment of MFA and the creation of the session. The long
  function is cut at its stages: \<open>Login\<close>, \<open>login_limited\<close>, \<open>login_password\<close>, \<open>login_factors\<close>,
  \<open>login_session\<close>.
\<close>

section \<open>Data\<close>

record loginInput =
  li_Username :: string
  li_Password :: string
  li_TOTP :: string
  li_Persistent :: bool
  li_Request :: request

record loginResult =
  lr_Token :: string
  lr_Identity :: identity
  lr_Persistent :: bool
  lr_PasswordChangeRequired :: bool

text \<open>A refused login: the error, and the secret and URI of an MFA enrollment that comes with it.\<close>

datatype refusal = Refused (rf_Error: authError) (rf_Enrollment: "(string \<times> string) option")

type_synonym 's login = "'s gateway \<times> (refusal + loginResult)"

definition refuse :: "authError \<Rightarrow> 's gateway \<Rightarrow> 's login" where
  "refuse e g = (g, Inl (Refused e None))"

definition invalidCredentials :: authError where
  "invalidCredentials = AuthError ''invalid_credentials'' ''The username, password, or authentication code is incorrect.'' 401"

definition temporaryAccountLockError :: authError where
  "temporaryAccountLockError =
     AuthError ''account_locked'' ''This account is temporarily locked. Try again after the lock period.'' 423"

definition mfaEnrollmentRequiredError :: authError where
  "mfaEnrollmentRequiredError =
     AuthError ''mfa_enrollment_required'' ''Add the MFA secret to an authenticator, then enter its current code.'' 401"

definition unavailable :: "string \<Rightarrow> authError" where
  "unavailable detail = AuthError ''auth_unavailable'' detail 503"

definition stateChanged :: authError where
  "stateChanged = AuthError ''login_state_changed'' ''The account changed while sign in was in progress. Try again.'' 409"

section \<open>Limits\<close>

definition auditPreauthenticationFailure :: "auth_env \<Rightarrow> string \<Rightarrow> string \<Rightarrow> 's gateway \<Rightarrow> 's gateway" where
  "auditPreauthenticationFailure env event addr g =
     (case Allow (toUpper (trimSpace event) @ ''|'' @ canonicalIP addr) 10 (ae_loginWindow env) (ae_now env) (gw_preauthLimiter g) of
        (allowed, ws) \<Rightarrow>
          (let g = g\<lparr>gw_preauthLimiter := ws\<rparr>
           in if allowed then access_log event [] [] g else g))"

text \<open>The decision of both limiters: the pair of user and address, and the address alone.\<close>

definition admitLoginAttempt ::
  "auth_env \<Rightarrow> string \<Rightarrow> string \<Rightarrow> int \<Rightarrow> 's gateway \<Rightarrow> 's gateway \<times> (string + bool \<times> bool)" where
  "admitLoginAttempt env pairKey addr ipLimit g =
     (if ae_redis env then
        (if ae_uuid env = None then (g, Inl ''generate UUID'')
         else
           (case rate_call g of
              (g, Inl e) \<Rightarrow> (g, Inl e)
            | (g, Inr False) \<Rightarrow> (g, Inr (False, True))
            | (g, Inr True) \<Rightarrow>
                (case rate_call g of (g, Inl e) \<Rightarrow> (g, Inl e) | (g, Inr b) \<Rightarrow> (g, Inr (True, b)))))
      else
        (case Allow pairKey (ae_loginLimit env) (ae_loginWindow env) (ae_now env) (gw_loginLimiter g) of
           (pairAllowed, ws) \<Rightarrow>
             (let g = g\<lparr>gw_loginLimiter := ws\<rparr>
              in if \<not> pairAllowed then (g, Inr (False, True))
                 else
                   (case Allow addr ipLimit (ae_loginWindow env) (ae_now env) (gw_loginIPLimiter g) of
                      (allowed, ws) \<Rightarrow> (g\<lparr>gw_loginIPLimiter := ws\<rparr>, Inr (True, allowed))))))"

definition resetLoginPair :: "string \<Rightarrow> 's gateway \<Rightarrow> 's gateway" where
  "resetLoginPair pairKey g = g\<lparr>gw_loginLimiter := Reset pairKey (gw_loginLimiter g)\<rparr>"

text \<open>The origination limit of an account, used by the commands that originate alerts.\<close>

definition AllowOrigination :: "auth_env \<Rightarrow> identity \<Rightarrow> 's gateway \<Rightarrow> 's gateway \<times> authError option" where
  "AllowOrigination env identity g =
     (let limited = AuthError ''origination_rate_limited''
            (''Alert origination is limited to '' @ itoaInt (ae_originationRate env) @ '' requests per second.'') 429;
          missing = AuthError ''origination_rate_unavailable'' ''The alert origination rate limiter is unavailable.'' 503
      in if \<not> ac_AllowOrigination (id_Account identity)
         then (g, Some (AuthError ''origination_forbidden'' ''This account is not allowed to originate alerts.'' 403))
         else if ae_redis env then
           (if ae_uuid env = None then (g, Some missing)
            else (case rate_call g of (g, Inl e) \<Rightarrow> (g, Some missing) | (g, Inr b) \<Rightarrow> (g, if b then None else Some limited)))
         else
           (case Allow (ac_ID (id_Account identity)) (ae_originationRate env) second (ae_now env) (gw_originationLimiter g) of
              (b, ws) \<Rightarrow> (g\<lparr>gw_originationLimiter := ws\<rparr>, if b then None else Some limited)))"

section \<open>The MFA secret\<close>

definition mfa_context :: "string \<Rightarrow> string" where
  "mfa_context accountID = ''haze-mfa-secret:v2:'' @ accountID"

definition encryptMFASecret :: "auth_env \<Rightarrow> string \<Rightarrow> string \<Rightarrow> string + string" where
  "encryptMFASecret env accountID secret =
     (let i = trimSpace accountID
      in if i = [] then Inl ''account ID is required to encrypt an MFA secret''
         else
           (case ae_seal env (mfa_context i) secret of
              None \<Rightarrow> Inl ''seal''
            | Some sealed \<Rightarrow> Inr (''mfa2.'' @ rawURLEncoding sealed)))"

definition decryptMFASecret :: "auth_env \<Rightarrow> string \<Rightarrow> string \<Rightarrow> string + string" where
  "decryptMFASecret env accountID encrypted =
     (let i = trimSpace accountID
      in if i = [] then Inl ''account ID is required to decrypt an MFA secret''
         else if \<not> hasPrefix encrypted ''mfa2.'' then Inl ''unsupported MFA secret format''
         else
           (case raw_decode url_alphabet (drop 5 encrypted) of
              None \<Rightarrow> Inl ''illegal base64 data''
            | Some raw \<Rightarrow>
                if length raw \<le> 24 then Inl ''invalid MFA secret ciphertext''
                else
                  (case ae_open env (mfa_context i) (take 24 raw) (drop 24 raw) of
                     None \<Rightarrow> Inl ''message authentication failed''
                   | Some secret \<Rightarrow> Inr secret)))"

definition unix :: "instant \<Rightarrow> int" where
  "unix t = t div second - 62135596800"

definition time_step :: "instant \<Rightarrow> int" where
  "time_step t = (if unix t < 0 then - ((- unix t) div 30) else unix t div 30)"

text \<open>The loop over the neighbouring time steps; the accepted step, or 0.\<close>

fun accepted_step_of :: "auth_env \<Rightarrow> string \<Rightarrow> string \<Rightarrow> instant list \<Rightarrow> string + int" where
  "accepted_step_of env passcode secret [] = Inr 0"
| "accepted_step_of env passcode secret (t # ts) =
     (case ae_totp env passcode secret t of
        Inl e \<Rightarrow> Inl e
      | Inr True \<Rightarrow> Inr (time_step t)
      | Inr False \<Rightarrow> accepted_step_of env passcode secret ts)"

definition validateMFA :: "auth_env \<Rightarrow> account \<Rightarrow> string \<Rightarrow> 's gateway \<Rightarrow> 's gateway \<times> bool" where
  "validateMFA env a passcode g =
     (case decryptMFASecret env (ac_ID a) (ac_mfaSecret a) of
        Inl e \<Rightarrow> (g, False)
      | Inr secret \<Rightarrow>
          if length (trimSpace passcode) \<noteq> 6 then (g, False)
          else
            (case accepted_step_of env (trimSpace passcode) secret
                    [ae_now env - 30 * second, ae_now env, ae_now env + 30 * second] of
               Inl e \<Rightarrow> (g, False)
             | Inr step \<Rightarrow>
                 if step = 0 \<or> step \<le> ac_mfaLastStep a then (g, False)
                 else
                   (case db (AcceptMFAStep (ae_now env) (ac_ID a) (ac_authVersion a) step) g of
                      (g, Inl e) \<Rightarrow> (g, False)
                    | (g, Inr _) \<Rightarrow> (g, True))))"

definition upper_hex :: "nat \<Rightarrow> char" where
  "upper_hex d = (if d < 10 then char_of (48 + d) else char_of (55 + d))"

definition queryEscape :: "string \<Rightarrow> string" where
  "queryEscape s =
     concat (map (\<lambda>c. if alnum c \<or> c = CHR ''-'' \<or> c = CHR ''_'' \<or> c = CHR ''.'' \<or> c = CHR ''~'' then [c]
                      else if c = CHR '' '' then ''+''
                      else [CHR ''%'', upper_hex (of_char c div 16), upper_hex (of_char c mod 16)]) s)"

definition startMFAEnrollment :: "auth_env \<Rightarrow> account \<Rightarrow> 's gateway \<Rightarrow> 's login" where
  "startMFAEnrollment env a g =
     (case ae_totpKey env of
        None \<Rightarrow> refuse (unavailable ''MFA enrollment could not be created.'') g
      | Some (secret, uri) \<Rightarrow>
          (case encryptMFASecret env (ac_ID a) secret of
             Inl e \<Rightarrow> refuse (unavailable ''MFA enrollment could not be protected.'') g
           | Inr encrypted \<Rightarrow>
               (case db (SetMFAIfAuthVersion (ae_now env) (ac_ID a) encrypted (ac_authVersion a)) g of
                  (g, Inl VersionChanged) \<Rightarrow> refuse stateChanged g
                | (g, Inl e) \<Rightarrow> refuse (unavailable ''MFA enrollment could not be saved.'') g
                | (g, Inr _) \<Rightarrow>
                    (access_log ''MFA_ENROLLMENT_STARTED'' (ac_ID a) [] g,
                     Inl (Refused mfaEnrollmentRequiredError (Some (secret, uri)))))))"

definition pendingMFAEnrollment :: "auth_env \<Rightarrow> account \<Rightarrow> 's gateway \<Rightarrow> 's login" where
  "pendingMFAEnrollment env a g =
     (case decryptMFASecret env (ac_ID a) (ac_mfaSecret a) of
        Inl e \<Rightarrow> refuse (unavailable ''MFA enrollment could not be recovered.'') g
      | Inr secret \<Rightarrow>
          (g, Inl (Refused mfaEnrollmentRequiredError
             (Some (secret, ''otpauth://totp/'' @ queryEscape (''haze-weather-radio:'' @ ac_Username a) @ ''?secret='' @ queryEscape secret @
                ''&issuer='' @ queryEscape ''haze-weather-radio'' @ ''&period=30&digits=6&algorithm=SHA1'')))))"

section \<open>The stages of a login\<close>

definition refreshLoginAccount :: "auth_env \<Rightarrow> 's sessionRegistry \<Rightarrow> account \<Rightarrow> 's gateway \<Rightarrow> 's gateway \<times> (authError + account)" where
  "refreshLoginAccount env R previous g =
     (case db_read (ByID (ac_ID previous)) g of
        (g, Inl AccountNotFound) \<Rightarrow> (g, Inl invalidCredentials)
      | (g, Inl e) \<Rightarrow> (g, Inl (unavailable ''Sign in is temporarily unavailable.''))
      | (g, Inr a) \<Rightarrow>
          (case applyAccountLockPolicy env R a g of
             (g, Inl e) \<Rightarrow> (g, Inl (unavailable ''Sign in is temporarily unavailable.''))
           | (g, Inr a) \<Rightarrow>
               if ac_AccountLocked a then (g, Inl temporaryAccountLockError)
               else if ac_authVersion a \<noteq> ac_authVersion previous then (g, Inl stateChanged)
               else (g, Inr a)))"

text \<open>What follows a wrong password or a wrong code.\<close>

definition login_failure ::
  "auth_env \<Rightarrow> 's sessionRegistry \<Rightarrow> account \<Rightarrow> string \<Rightarrow> string \<Rightarrow> authError \<Rightarrow> 's gateway \<Rightarrow> 's login" where
  "login_failure env R a event detail e g =
     (case db (RecordLoginFailureIfAuthVersion (ae_now env) (ac_ID a) (ac_authVersion a) (ae_loginLimit env) (ae_loginWindow env) (ae_now env)) g of
        (g, Inl VersionChanged) \<Rightarrow> refuse invalidCredentials g
      | (g, Inl _) \<Rightarrow> refuse (unavailable detail) (access_log (event @ ''_STATE_ERROR'') (ac_ID a) [] g)
      | (g, Inr updated) \<Rightarrow>
          (let g = access_log event (ac_ID a) [] g
           in if ac_AccountLocked updated
              then refuse temporaryAccountLockError (g\<lparr>gw_sessions := fst (sr_DeleteUser R (ac_ID a) (gw_sessions g))\<rparr>)
              else refuse e g))"

definition new_session :: "auth_env \<Rightarrow> loginInput \<Rightarrow> account \<Rightarrow> activeSession" where
  "new_session env input a =
     (let userAgent = cleanUserAgent (li_Request input)
      in \<lparr>as_ID = [], as_UserID = ac_ID a, as_Username = ac_Username a, as_IP = clientIP (ae_proxies env) (li_Request input),
          as_UserAgent = (if passwordExpired a (ae_now env) then userAgent @ '' [password-change-required]'' else userAgent),
          as_Persistent = li_Persistent input, as_AuthVersion = ac_authVersion a, as_CreatedAt = ae_now env,
          as_LastSeenAt = ae_now env,
          as_ExpiresAt = ae_now env + (if li_Persistent input then ae_persistentTTL env else ae_sessionTTL env)\<rparr>)"

definition issued_claims :: "auth_env \<Rightarrow> loginInput \<Rightarrow> account \<Rightarrow> string \<Rightarrow> claims" where
  "issued_claims env input a raw =
     \<lparr>tk_Jti = Some raw, tk_Subject = Some (ac_ID a), tk_IP = Some (clientIP (ae_proxies env) (li_Request input)),
      tk_AuthVersion = Some (ac_authVersion a), tk_IssuedAt = ae_now env, tk_NotBefore = ae_now env - 5 * second,
      tk_Expiration = Some (as_ExpiresAt (new_session env input a))\<rparr>"

definition login_result :: "auth_env \<Rightarrow> loginInput \<Rightarrow> account \<Rightarrow> string \<Rightarrow> string \<Rightarrow> loginResult" where
  "login_result env input a raw token =
     (let session = new_session env input a
      in \<lparr>lr_Token = token,
          lr_Identity = \<lparr>id_Account = a\<lparr>ac_LastIP := as_IP session, ac_LastLoginAt := ae_now env\<rparr>, id_Session = session,
                         id_PasswordChangeRequired = passwordExpired a (ae_now env), id_RawSessionID = raw\<rparr>,
          lr_Persistent = li_Persistent input, lr_PasswordChangeRequired = passwordExpired a (ae_now env)\<rparr>)"

text \<open>The session is put before the success is recorded, and taken back when that fails.\<close>

definition login_commit ::
  "auth_env \<Rightarrow> 's sessionRegistry \<Rightarrow> loginInput \<Rightarrow> string \<Rightarrow> account \<Rightarrow> string \<Rightarrow> string \<Rightarrow> 's gateway \<Rightarrow> 's login" where
  "login_commit env R input limiterKey a raw token g =
     (let session = new_session env input a
      in case sr_Put R (ae_now env) raw session (gw_sessions g) of
           (ss, Some e) \<Rightarrow> refuse (unavailable ''The session registry is unavailable.'') (g\<lparr>gw_sessions := ss\<rparr>)
         | (ss, None) \<Rightarrow>
             (case db (RecordLoginSuccess (ae_now env) (ac_ID a) (as_IP session) (ac_authVersion a)) (g\<lparr>gw_sessions := ss\<rparr>) of
                (g, Inl VersionChanged) \<Rightarrow> refuse stateChanged (forget R raw g)
              | (g, Inl e) \<Rightarrow> refuse (unavailable ''The account state could not be updated.'') (forget R raw g)
              | (g, Inr _) \<Rightarrow>
                  (case (if ac_LoggingEnabled a
                         then audit_append ''access'' ''LOGIN_SUCCESS'' (ac_ID a) (sessionIDDigest (ae_hash env) raw) g
                         else (g, True)) of
                     (g, False) \<Rightarrow>
                       refuse (AuthError ''audit_unavailable'' ''Audit integrity could not be established.'' 503) (forget R raw g)
                   | (g, True) \<Rightarrow>
                       (resetLoginPair limiterKey g, Inr (login_result env input a raw token)))))"

definition login_session ::
  "auth_env \<Rightarrow> 's sessionRegistry \<Rightarrow> loginInput \<Rightarrow> string \<Rightarrow> account \<Rightarrow> 's gateway \<Rightarrow> 's login" where
  "login_session env R input limiterKey previous g =
     (case refreshLoginAccount env R previous g of
        (g, Inl e) \<Rightarrow> refuse e g
      | (g, Inr a) \<Rightarrow>
          if li_Persistent input \<and> \<not> ac_AllowPersistentSessions a
          then refuse (AuthError ''persistent_session_not_allowed''
                 ''This account cannot keep sessions signed in. Uncheck that option, or ask an administrator to enable persistent sessions in Accounts.'' 403) g
          else if passwordExpired a (ae_now env) \<and> \<not> ac_AllowUserPasswordChange a
          then refuse (AuthError ''password_reset_required'' ''This password has expired and must be reset by an administrator.'' 403)
                 (access_log ''PASSWORD_RESET_REQUIRED'' (ac_ID a) [] g)
          else
            (case ae_sessionID env of
               None \<Rightarrow> refuse (unavailable ''A secure session could not be created.'') g
             | Some raw \<Rightarrow>
                 (case ae_issue env (issued_claims env input a raw) of
                    None \<Rightarrow> refuse (unavailable ''A secure session could not be created.'') g
                  | Some token \<Rightarrow> login_commit env R input limiterKey a raw token g)))"

definition login_factors ::
  "auth_env \<Rightarrow> 's sessionRegistry \<Rightarrow> loginInput \<Rightarrow> string \<Rightarrow> account \<Rightarrow> 's gateway \<Rightarrow> 's login" where
  "login_factors env R input limiterKey previous g =
     (case refreshLoginAccount env R previous g of
        (g, Inl e) \<Rightarrow> refuse e g
      | (g, Inr a) \<Rightarrow>
          if \<not> ae_enforceMFA env \<and> \<not> ac_MFAEnabled a then login_session env R input limiterKey a g
          else if \<not> ac_MFAConfigured a then startMFAEnrollment env a g
          else if trimSpace (li_TOTP input) = [] then
            (if \<not> ac_MFAEnabled a then pendingMFAEnrollment env a g
             else refuse (AuthError ''mfa_required'' ''Enter the current authentication code.'' 401) g)
          else
            (case validateMFA env a (li_TOTP input) g of
               (g, False) \<Rightarrow>
                 login_failure env R a ''MFA_FAILURE'' ''MFA failure state could not be recorded.''
                   (AuthError ''invalid_mfa'' ''The authentication code is invalid or was already used.'' 401) g
             | (g, True) \<Rightarrow>
                 if ac_MFAEnabled a then login_session env R input limiterKey a g
                 else
                   (case db (EnableMFAIfAuthVersion (ae_now env) (ac_ID a) (ac_authVersion a)) g of
                      (g, Inl VersionChanged) \<Rightarrow> refuse stateChanged g
                    | (g, Inl e) \<Rightarrow> refuse (unavailable ''MFA enrollment could not be completed.'') g
                    | (g, Inr _) \<Rightarrow> login_session env R input limiterKey (a\<lparr>ac_MFAEnabled := True\<rparr>) g)))"

definition login_password ::
  "auth_env \<Rightarrow> 's sessionRegistry \<Rightarrow> loginInput \<Rightarrow> string \<Rightarrow> 's gateway \<Rightarrow> 's login" where
  "login_password env R input limiterKey g =
     (let addr = clientIP (ae_proxies env) (li_Request input);
          notNow = unavailable ''Sign in is temporarily unavailable.''
      in case db_read (ByUsername (trimSpace (li_Username input))) g of
           (g, Inl AccountNotFound) \<Rightarrow> refuse invalidCredentials g
         | (g, Inl e) \<Rightarrow> refuse notNow g
         | (g, Inr found) \<Rightarrow>
             (case applyAccountLockPolicy env R found g of
                (g, Inl e) \<Rightarrow> refuse notNow g
              | (g, Inr a) \<Rightarrow>
                  if ac_AccountLocked a then refuse temporaryAccountLockError g
                  else
                    (case parseCIDRList (ac_CIDRWhitelist a) of
                       Inl e \<Rightarrow> refuse (unavailable ''The account network policy is invalid.'') (access_log ''LOGIN_ACCOUNT_CIDR_POLICY_INVALID'' (ac_ID a) [] g)
                     | Inr networks \<Rightarrow>
                         if \<not> ipAllowed addr networks
                         then refuse (AuthError ''login_not_allowed'' ''Sign in is not allowed from this network.'' 403)
                                (access_log ''LOGIN_ACCOUNT_CIDR_DENIED'' (ac_ID a) [] g)
                         else
                           (case verifyPassword (ae_passwords env) (ac_passwordHash a) (li_Password input) of
                              Inl e \<Rightarrow> refuse notNow g
                            | Inr False \<Rightarrow>
                                login_failure env R a ''LOGIN_FAILURE'' ''Sign in failure state could not be recorded.'' invalidCredentials g
                            | Inr True \<Rightarrow> login_factors env R input limiterKey a g))))"

definition login_limited :: "auth_env \<Rightarrow> 's sessionRegistry \<Rightarrow> loginInput \<Rightarrow> bool \<Rightarrow> 's gateway \<Rightarrow> 's login" where
  "login_limited env R input pairAllowed g =
     (let limited = AuthError ''login_rate_limited'' ''Too many sign-in attempts. Try again later.'' 429
      in if pairAllowed then refuse limited g
         else
           (case db_read (ByUsername (trimSpace (li_Username input))) g of
              (g, Inl e) \<Rightarrow> refuse limited g
            | (g, Inr found) \<Rightarrow>
                (case applyAccountLockPolicy env R found g of
                   (g, Inl e) \<Rightarrow> refuse (unavailable ''Sign in is temporarily unavailable.'') g
                 | (g, Inr a) \<Rightarrow> refuse (if ac_AccountLocked a then temporaryAccountLockError else limited) g)))"

definition Login :: "auth_env \<Rightarrow> 's sessionRegistry \<Rightarrow> loginInput \<Rightarrow> 's gateway \<Rightarrow> 's login" where
  "Login env R input g =
     (let username = trimSpace (li_Username input);
          addr = clientIP (ae_proxies env) (li_Request input);
          limiterKey = toLower username @ ''|'' @ addr
      in if \<not> ae_configured env then refuse (unavailableError env) g
         else if \<not> secureRequest (ae_proxies env) (li_Request input)
         then refuse (AuthError ''https_required'' ''Sign in requires HTTPS.'' 426)
                (auditPreauthenticationFailure env ''LOGIN_INSECURE_TRANSPORT_DENIED'' addr g)
         else if \<not> validUsername username \<or> li_Password input = [] \<or> length (li_Password input) > maxPasswordBytes
         then refuse invalidCredentials g
         else if \<not> ipAllowed addr (ae_loginNetworks env)
         then refuse (AuthError ''login_not_allowed'' ''Sign in is not allowed from this network.'' 403)
                (auditPreauthenticationFailure env ''LOGIN_CIDR_DENIED'' addr g)
         else
           (case admitLoginAttempt env limiterKey addr (max (ae_loginLimit env * 5) 20) g of
              (g, Inl e) \<Rightarrow> refuse (AuthError ''login_rate_unavailable'' ''The sign-in rate limiter is unavailable.'' 503) g
            | (g, Inr (pairAllowed, ipRateAllowed)) \<Rightarrow>
                if \<not> pairAllowed \<or> \<not> ipRateAllowed
                then login_limited env R input pairAllowed (auditPreauthenticationFailure env ''LOGIN_RATE_LIMITED'' addr g)
                else login_password env R input limiterKey g))"

section \<open>The table while a login runs\<close>

text \<open>\<open>onward g g'\<close>: the rows of \<open>g'\<close> succeed rows of \<open>g\<close>, the keys stay unique, and no account is created from then on
  if none was to be.\<close>

definition quiet :: "'s gateway \<Rightarrow> bool" where
  "quiet g \<longleftrightarrow> (\<forall>i. meanwhile i g)"

definition onward :: "'s gateway \<Rightarrow> 's gateway \<Rightarrow> bool" where
  "onward g g' \<longleftrightarrow> (\<forall>row'\<in>set (gw_users g'). \<exists>row\<in>set (gw_users g). succeeds row row') \<and>
     (keys_ok (gw_users g) \<longrightarrow> keys_ok (gw_users g')) \<and> (quiet g \<longrightarrow> quiet g') \<and> (gw_script g = [] \<longrightarrow> gw_script g' = [])"

lemma later_refl [simp]: "onward g g"
  unfolding onward_def using succeeds_refl by blast

lemma later_trans: "onward a b \<Longrightarrow> onward b c \<Longrightarrow> onward a c"
  unfolding onward_def using succeeds_trans by blast

lemma later_same: "gw_users g' = gw_users g \<Longrightarrow> gw_script g' = gw_script g \<Longrightarrow> onward g g'"
  unfolding onward_def quiet_def meanwhile_def using succeeds_refl by (simp, blast)

lemma run_keys: "keys_ok us \<Longrightarrow> keys_ok (store_run calls us)"
  unfolding store_run_def by (induction calls arbitrary: us) (simp_all add: keys_kept)

lemma run_succeeds:
  "\<forall>i. \<forall>call\<in>set calls. \<not> creates i call \<Longrightarrow> row' \<in> set (store_run calls us) \<Longrightarrow> \<exists>row\<in>set us. succeeds row row'"
  using accounts.run_origin [of row' us calls] by (simp add: store_run_def)

text \<open>A call to the database that is an operation of the store and creates nothing.\<close>

definition harmless :: "(users \<Rightarrow> users \<times> 'r) \<Rightarrow> bool" where
  "harmless op \<longleftrightarrow> (\<forall>us. \<exists>calls. fst (op us) = store_run calls us \<and> (\<forall>i. \<forall>call\<in>set calls. \<not> creates i call))"

lemma harmlessI: "(\<And>us. fst (op us) = store_call call us) \<Longrightarrow> (\<And>i. \<not> creates i call) \<Longrightarrow> harmless op"
  unfolding harmless_def by (intro allI exI [of _ "[call]"]) (simp add: store_run_def)

lemma harmless_read: "harmless (\<lambda>us. (us, op us))"
  unfolding harmless_def by (intro allI exI [of _ "[]"]) simp

lemma later_run:
  assumes "gw_users g' = store_run calls (gw_users g)" and "quiet g \<longrightarrow> (\<forall>i. \<forall>call\<in>set calls. \<not> creates i call)"
    and "quiet g \<longrightarrow> quiet g'" and "quiet g"
    and "gw_script g' = tl (gw_script g)"
  shows "onward g g'"
  unfolding onward_def using assms run_succeeds [of calls _ "gw_users g"] run_keys by (metis list.sel(2))

lemma later_db:
  assumes "harmless op" and "quiet g"
  shows "onward g (fst (db op g))"
proof -
  have q: "quiet (fst (db op g))" using assms(2) meanwhile_db unfolding quiet_def by blast
  have i: "\<forall>i. \<forall>call\<in>set (interference g). \<not> creates i call"
    using assms(2) meanwhile_interference unfolding quiet_def by blast
  have "gw_users (fst (db op g)) = store_run (interference g) (gw_users g) \<or>
      gw_users (fst (db op g)) = fst (op (store_run (interference g) (gw_users g)))"
    by (auto simp: db_def interference_def Let_def split: list.split prod.split)
  then obtain calls where "gw_users (fst (db op g)) = store_run (interference g @ calls) (gw_users g)" "\<forall>i. \<forall>call\<in>set calls. \<not> creates i call"
  proof
    assume "gw_users (fst (db op g)) = store_run (interference g) (gw_users g)"
    then show thesis using that [of "[]"] by simp
  next
    assume "gw_users (fst (db op g)) = fst (op (store_run (interference g) (gw_users g)))"
    moreover obtain calls where "fst (op (store_run (interference g) (gw_users g))) = store_run calls (store_run (interference g) (gw_users g))"
      "\<forall>i. \<forall>call\<in>set calls. \<not> creates i call" using assms(1) unfolding harmless_def by blast
    ultimately show thesis using that [of calls] by (simp add: store_run_def)
  qed
  then show ?thesis using later_run [of "fst (db op g)" "interference g @ calls" g] i q assms(2) db_script [of op g] by auto
qed

lemma later_call: "db op g = (g1, r) \<Longrightarrow> harmless op \<Longrightarrow> quiet g \<Longrightarrow> onward g g1"
  using later_db [of op g] by simp

lemma later_read: "db_read op g = (g1, r) \<Longrightarrow> quiet g \<Longrightarrow> onward g g1"
  unfolding db_read_def by (rule later_call [OF _ harmless_read])

lemma later_quiet: "onward g g' \<Longrightarrow> quiet g \<Longrightarrow> quiet g'"
  unfolding onward_def by blast

lemma harmless_ops:
  "harmless (UnlockLockedIfAuthVersion clock i v at)" "harmless (AcceptMFAStep now i v step)"
  "harmless (EnableMFAIfAuthVersion now i v)" "harmless (RecordLoginSuccess now i addr v)"
  by (rule harmlessI [of _ "DoUnlockIf clock i v at"], simp, simp)
     (rule harmlessI [of _ "DoAcceptMFAStep now i v step"], simp, simp,
      rule harmlessI [of _ "DoEnableMFAIf now i v"], simp, simp,
      rule harmlessI [of _ "DoSuccess now i addr v"], simp, simp)

lemma later_audit: "audit_append category event actor session g = (g', ok) \<Longrightarrow> onward g g'"
  by (rule later_same) (auto simp: audit_append_def split: list.split_asm bool.split_asm)

lemma later_purge: "onward g (purgeUserSessionLeases R i g)"
  by (rule later_same)
     (auto simp: purgeUserSessionLeases_def access_log_def audit_append_def split: prod.split option.split list.split bool.split)

lemma later_reset: "onward g (ResetLoginLimits username addr g)"
  by (rule later_same) (simp_all add: ResetLoginLimits_def Let_def)

text \<open>An account as it was read from the table.\<close>

definition read_from :: "'s gateway \<Rightarrow> account \<Rightarrow> bool" where
  "read_from g a \<longleftrightarrow> (\<exists>row\<in>set (gw_users g). scanAccount row = Inr a)"

lemma scan_keeps:
  "scanAccount row = Inr a \<Longrightarrow> ac_ID a = ac_ID row \<and> ac_authVersion a = ac_authVersion row \<and> ac_passwordHash a = ac_passwordHash row \<and>
     ac_AccountLocked a = ac_AccountLocked row \<and> ac_Username a = ac_Username row \<and> ac_MFAEnabled a = ac_MFAEnabled row \<and>
     ac_mfaSecret a = ac_mfaSecret row \<and> ac_mfaLastStep a = ac_mfaLastStep row"
  by (auto simp: scanAccount_def split: option.split_asm)

lemma query_read: "queryOne P us = Inr a \<Longrightarrow> \<exists>row\<in>set us. P row \<and> scanAccount row = Inr a"
  by (auto simp: queryOne_def split: option.split_asm dest: find_SomeD)

lemma read_query:
  assumes "db_read (queryOne P) g = (g1, Inr a)"
  obtains row where "row \<in> set (gw_users g1)" and "P row" and "scanAccount row = Inr a"
  using query_read [OF db_read_result [OF assms]] by blast

lemma read_ByID:
  assumes "db_read (ByID i) g = (g1, Inr a)"
  shows "read_from g1 a \<and> ac_ID a = trimSpace i"
proof -
  have "db_read (queryOne (\<lambda>row. ac_ID row = trimSpace i)) g = (g1, Inr a)"
    using assms unfolding ByID_def .
  then obtain row where row: "row \<in> set (gw_users g1)" "ac_ID row = trimSpace i" "scanAccount row = Inr a" by (rule read_query)
  then have "ac_ID a = ac_ID row" using scan_keeps by blast
  with row show ?thesis unfolding read_from_def by auto
qed

lemma read_ByUsername:
  assumes "db_read (ByUsername u) g = (g1, Inr a)"
  shows "read_from g1 a \<and> toLower (ac_Username a) = toLower (trimSpace u)"
proof -
  have "db_read (queryOne (\<lambda>row. toLower (ac_Username row) = toLower (trimSpace u))) g = (g1, Inr a)"
    using assms unfolding ByUsername_def .
  then obtain row where row: "row \<in> set (gw_users g1)" "toLower (ac_Username row) = toLower (trimSpace u)" "scanAccount row = Inr a"
    by (rule read_query)
  then have "ac_Username a = ac_Username row" using scan_keeps by blast
  with row show ?thesis unfolding read_from_def by auto
qed

lemma policy_reads:
  assumes "applyAccountLockPolicy env R a g = (g', Inr a')" and "quiet g"
  shows "onward g g' \<and> (a' = a \<and> g' = g \<or> read_from g' a' \<and> ac_ID a' = trimSpace (ac_ID a))"
proof (cases "\<not> ac_AccountLocked a \<or> \<not> lock_over env a")
  case True
  with assms show ?thesis by (simp add: applyAccountLockPolicy_def)
next
  case False
  obtain g1 r where u: "db (UnlockLockedIfAuthVersion (ae_now env) (ac_ID a) (ac_authVersion a) (ae_now env)) g = (g1, r)" by fastforce
  have l1: "onward g g1" by (rule later_call [OF u harmless_ops(1) assms(2)])
  note q1 = later_quiet [OF l1 assms(2)]
  from assms(1) False u obtain b where r: "r = Inr b" by (cases r) (simp_all add: applyAccountLockPolicy_def)
  show ?thesis
  proof (cases b)
    case False
    with assms(1) \<open>\<not> (\<not> ac_AccountLocked a \<or> \<not> lock_over env a)\<close> u r have rd: "db_read (ByID (ac_ID a)) g1 = (g', Inr a')"
      by (simp add: applyAccountLockPolicy_def)
    from later_trans [OF l1 later_read [OF rd q1]] read_ByID [OF rd] show ?thesis by simp
  next
    case True
    let ?g = "purgeUserSessionLeases R (ac_ID a) (ResetLoginLimits (ac_Username a) [] g1)"
    obtain g2 ok where au: "audit_append ''access'' ''ACCOUNT_LOCK_AUTO_CLEARED'' (ac_ID a) [] ?g = (g2, ok)" by (rule prod.exhaust)
    have l2: "onward g g2" by (rule later_trans [OF l1 later_trans [OF later_reset later_trans [OF later_purge later_audit [OF au]]]])
    from assms(1) False u r True au have rd: "db_read (ByID (ac_ID a)) g2 = (g', Inr a')"
      by (simp add: applyAccountLockPolicy_def split: bool.split_asm)
    from later_trans [OF l2 later_read [OF rd later_quiet [OF l2 assms(2)]]] read_ByID [OF rd] show ?thesis by simp
  qed
qed

lemma policy_read_from:
  "applyAccountLockPolicy env R a g = (g', Inr a') \<Longrightarrow> quiet g \<Longrightarrow> read_from g a \<Longrightarrow>
   onward g g' \<and> read_from g' a' \<and> (a' = a \<or> ac_ID a' = trimSpace (ac_ID a))"
  using policy_reads [of env R a g g' a'] by blast

lemma refresh_reads:
  assumes "refreshLoginAccount env R previous g = (g', Inr a)" and "quiet g"
  shows "onward g g' \<and> read_from g' a \<and> ac_ID a = trimSpace (ac_ID previous) \<and> \<not> ac_AccountLocked a \<and> ac_authVersion a = ac_authVersion previous"
proof -
  obtain g1 r where rd: "db_read (ByID (ac_ID previous)) g = (g1, r)" by (rule prod.exhaust)
  obtain b where r: "r = Inr b"
    using assms(1) rd by (cases r) (simp_all add: refreshLoginAccount_def split: storeError.split_asm)
  obtain g2 q where pol: "applyAccountLockPolicy env R b g1 = (g2, q)" by (rule prod.exhaust)
  from assms(1) rd r pol have "q = Inr a" "g2 = g'" "\<not> ac_AccountLocked a" "ac_authVersion a = ac_authVersion previous"
    by (cases q; simp add: refreshLoginAccount_def split: if_split_asm)+
  note rd = rd [unfolded r] and pol = pol [unfolded \<open>q = Inr a\<close> \<open>g2 = g'\<close>]
  have l1: "onward g g1" by (rule later_read [OF rd assms(2)])
  have b: "read_from g1 b" "ac_ID b = trimSpace (ac_ID previous)" using read_ByID [OF rd] by simp_all
  from policy_read_from [OF pol later_quiet [OF l1 assms(2)] b(1)]
  have "onward g1 g'" "read_from g' a" "a = b \<or> ac_ID a = trimSpace (ac_ID b)" by simp_all
  then show ?thesis
    using later_trans [OF l1 \<open>onward g1 g'\<close>] b(2) \<open>\<not> ac_AccountLocked a\<close> \<open>ac_authVersion a = ac_authVersion previous\<close> by auto
qed

lemma accepted_step_origin:
  "accepted_step_of env passcode secret ts = Inr step \<Longrightarrow> step \<noteq> 0 \<Longrightarrow> \<exists>t\<in>set ts. ae_totp env passcode secret t = Inr True \<and> step = time_step t"
  by (induction ts) (auto split: sum.split_asm bool.split_asm)

text \<open>The code a user typed is right for the account and was not used before.\<close>

definition code_matches :: "auth_env \<Rightarrow> account \<Rightarrow> string \<Rightarrow> int \<Rightarrow> bool" where
  "code_matches env a passcode step \<longleftrightarrow>
     (\<exists>secret t. decryptMFASecret env (ac_ID a) (ac_mfaSecret a) = Inr secret \<and> ae_totp env (trimSpace passcode) secret t = Inr True \<and>
        t \<in> {ae_now env - 30 * second, ae_now env, ae_now env + 30 * second} \<and> step = time_step t)"

lemma validateMFA_accepts:
  assumes "validateMFA env a passcode g = (g', True)"
  obtains step where "code_matches env a passcode step" and "ac_mfaLastStep a < step"
    and "db (AcceptMFAStep (ae_now env) (ac_ID a) (ac_authVersion a) step) g = (g', Inr ())"
proof -
  obtain secret where secret: "decryptMFASecret env (ac_ID a) (ac_mfaSecret a) = Inr secret"
    using assms by (cases "decryptMFASecret env (ac_ID a) (ac_mfaSecret a)") (simp_all add: validateMFA_def)
  let ?ts = "[ae_now env - 30 * second, ae_now env, ae_now env + 30 * second]"
  obtain step where step: "accepted_step_of env (trimSpace passcode) secret ?ts = Inr step"
    using assms secret by (cases "accepted_step_of env (trimSpace passcode) secret ?ts") (simp_all add: validateMFA_def split: if_split_asm)
  obtain g1 r where accept: "db (AcceptMFAStep (ae_now env) (ac_ID a) (ac_authVersion a) step) g = (g1, r)" by (rule prod.exhaust)
  have ok: "step \<noteq> 0" "ac_mfaLastStep a < step" "g1 = g'" "r = Inr ()"
    using assms secret step accept by (cases r; simp add: validateMFA_def split: if_split_asm)+
  have "code_matches env a passcode step"
    using accepted_step_origin [OF step ok(1)] secret unfolding code_matches_def by auto
  then show ?thesis using that ok accept by blast
qed

lemma hit_row:
  assumes "length (filter P us) = 1"
  shows "\<exists>row\<in>set us. P row \<and> f row \<in> set (map (\<lambda>row. if P row then f row else row) us)"
proof -
  have "filter P us \<noteq> []" using assms by auto
  then obtain row where "row \<in> set us" "P row" by (auto simp: filter_empty_conv)
  then show ?thesis by force
qed

lemma success_row:
  assumes "RecordLoginSuccess now i addr v us = (us', Inr ())"
  shows "\<exists>row\<in>set us'. ac_ID row = i \<and> ac_authVersion row = v \<and> \<not> ac_AccountLocked row"
proof -
  let ?P = "\<lambda>row. ac_ID row = i \<and> ac_authVersion row = v \<and> \<not> ac_AccountLocked row"
  let ?f = "\<lambda>row. row\<lparr>ac_LastIP := trimSpace addr, ac_LastLoginAt := now, ac_FailedLoginAttempts := 0,
                   ac_failedLoginWindowStartedAt := 0, ac_UpdatedAt := now\<rparr>"
  have us': "us' = map (\<lambda>row. if ?P row then ?f row else row) us" and hit: "length (filter ?P us) = 1"
    using assms by (simp_all add: RecordLoginSuccess_def require_current_def update_where_def split: if_split_asm)
  from hit_row [OF hit, of ?f] obtain row where row: "?P row" "?f row \<in> set us'" unfolding us' by blast
  then have "?P (?f row)" by simp
  then show ?thesis using row(2) by blast
qed

lemma login_result_fields [simp]:
  "ac_ID (id_Account (lr_Identity (login_result env input a raw token))) = ac_ID a"
  "id_Session (lr_Identity (login_result env input a raw token)) = new_session env input a"
  "id_RawSessionID (lr_Identity (login_result env input a raw token)) = raw"
  "lr_Token (login_result env input a raw token) = token"
  by (simp_all add: login_result_def Let_def)

lemma login_commit_accepts:
  assumes "login_commit env R input limiterKey a raw token g = (g', Inr result)" and "quiet g"
  shows "onward g g' \<and> (\<exists>row\<in>set (gw_users g'). ac_ID row = ac_ID a \<and> ac_authVersion row = ac_authVersion a \<and> \<not> ac_AccountLocked row) \<and>
    result = login_result env input a raw token"
proof -
  let ?s = "new_session env input a"
  obtain ss e where put: "sr_Put R (ae_now env) raw ?s (gw_sessions g) = (ss, e)" by (rule prod.exhaust)
  then have "e = None" using assms(1) by (cases e) (simp_all add: login_commit_def refuse_def Let_def)
  let ?g = "g\<lparr>gw_sessions := ss\<rparr>"
  obtain g1 r where rec: "db (RecordLoginSuccess (ae_now env) (ac_ID a) (as_IP ?s) (ac_authVersion a)) ?g = (g1, r)" by (rule prod.exhaust)
  have r: "r = Inr ()"
    using assms(1) put \<open>e = None\<close> rec by (cases r) (simp_all add: login_commit_def refuse_def Let_def split: storeError.split_asm)
  obtain g2 ok where aud: "(if ac_LoggingEnabled a
      then audit_append ''access'' ''LOGIN_SUCCESS'' (ac_ID a) (sessionIDDigest (ae_hash env) raw) g1 else (g1, True)) = (g2, ok)" by (rule prod.exhaust)
  have ok: "ok" using assms(1) put \<open>e = None\<close> rec r aud by (cases ok) (simp_all add: login_commit_def refuse_def Let_def)
  have out: "resetLoginPair limiterKey g2 = g' \<and> login_result env input a raw token = result"
    using assms(1) put \<open>e = None\<close> rec r aud ok by (simp add: login_commit_def Let_def)
  have q: "onward g ?g" by (rule later_same) simp_all
  have l1: "onward ?g g1" by (rule later_call [OF rec harmless_ops(4) later_quiet [OF q assms(2)]])
  have l2: "onward g1 g2" "gw_users g2 = gw_users g1"
    using aud later_audit [of "''access''" "''LOGIN_SUCCESS''" "ac_ID a" "sessionIDDigest (ae_hash env) raw" g1 g2 ok]
    by (cases "ac_LoggingEnabled a"; auto simp: audit_append_def split: list.split_asm bool.split_asm)+
  have l3: "onward g2 (resetLoginPair limiterKey g2)" by (rule later_same) (simp_all add: resetLoginPair_def)
  have u3: "gw_users (resetLoginPair limiterKey g2) = gw_users g2" by (simp add: resetLoginPair_def)
  have "\<exists>row\<in>set (gw_users g1). ac_ID row = ac_ID a \<and> ac_authVersion row = ac_authVersion a \<and> \<not> ac_AccountLocked row"
    by (rule success_row [OF db_done [OF rec [unfolded r]]])
  with later_trans [OF q later_trans [OF l1 later_trans [OF l2(1) l3]]] l2(2) u3 out show ?thesis by metis
qed

lemma login_session_accepts:
  assumes "login_session env R input limiterKey previous g = (g', Inr result)" and "quiet g"
  obtains a raw token g1 where "onward g g1" and "read_from g1 a" and "onward g1 g'" and "ac_ID a = trimSpace (ac_ID previous)"
    and "ac_authVersion a = ac_authVersion previous" and "ae_sessionID env = Some raw" and "ae_issue env (issued_claims env input a raw) = Some token"
    and "login_commit env R input limiterKey a raw token g1 = (g', Inr result)"
proof -
  obtain g1 r where rf: "refreshLoginAccount env R previous g = (g1, r)" by (rule prod.exhaust)
  obtain a where r: "r = Inr a" using assms(1) rf by (cases r) (simp_all add: login_session_def refuse_def)
  obtain raw where raw: "ae_sessionID env = Some raw"
    using assms(1) rf r by (cases "ae_sessionID env") (simp_all add: login_session_def refuse_def split: if_split_asm)
  obtain token where token: "ae_issue env (issued_claims env input a raw) = Some token"
    using assms(1) rf r raw by (cases "ae_issue env (issued_claims env input a raw)") (simp_all add: login_session_def refuse_def split: if_split_asm)
  have commit: "login_commit env R input limiterKey a raw token g1 = (g', Inr result)"
    using assms(1) rf r raw token by (simp add: login_session_def refuse_def split: if_split_asm)
  from refresh_reads [OF rf [unfolded r] assms(2)] have l: "onward g g1" "read_from g1 a" "ac_ID a = trimSpace (ac_ID previous)"
    "ac_authVersion a = ac_authVersion previous" by simp_all
  show ?thesis
    by (rule that [OF l(1,2) _ l(3,4) raw token commit]) (use login_commit_accepts [OF commit later_quiet [OF l(1) assms(2)]] in simp)
qed

lemma login_session_result:
  assumes "login_session env R input limiterKey previous g = (g', Inr result)" and "quiet g" and "trimSpace (ac_ID previous) = ac_ID previous"
  shows "onward g g' \<and> (\<exists>row\<in>set (gw_users g'). ac_ID row = ac_ID previous \<and> ac_authVersion row = ac_authVersion previous \<and> \<not> ac_AccountLocked row) \<and>
    ac_ID (id_Account (lr_Identity result)) = ac_ID previous \<and> as_AuthVersion (id_Session (lr_Identity result)) = ac_authVersion previous"
proof -
  obtain a raw token g1 where l: "onward g g1" "onward g1 g'" and a: "ac_ID a = ac_ID previous" "ac_authVersion a = ac_authVersion previous"
    and commit: "login_commit env R input limiterKey a raw token g1 = (g', Inr result)"
    using login_session_accepts [OF assms(1,2)] assms(3) by metis
  have v: "as_AuthVersion (new_session env input a) = ac_authVersion a" by (simp add: new_session_def Let_def)
  from login_commit_accepts [OF commit later_quiet [OF l(1) assms(2)]] have
    "\<exists>row\<in>set (gw_users g'). ac_ID row = ac_ID previous \<and> ac_authVersion row = ac_authVersion previous \<and> \<not> ac_AccountLocked row"
    and res: "result = login_result env input a raw token" unfolding a by blast+
  with later_trans [OF l] show ?thesis unfolding res login_result_fields v a by blast
qed

text \<open>An account that was read and its row some time later, while the version has not changed.\<close>

lemma row_kept:
  assumes "onward g g'" and "keys_ok (gw_users g)" and "row0 \<in> set (gw_users g)" and "row \<in> set (gw_users g')"
    and "ac_ID row = ac_ID row0" and "ac_authVersion row = ac_authVersion row0"
  shows "same_credentials row0 row"
proof -
  from assms(1,4) obtain r where r: "r \<in> set (gw_users g)" "succeeds r row" unfolding onward_def by blast
  then have "ac_ID r = ac_ID row0" using assms(5) by (simp add: succeeds_def)
  moreover have "inj_on ac_ID (set (gw_users g))" using assms(2) by (simp add: keys_ok_def distinct_map)
  ultimately have "r = row0" using r(1) assms(3) by (auto dest: inj_onD)
  with r(2) assms(6) show ?thesis by (simp add: succeeds_def)
qed

lemma read_kept:
  assumes "onward g g'" and "keys_ok (gw_users g)" and "read_from g a" and "row \<in> set (gw_users g')"
    and "ac_ID row = ac_ID a" and "ac_authVersion row = ac_authVersion a"
  shows "ac_passwordHash row = ac_passwordHash a \<and> ac_mfaSecret row = ac_mfaSecret a"
proof -
  from assms(3) obtain row0 where r0: "row0 \<in> set (gw_users g)" "scanAccount row0 = Inr a" unfolding read_from_def by blast
  note k = scan_keeps [OF r0(2)]
  have "same_credentials row0 row" by (rule row_kept [OF assms(1,2) r0(1) assms(4)]) (use assms(5,6) k in simp_all)
  then show ?thesis using k by (simp add: same_credentials_def)
qed

lemma step_recorded:
  assumes "db (AcceptMFAStep now i v step) g = (g1, Inr ())" and "quiet g" and "keys_ok (gw_users g)" and "onward g1 g'"
    and "row \<in> set (gw_users g')" and "ac_ID row = i" and "ac_authVersion row = v"
  shows "step \<le> ac_mfaLastStep row"
proof -
  let ?us = "store_run (interference g) (gw_users g)"
  note us = db_done [OF assms(1)] run_keys [OF assms(3), of "interference g"]
  from assms(4,5) obtain r where r: "r \<in> set (gw_users g1)" "succeeds r row" unfolding onward_def by blast
  then have "ac_ID r = i" using assms(6) by (simp add: succeeds_def)
  then have "ac_authVersion r = v \<and> ac_mfaLastStep r = step"
    using accepted_step [of ?us now i v step r] us r(1) by simp
  with r(2) assms(7) show ?thesis by (simp add: succeeds_def same_credentials_def)
qed

text \<open>What a login that succeeded did about the code, for the account as it was read and its row at the end.\<close>

definition mfa_passed :: "auth_env \<Rightarrow> loginInput \<Rightarrow> account \<Rightarrow> account \<Rightarrow> bool" where
  "mfa_passed env input a row \<longleftrightarrow>
     (ae_enforceMFA env \<or> ac_MFAEnabled a \<longrightarrow> (\<exists>step. code_matches env a (li_TOTP input) step \<and> step \<le> ac_mfaLastStep row))"

definition signed_in :: "account \<Rightarrow> loginResult \<Rightarrow> account \<Rightarrow> bool" where
  "signed_in a result row \<longleftrightarrow> ac_ID row = ac_ID a \<and> ac_authVersion row = ac_authVersion a \<and> \<not> ac_AccountLocked row \<and>
     ac_ID (id_Account (lr_Identity result)) = ac_ID a \<and> as_AuthVersion (id_Session (lr_Identity result)) = ac_authVersion a"

lemma signed_in_session:
  assumes "login_session env R input limiterKey previous g = (g', Inr result)" and "quiet g"
    and "ac_ID previous = ac_ID a" and "ac_authVersion previous = ac_authVersion a" and "trimSpace (ac_ID a) = ac_ID a"
  shows "onward g g' \<and> (\<exists>row\<in>set (gw_users g'). signed_in a result row)"
  using login_session_result [OF assms(1,2)] assms(3-5) unfolding signed_in_def by simp

lemma mfa_then_session:
  assumes "validateMFA env a (li_TOTP input) g = (g1, True)" and "quiet g" and "keys_ok (gw_users g)"
    and "onward g1 g2" and "login_session env R input limiterKey previous g2 = (g', Inr result)"
    and "ac_ID previous = ac_ID a" and "ac_authVersion previous = ac_authVersion a" and "trimSpace (ac_ID a) = ac_ID a"
  shows "onward g g' \<and> (\<exists>row\<in>set (gw_users g'). signed_in a result row \<and> mfa_passed env input a row)"
proof -
  obtain step where step: "code_matches env a (li_TOTP input) step"
    and acc: "db (AcceptMFAStep (ae_now env) (ac_ID a) (ac_authVersion a) step) g = (g1, Inr ())"
    using validateMFA_accepts [OF assms(1)] by metis
  have l1: "onward g g1" by (rule later_call [OF acc harmless_ops(2) assms(2)])
  note l2 = later_trans [OF l1 assms(4)]
  from signed_in_session [OF assms(5) later_quiet [OF l2 assms(2)] assms(6-8)]
  obtain row where row: "row \<in> set (gw_users g')" "signed_in a result row" and l3: "onward g2 g'" by blast
  have "step \<le> ac_mfaLastStep row"
    by (rule step_recorded [OF acc assms(2,3) later_trans [OF assms(4) l3] row(1)]) (use row(2) in \<open>simp_all add: signed_in_def\<close>)
  with step have "mfa_passed env input a row" unfolding mfa_passed_def by blast
  with row later_trans [OF l2 l3] show ?thesis by blast
qed

lemma login_failure_refuses: "login_failure env R a event detail e g \<noteq> (g', Inr result)"
  by (auto simp: login_failure_def refuse_def Let_def split: prod.split sum.split storeError.split)

lemma enrollment_refuses: "startMFAEnrollment env a g \<noteq> (g', Inr result)" "pendingMFAEnrollment env a g \<noteq> (g', Inr result)"
  by (auto simp: startMFAEnrollment_def pendingMFAEnrollment_def refuse_def split: prod.split sum.split storeError.split option.split)

lemma login_factors_cases:
  assumes "login_factors env R input key a0 g = (g', Inr result)" and "quiet g"
  obtains (plain) a g1 where "refreshLoginAccount env R a0 g = (g1, Inr a)" and "\<not> ae_enforceMFA env" and "\<not> ac_MFAEnabled a"
      and "login_session env R input key a g1 = (g', Inr result)"
  | (code) a g1 g2 g3 previous where "refreshLoginAccount env R a0 g = (g1, Inr a)" and "validateMFA env a (li_TOTP input) g1 = (g2, True)"
      and "onward g1 g2" and "onward g2 g3" and "ac_ID previous = ac_ID a" and "ac_authVersion previous = ac_authVersion a"
      and "login_session env R input key previous g3 = (g', Inr result)"
proof -
  obtain g1 r where rf: "refreshLoginAccount env R a0 g = (g1, r)" by (rule prod.exhaust)
  obtain a where r: "r = Inr a" using assms(1) rf by (cases r) (simp_all add: login_factors_def refuse_def)
  note rf = rf [unfolded r]
  have q: "quiet g1" using refresh_reads [OF rf assms(2)] later_quiet assms(2) by blast
  show ?thesis
  proof (cases "\<not> ae_enforceMFA env \<and> \<not> ac_MFAEnabled a")
    case True
    with assms(1) rf have "login_session env R input key a g1 = (g', Inr result)" by (simp add: login_factors_def)
    with True show ?thesis using plain [OF rf] by blast
  next
    case False
    obtain g2 ok where v: "validateMFA env a (li_TOTP input) g1 = (g2, ok)" by (rule prod.exhaust)
    have conf: "ac_MFAConfigured a" "trimSpace (li_TOTP input) \<noteq> []" "ok"
      using assms(1) False rf v
      by (cases ok; auto simp: login_factors_def refuse_def login_failure_refuses enrollment_refuses split: if_split_asm)+
    note v = v [unfolded eqTrueI [OF conf(3)]]
    obtain step where "db (AcceptMFAStep (ae_now env) (ac_ID a) (ac_authVersion a) step) g1 = (g2, Inr ())"
      using validateMFA_accepts [OF v] by metis
    then have l2: "onward g1 g2" by (rule later_call [OF _ harmless_ops(2) q])
    show ?thesis
    proof (cases "ac_MFAEnabled a")
      case True
      with assms(1) rf v conf have "login_session env R input key a g2 = (g', Inr result)" by (simp add: login_factors_def)
      from code [OF rf v l2 later_refl refl refl this] show ?thesis .
    next
      case off: False
      obtain g3 e where en: "db (EnableMFAIfAuthVersion (ae_now env) (ac_ID a) (ac_authVersion a)) g2 = (g3, e)" by (rule prod.exhaust)
      have e: "e = Inr ()" using assms(1) False off rf v conf en
        by (cases e) (auto simp: login_factors_def refuse_def split: storeError.split_asm)
      have "login_session env R input key (a\<lparr>ac_MFAEnabled := True\<rparr>) g3 = (g', Inr result)"
        using assms(1) False off rf v conf en e by (simp add: login_factors_def)
      from code [OF rf v l2 later_call [OF en harmless_ops(3) later_quiet [OF l2 q]] _ _ this] show ?thesis by simp
    qed
  qed
qed

lemma login_factors_result:
  assumes "login_factors env R input key a0 g = (g', Inr result)" and "quiet g" and "keys_ok (gw_users g)"
    and "trimSpace (ac_ID a0) = ac_ID a0"
  shows "\<exists>a g1. onward g g1 \<and> onward g1 g' \<and> read_from g1 a \<and> ac_ID a = ac_ID a0 \<and> ac_authVersion a = ac_authVersion a0 \<and>
    (\<exists>row\<in>set (gw_users g'). signed_in a result row \<and> mfa_passed env input a row)"
  using assms(1,2)
proof (cases rule: login_factors_cases)
  case (plain a g1)
  note r = refresh_reads [OF plain(1) assms(2)]
  from signed_in_session [OF plain(4) _ refl refl] r assms(2,4) plain(2,3) later_quiet show ?thesis unfolding mfa_passed_def by metis
next
  case (code a g1 g2 g3 previous)
  note r = refresh_reads [OF code(1) assms(2)]
  have "quiet g1" "keys_ok (gw_users g1)" using r assms(2,3) unfolding onward_def by blast+
  from mfa_then_session [OF code(2) this code(4) code(7) code(5,6)] r assms(4) show ?thesis by metis
qed

lemma login_factors_session:
  assumes "login_factors env R input key a0 g = (g', Inr result)" and "quiet g" and "trimSpace (ac_ID a0) = ac_ID a0"
  shows "\<exists>previous g1. onward g g1 \<and> ac_ID previous = ac_ID a0 \<and> login_session env R input key previous g1 = (g', Inr result)"
  using assms(1,2)
proof (cases rule: login_factors_cases)
  case (plain a g1)
  with refresh_reads [OF plain(1) assms(2)] assms(3) show ?thesis by metis
next
  case (code a g1 g2 g3 previous)
  with refresh_reads [OF code(1) assms(2)] assms(3) later_trans [OF _ later_trans [OF code(3,4)]] show ?thesis by metis
qed

lemma later_ids: "onward g g' \<Longrightarrow> \<forall>row\<in>set (gw_users g). trimSpace (ac_ID row) = ac_ID row \<Longrightarrow> row \<in> set (gw_users g') \<Longrightarrow> trimSpace (ac_ID row) = ac_ID row"
  unfolding onward_def succeeds_def by metis

lemma admit_same:
  "admitLoginAttempt env pairKey addr ipLimit g = (g', r) \<Longrightarrow> gw_users g' = gw_users g \<and> gw_script g' = gw_script g"
  by (auto simp: admitLoginAttempt_def rate_call_def Let_def split: if_split_asm prod.split_asm sum.split_asm bool.split_asm list.split_asm)

lemma limited_refuses: "login_limited env R input pairAllowed g \<noteq> (g', Inr result)"
  by (auto simp: login_limited_def refuse_def Let_def split: prod.split sum.split)

lemma Login_password:
  assumes "Login env R input g = (g', Inr result)" and "quiet g"
  obtains g1 key where "onward g g1" and "login_password env R input key g1 = (g', Inr result)"
proof -
  let ?addr = "clientIP (ae_proxies env) (li_Request input)"
  let ?key = "toLower (trimSpace (li_Username input)) @ ''|'' @ ?addr"
  obtain g1 r where ad: "admitLoginAttempt env ?key ?addr (max (ae_loginLimit env * 5) 20) g = (g1, r)" by (rule prod.exhaust)
  obtain x where r: "r = Inr x" using assms(1) ad by (cases r) (simp_all add: Login_def refuse_def Let_def split: if_split_asm)
  have "login_password env R input ?key g1 = (g', Inr result)"
    using assms(1) ad r by (cases x) (simp add: Login_def refuse_def Let_def limited_refuses split: if_split_asm)
  moreover have "onward g g1" using admit_same [OF ad] by (intro later_same) simp_all
  ultimately show ?thesis using that by blast
qed

lemma login_password_accepts:
  assumes "login_password env R input key g = (g', Inr result)" and "quiet g"
    and "\<forall>row\<in>set (gw_users g). trimSpace (ac_ID row) = ac_ID row"
  obtains found a g1 g2 where "onward g g1" and "onward g1 g2" and "read_from g1 found" and "read_from g2 a"
    and "toLower (ac_Username found) = toLower (trimSpace (li_Username input))" and "ac_ID a = ac_ID found" and "trimSpace (ac_ID a) = ac_ID a"
    and "verifyPassword (ae_passwords env) (ac_passwordHash a) (li_Password input) = Inr True"
    and "login_factors env R input key a g2 = (g', Inr result)"
proof -
  obtain g1 r where rd: "db_read (ByUsername (trimSpace (li_Username input))) g = (g1, r)" by (rule prod.exhaust)
  obtain found where r: "r = Inr found"
    using assms(1) rd by (cases r) (simp_all add: login_password_def refuse_def Let_def split: storeError.split_asm)
  obtain g2 q where pol: "applyAccountLockPolicy env R found g1 = (g2, q)" by (rule prod.exhaust)
  obtain a where q: "q = Inr a" using assms(1) rd r pol by (cases q) (simp_all add: login_password_def refuse_def Let_def)
  obtain networks where net: "parseCIDRList (ac_CIDRWhitelist a) = Inr networks"
    using assms(1) rd r pol q by (cases "parseCIDRList (ac_CIDRWhitelist a)") (simp_all add: login_password_def refuse_def Let_def split: if_split_asm)
  obtain b where v: "verifyPassword (ae_passwords env) (ac_passwordHash a) (li_Password input) = Inr b"
    using assms(1) rd r pol q net by (cases "verifyPassword (ae_passwords env) (ac_passwordHash a) (li_Password input)")
      (simp_all add: login_password_def refuse_def Let_def split: if_split_asm)
  have b: "b" "login_factors env R input key a g2 = (g', Inr result)" using assms(1) rd r pol q net v
    by (cases b; simp add: login_password_def refuse_def Let_def login_failure_refuses split: if_split_asm)+
  have l: "onward g g1" by (rule later_read [OF rd assms(2)])
  from read_ByUsername [OF rd [unfolded r]] have f: "read_from g1 found" "toLower (ac_Username found) = toLower (trimSpace (li_Username input))"
    by (simp_all add: trimSpace_idem)
  then have t: "trimSpace (ac_ID found) = ac_ID found" using later_ids [OF l assms(3)] scan_keeps unfolding read_from_def by metis
  from policy_read_from [OF pol [unfolded q] later_quiet [OF l assms(2)] f(1)] t
  have a: "onward g1 g2" "read_from g2 a" "ac_ID a = ac_ID found" by auto
  show ?thesis by (rule that [OF l a(1) f(1) a(2) f(2) a(3) _ _ b(2)]) (use t a(3) v b(1) in simp_all)
qed

section \<open>Properties\<close>

text \<open>C4: a login that succeeds has checked the credentials the account has at the end of it. Whatever other
  requests do to the account meanwhile (as long as none creates an account), the row of the account is then unlocked and carries the version
  the session was issued for, the password given is the password of that row, and when MFA is enforced, or was on for this
  version from the start, the code given is right for the secret of that row and used up. The account
  was found by the name given.\<close>

theorem login_checks_current_credentials:
  assumes "Login env R input g = (g', Inr result)" and "quiet g" and "keys_ok (gw_users g)"
    and "\<forall>row\<in>set (gw_users g). trimSpace (ac_ID row) = ac_ID row"
  shows "\<exists>row\<in>set (gw_users g').
    ac_ID row = ac_ID (id_Account (lr_Identity result)) \<and> ac_authVersion row = as_AuthVersion (id_Session (lr_Identity result)) \<and>
    \<not> ac_AccountLocked row \<and>
    verifyPassword (ae_passwords env) (ac_passwordHash row) (li_Password input) = Inr True \<and>
    (ae_enforceMFA env \<or>
       (\<exists>row0\<in>set (gw_users g). ac_ID row0 = ac_ID row \<and> ac_authVersion row0 = ac_authVersion row \<and> ac_MFAEnabled row0) \<longrightarrow>
       (\<exists>step. code_matches env row (li_TOTP input) step \<and> step \<le> ac_mfaLastStep row)) \<and>
    (\<exists>g1. onward g g1 \<and> onward g1 g' \<and>
       (\<exists>found\<in>set (gw_users g1). ac_ID found = ac_ID row \<and> toLower (ac_Username found) = toLower (trimSpace (li_Username input))))"
proof -
  obtain g0 key where l0: "onward g g0" and pw: "login_password env R input key g0 = (g', Inr result)"
    using Login_password [OF assms(1,2)] by metis
  have q0: "quiet g0" and ids: "\<forall>row\<in>set (gw_users g0). trimSpace (ac_ID row) = ac_ID row"
    using later_quiet [OF l0 assms(2)] later_ids [OF l0 assms(4)] by blast+
  obtain found a0 g1 g2 where l1: "onward g0 g1" and l2: "onward g1 g2" and found: "read_from g1 found"
      "toLower (ac_Username found) = toLower (trimSpace (li_Username input))" and a0: "read_from g2 a0" "ac_ID a0 = ac_ID found"
      "trimSpace (ac_ID a0) = ac_ID a0" "verifyPassword (ae_passwords env) (ac_passwordHash a0) (li_Password input) = Inr True"
    and fac: "login_factors env R input key a0 g2 = (g', Inr result)"
    using login_password_accepts [OF pw q0 ids] by metis
  note l12 = later_trans [OF l0 later_trans [OF l1 l2]]
  have k2: "quiet g2" "keys_ok (gw_users g2)" using l12 assms(2,3) unfolding onward_def by blast+
  obtain a g3 row where l3: "onward g2 g3" "onward g3 g'" and a: "read_from g3 a" "ac_ID a = ac_ID a0" "ac_authVersion a = ac_authVersion a0"
    and row: "row \<in> set (gw_users g')" "signed_in a result row" "mfa_passed env input a row"
    using login_factors_result [OF fac k2 a0(3)] by metis
  have k3: "keys_ok (gw_users g3)" using l3(1) k2(2) unfolding onward_def by blast
  have same: "ac_ID row = ac_ID a" "ac_authVersion row = ac_authVersion a" using row(2) unfolding signed_in_def by simp_all
  have pass: "ac_passwordHash row = ac_passwordHash a0"
    using read_kept [OF later_trans [OF l3] k2(2) a0(1) row(1)] same a(2,3) by simp
  have secret: "ac_mfaSecret row = ac_mfaSecret a" using read_kept [OF l3(2) k3 a(1) row(1)] same by simp
  have mfa: "\<exists>step. code_matches env row (li_TOTP input) step \<and> step \<le> ac_mfaLastStep row"
    if "ae_enforceMFA env \<or> (\<exists>row0\<in>set (gw_users g). ac_ID row0 = ac_ID row \<and> ac_authVersion row0 = ac_authVersion row \<and> ac_MFAEnabled row0)"
  proof -
    have "ac_MFAEnabled a" if r0: "row0 \<in> set (gw_users g)" "ac_ID row0 = ac_ID row" "ac_authVersion row0 = ac_authVersion row" "ac_MFAEnabled row0" for row0
    proof -
      obtain r where r: "r \<in> set (gw_users g3)" "scanAccount r = Inr a" using a(1) unfolding read_from_def by blast
      note k = scan_keeps [OF r(2)]
      have "same_credentials row0 r" by (rule row_kept [OF later_trans [OF l12 l3(1)] assms(3) r0(1) r(1)]) (use k r0 same in simp_all)
      with r0(4) k show ?thesis unfolding same_credentials_def by blast
    qed
    with that row(3) obtain step where "code_matches env a (li_TOTP input) step" "step \<le> ac_mfaLastStep row"
      unfolding mfa_passed_def by blast
    then show ?thesis using secret same(1) unfolding code_matches_def by metis
  qed
  obtain f where f: "f \<in> set (gw_users g1)" "scanAccount f = Inr found" using found(1) unfolding read_from_def by blast
  then have "ac_ID f = ac_ID row" "toLower (ac_Username f) = toLower (trimSpace (li_Username input))"
    using scan_keeps [OF f(2)] found(2) same(1) a(2) a0(2) by simp_all
  then have named: "\<exists>g1. onward g g1 \<and> onward g1 g' \<and>
      (\<exists>found\<in>set (gw_users g1). ac_ID found = ac_ID row \<and> toLower (ac_Username found) = toLower (trimSpace (li_Username input)))"
    using later_trans [OF l0 l1] later_trans [OF l2 later_trans [OF l3]] f(1) by blast
  have "ac_ID row = ac_ID (id_Account (lr_Identity result))" "ac_authVersion row = as_AuthVersion (id_Session (lr_Identity result))"
      "\<not> ac_AccountLocked row"
    using row(2) unfolding signed_in_def by simp_all
  moreover have "verifyPassword (ae_passwords env) (ac_passwordHash row) (li_Password input) = Inr True" using a0(4) pass by simp
  ultimately show ?thesis using row(1) mfa named by blast
qed

lemma Login_commit:
  assumes "Login env R input g = (g', Inr result)" and "quiet g" and "\<forall>row\<in>set (gw_users g). trimSpace (ac_ID row) = ac_ID row"
  obtains a raw token key g1 where "onward g g1" and "onward g1 g'" and "read_from g1 a" and "trimSpace (ac_ID a) = ac_ID a"
    and "ae_sessionID env = Some raw" and "ae_issue env (issued_claims env input a raw) = Some token"
    and "login_commit env R input key a raw token g1 = (g', Inr result)"
proof -
  obtain g0 key where l0: "onward g g0" and pw: "login_password env R input key g0 = (g', Inr result)"
    using Login_password [OF assms(1,2)] by metis
  have q0: "quiet g0" and ids: "\<forall>row\<in>set (gw_users g0). trimSpace (ac_ID row) = ac_ID row"
    using later_quiet [OF l0 assms(2)] later_ids [OF l0 assms(3)] by blast+
  obtain a0 g1 g2 where l: "onward g0 g1" "onward g1 g2" and t: "trimSpace (ac_ID a0) = ac_ID a0"
    and fac: "login_factors env R input key a0 g2 = (g', Inr result)"
    using login_password_accepts [OF pw q0 ids] by metis
  note l2 = later_trans [OF l0 later_trans [OF l]]
  obtain previous g3 where l3: "onward g2 g3" "ac_ID previous = ac_ID a0" and s: "login_session env R input key previous g3 = (g', Inr result)"
    using login_factors_session [OF fac later_quiet [OF l2 assms(2)] t] by metis
  note l4 = later_trans [OF l2 l3(1)]
  show ?thesis
    by (rule login_session_accepts [OF s later_quiet [OF l4 assms(2)]], rule that)
       (use later_trans [OF l4] l3(2) t in \<open>simp_all\<close>)
qed

lemma commit_sessions:
  assumes "login_commit env R input key a raw token g = (g', Inr result)"
  shows "sr_Put R (ae_now env) raw (new_session env input a) (gw_sessions g) = (gw_sessions g', None)"
proof -
  let ?s = "new_session env input a"
  obtain ss e where put: "sr_Put R (ae_now env) raw ?s (gw_sessions g) = (ss, e)" by (rule prod.exhaust)
  then have e: "e = None" using assms(1) by (cases e) (simp_all add: login_commit_def refuse_def Let_def)
  obtain g1 r where rec: "db (RecordLoginSuccess (ae_now env) (ac_ID a) (as_IP ?s) (ac_authVersion a)) (g\<lparr>gw_sessions := ss\<rparr>) = (g1, r)"
    by (rule prod.exhaust)
  have r: "r = Inr ()"
    using assms(1) put e rec by (cases r) (simp_all add: login_commit_def refuse_def Let_def split: storeError.split_asm)
  obtain g2 ok where aud: "(if ac_LoggingEnabled a
      then audit_append ''access'' ''LOGIN_SUCCESS'' (ac_ID a) (sessionIDDigest (ae_hash env) raw) g1 else (g1, True)) = (g2, ok)" by (rule prod.exhaust)
  have ok: "ok" using assms(1) put e rec r aud by (cases ok) (simp_all add: login_commit_def refuse_def Let_def)
  have "resetLoginPair key g2 = g'"
    using assms(1) put e rec r aud ok by (simp add: login_commit_def Let_def)
  then have "gw_sessions g' = gw_sessions g2" by (auto simp: resetLoginPair_def)
  moreover have "gw_sessions g2 = gw_sessions g1" using aud audit_append_sessions by (cases "ac_LoggingEnabled a") auto
  moreover have "gw_sessions g1 = ss" using db_sessions [of "RecordLoginSuccess (ae_now env) (ac_ID a) (as_IP ?s) (ac_authVersion a)" "g\<lparr>gw_sessions := ss\<rparr>"] rec by simp
  ultimately show ?thesis using put e by simp
qed

lemma map_of_filter_hit: "map_of xs d = Some s \<Longrightarrow> P (d, s) \<Longrightarrow> map_of (filter P xs) d = Some s"
  by (induction xs) (auto split: if_split_asm)

lemma memory_stored:
  assumes "memory_Put hash now raw s ss = (ss', None)" and "t < as_ExpiresAt s"
  shows "map_of (cleanupLocked t ss') (sessionIDDigest hash raw) = Some (s\<lparr>as_ID := sessionIDDigest hash raw\<rparr>)"
proof -
  have "map_of ss' (sessionIDDigest hash raw) = Some (s\<lparr>as_ID := sessionIDDigest hash raw\<rparr>)"
    using assms(1) by (auto simp: memory_Put_def Let_def AList.update_conv' split: if_split_asm)
  then show ?thesis unfolding cleanupLocked_def by (rule map_of_filter_hit) (use assms(2) in simp)
qed

lemma ByID_found:
  assumes "keys_ok us" and "row \<in> set us" and "ac_ID row = i" and "trimSpace i = i"
  shows "ByID i us = scanAccount row"
proof -
  have "find (\<lambda>row. ac_ID row = i) us = Some row"
    using assms(1-3) by (induction us) (auto simp: keys_ok_def)
  then show ?thesis by (simp add: ByID_def queryOne_def assms(4))
qed

lemma scan_ok_same: "same_credentials r row \<Longrightarrow> scanAccount r = Inr a \<Longrightarrow> \<exists>b. scanAccount row = Inr b"
  by (auto simp: same_credentials_def scanAccount_def split: option.split_asm)

lemma Login_configured: "Login env R input g = (g', Inr result) \<Longrightarrow> ae_configured env"
  by (auto simp: Login_def refuse_def Let_def split: if_split_asm)

lemma quiet_alone: "gw_script g = [] \<Longrightarrow> quiet g"
  by (simp add: quiet_def meanwhile_def)

text \<open>A request with a stored session of an unlocked account in the same version is accepted.\<close>

lemma stored_accepted:
  assumes "map_of (cleanupLocked t (gw_sessions g)) (sessionIDDigest (ae_hash env) raw) = Some s" and "ae_now env = t" and "gw_script g = []"
    and "ByID i (gw_users g) = Inr b" and "\<not> ac_AccountLocked b" and "ac_authVersion b = v" and "as_UserID s = i" and "as_AuthVersion s = v"
    and "sameCanonicalIP (as_IP s) (clientIP (ae_proxies env) request)" and "t - as_LastSeenAt s \<le> ae_idleTimeout env \<or> as_Persistent s"
    and "t < as_ExpiresAt s"
  shows "\<exists>g'' identity. authenticate_session env (memorySessionRegistry (ae_hash env)) request raw i (as_IP s) v g = (g'', Inr identity) \<and>
    id_Account identity = b \<and> id_RawSessionID identity = raw"
proof -
  let ?R = "memorySessionRegistry (ae_hash env)" let ?g = "g\<lparr>gw_sessions := cleanupLocked t (gw_sessions g)\<rparr>"
  have read: "db_read (ByID i) ?g = (?g, Inr b)" using assms(3,4) by (simp add: db_read_def db_def)
  have get: "sr_Get ?R (ae_now env) raw (gw_sessions g) = (cleanupLocked t (gw_sessions g), Inr s)"
    using assms(1,2) by (simp add: memorySessionRegistry_def memory_Get_def Let_def)
  have touch: "\<exists>ss. sr_Touch ?R t raw t (cleanupLocked t (gw_sessions g)) = (ss, None)"
    using assms(1,11) by (simp add: memorySessionRegistry_def memory_Touch_def Let_def)
  have "authenticate_session env ?R request raw i (as_IP s) v g = authenticate_account env ?R raw i v s ?g"
    using get assms(2,7-10) by (auto simp: authenticate_session_def Let_def)
  moreover have "\<exists>g'' identity. authenticate_account env ?R raw i v s ?g = (g'', Inr identity) \<and>
      id_Account identity = b \<and> id_RawSessionID identity = raw"
    using read touch assms(2,5,6) by (auto simp: authenticate_account_def Let_def)
  ultimately show ?thesis by simp
qed

text \<open>
  What the PASETO library does with the times of a token: they are written in RFC 3339 with whole
  seconds, and a token is read back while the clock is neither before its issue nor before its \<open>not before\<close>
  time nor at its expiry.
\<close>

definition whole_second :: "instant \<Rightarrow> instant" where
  "whole_second t = t div second * second"

definition stored_claims :: "claims \<Rightarrow> claims" where
  "stored_claims claims =
     claims\<lparr>tk_IssuedAt := whole_second (tk_IssuedAt claims), tk_NotBefore := whole_second (tk_NotBefore claims),
       tk_Expiration := map_option whole_second (tk_Expiration claims)\<rparr>"

definition valid_at :: "instant \<Rightarrow> claims \<Rightarrow> bool" where
  "valid_at t claims \<longleftrightarrow> tk_IssuedAt claims \<le> t \<and> tk_NotBefore claims \<le> t \<and>
     pred_option (\<lambda>at. t < at) (tk_Expiration claims)"

lemma whole_second_le: "whole_second t \<le> t"
  by (simp add: whole_second_def second_def)

text \<open>C13: the token of a successful login is accepted. A request over HTTPS from the address of the login with the
  token, before the whole second in which the session expires and within the idle timeout (or with a persistent
  login), with no other request and no change of the account in between, is authenticated as the account that
  signed in, with the session of that login. The hypothesis on the tokens is what the PASETO library documents: the
  times of a token are kept in whole seconds, and a token that was issued is read back while these times admit it.\<close>

theorem issued_token_accepted:
  assumes "Login env (memorySessionRegistry (ae_hash env)) input g = (g', Inr result)" and "gw_script g = []" and "keys_ok (gw_users g)"
    and "\<forall>row\<in>set (gw_users g). ac_ID row \<noteq> [] \<and> trimSpace (ac_ID row) = ac_ID row \<and> 1 \<le> ac_authVersion row"
    and "\<forall>claims token. ae_issue env claims = Some token \<longrightarrow> valid_at t (stored_claims claims) \<longrightarrow>
           ae_token env t token = Some (stored_claims claims)"
    and "ae_sessionID env \<noteq> Some []" and "lr_Token result \<noteq> []"
    and "secureRequest (ae_proxies env) request" and "accountTokenFromRequest request = lr_Token result"
    and "sameCanonicalIP (clientIP (ae_proxies env) (li_Request input)) (clientIP (ae_proxies env) request)"
    and "ae_now env \<le> t" and "t < whole_second (as_ExpiresAt (id_Session (lr_Identity result)))" and "t - ae_now env \<le> ae_idleTimeout env \<or> li_Persistent input"
  shows "\<exists>g'' identity. Authenticate (env\<lparr>ae_now := t\<rparr>) (memorySessionRegistry (ae_hash env)) request g' = (g'', Inr identity) \<and>
    ac_ID (id_Account identity) = ac_ID (id_Account (lr_Identity result)) \<and>
    id_RawSessionID identity = id_RawSessionID (lr_Identity result)"
proof -
  let ?R = "memorySessionRegistry (ae_hash env)" let ?env = "env\<lparr>ae_now := t\<rparr>"
  have ids: "\<forall>row\<in>set (gw_users g). trimSpace (ac_ID row) = ac_ID row" using assms(4) by blast
  obtain a raw token key g1 where l: "onward g g1" "onward g1 g'" and a: "read_from g1 a" "trimSpace (ac_ID a) = ac_ID a"
    and raw: "ae_sessionID env = Some raw" and token: "ae_issue env (issued_claims env input a raw) = Some token"
    and commit: "login_commit env ?R input key a raw token g1 = (g', Inr result)"
    using Login_commit [OF assms(1) quiet_alone [OF assms(2)] ids] by metis
  let ?s = "new_session env input a"
  have alone: "gw_script g1 = []" "gw_script g' = []" "keys_ok (gw_users g1)" "keys_ok (gw_users g')"
    using l assms(2,3) unfolding onward_def by blast+
  from login_commit_accepts [OF commit quiet_alone [OF alone(1)]] obtain row where res: "result = login_result env input a raw token"
    and row: "row \<in> set (gw_users g')" "ac_ID row = ac_ID a" "ac_authVersion row = ac_authVersion a" "\<not> ac_AccountLocked row" by metis
  from a(1) obtain r where r: "r \<in> set (gw_users g1)" "scanAccount r = Inr a" unfolding read_from_def by blast
  have "same_credentials r row" by (rule row_kept [OF l(2) alone(3) r(1) row(1)]) (use scan_keeps [OF r(2)] row in simp_all)
  then obtain b where b: "scanAccount row = Inr b" using scan_ok_same [OF _ r(2)] by blast
  have read: "ByID (ac_ID a) (gw_users g') = Inr b" using ByID_found [OF alone(4) row(1,2) a(2)] b by simp
  have fields: "as_UserID ?s = ac_ID a" "as_AuthVersion ?s = ac_authVersion a" "as_IP ?s = clientIP (ae_proxies env) (li_Request input)"
      "as_LastSeenAt ?s = ae_now env" "as_Persistent ?s = li_Persistent input"
    by (simp_all add: new_session_def Let_def)
  have whole: "t < whole_second (as_ExpiresAt ?s)" using assms(12) by (simp add: res)
  then have exp: "t < as_ExpiresAt ?s" using whole_second_le [of "as_ExpiresAt ?s"] by linarith
  have put: "memory_Put (ae_hash env) (ae_now env) raw ?s (gw_sessions g1) = (gw_sessions g', None)"
    using commit_sessions [OF commit] by (simp add: memorySessionRegistry_def)
  have acc: "\<exists>g'' identity. authenticate_session ?env ?R request raw (ac_ID a) (clientIP (ae_proxies env) (li_Request input)) (ac_authVersion a) g' = (g'', Inr identity) \<and>
      id_Account identity = b \<and> id_RawSessionID identity = raw"
    using stored_accepted [of t g' ?env raw "?s\<lparr>as_ID := sessionIDDigest (ae_hash env) raw\<rparr>" "ac_ID a" b "ac_authVersion a" request]
      memory_stored [OF put exp] alone(2) read scan_keeps [OF b] row assms(10,13) exp fields by simp
  obtain row0 where "row0 \<in> set (gw_users g)" "succeeds row0 row" using later_trans [OF l] row(1) unfolding onward_def by blast
  then have ok: "ac_ID a \<noteq> []" "1 \<le> ac_authVersion a" "raw \<noteq> []" using assms(4,6) row(2,3) raw by (auto simp: succeeds_def)
  have "whole_second (ae_now env) \<le> t" "whole_second (ae_now env - 5 * second) \<le> t"
    using whole_second_le [of "ae_now env"] whole_second_le [of "ae_now env - 5 * second"] assms(11)
    by (simp_all add: second_def)
  with whole have "valid_at t (stored_claims (issued_claims env input a raw))"
    by (simp add: valid_at_def stored_claims_def issued_claims_def)
  with assms(5) token have tk: "ae_token env t token = Some (stored_claims (issued_claims env input a raw))" by blast
  have auth: "Authenticate ?env ?R request g' =
      authenticate_session ?env ?R request raw (ac_ID a) (clientIP (ae_proxies env) (li_Request input)) (ac_authVersion a) g'"
    using Login_configured [OF assms(1)] assms(7-9) tk ok by (simp add: Authenticate_def res issued_claims_def stored_claims_def)
  from acc scan_keeps [OF b] row(2) show ?thesis unfolding auth res login_result_fields by metis
qed

section \<open>Witnesses\<close>

text \<open>An account with MFA, a login with the right password and code, at a moment of the year 2024.\<close>

definition login_time :: instant where
  "login_time = 63840000000 * second"

definition login_claims :: claims where
  "login_claims =
     \<lparr>tk_Jti = Some ''sid'', tk_Subject = Some ''u1'', tk_IP = Some ''192.0.2.7'', tk_AuthVersion = Some 1, tk_IssuedAt = login_time,
      tk_NotBefore = login_time - 5 * second, tk_Expiration = Some (login_time + 100 * second)\<rparr>"

definition login_env :: auth_env where
  "login_env = web_env\<lparr>ae_now := login_time, ae_sessionTTL := 100 * second, ae_enforceMFA := True,
     ae_totp := (\<lambda>passcode secret at. Inr (passcode = ''123456'' \<and> secret = ''JBSW'' \<and> at = login_time)),
     ae_open := (\<lambda>aad nonce sealed. Some ''JBSW''),
     ae_issue := (\<lambda>claims. if claims = login_claims then Some ''tok'' else None),
     ae_token := (\<lambda>now token. if token = ''tok'' then Some login_claims else None)\<rparr>"

definition login_account :: account where
  "login_account = sample_account\<lparr>ac_passwordHash := sample_hashed, ac_MFAEnabled := True, ac_MFAConfigured := True, ac_PasswordExpiryDays := 0,
     ac_mfaSecret := ''mfa2.'' @ rawURLEncoding (replicate 25 0)\<rparr>"

definition login_gateway :: "sessions gateway" where
  "login_gateway = sample_gateway\<lparr>gw_sessions := [], gw_users := [login_account]\<rparr>"

definition sample_login :: loginInput where
  "sample_login = \<lparr>li_Username = ''Ops'', li_Password = ''correct horse'', li_TOTP = ''123456'', li_Persistent = False, li_Request = client_request\<rparr>"

lemma sample_login_fields:
  "li_Username sample_login = ''Ops''" "li_Password sample_login = ''correct horse''" "li_TOTP sample_login = ''123456''"
  "li_Persistent sample_login = False" "li_Request sample_login = client_request"
  by (simp_all add: sample_login_def)

lemma login_texts:
  "trimSpace ''Ops'' = ''Ops''" "validUsername ''Ops''" "trimSpace ''123456'' = ''123456''" "trimSpace ''u1'' = ''u1''"
  "toLower ''Ops'' = ''ops''" "toLower ''ops'' = ''ops''" "hasPrefix (''mfa2.'' @ x) ''mfa2.''"
  by code_simp+

lemma mfa_text: "trimSpace (''mfa2.'' @ rawURLEncoding bs) = ''mfa2.'' @ rawURLEncoding bs"
proof (rule trimSpace_solid)
  have "list_all solid url_alphabet" "list_all solid ''mfa2.''" by code_simp+
  then show "list_all solid (''mfa2.'' @ rawURLEncoding bs)" using encode_chars(1) unfolding list_all_append by (auto simp: list_all_iff)
qed

lemma login_scan:
  "scanAccount login_account = Inr login_account"
  "scanAccount (login_account\<lparr>ac_mfaLastStep := step, ac_UpdatedAt := at\<rparr>) = Inr (login_account\<lparr>ac_mfaLastStep := step, ac_UpdatedAt := at\<rparr>)"
proof -
  have c: "clean_code ''WXR'' = ''WXR''" "''WXR'' \<in> set allowedOriginatorCodes" "normalizeOriginators [''WXR''] = [''WXR'']"
      "normalizeEventCodes [] = []" "normalizeCIDRs [] = []"
    by code_simp+
  have "trimSpace (ac_mfaSecret login_account) \<noteq> []" by (simp add: login_account_def mfa_text del: append.simps)
  then show "scanAccount login_account = Inr login_account"
    "scanAccount (login_account\<lparr>ac_mfaLastStep := step, ac_UpdatedAt := at\<rparr>) = Inr (login_account\<lparr>ac_mfaLastStep := step, ac_UpdatedAt := at\<rparr>)"
    by (simp_all add: scanAccount_def login_account_def sample_account_def c)
qed

lemma login_reads: "ByUsername ''Ops'' [login_account] = Inr login_account" "ByID ''u1'' [login_account] = Inr login_account"
  by (simp_all add: ByUsername_def ByID_def queryOne_def login_scan login_texts) (simp_all add: login_account_def sample_account_def login_texts)

lemma login_fields:
  "ac_ID login_account = ''u1''" "ac_AccountLocked login_account = False" "ac_authVersion login_account = 1" "ac_MFAEnabled login_account"
  "ac_MFAConfigured login_account" "ac_mfaLastStep login_account = 0" "ac_CIDRWhitelist login_account = []" "ac_LoggingEnabled login_account"
  "ac_passwordHash login_account = sample_hashed" "ac_mfaSecret login_account = ''mfa2.'' @ rawURLEncoding (replicate 25 0)"
  "ac_PasswordExpiryDays login_account = 0" "ac_Username login_account = ''ops''"
  by (simp_all add: login_account_def sample_account_def)

lemma login_env_fields:
  "ae_now login_env = login_time" "ae_enforceMFA login_env" "ae_configured login_env" "ae_proxies login_env = sample_proxies"
  "ae_loginNetworks login_env = []" "ae_redis login_env = False" "ae_loginLimit login_env = 5" "ae_loginWindow login_env = 120"
  "ae_passwords login_env = sample_passwords" "ae_sessionID login_env = Some ''sid''" "ae_sessionTTL login_env = 100 * second"
  "ae_totp login_env passcode secret at = Inr (passcode = ''123456'' \<and> secret = ''JBSW'' \<and> at = login_time)"
  "ae_open login_env aad nonce sealed = Some ''JBSW''" "ae_idleTimeout login_env = 900" "ae_hash login_env = (\<lambda>s. [1, 2])"
  "ae_issue login_env claims = (if claims = login_claims then Some ''tok'' else None)"
  "ae_token login_env now token = (if token = ''tok'' then Some login_claims else None)"
  by (simp_all add: login_env_def web_env_def)

definition used_account :: account where
  "used_account = login_account\<lparr>ac_mfaLastStep := 56813440, ac_UpdatedAt := login_time\<rparr>"

lemma login_step:
  "accepted_step_of login_env ''123456'' ''JBSW'' [login_time - 30 * second, login_time, login_time + 30 * second] = Inr 56813440"
  by (simp add: login_env_fields time_step_def unix_def login_time_def second_def)

lemma accepted: "AcceptMFAStep login_time ''u1'' 1 56813440 [login_account] = ([used_account], Inr ())"
  by (simp add: AcceptMFAStep_def update_where_def login_fields used_account_def)

lemma login_code:
  assumes "gw_script g = []" and "gw_users g = [login_account]"
  shows "validateMFA login_env login_account ''123456'' g = (g\<lparr>gw_users := [used_account]\<rparr>, True)"
proof -
  have "decryptMFASecret login_env ''u1'' (ac_mfaSecret login_account) = Inr ''JBSW''"
    by (simp add: decryptMFASecret_def login_fields login_texts Let_def login_env_fields)
  then show ?thesis
    by (simp add: validateMFA_def login_fields login_texts login_step db_def login_env_fields(1) accepted assms del: accepted_step_of.simps)
qed

lemma used_fields:
  "ac_ID used_account = ''u1''" "ac_AccountLocked used_account = False" "ac_authVersion used_account = 1" "ac_AllowPersistentSessions used_account"
  "ac_LoggingEnabled used_account" "ac_PasswordExpiryDays used_account = 0" "ac_Username used_account = ''ops''"
  by (simp_all add: used_account_def login_fields) (simp add: login_account_def sample_account_def)

lemma used_scan: "scanAccount used_account = Inr used_account"
  by (simp add: used_account_def login_scan)

lemma used_read: "ByID ''u1'' [used_account] = Inr used_account"
  by (simp add: ByID_def queryOne_def used_scan login_texts used_fields)

lemma login_sealed: "ae_issue login_env (issued_claims login_env sample_login used_account ''sid'') = Some ''tok''"
  by (simp add: login_env_fields issued_claims_def sample_login_def client_request_facts used_fields new_session_def Let_def login_claims_def)

lemma login_stored: "stored_claims login_claims = login_claims" "whole_second (login_time + 100 * second) = login_time + 100 * second"
  by (simp_all add: stored_claims_def whole_second_def login_claims_def login_time_def second_def)

lemma recorded: "\<exists>us. RecordLoginSuccess login_time ''u1'' addr 1 [used_account] = (us, Inr ())"
  by (simp add: RecordLoginSuccess_def require_current_def update_where_def used_fields)

lemma committed:
  assumes "gw_script g = []" and "gw_users g = [used_account]" and "gw_auditFails g = []"
  shows "\<exists>g'. login_commit login_env (memorySessionRegistry (ae_hash login_env)) sample_login key used_account ''sid'' ''tok'' g =
    (g', Inr (login_result login_env sample_login used_account ''sid'' ''tok''))"
proof -
  have "trimSpace ''sid'' \<noteq> []" by code_simp
  then have "sessionIDDigest (\<lambda>s. [1, 2]) ''sid'' \<noteq> []" by (simp add: sessionIDDigest_def encode_Nil_iff)
  then obtain ss where put: "sr_Put (memorySessionRegistry (ae_hash login_env)) (ae_now login_env) ''sid'' (new_session login_env sample_login used_account) (gw_sessions g) = (ss, None)"
    by (simp add: memorySessionRegistry_def memory_Put_def Let_def login_env_fields)
  obtain us where rec: "RecordLoginSuccess login_time ''u1'' (as_IP (new_session login_env sample_login used_account)) 1 [used_account] = (us, Inr ())"
    using recorded by blast
  show ?thesis
    by (simp add: login_commit_def Let_def put [unfolded login_env_fields(1)] login_env_fields(1) db_def assms used_fields rec audit_append_def)
qed

lemma allow_first: "0 < limit \<Longrightarrow> \<exists>ws. Allow key limit window now [] = (True, ws)"
  by (simp add: Allow_def attempts_def)

lemma login_admitted:
  "\<exists>a b. admitLoginAttempt login_env key addr 25 login_gateway = (login_gateway\<lparr>gw_loginLimiter := a, gw_loginIPLimiter := b\<rparr>, Inr (True, True))"
proof -
  obtain a b where "Allow key 5 120 login_time [] = (True, a)" "Allow addr 25 120 login_time [] = (True, b)"
    using allow_first [of 5 key 120 login_time] allow_first [of 25 addr 120 login_time] by auto
  then have "admitLoginAttempt login_env key addr 25 login_gateway = (login_gateway\<lparr>gw_loginLimiter := a, gw_loginIPLimiter := b\<rparr>, Inr (True, True))"
    by (simp add: admitLoginAttempt_def login_env_fields login_gateway_def sample_gateway_def)
  then show ?thesis by blast
qed

lemma login_succeeds: "\<exists>g'. Login login_env (memorySessionRegistry (ae_hash login_env)) sample_login login_gateway =
    (g', Inr (login_result login_env sample_login used_account ''sid'' ''tok''))"
proof -
  let ?R = "memorySessionRegistry (ae_hash login_env)"
  let ?key = "''ops|192.0.2.7''"
  obtain a b where ad: "admitLoginAttempt login_env ?key ''192.0.2.7'' 25 login_gateway = (login_gateway\<lparr>gw_loginLimiter := a, gw_loginIPLimiter := b\<rparr>, Inr (True, True))"
    using login_admitted by blast
  define g where "g = login_gateway\<lparr>gw_loginLimiter := a, gw_loginIPLimiter := b\<rparr>"
  define h where "h = g\<lparr>gw_users := [used_account]\<rparr>"
  have g: "gw_script g = []" "gw_users g = [login_account]" "gw_auditFails g = []" by (simp_all add: g_def login_gateway_def sample_gateway_def)
  then have same: "g\<lparr>gw_users := [login_account]\<rparr> = g" by (cases g) simp
  have h: "gw_script h = []" "gw_users h = [used_account]" "gw_auditFails h = []" using g by (simp_all add: h_def)
  have r1: "refreshLoginAccount login_env ?R login_account g = (g, Inr login_account)"
    by (simp add: refreshLoginAccount_def db_read_def db_def g login_fields login_reads applyAccountLockPolicy_def)
  have r2: "refreshLoginAccount login_env ?R login_account h = (h, Inr used_account)"
    by (simp add: refreshLoginAccount_def db_read_def db_def h login_fields used_read used_fields applyAccountLockPolicy_def)
  obtain g' where c: "login_commit login_env ?R sample_login ?key used_account ''sid'' ''tok'' h =
      (g', Inr (login_result login_env sample_login used_account ''sid'' ''tok''))"
    using committed [OF h] by blast
  have s: "login_session login_env ?R sample_login ?key login_account h = (g', Inr (login_result login_env sample_login used_account ''sid'' ''tok''))"
    using c login_sealed by (simp add: login_session_def r2 used_fields passwordExpired_def login_env_fields(10))
  have v: "validateMFA login_env login_account ''123456'' g = (h, True)" using login_code [OF g(1,2)] by (simp add: h_def)
  have f: "login_factors login_env ?R sample_login ?key login_account g = (g', Inr (login_result login_env sample_login used_account ''sid'' ''tok''))"
    using s v by (simp add: login_factors_def r1 login_fields login_env_fields(2) sample_login_fields login_texts)
  have "login_password login_env ?R sample_login ?key g = (g', Inr (login_result login_env sample_login used_account ''sid'' ''tok''))"
    using f by (simp add: login_password_def db_read_def db_def g login_texts sample_login_fields login_reads applyAccountLockPolicy_def
        login_fields login_env_fields(4,9) sample_verifies client_request_facts same ipAllowed_def)
  then show ?thesis using ad by (simp add: Login_def Let_def sample_login_fields login_env_fields client_request_facts g_def login_texts maxPasswordBytes_def ipAllowed_def)
qed

theorem login_checks_current_credentials_witness:
  "\<exists>row\<in>set (gw_users (fst (Login login_env (memorySessionRegistry (ae_hash login_env)) sample_login login_gateway))).
     ac_ID row = ''u1'' \<and> (\<exists>step. code_matches login_env row ''123456'' step \<and> step \<le> ac_mfaLastStep row)"
proof -
  obtain g' where l: "Login login_env (memorySessionRegistry (ae_hash login_env)) sample_login login_gateway =
      (g', Inr (login_result login_env sample_login used_account ''sid'' ''tok''))" using login_succeeds by blast
  have "quiet login_gateway" by (rule quiet_alone) (simp add: login_gateway_def sample_gateway_def)
  moreover have "keys_ok (gw_users login_gateway)" by (simp add: keys_ok_def login_gateway_def)
  moreover have "\<forall>row\<in>set (gw_users login_gateway). trimSpace (ac_ID row) = ac_ID row" by (simp add: login_gateway_def login_fields login_texts)
  ultimately show ?thesis
    using login_checks_current_credentials [OF l] unfolding l fst_conv login_result_fields used_fields sample_login_fields
    using login_env_fields(2) by blast
qed

theorem issued_token_accepted_witness:
  "\<exists>g'' identity. Authenticate (login_env\<lparr>ae_now := login_time + 50\<rparr>) (memorySessionRegistry (ae_hash login_env)) client_request
     (fst (Login login_env (memorySessionRegistry (ae_hash login_env)) sample_login login_gateway)) = (g'', Inr identity) \<and>
     ac_ID (id_Account identity) = ''u1''"
proof -
  obtain g' where l: "Login login_env (memorySessionRegistry (ae_hash login_env)) sample_login login_gateway =
      (g', Inr (login_result login_env sample_login used_account ''sid'' ''tok''))" using login_succeeds by blast
  have "\<exists>g'' identity. Authenticate (login_env\<lparr>ae_now := login_time + 50\<rparr>) (memorySessionRegistry (ae_hash login_env)) client_request g' = (g'', Inr identity) \<and>
     ac_ID (id_Account identity) = ac_ID (id_Account (lr_Identity (login_result login_env sample_login used_account ''sid'' ''tok''))) \<and>
     id_RawSessionID identity = id_RawSessionID (lr_Identity (login_result login_env sample_login used_account ''sid'' ''tok''))"
    by (rule issued_token_accepted [OF l])
       (simp_all add: login_gateway_def sample_gateway_def keys_ok_def login_fields login_texts login_env_fields client_request_facts sample_login_fields
         new_session_def Let_def login_stored second_def [symmetric] split: if_split_asm, simp_all add: second_def)
  then show ?thesis by (simp add: l used_fields) blast
qed

end
