(* ===== verification/Audit_Log.thy ===== *)
theory Audit_Log
  imports "HOL-Library.AList" Account_Store Go_Base64 Go_Values
begin

text \<open>
  The audit log of the web panel, \<open>internal/webgateway/audit_log.go\<close> and \<open>audit_atomic_nonwindows.go\<close>: one file
  per category and user whose lines form a chain of HMACs, and one signed file per category with the heads
  of the chains.
  \<^item> A line of a file is what \<open>Unmarshal\<close> makes of it: blank, not JSON, or an \<open>auditLine\<close>; in the same way the file of
    the heads is a document or not JSON. \<open>Marshal\<close> of an event and of the heads, and HMAC-SHA256 under the
    key of the logger, are the fields of \<open>audit_env\<close>; \<open>Marshal\<close> of the heads does not depend on the
    order of the map.
  \<^item> \<open>st_faults\<close> says what the coming operations on files do: \<open>Fine\<close>, \<open>Fails\<close> without an effect, or \<open>Late\<close>, fails
    after it had an effect (a line is written in part; the heads are replaced, but the directory is not
    synchronised). \<open>Stat\<close>, \<open>Open\<close> for reading and the other reads have no effect to be late with.
  \<^item> \<open>st_dirs\<close> lists the files of the directory of each category (a subdirectory is skipped by the source).
\<close>

section \<open>Data\<close>

definition auditKeyID :: string where
  "auditKeyID = ''haze-audit-v1''"

definition auditCategories :: "string list" where
  "auditCategories = [''access'', ''alerts'', ''webpanel'']"

record auditEvent =
  ev_Timestamp :: instant
  ev_Event :: string
  ev_ActorID :: string
  ev_ActorUsername :: string
  ev_SessionID :: string
  ev_IP :: string
  ev_UserAgent :: string
  ev_Severity :: string
  ev_Details :: message

record auditLine =
  ln_Index :: "64 word"
  ln_KeyID :: string
  ln_PreviousHMAC :: string
  ln_Payload :: string
  ln_HMAC :: string

record auditChainHead =
  hd_Index :: "64 word"
  hd_HMAC :: string

type_synonym heads = "(string \<times> auditChainHead) list"

text \<open>\<open>dc_Heads\<close> is \<open>None\<close> for a document without a map.\<close>

record auditHeadsDocument =
  dc_KeyID :: string
  dc_Category :: string
  dc_Heads :: "heads option"
  dc_HMAC :: string

datatype logLine = BlankLine | BadLine | LogLine auditLine

datatype headsFile = BadHeads | HeadsDocument auditHeadsDocument

datatype fault = Fine | Fails | Late

datatype auditError = AuditError string | Critical string | RollbackFailed

record audit_env =
  al_mac :: "byte list \<Rightarrow> byte list"
  al_event :: "auditEvent \<Rightarrow> string option"
  al_heads :: "string \<Rightarrow> string \<Rightarrow> (string \<rightharpoonup> auditChainHead) \<Rightarrow> string"
  al_now :: instant

record audit_state =
  st_dirs :: "string \<Rightarrow> (string \<times> logLine list) list"
  st_heads :: "string \<Rightarrow> headsFile option"
  st_faults :: "fault list"

section \<open>Files\<close>

definition next_fault :: "audit_state \<Rightarrow> audit_state \<times> fault" where
  "next_fault st = (case st_faults st of [] \<Rightarrow> (st, Fine) | f # rest \<Rightarrow> (st\<lparr>st_faults := rest\<rparr>, f))"

definition log_name :: "string \<Rightarrow> string" where
  "log_name username = username @ ''.log''"

definition log_file :: "string \<Rightarrow> string \<Rightarrow> audit_state \<Rightarrow> logLine list option" where
  "log_file category name st = map_of (st_dirs st category) name"

definition put_log :: "string \<Rightarrow> string \<Rightarrow> logLine list \<Rightarrow> audit_state \<Rightarrow> audit_state" where
  "put_log category name ls st = st\<lparr>st_dirs := (st_dirs st)(category := AList.update name ls (st_dirs st category))\<rparr>"

text \<open>\<open>os.Rename\<close> within the directory of a category.\<close>

definition rename_log :: "string \<Rightarrow> string \<Rightarrow> string \<Rightarrow> audit_state \<Rightarrow> audit_state \<times> bool" where
  "rename_log category old new st =
     (case next_fault st of
        (st, f) \<Rightarrow>
          (case (f, log_file category old st) of
             (Fine, Some ls) \<Rightarrow>
               (st\<lparr>st_dirs := (st_dirs st)(category := AList.update new ls (AList.delete old (st_dirs st category)))\<rparr>, True)
           | _ \<Rightarrow> (st, False)))"

section \<open>Signatures\<close>

definition be64 :: "64 word \<Rightarrow> byte list" where
  "be64 w = map (\<lambda>i. ucast (drop_bit (8 * i) w)) [7, 6, 5, 4, 3, 2, 1, 0]"

definition chain_message :: "64 word \<Rightarrow> byte list \<Rightarrow> byte list \<Rightarrow> byte list" where
  "chain_message index previous payload =
     bytes ''haze-audit-chain-v1'' @ [0] @ bytes auditKeyID @ be64 index @ previous @ be64 (of_nat (length payload)) @ payload"

definition sign :: "audit_env \<Rightarrow> 64 word \<Rightarrow> byte list \<Rightarrow> byte list \<Rightarrow> byte list" where
  "sign env index previous payload = al_mac env (chain_message index previous payload)"

definition signHeads :: "audit_env \<Rightarrow> string \<Rightarrow> string \<Rightarrow> heads \<Rightarrow> byte list" where
  "signHeads env keyID category hs = al_mac env (bytes ''haze-audit-heads-v1'' @ [0] @ bytes (al_heads env keyID category (map_of hs)))"

text \<open>The bytes \<open>DecodeString\<close> returns, also those before an error.\<close>

fun decoded_prefix :: "nat list \<Rightarrow> byte list" where
  "decoded_prefix (s # t # u # v # rest) =
     of_nat (s * 4 + t div 16) # of_nat (t mod 16 * 16 + u div 4) # of_nat (u mod 4 * 64 + v) # decoded_prefix rest"
| "decoded_prefix _ = []"

fun valid_positions :: "string \<Rightarrow> string \<Rightarrow> nat list" where
  "valid_positions alphabet [] = []"
| "valid_positions alphabet (c # cs) =
     (if c = CHR 0x0A \<or> c = CHR 0x0D then valid_positions alphabet cs
      else (case position alphabet c of None \<Rightarrow> [] | Some p \<Rightarrow> p # valid_positions alphabet cs))"

definition decodeAuditMAC :: "string \<Rightarrow> byte list" where
  "decodeAuditMAC text =
     (case raw_decode url_alphabet (trimSpace text) of
        Some raw \<Rightarrow> raw
      | None \<Rightarrow> decoded_prefix (valid_positions url_alphabet (trimSpace text)))"

section \<open>Verification of a chain\<close>

definition sequenceMismatch :: auditError where
  "sequenceMismatch = Critical ''CRITICAL audit sequence mismatch''"

fun verify_lines :: "audit_env \<Rightarrow> 64 word \<Rightarrow> byte list \<Rightarrow> logLine list \<Rightarrow> auditError + auditChainHead" where
  "verify_lines env expectedIndex previous [] = Inr \<lparr>hd_Index = expectedIndex - 1, hd_HMAC = rawURLEncoding previous\<rparr>"
| "verify_lines env expectedIndex previous (BlankLine # rest) = verify_lines env expectedIndex previous rest"
| "verify_lines env expectedIndex previous (BadLine # rest) = Inl (Critical ''CRITICAL invalid audit JSON'')"
| "verify_lines env expectedIndex previous (LogLine line # rest) =
     (if ln_Index line \<noteq> expectedIndex \<or> ln_KeyID line \<noteq> auditKeyID then Inl sequenceMismatch
      else if decodeAuditMAC (ln_PreviousHMAC line) \<noteq> previous then Inl (Critical ''CRITICAL previous audit HMAC mismatch'')
      else if sign env (ln_Index line) previous (bytes (ln_Payload line)) \<noteq> decodeAuditMAC (ln_HMAC line)
      then Inl (Critical ''CRITICAL audit HMAC mismatch'')
      else verify_lines env (expectedIndex + 1) (decodeAuditMAC (ln_HMAC line)) rest)"

definition verifyFileLocked :: "audit_env \<Rightarrow> string \<Rightarrow> string \<Rightarrow> audit_state \<Rightarrow> audit_state \<times> (auditError + auditChainHead)" where
  "verifyFileLocked env category name st =
     (case next_fault st of
        (st, Fine) \<Rightarrow>
          (st, case log_file category name st of
                 None \<Rightarrow> Inr \<lparr>hd_Index = 0, hd_HMAC = []\<rparr>
               | Some ls \<Rightarrow> verify_lines env 1 [] ls)
      | (st, _) \<Rightarrow> (st, Inl (AuditError ''open audit log for verification'')))"

definition same_head :: "auditChainHead \<Rightarrow> auditChainHead \<Rightarrow> bool" where
  "same_head a b \<longleftrightarrow> hd_Index a = hd_Index b \<and> decodeAuditMAC (hd_HMAC a) = decodeAuditMAC (hd_HMAC b)"

section \<open>The heads\<close>

definition open_heads :: "audit_env \<Rightarrow> string \<Rightarrow> headsFile option \<Rightarrow> auditError + heads" where
  "open_heads env category file =
     (case file of
        None \<Rightarrow> Inr []
      | Some BadHeads \<Rightarrow> Inl (Critical ''CRITICAL invalid audit integrity signature'')
      | Some (HeadsDocument document) \<Rightarrow>
          (case dc_Heads document of
             None \<Rightarrow> Inl (Critical ''CRITICAL invalid audit integrity signature metadata'')
           | Some hs \<Rightarrow>
               if dc_KeyID document \<noteq> auditKeyID \<or> dc_Category document \<noteq> category
               then Inl (Critical ''CRITICAL invalid audit integrity signature metadata'')
               else if length (decodeAuditMAC (dc_HMAC document)) \<noteq> 32 \<or>
                       signHeads env (dc_KeyID document) (dc_Category document) hs \<noteq> decodeAuditMAC (dc_HMAC document)
               then Inl (Critical ''CRITICAL audit integrity signature HMAC mismatch'')
               else Inr hs))"

definition readHeadsLocked :: "audit_env \<Rightarrow> string \<Rightarrow> audit_state \<Rightarrow> audit_state \<times> (auditError + heads)" where
  "readHeadsLocked env category st =
     (case next_fault st of
        (st, Fine) \<Rightarrow> (st, open_heads env category (st_heads st category))
      | (st, _) \<Rightarrow> (st, Inl (AuditError ''read audit integrity signature'')))"

definition heads_document :: "audit_env \<Rightarrow> string \<Rightarrow> heads \<Rightarrow> auditHeadsDocument" where
  "heads_document env category hs =
     \<lparr>dc_KeyID = auditKeyID, dc_Category = category, dc_Heads = Some hs,
      dc_HMAC = rawURLEncoding (signHeads env auditKeyID category hs)\<rparr>"

text \<open>The file is replaced as a whole; the result says whether every step succeeded.\<close>

definition writeHeadsLocked :: "audit_env \<Rightarrow> string \<Rightarrow> heads \<Rightarrow> audit_state \<Rightarrow> audit_state \<times> bool" where
  "writeHeadsLocked env category hs st =
     (case next_fault st of
        (st, Fails) \<Rightarrow> (st, False)
      | (st, f) \<Rightarrow>
          (st\<lparr>st_heads := (st_heads st)(category \<mapsto> HeadsDocument (heads_document env category hs))\<rparr>, f = Fine))"

section \<open>Appending an event\<close>

definition clean_event :: "audit_env \<Rightarrow> auditEvent \<Rightarrow> auditEvent" where
  "clean_event env event =
     (let username = trimSpace (ev_ActorUsername event)
      in event\<lparr>ev_ActorUsername := (if validUsername username then username else ''unknown''),
               ev_Event := toUpper (trimSpace (ev_Event event)),
               ev_Timestamp := (if ev_Timestamp event = 0 then al_now env else ev_Timestamp event)\<rparr>)"

definition next_line :: "audit_env \<Rightarrow> auditChainHead \<Rightarrow> string \<Rightarrow> auditLine" where
  "next_line env head payload =
     (let previous = decodeAuditMAC (hd_HMAC head); index = hd_Index head + 1
      in \<lparr>ln_Index = index, ln_KeyID = auditKeyID, ln_PreviousHMAC = rawURLEncoding previous, ln_Payload = payload,
          ln_HMAC = rawURLEncoding (sign env index previous (bytes payload))\<rparr>)"

text \<open>Open, write, sync and close; the result says whether all succeeded.\<close>

definition append_line :: "string \<Rightarrow> string \<Rightarrow> auditLine \<Rightarrow> audit_state \<Rightarrow> audit_state \<times> (auditError + unit)" where
  "append_line category name line st =
     (case next_fault st of
        (st, Fine) \<Rightarrow>
          (let ls = (case log_file category name st of None \<Rightarrow> [] | Some ls \<Rightarrow> ls);
               st = put_log category name ls st
           in case next_fault st of
                (st, Fails) \<Rightarrow> (st, Inl (AuditError ''append audit log''))
              | (st, Late) \<Rightarrow> (put_log category name (ls @ [BadLine]) st, Inl (AuditError ''append audit log''))
              | (st, Fine) \<Rightarrow>
                  (case next_fault (put_log category name (ls @ [LogLine line]) st) of
                     (st, Fine) \<Rightarrow>
                       (case next_fault st of
                          (st, Fine) \<Rightarrow> (st, Inr ())
                        | (st, _) \<Rightarrow> (st, Inl (AuditError ''close audit log'')))
                   | (st, _) \<Rightarrow> (st, Inl (AuditError ''sync audit log''))))
      | (st, _) \<Rightarrow> (st, Inl (AuditError ''open audit log'')))"

definition append_locked :: "audit_env \<Rightarrow> string \<Rightarrow> string \<Rightarrow> string \<Rightarrow> audit_state \<Rightarrow> audit_state \<times> (auditError + unit)" where
  "append_locked env category username payload st =
     (case verifyFileLocked env category (log_name username) st of
        (st, Inl e) \<Rightarrow> (st, Inl e)
      | (st, Inr head) \<Rightarrow>
          (case readHeadsLocked env category st of
             (st, Inl e) \<Rightarrow> (st, Inl e)
           | (st, Inr hs) \<Rightarrow>
               if (case map_of hs username of None \<Rightarrow> False | Some recorded \<Rightarrow> \<not> same_head recorded head)
               then (st, Inl (Critical ''CRITICAL audit chain head mismatch''))
               else
                 (let line = next_line env head payload
                  in case append_line category (log_name username) line st of
                       (st, Inl e) \<Rightarrow> (st, Inl e)
                     | (st, Inr _) \<Rightarrow>
                         (case writeHeadsLocked env category
                                 (AList.update username \<lparr>hd_Index = ln_Index line, hd_HMAC = ln_HMAC line\<rparr> hs) st of
                            (st, True) \<Rightarrow> (st, Inr ())
                          | (st, False) \<Rightarrow> (st, Inl (AuditError ''write audit integrity signature''))))))"

definition Append :: "audit_env \<Rightarrow> string \<Rightarrow> auditEvent \<Rightarrow> audit_state \<Rightarrow> audit_state \<times> (auditError + unit)" where
  "Append env category event st =
     (let category = toLower (trimSpace category); event = clean_event env event
      in if category \<notin> set auditCategories then (st, Inl (AuditError ''unsupported audit category''))
         else if ev_Event event = [] then (st, Inl (AuditError ''audit event type is required''))
         else
           (case al_event env event of
              None \<Rightarrow> (st, Inl (AuditError ''encode audit event''))
            | Some payload \<Rightarrow> append_locked env category (ev_ActorUsername event) payload st))"

section \<open>Verification of everything\<close>

definition entry_username :: "string \<Rightarrow> string" where
  "entry_username name = (case lastIndex name ''.'' of None \<Rightarrow> name | Some i \<Rightarrow> take i name)"

fun verify_entries ::
  "audit_env \<Rightarrow> string \<Rightarrow> heads \<Rightarrow> string list \<Rightarrow> string list \<Rightarrow> audit_state \<Rightarrow> audit_state \<times> (auditError + string list)" where
  "verify_entries env category hs seen [] st = (st, Inr seen)"
| "verify_entries env category hs seen (name # names) st =
     (if \<not> hasSuffix (toLower name) ''.log'' then verify_entries env category hs seen names st
      else
        (case verifyFileLocked env category name st of
           (st, Inl e) \<Rightarrow> (st, Inl e)
         | (st, Inr head) \<Rightarrow>
             (case map_of hs (entry_username name) of
                None \<Rightarrow> (st, Inl (Critical ''CRITICAL audit integrity signature mismatch''))
              | Some recorded \<Rightarrow>
                  if \<not> same_head recorded head then (st, Inl (Critical ''CRITICAL audit integrity signature mismatch''))
                  else verify_entries env category hs (entry_username name # seen) names st)))"

definition verify_category :: "audit_env \<Rightarrow> string \<Rightarrow> audit_state \<Rightarrow> audit_state \<times> (auditError + unit)" where
  "verify_category env category st =
     (case readHeadsLocked env category st of
        (st, Inl e) \<Rightarrow> (st, Inl e)
      | (st, Inr hs) \<Rightarrow>
          (case next_fault st of
             (st, Fine) \<Rightarrow>
               (case verify_entries env category hs [] (map fst (st_dirs st category)) st of
                  (st, Inl e) \<Rightarrow> (st, Inl e)
                | (st, Inr seen) \<Rightarrow>
                    if list_ex (\<lambda>(username, head). hd_Index head \<noteq> 0 \<and> username \<notin> set seen) hs
                    then (st, Inl (Critical ''CRITICAL audit log missing for signed chain''))
                    else (st, Inr ()))
           | (st, _) \<Rightarrow> (st, Inl (AuditError ''read audit directory''))))"

text \<open>The categories are visited in the order the map gives them, the argument \<open>order\<close>.\<close>

fun VerifyAll :: "audit_env \<Rightarrow> string list \<Rightarrow> audit_state \<Rightarrow> audit_state \<times> (auditError + unit)" where
  "VerifyAll env [] st = (st, Inr ())"
| "VerifyAll env (category # order) st =
     (case verify_category env category st of
        (st, Inl e) \<Rightarrow> (st, Inl e)
      | (st, Inr _) \<Rightarrow> VerifyAll env order st)"

text \<open>A new logger: the directories are made and everything is verified.\<close>

fun make_dirs :: "string list \<Rightarrow> audit_state \<Rightarrow> audit_state \<times> bool" where
  "make_dirs [] st = (st, True)"
| "make_dirs (category # order) st =
     (case next_fault st of
        (st, Fine) \<Rightarrow> make_dirs order st
      | (st, _) \<Rightarrow> (st, False))"

definition newAuditLogger :: "audit_env \<Rightarrow> byte list \<Rightarrow> string list \<Rightarrow> string list \<Rightarrow> audit_state \<Rightarrow> audit_state \<times> (auditError + unit)" where
  "newAuditLogger env key order order' st =
     (if length key < 32 then (st, Inl (AuditError ''audit HMAC key must contain at least 32 bytes''))
      else
        (case make_dirs order st of
           (st, False) \<Rightarrow> (st, Inl (AuditError ''create audit directory''))
         | (st, True) \<Rightarrow> VerifyAll env order' st))"

section \<open>Renaming an account\<close>

record renamePlan =
  rp_category :: string
  rp_oldHeads :: heads
  rp_newHeads :: heads
  rp_moveFile :: bool
  rp_fileMoved :: bool
  rp_headsWritten :: bool

definition plan_category :: "audit_env \<Rightarrow> string \<Rightarrow> string \<Rightarrow> string \<Rightarrow> audit_state \<Rightarrow> audit_state \<times> (auditError + renamePlan)" where
  "plan_category env old new category st =
     (case next_fault st of
        (st, Fine) \<Rightarrow>
          (let oldExists = (log_file category (log_name old) st \<noteq> None)
           in case next_fault st of
                (st, Fine) \<Rightarrow>
                  if log_file category (log_name new) st \<noteq> None
                  then (st, Inl (AuditError ''audit log already exists for renamed account''))
                  else
                    (case readHeadsLocked env category st of
                       (st, Inl e) \<Rightarrow> (st, Inl e)
                     | (st, Inr hs) \<Rightarrow>
                         if map_of hs new \<noteq> None then (st, Inl (AuditError ''audit chain already exists for renamed account''))
                         else if oldExists \<noteq> (map_of hs old \<noteq> None)
                         then (st, Inl (Critical ''CRITICAL audit log and signed chain disagree''))
                         else
                           (case map_of hs old of
                              None \<Rightarrow>
                                (st, Inr \<lparr>rp_category = category, rp_oldHeads = hs, rp_newHeads = hs, rp_moveFile = False,
                                         rp_fileMoved = False, rp_headsWritten = False\<rparr>)
                            | Some head \<Rightarrow>
                                (case verifyFileLocked env category (log_name old) st of
                                   (st, Inl e) \<Rightarrow> (st, Inl e)
                                 | (st, Inr verified) \<Rightarrow>
                                     if \<not> same_head verified head then (st, Inl (Critical ''CRITICAL audit chain head mismatch''))
                                     else
                                       (st, Inr \<lparr>rp_category = category, rp_oldHeads = hs,
                                                rp_newHeads = AList.update new head (AList.delete old hs), rp_moveFile = True,
                                                rp_fileMoved = False, rp_headsWritten = False\<rparr>))))
              | (st, _) \<Rightarrow> (st, Inl (AuditError ''inspect renamed audit log destination'')))
      | (st, _) \<Rightarrow> (st, Inl (AuditError ''inspect existing audit log'')))"

fun plan_rename :: "audit_env \<Rightarrow> string \<Rightarrow> string \<Rightarrow> string list \<Rightarrow> audit_state \<Rightarrow> audit_state \<times> (auditError + renamePlan list)" where
  "plan_rename env old new [] st = (st, Inr [])"
| "plan_rename env old new (category # categories) st =
     (case plan_category env old new category st of
        (st, Inl e) \<Rightarrow> (st, Inl e)
      | (st, Inr plan) \<Rightarrow>
          (case plan_rename env old new categories st of
             (st, Inl e) \<Rightarrow> (st, Inl e)
           | (st, Inr plans) \<Rightarrow> (st, Inr (plan # plans))))"

text \<open>The plans already carried out, the latest first; every one is undone, whatever fails.\<close>

definition undo_plan :: "audit_env \<Rightarrow> string \<Rightarrow> string \<Rightarrow> renamePlan \<Rightarrow> audit_state \<Rightarrow> audit_state \<times> bool" where
  "undo_plan env old new plan st =
     (case (if rp_headsWritten plan then writeHeadsLocked env (rp_category plan) (rp_oldHeads plan) st else (st, True)) of
        (st, written) \<Rightarrow>
          (case (if rp_fileMoved plan then rename_log (rp_category plan) (log_name new) (log_name old) st else (st, True)) of
             (st, moved) \<Rightarrow> (st, written \<and> moved)))"

fun rollback :: "audit_env \<Rightarrow> string \<Rightarrow> string \<Rightarrow> renamePlan list \<Rightarrow> audit_state \<Rightarrow> audit_state \<times> bool" where
  "rollback env old new [] st = (st, True)"
| "rollback env old new (plan # plans) st =
     (case undo_plan env old new plan st of
        (st, ok) \<Rightarrow> (case rollback env old new plans st of (st, rest) \<Rightarrow> (st, ok \<and> rest)))"

definition rolled_back :: "audit_env \<Rightarrow> string \<Rightarrow> string \<Rightarrow> renamePlan list \<Rightarrow> auditError \<Rightarrow> audit_state \<Rightarrow> audit_state \<times> (auditError + unit)" where
  "rolled_back env old new plans e st =
     (case rollback env old new plans st of (st, ok) \<Rightarrow> (st, Inl (if ok then e else RollbackFailed)))"

fun run_plans ::
  "audit_env \<Rightarrow> string \<Rightarrow> string \<Rightarrow> renamePlan list \<Rightarrow> renamePlan list \<Rightarrow> audit_state \<Rightarrow> audit_state \<times> (auditError + unit)" where
  "run_plans env old new carried [] st = (st, Inr ())"
| "run_plans env old new carried (plan # plans) st =
     (case (if rp_moveFile plan then rename_log (rp_category plan) (log_name old) (log_name new) st else (st, True)) of
        (st, False) \<Rightarrow> rolled_back env old new carried (AuditError ''rename audit log'') st
      | (st, True) \<Rightarrow>
          (let plan = plan\<lparr>rp_fileMoved := rp_moveFile plan\<rparr>
           in if rp_newHeads plan = [] \<and> rp_oldHeads plan = [] then run_plans env old new (plan # carried) plans st
              else
                (case writeHeadsLocked env (rp_category plan) (rp_newHeads plan) st of
                   (st, False) \<Rightarrow> rolled_back env old new (plan # carried) (AuditError ''write audit integrity signature'') st
                 | (st, True) \<Rightarrow> run_plans env old new (plan\<lparr>rp_headsWritten := True\<rparr> # carried) plans st)))"

definition RenameAccount :: "audit_env \<Rightarrow> string \<Rightarrow> string \<Rightarrow> audit_state \<Rightarrow> audit_state \<times> (auditError + unit)" where
  "RenameAccount env old new st =
     (if \<not> validUsername old \<or> \<not> validUsername new then (st, Inl (AuditError ''valid old and new usernames are required''))
      else
        (case plan_rename env old new auditCategories st of
           (st, Inl e) \<Rightarrow> (st, Inl e)
         | (st, Inr plans) \<Rightarrow> run_plans env old new [] plans st))"

section \<open>The messages of a chain\<close>

lemma of_char_byte: "(of_char c :: byte) = of_char d \<longleftrightarrow> c = d"
proof
  have u: "unat (of_char c :: byte) = of_char c" for c
  proof -
    have "(of_char c :: byte) = of_nat (of_char c :: nat)" by (simp add: of_nat_of_char)
    then have "unat (of_char c :: byte) = of_char c mod 256" by (simp only: unat_of_nat len_num1 len_bit0) simp
    then show ?thesis using mod_less [OF nat_of_char_less_256] by (rule trans)
  qed
  assume "(of_char c :: byte) = of_char d"
  then have "(of_char c :: nat) = of_char d" using u by metis
  then show "c = d" by simp
qed simp

lemma bytes_inj: "bytes s = bytes t \<longleftrightarrow> s = t"
  using of_char_byte by (auto simp: bytes_def inj_def dest: map_injective)

lemma length_be64 [simp]: "length (be64 w) = 8"
  by (simp add: be64_def)

lemma be64_inj: "be64 v = be64 w \<longleftrightarrow> v = w"
proof
  assume eq: "be64 v = be64 w"
  show "v = w"
  proof (rule bit_eqI)
    fix n assume "possible_bit TYPE(64 word) n"
    then have "n < 64" by simp
    then have "n div 8 \<in> set [7, 6, 5, 4, 3, 2, 1, 0 :: nat]" by auto
    with eq have "(ucast (drop_bit (8 * (n div 8)) v) :: byte) = ucast (drop_bit (8 * (n div 8)) w)"
      unfolding be64_def map_eq_conv by blast
    then have "bit (ucast (drop_bit (8 * (n div 8)) v) :: byte) (n mod 8) = bit (ucast (drop_bit (8 * (n div 8)) w) :: byte) (n mod 8)" by simp
    then show "bit v n = bit w n" by (simp add: bit_ucast_iff bit_drop_bit_eq)
  qed
qed simp

lemma chain_message_inj:
  assumes "length p = length q" and "chain_message i p m = chain_message j q n"
  shows "i = j \<and> p = q \<and> m = n"
  using assms by (simp add: chain_message_def be64_inj)

fun payloads :: "logLine list \<Rightarrow> string list" where
  "payloads [] = []"
| "payloads (LogLine line # rest) = ln_Payload line # payloads rest"
| "payloads (_ # rest) = payloads rest"

text \<open>What is signed for a sequence of payloads, and the last signature.\<close>

fun chain_messages :: "audit_env \<Rightarrow> 64 word \<Rightarrow> byte list \<Rightarrow> string list \<Rightarrow> byte list list" where
  "chain_messages env i previous [] = []"
| "chain_messages env i previous (p # ps) =
     chain_message i previous (bytes p) # chain_messages env (i + 1) (sign env i previous (bytes p)) ps"

fun chain_mac :: "audit_env \<Rightarrow> 64 word \<Rightarrow> byte list \<Rightarrow> string list \<Rightarrow> byte list" where
  "chain_mac env i previous [] = previous"
| "chain_mac env i previous (p # ps) = chain_mac env (i + 1) (sign env i previous (bytes p)) ps"

lemma verify_chain:
  "verify_lines env i previous ls = Inr h \<Longrightarrow>
   hd_Index h = i - 1 + of_nat (length (payloads ls)) \<and> hd_HMAC h = rawURLEncoding (chain_mac env i previous (payloads ls))"
  by (induction env i previous ls rule: verify_lines.induct) (auto split: if_split_asm)

definition collision :: "audit_env \<Rightarrow> byte list list \<Rightarrow> byte list list \<Rightarrow> bool" where
  "collision env xs ys \<longleftrightarrow> (\<exists>x\<in>set xs. \<exists>y\<in>set ys. x \<noteq> y \<and> al_mac env x = al_mac env y)"

lemma chain_unique:
  assumes "\<forall>x. length (al_mac env x) = 32" and "length ps = length qs" and "length a = length b"
    and "chain_mac env i a ps = chain_mac env i b qs"
  shows "a = b \<and> ps = qs \<or> collision env (chain_messages env i a ps) (chain_messages env i b qs)"
  using assms(2-4)
proof (induction ps arbitrary: qs i a b)
  case Nil
  then show ?case by simp
next
  case (Cons p ps)
  then obtain q qs' where q: "qs = q # qs'" by (cases qs) auto
  let ?a = "sign env i a (bytes p)" and ?b = "sign env i b (bytes q)"
  have "?a = ?b \<and> ps = qs' \<or> collision env (chain_messages env (i + 1) ?a ps) (chain_messages env (i + 1) ?b qs')"
    by (rule Cons.IH) (use Cons.prems q assms(1) in \<open>simp_all add: sign_def\<close>)
  then show ?case
  proof
    assume eq: "?a = ?b \<and> ps = qs'"
    show ?thesis
    proof (cases "chain_message i a (bytes p) = chain_message i b (bytes q)")
      case True
      with chain_message_inj [OF Cons.prems(2) True] eq q show ?thesis by (simp add: bytes_inj)
    next
      case False
      with eq q show ?thesis by (auto simp: collision_def sign_def)
    qed
  next
    assume "collision env (chain_messages env (i + 1) ?a ps) (chain_messages env (i + 1) ?b qs')"
    with q show ?thesis by (auto simp: collision_def)
  qed
qed

section \<open>Texts of signatures and names\<close>

lemma encoded_solid: "list_all solid (rawURLEncoding bs)"
proof -
  have "list_all solid url_alphabet" by code_simp
  then show ?thesis using encode_chars(1) by (auto simp: list_all_iff)
qed

lemma decode_mac [simp]: "decodeAuditMAC (rawURLEncoding bs) = bs"
  by (simp add: decodeAuditMAC_def trimSpace_solid [OF encoded_solid])

lemma decode_mac_Nil [simp]: "decodeAuditMAC [] = []"
  by (simp add: decodeAuditMAC_def raw_decode_def)

lemma log_name_suffix [simp]: "hasSuffix (log_name u) ''.log''" "log_name u = log_name v \<longleftrightarrow> u = v"
  by (simp_all add: log_name_def hasSuffix_def)

lemma lastIndex_app: "lastIndex v sub = Some i \<Longrightarrow> lastIndex (u @ v) sub = Some (length u + i)"
  by (induction u) simp_all

lemma entry_log_name [simp]: "entry_username (log_name u) = u"
proof -
  have "lastIndex ''.log'' ''.'' = Some 0" by simp
  then have "lastIndex (u @ ''.log'') ''.'' = Some (length u)" using lastIndex_app [of "''.log''"] by simp
  then show ?thesis by (simp add: entry_username_def log_name_def)
qed

section \<open>Files that verify\<close>

definition is_log :: "string \<Rightarrow> bool" where
  "is_log name \<longleftrightarrow> hasSuffix (toLower name) ''.log''"

text \<open>One file against the heads, and a whole category: \<open>intact\<close> is what \<open>VerifyAll\<close> accepts.\<close>

definition file_ok :: "audit_env \<Rightarrow> heads \<Rightarrow> (string \<rightharpoonup> logLine list) \<Rightarrow> string \<Rightarrow> bool" where
  "file_ok env hs files name \<longleftrightarrow>
     (\<exists>head recorded. (case files name of None \<Rightarrow> Inr \<lparr>hd_Index = 0, hd_HMAC = []\<rparr> | Some ls \<Rightarrow> verify_lines env 1 [] ls) = Inr head \<and>
        map_of hs (entry_username name) = Some recorded \<and> same_head recorded head)"

definition signed_ok :: "audit_env \<Rightarrow> heads \<Rightarrow> (string \<times> logLine list) list \<Rightarrow> bool" where
  "signed_ok env hs dir \<longleftrightarrow>
     (\<forall>name\<in>set (map fst dir). is_log name \<longrightarrow> file_ok env hs (map_of dir) name) \<and>
     (\<forall>(u, h)\<in>set hs. hd_Index h \<noteq> 0 \<longrightarrow> (\<exists>name\<in>set (map fst dir). is_log name \<and> entry_username name = u))"

definition intact :: "audit_env \<Rightarrow> string \<Rightarrow> audit_state \<Rightarrow> bool" where
  "intact env category st \<longleftrightarrow> (\<exists>hs. open_heads env category (st_heads st category) = Inr hs \<and> signed_ok env hs (st_dirs st category))"

lemma no_fault [simp]: "st_faults st = [] \<Longrightarrow> next_fault st = (st, Fine)"
  by (simp add: next_fault_def)

lemma verify_entries_ok:
  assumes "st_faults st = []"
  shows "verify_entries env category hs seen names st =
    (st, snd (verify_entries env category hs seen names st)) \<and>
    (snd (verify_entries env category hs seen names st) = Inr seen' \<longrightarrow> set seen' = set seen \<union> entry_username ` set (filter is_log names)) \<and>
    ((\<exists>seen'. snd (verify_entries env category hs seen names st) = Inr seen') \<longleftrightarrow>
      (\<forall>name\<in>set names. is_log name \<longrightarrow> file_ok env hs (map_of (st_dirs st category)) name))"
  using assms
  by (induction names arbitrary: seen seen')
     (auto simp: verifyFileLocked_def file_ok_def is_log_def log_file_def split: sum.splits option.splits if_splits)

lemma verify_category_iff:
  assumes "st_faults st = []"
  shows "fst (verify_category env category st) = st \<and> (snd (verify_category env category st) = Inr () \<longleftrightarrow> intact env category st)"
proof (cases "open_heads env category (st_heads st category)")
  case (Inl e)
  then show ?thesis using assms by (simp add: verify_category_def readHeadsLocked_def intact_def)
next
  case (Inr hs)
  let ?names = "map fst (st_dirs st category)"
  let ?r = "verify_entries env category hs [] ?names st"
  have st: "fst ?r = st" using verify_entries_ok [OF assms] by (metis fst_conv)
  note ok = verify_entries_ok [OF assms, of env category hs "[]" ?names, THEN conjunct2, THEN conjunct2]
  show ?thesis
  proof (cases "snd ?r")
    case (Inl e)
    then have "\<not> (\<forall>name\<in>set ?names. is_log name \<longrightarrow> file_ok env hs (map_of (st_dirs st category)) name)" using ok by simp
    then show ?thesis using assms Inr Inl st
      by (auto simp: verify_category_def readHeadsLocked_def intact_def signed_ok_def case_prod_beta)
  next
    case (Inr seen)
    have seen: "set seen = entry_username ` set (filter is_log ?names)"
      using verify_entries_ok [OF assms, of env category hs "[]" ?names seen] Inr by simp
    have files: "\<forall>name\<in>set ?names. is_log name \<longrightarrow> file_ok env hs (map_of (st_dirs st category)) name" using ok Inr by blast
    have r: "?r = (st, Inr seen)" using st Inr by (metis prod.collapse)
    have missing: "list_ex (\<lambda>(u, h). hd_Index h \<noteq> 0 \<and> u \<notin> set seen) hs \<longleftrightarrow>
        \<not> (\<forall>(u, h)\<in>set hs. hd_Index h \<noteq> 0 \<longrightarrow> (\<exists>name\<in>set ?names. is_log name \<and> entry_username name = u))"
    proof -
      have s: "u \<in> set seen \<longleftrightarrow> (\<exists>name\<in>set ?names. is_log name \<and> entry_username name = u)" for u unfolding seen by auto
      show ?thesis unfolding s list_ex_iff case_prod_beta by simp
    qed
    show ?thesis using assms \<open>open_heads env category (st_heads st category) = Inr hs\<close> r files
      by (simp add: verify_category_def readHeadsLocked_def missing intact_def signed_ok_def)
  qed
qed

text \<open>\<open>verified\<close>: \<open>VerifyAll\<close> accepts the files as they are, with no operation failing.\<close>

definition verified :: "audit_env \<Rightarrow> audit_state \<Rightarrow> bool" where
  "verified env st \<longleftrightarrow> snd (VerifyAll env auditCategories (st\<lparr>st_faults := []\<rparr>)) = Inr ()"

lemma VerifyAll_iff:
  "st_faults st = [] \<Longrightarrow> snd (VerifyAll env order st) = Inr () \<longleftrightarrow> (\<forall>category\<in>set order. intact env category st)"
proof (induction order)
  case (Cons category order)
  note c = verify_category_iff [OF Cons.prems, of env category]
  show ?case
  proof (cases "snd (verify_category env category st)")
    case (Inl e)
    with c show ?thesis by (simp add: case_prod_beta)
  next
    case (Inr u)
    with c Cons show ?thesis by (simp add: case_prod_beta)
  qed
qed simp

lemma intact_faults [simp]: "intact env category (st\<lparr>st_faults := fs\<rparr>) = intact env category st"
  by (simp add: intact_def)

lemma verified_iff: "verified env st \<longleftrightarrow> (\<forall>category\<in>set auditCategories. intact env category st)"
  by (simp add: verified_def VerifyAll_iff)

section \<open>Appending keeps everything verified\<close>

definition plain_names :: "audit_state \<Rightarrow> bool" where
  "plain_names st \<longleftrightarrow> (\<forall>category\<in>set auditCategories. \<forall>name\<in>set (map fst (st_dirs st category)). is_log name \<longrightarrow> name \<in> range log_name)"

text \<open>The logger's invariant: everything verifies, and every log file has a name the logger gives.\<close>

definition audit_ok :: "audit_env \<Rightarrow> audit_state \<Rightarrow> bool" where
  "audit_ok env st \<longleftrightarrow> verified env st \<and> plain_names st"

definition logged :: "string \<Rightarrow> string \<Rightarrow> audit_state \<Rightarrow> string list" where
  "logged category username st = (case log_file category (log_name username) st of None \<Rightarrow> [] | Some ls \<Rightarrow> payloads ls)"

lemma next_fault_keeps: "next_fault st = (st', f) \<Longrightarrow> st_dirs st' = st_dirs st \<and> st_heads st' = st_heads st"
  by (auto simp: next_fault_def split: list.split_asm)

lemma open_heads_document:
  "\<forall>x. length (al_mac env x) = 32 \<Longrightarrow> open_heads env category (Some (HeadsDocument (heads_document env category hs))) = Inr hs"
  by (simp add: open_heads_def heads_document_def signHeads_def)

lemma verify_append:
  "verify_lines env i previous ls = Inr h \<Longrightarrow>
   verify_lines env i previous (ls @ [LogLine (next_line env h p)]) =
     Inr \<lparr>hd_Index = ln_Index (next_line env h p), hd_HMAC = ln_HMAC (next_line env h p)\<rparr>"
proof (induction env i previous ls arbitrary: h rule: verify_lines.induct)
  case (1 env i previous)
  then show ?case by (auto simp: next_line_def Let_def)
qed (auto split: if_split_asm)

lemma payloads_append [simp]: "payloads (ls @ [LogLine line]) = payloads ls @ [ln_Payload line]"
  by (induction ls rule: payloads.induct) simp_all

lemma update_elem: "x \<in> set (AList.update k v al) \<Longrightarrow> x = (k, v) \<or> x \<in> set al"
  by (induction al) (auto split: if_split_asm)

lemma keys_updated: "set (map fst (AList.update k v al)) = insert k (set (map fst al))"
  by (induction al) auto

lemma log_is_log [simp]: "is_log (log_name u)"
proof -
  have "toLower (log_name u) = toLower u @ ''.log''" by (simp add: log_name_def toLower_def lower_char_def is_upper_def char_between_def)
  then show ?thesis by (simp add: is_log_def hasSuffix_def)
qed

lemma empty_code [simp]: "rawURLEncoding [] = []"
  by (simp add: raw_encode_def)

lemma signed_append:
  assumes "signed_ok env hs dir" and "\<forall>name\<in>set (map fst dir). is_log name \<longrightarrow> name \<in> range log_name"
    and "verify_lines env 1 [] ls = Inr head" and "line = next_line env head p"
  shows "signed_ok env (AList.update u \<lparr>hd_Index = ln_Index line, hd_HMAC = ln_HMAC line\<rparr> hs) (AList.update (log_name u) (ls @ [LogLine line]) dir)"
proof -
  let ?hs = "AList.update u \<lparr>hd_Index = ln_Index line, hd_HMAC = ln_HMAC line\<rparr> hs"
  let ?dir = "AList.update (log_name u) (ls @ [LogLine line]) dir"
  have files: "file_ok env ?hs (map_of ?dir) name" if name: "name \<in> set (map fst ?dir)" "is_log name" for name
  proof (cases "name = log_name u")
    case True
    then show ?thesis
      using verify_append [OF assms(3), of p] assms(4) by (simp add: file_ok_def AList.update_conv' same_head_def)
  next
    case False
    then have old: "name \<in> set (map fst dir)" using name(1) unfolding keys_updated by simp
    then obtain v where v: "name = log_name v" "v \<noteq> u" using assms(2) name(2) False by blast
    have "file_ok env hs (map_of dir) name" using assms(1) old name(2) unfolding signed_ok_def by blast
    with v show ?thesis by (simp add: file_ok_def AList.update_conv')
  qed
  have heads: "\<exists>name\<in>set (map fst ?dir). is_log name \<and> entry_username name = v" if h: "(v, h) \<in> set ?hs" "hd_Index h \<noteq> 0" for v h
  proof (cases "v = u")
    case True
    then show ?thesis unfolding keys_updated by (intro bexI [of _ "log_name u"]) simp_all
  next
    case False
    then have "(v, h) \<in> set hs" using update_elem [OF h(1)] by simp
    then show ?thesis using assms(1) h(2) unfolding signed_ok_def keys_updated by blast
  qed
  show ?thesis unfolding signed_ok_def using files heads by blast
qed

lemma append_line_result:
  assumes "append_line category name line st = (st', Inr ())"
  shows "st_heads st' = st_heads st \<and> st_dirs st' = (st_dirs st)(category :=
    AList.update name ((case log_file category name st of None \<Rightarrow> [] | Some ls \<Rightarrow> ls) @ [LogLine line]) (st_dirs st category))"
  using assms
  by (auto simp: append_line_def put_log_def log_file_def Let_def AList.update_last split: prod.split_asm fault.split_asm dest!: next_fault_keeps)

lemma verify_file_result:
  assumes "verifyFileLocked env category name st = (st', Inr head)"
  shows "st_heads st' = st_heads st \<and> st_dirs st' = st_dirs st \<and>
    verify_lines env 1 [] (case log_file category name st of None \<Rightarrow> [] | Some ls \<Rightarrow> ls) = Inr head"
  using assms
  by (auto simp: verifyFileLocked_def log_file_def split: prod.split_asm fault.split_asm option.split_asm option.split dest!: next_fault_keeps)

lemma read_heads_result:
  "readHeadsLocked env category st = (st', Inr hs) \<Longrightarrow>
   st_heads st' = st_heads st \<and> st_dirs st' = st_dirs st \<and> open_heads env category (st_heads st category) = Inr hs"
  by (auto simp: readHeadsLocked_def split: prod.split_asm fault.split_asm dest!: next_fault_keeps)

lemma write_heads_result:
  "writeHeadsLocked env category hs st = (st', True) \<Longrightarrow>
   st_dirs st' = st_dirs st \<and> st_heads st' = (st_heads st)(category \<mapsto> HeadsDocument (heads_document env category hs))"
  by (auto simp: writeHeadsLocked_def split: prod.split_asm fault.split_asm dest!: next_fault_keeps)

lemma append_locked_result:
  assumes "append_locked env category username payload st = (st', Inr ())"
  obtains ls head hs line where "ls = (case log_file category (log_name username) st of None \<Rightarrow> [] | Some ls \<Rightarrow> ls)"
    and "verify_lines env 1 [] ls = Inr head" and "line = next_line env head payload" and "open_heads env category (st_heads st category) = Inr hs"
    and "st_dirs st' = (st_dirs st)(category := AList.update (log_name username) (ls @ [LogLine line]) (st_dirs st category))"
    and "st_heads st' = (st_heads st)(category \<mapsto> HeadsDocument (heads_document env category
           (AList.update username \<lparr>hd_Index = ln_Index line, hd_HMAC = ln_HMAC line\<rparr> hs)))"
proof -
  obtain s1 r1 where v: "verifyFileLocked env category (log_name username) st = (s1, r1)" by (rule prod.exhaust)
  obtain head where r1: "r1 = Inr head" using assms v by (cases r1) (simp_all add: append_locked_def)
  obtain s2 r2 where rd: "readHeadsLocked env category s1 = (s2, r2)" by (rule prod.exhaust)
  obtain hs where r2: "r2 = Inr hs" using assms v r1 rd by (cases r2) (simp_all add: append_locked_def)
  let ?line = "next_line env head payload"
  obtain s3 r3 where ap: "append_line category (log_name username) ?line s2 = (s3, r3)" by (rule prod.exhaust)
  have r3: "r3 = Inr ()" using assms v r1 rd r2 ap by (cases r3) (simp_all add: append_locked_def Let_def split: if_split_asm)
  let ?hs = "AList.update username \<lparr>hd_Index = ln_Index ?line, hd_HMAC = ln_HMAC ?line\<rparr> hs"
  obtain s4 ok where wr: "writeHeadsLocked env category ?hs s3 = (s4, ok)" by (rule prod.exhaust)
  have "ok" "s4 = st'"
    using assms v r1 rd r2 ap r3 wr by (cases ok; simp add: append_locked_def Let_def split: if_split_asm)+
  note wr = wr [unfolded eqTrueI [OF \<open>ok\<close>] \<open>s4 = st'\<close>]
  note facts = verify_file_result [OF v [unfolded r1]] read_heads_result [OF rd [unfolded r2]] append_line_result [OF ap [unfolded r3]] write_heads_result [OF wr]
  then have "log_file category (log_name username) s2 = log_file category (log_name username) st" by (simp add: log_file_def)
  then show ?thesis
    by (intro that [of "case log_file category (log_name username) st of None \<Rightarrow> [] | Some ls \<Rightarrow> ls" head ?line hs]) (use facts in simp_all)
qed

text \<open>C15: an event that is appended keeps the whole log verifiable. When \<open>Append\<close> reports success on an intact log,
  whatever the coming file operations could have done, the log of the user has exactly the new payload at its
  end, every other log is as it was, and \<open>VerifyAll\<close> accepts the files again.\<close>

theorem append_extends_verified_log:
  assumes "audit_ok env st" and "\<forall>x. length (al_mac env x) = 32" and "Append env category event st = (st', Inr ())"
  shows "audit_ok env st' \<and>
    (\<exists>payload. al_event env (clean_event env event) = Some payload \<and>
       logged (toLower (trimSpace category)) (ev_ActorUsername (clean_event env event)) st' =
         logged (toLower (trimSpace category)) (ev_ActorUsername (clean_event env event)) st @ [payload]) \<and>
    (\<forall>c name. c = toLower (trimSpace category) \<and> name = log_name (ev_ActorUsername (clean_event env event)) \<or>
       log_file c name st' = log_file c name st)"
proof -
  let ?c = "toLower (trimSpace category)" and ?u = "ev_ActorUsername (clean_event env event)"
  have cat: "?c \<in> set auditCategories" using assms(3) by (simp add: Append_def Let_def split: if_split_asm)
  obtain payload where p: "al_event env (clean_event env event) = Some payload" and ap: "append_locked env ?c ?u payload st = (st', Inr ())"
    using assms(3) by (cases "al_event env (clean_event env event)") (simp_all add: Append_def Let_def split: if_split_asm)
  obtain ls head hs line where r: "ls = (case log_file ?c (log_name ?u) st of None \<Rightarrow> [] | Some ls \<Rightarrow> ls)"
      "verify_lines env 1 [] ls = Inr head" "line = next_line env head payload" "open_heads env ?c (st_heads st ?c) = Inr hs"
      "st_dirs st' = (st_dirs st)(?c := AList.update (log_name ?u) (ls @ [LogLine line]) (st_dirs st ?c))"
      "st_heads st' = (st_heads st)(?c \<mapsto> HeadsDocument (heads_document env ?c (AList.update ?u \<lparr>hd_Index = ln_Index line, hd_HMAC = ln_HMAC line\<rparr> hs)))"
    using append_locked_result [OF ap] by metis
  have plain: "\<forall>name\<in>set (map fst (st_dirs st ?c)). is_log name \<longrightarrow> name \<in> range log_name"
    using assms(1) cat unfolding audit_ok_def plain_names_def by blast
  have int: "\<forall>c\<in>set auditCategories. intact env c st" using assms(1) by (simp add: audit_ok_def verified_iff)
  then have "signed_ok env hs (st_dirs st ?c)" using cat r(4) unfolding intact_def by fastforce
  from signed_append [OF this plain r(2,3)] have "intact env ?c st'"
    using open_heads_document [OF assms(2)] by (simp add: intact_def r(5,6))
  moreover have "intact env c st'" if "c \<in> set auditCategories" "c \<noteq> ?c" for c
    using int that by (simp add: intact_def r(5,6))
  ultimately have "verified env st'" unfolding verified_iff by blast
  moreover have "plain_names st'"
    using assms(1) unfolding audit_ok_def plain_names_def r(5) by (auto simp: keys_updated simp del: set_map)
  moreover have "logged ?c ?u st' = logged ?c ?u st @ [payload]"
    by (simp add: logged_def log_file_def r(5) AList.update_conv' r(1,3) next_line_def Let_def split: option.split)
  moreover have "c = ?c \<and> name = log_name ?u \<or> log_file c name st' = log_file c name st" for c name
    by (simp add: log_file_def r(5) AList.update_conv')
  ultimately show ?thesis using p unfolding audit_ok_def by blast
qed

text \<open>C17: the log is tamper-evident. Two contents of a log that verify against the same signed head
  record the same events in the same order, or they exhibit a collision of the MAC: two different messages
  signed at some place of the two chains have the same signature.\<close>

theorem verified_log_unique:
  assumes "\<forall>x. length (al_mac env x) = 32"
    and "verify_lines env 1 [] ls = Inr head" and "verify_lines env 1 [] ls' = Inr head'" and "same_head head head'"
    and "length (payloads ls) < 2 ^ 64" and "length (payloads ls') < 2 ^ 64"
  shows "payloads ls = payloads ls' \<or>
    (\<exists>x\<in>set (chain_messages env 1 [] (payloads ls)). \<exists>y\<in>set (chain_messages env 1 [] (payloads ls')). x \<noteq> y \<and> al_mac env x = al_mac env y)"
proof -
  from verify_chain [OF assms(2)] verify_chain [OF assms(3)] assms(4)
  have len: "(of_nat (length (payloads ls)) :: 64 word) = of_nat (length (payloads ls'))"
    and mac: "chain_mac env 1 [] (payloads ls) = chain_mac env 1 [] (payloads ls')"
    by (simp_all add: same_head_def)
  from len have "length (payloads ls) = length (payloads ls')"
    using assms(5,6) by (simp add: word_of_nat_eq_iff take_bit_nat_eq_self)
  from chain_unique [OF assms(1) this refl mac] show ?thesis unfolding collision_def by blast
qed

section \<open>Renaming an account\<close>

definition heads_read :: "audit_env \<Rightarrow> string \<Rightarrow> audit_state \<Rightarrow> auditError + (string \<rightharpoonup> auditChainHead)" where
  "heads_read env category st = (case open_heads env category (st_heads st category) of Inl e \<Rightarrow> Inl e | Inr hs \<Rightarrow> Inr (map_of hs))"

text \<open>Two states in which every log and all signed heads read the same.\<close>

definition same_log :: "audit_env \<Rightarrow> audit_state \<Rightarrow> audit_state \<Rightarrow> bool" where
  "same_log env s t \<longleftrightarrow> (\<forall>c name. log_file c name s = log_file c name t) \<and> (\<forall>c. heads_read env c s = heads_read env c t)"

lemma same_log_refl [simp]: "same_log env s s"
  by (simp add: same_log_def)

lemma same_log_trans: "same_log env r s \<Longrightarrow> same_log env s t \<Longrightarrow> same_log env r t"
  by (simp add: same_log_def)

lemma same_files: "st_dirs s = st_dirs t \<Longrightarrow> st_heads s = st_heads t \<Longrightarrow> same_log env s t"
  by (simp add: same_log_def log_file_def heads_read_def)

lemma next_fault_set: "next_fault st = (st', f) \<Longrightarrow> set (st_faults st') \<subseteq> set (st_faults st) \<and> (f = Fine \<or> f \<in> set (st_faults st))"
  by (auto simp: next_fault_def split: list.split_asm)

lemma rename_log_True:
  assumes "rename_log c a b s = (s', True)"
  obtains ls where "log_file c a s = Some ls" and "st_heads s' = st_heads s"
    and "st_dirs s' = (st_dirs s)(c := AList.update b ls (AList.delete a (st_dirs s c)))" and "set (st_faults s') \<subseteq> set (st_faults s)"
proof -
  obtain t f where t: "next_fault s = (t, f)" by (rule prod.exhaust)
  note k = next_fault_keeps [OF t] next_fault_set [OF t]
  have "f = Fine" using assms t by (cases f) (simp_all add: rename_log_def split: option.split_asm)
  moreover obtain ls where ls: "log_file c a t = Some ls" using assms t \<open>f = Fine\<close> by (cases "log_file c a t") (simp_all add: rename_log_def)
  ultimately have "s' = t\<lparr>st_dirs := (st_dirs t)(c := AList.update b ls (AList.delete a (st_dirs t c)))\<rparr>"
    using assms t by (simp add: rename_log_def)
  with k ls show ?thesis by (intro that [of ls]) (simp_all add: log_file_def)
qed

lemma rename_log_False: "rename_log c a b s = (s', False) \<Longrightarrow> st_dirs s' = st_dirs s \<and> st_heads s' = st_heads s"
  by (auto simp: rename_log_def split: prod.split_asm fault.split_asm option.split_asm dest!: next_fault_keeps)

lemma write_heads_False:
  assumes "writeHeadsLocked env c hs s = (s', False)" and "Late \<notin> set (st_faults s)"
  shows "st_dirs s' = st_dirs s \<and> st_heads s' = st_heads s"
proof -
  obtain t f where t: "next_fault s = (t, f)" by (rule prod.exhaust)
  have "f \<noteq> Late" using next_fault_set [OF t] assms(2) by auto
  with assms(1) t next_fault_keeps [OF t] show ?thesis by (cases f) (auto simp: writeHeadsLocked_def)
qed

lemma write_heads_faults: "writeHeadsLocked env c hs s = (s', ok) \<Longrightarrow> set (st_faults s') \<subseteq> set (st_faults s)"
  by (auto simp: writeHeadsLocked_def split: prod.split_asm fault.split_asm dest!: next_fault_set)

text \<open>What the planning makes sure of.\<close>

definition plan_good :: "audit_env \<Rightarrow> string \<Rightarrow> renamePlan \<Rightarrow> audit_state \<Rightarrow> bool" where
  "plan_good env new p s \<longleftrightarrow> log_file (rp_category p) (log_name new) s = None \<and>
     heads_read env (rp_category p) s = Inr (map_of (rp_oldHeads p)) \<and> \<not> rp_fileMoved p \<and> \<not> rp_headsWritten p"

lemma undo_moved:
  assumes "\<forall>x. length (al_mac env x) = 32" and "plan_good env new p s"
    and "if rp_moveFile p then rename_log (rp_category p) (log_name old) (log_name new) s = (s1, True) else s1 = s"
    and "if written then writeHeadsLocked env (rp_category p) (rp_newHeads p) s1 = (s2, True) else s2 = s1"
    and "same_log env t s2"
    and "undo_plan env old new (p\<lparr>rp_fileMoved := rp_moveFile p, rp_headsWritten := written\<rparr>) t = (t', True)"
  shows "same_log env t' s"
proof -
  let ?c = "rp_category p"
  obtain t1 ok1 where w: "(if written then writeHeadsLocked env ?c (rp_oldHeads p) t else (t, True)) = (t1, ok1)" by (rule prod.exhaust)
  obtain t2 ok2 where r: "(if rp_moveFile p then rename_log ?c (log_name new) (log_name old) t1 else (t1, True)) = (t2, ok2)" by (rule prod.exhaust)
  have ok: "ok1" "ok2" "t2 = t'"
    using assms(6) w r by (cases written; cases "rp_moveFile p"; auto simp: undo_plan_def)+
  have heads1: "heads_read env c t1 = heads_read env c s" for c
  proof (cases written)
    case True
    with assms(4) w ok have "writeHeadsLocked env ?c (rp_newHeads p) s1 = (s2, True)" "writeHeadsLocked env ?c (rp_oldHeads p) t = (t1, True)" by simp_all
    note a = write_heads_result [OF this(1)] and b = write_heads_result [OF this(2)]
    have s1: "st_heads s1 = st_heads s" using assms(3) by (cases "rp_moveFile p") (auto elim!: rename_log_True)
    show ?thesis
    proof (cases "c = ?c")
      case True
      then show ?thesis using b assms(2) open_heads_document [OF assms(1)] by (simp add: heads_read_def plan_good_def)
    next
      case False
      then have "heads_read env c t1 = heads_read env c t" "heads_read env c s2 = heads_read env c s"
        using a b s1 by (simp_all add: heads_read_def)
      then show ?thesis using assms(5) by (simp add: same_log_def)
    qed
  next
    case False
    with assms(3-5) w show ?thesis by (cases "rp_moveFile p") (auto simp: same_log_def heads_read_def elim!: rename_log_True)
  qed
  have dirs1: "st_dirs t1 = st_dirs t" "st_dirs s2 = st_dirs s1"
    using w ok(1) assms(4) write_heads_result by (cases written; auto)+
  have files: "log_file c name t2 = log_file c name s" for c name
  proof (cases "rp_moveFile p")
    case True
    with assms(3) obtain ls where ls: "log_file ?c (log_name old) s = Some ls"
        "st_dirs s1 = (st_dirs s)(?c := AList.update (log_name new) ls (AList.delete (log_name old) (st_dirs s ?c)))"
      by (auto elim!: rename_log_True)
    from True r ok obtain ls' where ls': "log_file ?c (log_name new) t1 = Some ls'"
        "st_dirs t2 = (st_dirs t1)(?c := AList.update (log_name old) ls' (AList.delete (log_name new) (st_dirs t1 ?c)))"
      by (auto elim!: rename_log_True)
    have same: "map_of (st_dirs t1 c) = map_of (st_dirs s1 c)" for c
      using assms(5) dirs1 by (auto simp: same_log_def log_file_def)
    have "ls' = ls" using ls'(1) ls(2) same [of ?c] by (simp add: log_file_def AList.update_conv')
    moreover have "new \<noteq> old" using assms(2) ls(1) by (auto simp: plan_good_def)
    ultimately show ?thesis using ls ls'(2) same assms(2)
      by (auto simp: log_file_def AList.update_conv' AList.delete_conv' plan_good_def)
  next
    case False
    with r assms(3,5) dirs1 show ?thesis by (auto simp: same_log_def log_file_def)
  qed
  have "st_heads t2 = st_heads t1" using r ok(2) by (cases "rp_moveFile p") (auto elim!: rename_log_True)
  then have "heads_read env c t2 = heads_read env c s" for c using heads1 by (simp add: heads_read_def)
  with files ok(3) show ?thesis by (simp add: same_log_def)
qed

text \<open>\<open>undoes\<close>: rolling back what was carried out leads back to the state before, from everything that reads the same.\<close>

definition undoes :: "audit_env \<Rightarrow> string \<Rightarrow> string \<Rightarrow> renamePlan list \<Rightarrow> audit_state \<Rightarrow> audit_state \<Rightarrow> bool" where
  "undoes env old new carried s st0 \<longleftrightarrow>
     (\<forall>t t'. same_log env t s \<longrightarrow> rollback env old new carried t = (t', True) \<longrightarrow> same_log env t' st0)"

lemma undoes_Nil: "same_log env s st0 \<Longrightarrow> undoes env old new [] s st0"
  unfolding undoes_def using same_log_trans by auto

lemma undoes_Cons:
  assumes "\<And>t t'. same_log env t s2 \<Longrightarrow> undo_plan env old new p t = (t', True) \<Longrightarrow> same_log env t' s" and "undoes env old new carried s st0"
  shows "undoes env old new (p # carried) s2 st0"
  unfolding undoes_def
proof (intro allI impI)
  fix t t'
  assume t: "same_log env t s2" "rollback env old new (p # carried) t = (t', True)"
  obtain t1 ok where u: "undo_plan env old new p t = (t1, ok)" by (rule prod.exhaust)
  with t(2) have "ok" "rollback env old new carried t1 = (t', True)" by (auto split: prod.split_asm)
  have "same_log env t1 s" by (rule assms(1) [OF t(1)]) (use u \<open>ok\<close> in simp)
  then show "same_log env t' st0" using assms(2) \<open>rollback env old new carried t1 = (t', True)\<close> unfolding undoes_def by blast
qed

lemma rolled_back_same:
  assumes "rolled_back env old new carried e s = (s', Inl e')" and "e' \<noteq> RollbackFailed" and "undoes env old new carried s st0"
  shows "same_log env s' st0"
proof -
  obtain t ok where r: "rollback env old new carried s = (t, ok)" by (rule prod.exhaust)
  with assms(1,2) have "ok" "t = s'" by (auto simp: rolled_back_def split: if_split_asm)
  with r assms(3) show ?thesis unfolding undoes_def by (metis same_log_refl)
qed

lemma undoes_same: "undoes env old new carried s st0 \<Longrightarrow> same_log env s1 s \<Longrightarrow> undoes env old new carried s1 st0"
  unfolding undoes_def using same_log_trans by blast

lemma plan_good_local:
  "plan_good env new p s \<Longrightarrow> st_dirs t (rp_category p) = st_dirs s (rp_category p) \<Longrightarrow> st_heads t (rp_category p) = st_heads s (rp_category p) \<Longrightarrow>
   plan_good env new p t"
  by (simp add: plan_good_def log_file_def heads_read_def)

text \<open>One plan is carried out, in both of its steps.\<close>

lemma move_step:
  assumes "(if rp_moveFile p then rename_log (rp_category p) a b s else (s, True)) = (s1, ok)"
  shows "(ok \<longrightarrow> (if rp_moveFile p then rename_log (rp_category p) a b s = (s1, True) else s1 = s)) \<and>
    (\<not> ok \<longrightarrow> st_dirs s1 = st_dirs s) \<and> st_heads s1 = st_heads s \<and> (\<forall>c. c \<noteq> rp_category p \<longrightarrow> st_dirs s1 c = st_dirs s c)"
proof (cases "rp_moveFile p")
  case True
  note r = assms [unfolded if_P [OF True]]
  show ?thesis
  proof (cases ok)
    case True
    with r have "rename_log (rp_category p) a b s = (s1, True)" by simp
    with True \<open>rp_moveFile p\<close> show ?thesis by (auto elim!: rename_log_True)
  next
    case False
    with r rename_log_False show ?thesis by auto
  qed
qed (use assms in auto)

lemma rename_log_faults: "rename_log c a b s = (s', ok) \<Longrightarrow> set (st_faults s') \<subseteq> set (st_faults s)"
proof -
  assume r: "rename_log c a b s = (s', ok)"
  obtain t f where t: "next_fault s = (t, f)" by (rule prod.exhaust)
  with r have "st_faults s' = st_faults t" by (auto simp: rename_log_def split: fault.split_asm option.split_asm)
  with next_fault_set [OF t] show ?thesis by simp
qed

lemma run_plans_undone:
  assumes "\<forall>x. length (al_mac env x) = 32" and "run_plans env old new carried plans s = (s', Inl e)" and "e \<noteq> RollbackFailed"
    and "Late \<notin> set (st_faults s)" and "distinct (map rp_category plans)" and "\<forall>p\<in>set plans. plan_good env new p s"
    and "undoes env old new carried s st0"
  shows "same_log env s' st0"
  using assms(2,4-7)
proof (induction plans arbitrary: carried s)
  case Nil
  then show ?case by simp
next
  case (Cons p plans)
  let ?c = "rp_category p" and ?p = "p\<lparr>rp_fileMoved := rp_moveFile p\<rparr>"
  have good: "plan_good env new p s" using Cons.prems(4) by simp
  obtain s1 ok where m: "(if rp_moveFile p then rename_log ?c (log_name old) (log_name new) s else (s, True)) = (s1, ok)" by (rule prod.exhaust)
  note ms = move_step [OF m]
  have f1: "Late \<notin> set (st_faults s1)" using m Cons.prems(2) rename_log_faults [of ?c "log_name old" "log_name new" s s1 ok] by (cases "rp_moveFile p") auto
  show ?case
  proof (cases ok)
    case False
    with m Cons.prems(1) have rb: "rolled_back env old new carried (AuditError ''rename audit log'') s1 = (s', Inl e)" by simp
    with rolled_back_same [OF rb assms(3) undoes_same [OF Cons.prems(5) same_files]] ms False show ?thesis by simp
  next
    case True
    have unwritten: "?p = p\<lparr>rp_fileMoved := rp_moveFile p, rp_headsWritten := False\<rparr>" using good by (cases p) (simp add: plan_good_def)
    have mv: "if rp_moveFile p then rename_log ?c (log_name old) (log_name new) s = (s1, True) else s1 = s" using ms True by blast
    have undo1: "undoes env old new (?p # carried) s2 st0" if "same_log env s2 s1" for s2
    proof (rule undoes_Cons [OF _ Cons.prems(5)])
      fix t t' assume t: "same_log env t s2" "undo_plan env old new ?p t = (t', True)"
      show "same_log env t' s"
      proof (rule undo_moved [OF assms(1) good mv])
        show "if False then writeHeadsLocked env ?c (rp_newHeads p) s1 = (s1, True) else s1 = s1" by simp
        show "same_log env t s1" by (rule same_log_trans [OF t(1) that])
        show "undo_plan env old new (p\<lparr>rp_fileMoved := rp_moveFile p, rp_headsWritten := False\<rparr>) t = (t', True)"
          using t(2) by (simp only: unwritten [symmetric])
      qed
    qed
    have later: "plan_good env new q s2" if "q \<in> set plans" "\<And>c. c \<noteq> ?c \<Longrightarrow> st_dirs s2 c = st_dirs s1 c \<and> st_heads s2 c = st_heads s1 c" for q s2
    proof (rule plan_good_local)
      show "plan_good env new q s" using Cons.prems(4) that(1) by simp
      have "rp_category q \<in> rp_category ` set plans" using that(1) by blast
      then have "rp_category q \<noteq> ?c" using Cons.prems(3) by auto
      then show "st_dirs s2 (rp_category q) = st_dirs s (rp_category q)" "st_heads s2 (rp_category q) = st_heads s (rp_category q)"
        using ms that(2) by simp_all
    qed
    show ?thesis
    proof (cases "rp_newHeads p = [] \<and> rp_oldHeads p = []")
      case none: True
      with m True Cons.prems(1) have "run_plans env old new (?p # carried) plans s1 = (s', Inl e)" by (simp add: Let_def)
      from Cons.IH [OF this f1 _ _ undo1 [OF same_log_refl]] Cons.prems(3) later show ?thesis by simp
    next
      case False
      obtain s2 w where wr: "writeHeadsLocked env ?c (rp_newHeads p) s1 = (s2, w)" by (rule prod.exhaust)
      show ?thesis
      proof (cases w)
        case False
        with m True \<open>\<not> (rp_newHeads p = [] \<and> rp_oldHeads p = [])\<close> wr Cons.prems(1)
        have rb: "rolled_back env old new (?p # carried) (AuditError ''write audit integrity signature'') s2 = (s', Inl e)"
          by (auto simp: Let_def split: if_split_asm)
        have "same_log env s2 s1" using write_heads_False [OF _ f1] wr False by (intro same_files) auto
        from rolled_back_same [OF rb assms(3) undo1 [OF this]] show ?thesis .
      next
        case written: True
        with m True False wr Cons.prems(1) have run: "run_plans env old new (?p\<lparr>rp_headsWritten := True\<rparr> # carried) plans s2 = (s', Inl e)"
          by (auto simp: Let_def split: if_split_asm)
        note h = write_heads_result [OF wr [unfolded eqTrueI [OF written]]]
        have f2: "Late \<notin> set (st_faults s2)" using f1 write_heads_faults [OF wr] by blast
        have undo2: "undoes env old new (?p\<lparr>rp_headsWritten := True\<rparr> # carried) s2 st0"
        proof (rule undoes_Cons [OF _ Cons.prems(5)])
          fix t t' assume t: "same_log env t s2" "undo_plan env old new (?p\<lparr>rp_headsWritten := True\<rparr>) t = (t', True)"
          show "same_log env t' s"
          proof (rule undo_moved [OF assms(1) good mv _ t(1)])
            show "if True then writeHeadsLocked env ?c (rp_newHeads p) s1 = (s2, True) else s2 = s1" using wr written by simp
            show "undo_plan env old new (p\<lparr>rp_fileMoved := rp_moveFile p, rp_headsWritten := True\<rparr>) t = (t', True)" using t(2) .
          qed
        qed
        from Cons.IH [OF run f2 _ _ undo2] Cons.prems(3) later h show ?thesis by simp
      qed
    qed
  qed
qed

text \<open>Planning only reads.\<close>

definition only_read :: "audit_state \<Rightarrow> audit_state \<Rightarrow> bool" where
  "only_read s s' \<longleftrightarrow> set (st_faults s') \<subseteq> set (st_faults s) \<and> st_dirs s' = st_dirs s \<and> st_heads s' = st_heads s"

lemma only_read_refl [simp]: "only_read s s"
  by (simp add: only_read_def)

lemma only_read_trans: "only_read r s \<Longrightarrow> only_read s t \<Longrightarrow> only_read r t"
  by (auto simp: only_read_def)

lemma only_read_fault: "next_fault s = (s', f) \<Longrightarrow> only_read s s'"
  using next_fault_set next_fault_keeps unfolding only_read_def by blast

lemma only_read_heads: "readHeadsLocked env c s = (s', r) \<Longrightarrow> only_read s s'"
  by (auto simp: readHeadsLocked_def split: prod.split_asm fault.split_asm dest: only_read_fault)

lemma only_read_file: "verifyFileLocked env c name s = (s', r) \<Longrightarrow> only_read s s'"
  by (auto simp: verifyFileLocked_def split: prod.split_asm fault.split_asm dest: only_read_fault)

lemma only_read_plan:
  assumes "plan_category env old new c s = (s', r)"
  shows "only_read s s'"
proof -
  obtain s1 f1 where f1: "next_fault s = (s1, f1)" by (rule prod.exhaust)
  obtain s2 f2 where f2: "next_fault s1 = (s2, f2)" by (rule prod.exhaust)
  obtain s3 r3 where r3: "readHeadsLocked env c s2 = (s3, r3)" by (rule prod.exhaust)
  obtain s4 r4 where r4: "verifyFileLocked env c (log_name old) s3 = (s4, r4)" by (rule prod.exhaust)
  have o: "only_read s s1" "only_read s s2" "only_read s s3" "only_read s s4"
    using only_read_fault [OF f1] only_read_fault [OF f2] only_read_heads [OF r3] only_read_file [OF r4] only_read_trans by blast+
  from assms f1 f2 r3 r4 have "s' \<in> {s1, s2, s3, s4}"
    by (auto simp: plan_category_def Let_def split: fault.split_asm sum.split_asm option.split_asm if_split_asm)
  with o show ?thesis by blast
qed

text \<open>What a plan says of the files and heads as they were.\<close>

definition plan_fits :: "audit_env \<Rightarrow> string \<Rightarrow> string \<Rightarrow> renamePlan \<Rightarrow> audit_state \<Rightarrow> bool" where
  "plan_fits env old new p s \<longleftrightarrow>
     (let c = rp_category p; hs = rp_oldHeads p
      in open_heads env c (st_heads s c) = Inr hs \<and> map_of hs new = None \<and> log_file c (log_name new) s = None \<and>
         (if rp_moveFile p
          then \<exists>head. map_of hs old = Some head \<and> log_file c (log_name old) s \<noteq> None \<and> rp_newHeads p = AList.update new head (AList.delete old hs)
          else map_of hs old = None \<and> log_file c (log_name old) s = None \<and> rp_newHeads p = hs))"

lemma plan_category_fits:
  assumes "plan_category env old new c s = (s', Inr p)"
  shows "rp_category p = c \<and> plan_good env new p s \<and> plan_fits env old new p s"
proof -
  obtain s1 f1 where f1: "next_fault s = (s1, f1)" by (rule prod.exhaust)
  obtain s2 f2 where f2: "next_fault s1 = (s2, f2)" by (rule prod.exhaust)
  obtain s3 r3 where r3: "readHeadsLocked env c s2 = (s3, r3)" by (rule prod.exhaust)
  obtain s4 r4 where r4: "verifyFileLocked env c (log_name old) s3 = (s4, r4)" by (rule prod.exhaust)
  have fine: "f1 = Fine" "f2 = Fine" using assms f1 f2 by (cases f1; cases f2; simp add: plan_category_def Let_def)+
  have keep: "st_dirs s1 = st_dirs s" "st_dirs s2 = st_dirs s" "st_heads s2 = st_heads s"
    using next_fault_keeps [OF f1] next_fault_keeps [OF f2] by simp_all
  have absent: "log_file c (log_name new) s = None"
    using assms f1 f2 fine keep by (auto simp: plan_category_def Let_def log_file_def split: if_split_asm)
  obtain hs where hs: "r3 = Inr hs"
    using assms f1 f2 fine r3 by (cases r3) (simp_all add: plan_category_def Let_def split: if_split_asm)
  have heads: "open_heads env c (st_heads s c) = Inr hs" using read_heads_result [OF r3 [unfolded hs]] keep by simp
  have nohead: "map_of hs new = None" and agree: "log_file c (log_name old) s = None \<longleftrightarrow> map_of hs old = None"
    using assms f1 f2 fine r3 hs keep by (auto simp: plan_category_def Let_def log_file_def split: if_split_asm option.split_asm)
  show ?thesis
  proof (cases "map_of hs old")
    case None
    with assms f1 f2 fine r3 hs have "p = \<lparr>rp_category = c, rp_oldHeads = hs, rp_newHeads = hs, rp_moveFile = False, rp_fileMoved = False, rp_headsWritten = False\<rparr>"
      by (auto simp: plan_category_def Let_def split: if_split_asm)
    with heads nohead absent agree None show ?thesis by (simp add: plan_good_def plan_fits_def heads_read_def)
  next
    case (Some head)
    obtain v where "r4 = Inr v" using assms f1 f2 fine r3 hs Some r4 by (cases r4) (simp_all add: plan_category_def Let_def split: if_split_asm)
    with assms f1 f2 fine r3 hs Some r4 have "p = \<lparr>rp_category = c, rp_oldHeads = hs, rp_newHeads = AList.update new head (AList.delete old hs),
        rp_moveFile = True, rp_fileMoved = False, rp_headsWritten = False\<rparr>"
      by (auto simp: plan_category_def Let_def split: if_split_asm)
    with heads nohead absent agree Some show ?thesis by (simp add: plan_good_def plan_fits_def heads_read_def)
  qed
qed

lemma plan_rename_fits:
  "plan_rename env old new cats s = (s', r) \<Longrightarrow>
   only_read s s' \<and> (\<forall>plans. r = Inr plans \<longrightarrow> map rp_category plans = cats \<and> (\<forall>p\<in>set plans. plan_good env new p s \<and> plan_fits env old new p s))"
proof (induction cats arbitrary: s s' r)
  case (Cons c cats)
  obtain s1 r1 where one: "plan_category env old new c s = (s1, r1)" by (rule prod.exhaust)
  obtain s2 r2 where rest: "plan_rename env old new cats s1 = (s2, r2)" by (rule prod.exhaust)
  have o: "only_read s s1" by (rule only_read_plan [OF one])
  note ih = Cons.IH [OF rest]
  show ?case
  proof (cases r1)
    case (Inl e)
    with Cons.prems one o show ?thesis by auto
  next
    case (Inr p)
    note fits = plan_category_fits [OF one [unfolded Inr]]
    have kept: "plan_good env new q s1 = plan_good env new q s" "plan_fits env old new q s1 = plan_fits env old new q s" for q
      using o by (simp_all add: only_read_def plan_good_def plan_fits_def log_file_def heads_read_def)
    show ?thesis
    proof (cases r2)
      case (Inl e)
      with Cons.prems one Inr rest ih o only_read_trans show ?thesis by auto
    next
      case (Inr ps)
      with Cons.prems one \<open>r1 = Inr p\<close> rest have "s' = s2" "r = Inr (p # ps)" by auto
      with ih Inr fits kept only_read_trans [OF o] show ?thesis by auto
    qed
  qed
qed simp

lemma categories_distinct: "distinct auditCategories"
  by (simp add: auditCategories_def)

text \<open>C16: a failed rename leaves nothing behind. If \<open>RenameAccount\<close> reports an error other than a failed rollback, and no
  operation failed after it had taken effect, then every log and all signed heads read as before.\<close>

theorem failed_rename_undone:
  assumes "RenameAccount env old new st = (st', Inl e)" and "e \<noteq> RollbackFailed" and "Late \<notin> set (st_faults st)"
    and "\<forall>x. length (al_mac env x) = 32"
  shows "(\<forall>c name. log_file c name st' = log_file c name st) \<and> (\<forall>c. heads_read env c st' = heads_read env c st)"
proof -
  obtain s r where plan: "plan_rename env old new auditCategories st = (s, r)" by (rule prod.exhaust)
  note fits = plan_rename_fits [OF plan]
  have same: "same_log env s st" using fits unfolding only_read_def by (intro same_files) simp_all
  have "same_log env st' st"
  proof (cases r)
    case (Inl e')
    with assms(1) plan same show ?thesis by (auto simp: RenameAccount_def split: if_split_asm)
  next
    case (Inr plans)
    have good: "\<forall>p\<in>set plans. plan_good env new p s"
      using fits Inr same by (auto simp: plan_good_def same_log_def)
    have late: "Late \<notin> set (st_faults s)" using fits assms(3) unfolding only_read_def by blast
    show ?thesis
    proof (cases "validUsername old \<and> validUsername new")
      case True
      with assms(1) plan Inr have run: "run_plans env old new [] plans s = (st', Inl e)" by (simp add: RenameAccount_def)
      show ?thesis
        by (rule run_plans_undone [OF assms(4) run assms(2) late _ good undoes_Nil [OF same]]) (use fits Inr categories_distinct in simp)
    next
      case False
      with assms(1) show ?thesis by (auto simp: RenameAccount_def)
    qed
  qed
  then show ?thesis by (simp add: same_log_def)
qed

text \<open>The state of one category after its plan was carried out.\<close>

definition carried_out :: "audit_env \<Rightarrow> string \<Rightarrow> string \<Rightarrow> renamePlan \<Rightarrow> audit_state \<Rightarrow> audit_state \<Rightarrow> bool" where
  "carried_out env old new p s s' \<longleftrightarrow>
     (let c = rp_category p
      in (if rp_moveFile p
          then \<exists>ls. log_file c (log_name old) s = Some ls \<and>
                    st_dirs s' c = AList.update (log_name new) ls (AList.delete (log_name old) (st_dirs s c))
          else st_dirs s' c = st_dirs s c) \<and>
         (if rp_newHeads p = [] \<and> rp_oldHeads p = [] then st_heads s' c = st_heads s c
          else st_heads s' c = Some (HeadsDocument (heads_document env c (rp_newHeads p)))))"

lemma carried_out_local:
  "st_dirs t (rp_category p) = st_dirs s (rp_category p) \<Longrightarrow> st_heads t (rp_category p) = st_heads s (rp_category p) \<Longrightarrow>
   carried_out env old new p t s' = carried_out env old new p s s'"
  "st_dirs t' (rp_category p) = st_dirs s' (rp_category p) \<Longrightarrow> st_heads t' (rp_category p) = st_heads s' (rp_category p) \<Longrightarrow>
   carried_out env old new p s t' = carried_out env old new p s s'"
  by (simp_all add: carried_out_def log_file_def)

lemma rolled_back_fails: "rolled_back env old new carried e s \<noteq> (s', Inr u)"
  by (simp add: rolled_back_def split: prod.split)

lemma run_plans_done:
  assumes "run_plans env old new carried plans s = (s', Inr ())" and "distinct (map rp_category plans)"
  shows "(\<forall>p\<in>set plans. carried_out env old new p s s') \<and>
    (\<forall>c. c \<notin> rp_category ` set plans \<longrightarrow> st_dirs s' c = st_dirs s c \<and> st_heads s' c = st_heads s c)"
  using assms
proof (induction plans arbitrary: carried s)
  case Nil
  then show ?case by simp
next
  case (Cons p plans)
  let ?c = "rp_category p" and ?p = "p\<lparr>rp_fileMoved := rp_moveFile p\<rparr>"
  obtain s1 ok where m: "(if rp_moveFile p then rename_log ?c (log_name old) (log_name new) s else (s, True)) = (s1, ok)" by (rule prod.exhaust)
  note ms = move_step [OF m]
  have ok: "ok" using m Cons.prems(1) by (cases ok) (auto simp: rolled_back_fails)
  have out: "\<exists>carried' s2. run_plans env old new carried' plans s2 = (s', Inr ()) \<and> st_dirs s2 = st_dirs s1 \<and>
      st_heads s2 = (if rp_newHeads p = [] \<and> rp_oldHeads p = [] then st_heads s1
                     else (st_heads s1)(?c \<mapsto> HeadsDocument (heads_document env ?c (rp_newHeads p))))"
  proof (cases "rp_newHeads p = [] \<and> rp_oldHeads p = []")
    case True
    with m ok Cons.prems(1) have "run_plans env old new (?p # carried) plans s1 = (s', Inr ())" by (simp add: Let_def)
    with True show ?thesis by auto
  next
    case False
    obtain s2 w where wr: "writeHeadsLocked env ?c (rp_newHeads p) s1 = (s2, w)" by (rule prod.exhaust)
    have w: "w" "run_plans env old new (?p\<lparr>rp_headsWritten := True\<rparr> # carried) plans s2 = (s', Inr ())"
      using m ok False wr Cons.prems(1) by (cases w; auto simp: Let_def rolled_back_fails split: if_split_asm)+
    note write_heads_result [OF wr [unfolded eqTrueI [OF w(1)]]]
    with w(2) False show ?thesis by auto
  qed
  then obtain carried' s2 where run: "run_plans env old new carried' plans s2 = (s', Inr ())" and d: "st_dirs s2 = st_dirs s1"
    and h: "st_heads s2 = (if rp_newHeads p = [] \<and> rp_oldHeads p = [] then st_heads s1
                     else (st_heads s1)(?c \<mapsto> HeadsDocument (heads_document env ?c (rp_newHeads p))))" by blast
  have new: "?c \<notin> rp_category ` set plans" using Cons.prems(2) by simp
  note ih = Cons.IH [OF run] 
  have ih: "\<forall>q\<in>set plans. carried_out env old new q s2 s'" "\<And>c. c \<notin> rp_category ` set plans \<Longrightarrow> st_dirs s' c = st_dirs s2 c \<and> st_heads s' c = st_heads s2 c"
    using ih Cons.prems(2) by simp_all
  have step: "carried_out env old new p s s2"
  proof (cases "rp_moveFile p")
    case True
    with ms ok obtain ls where "log_file ?c (log_name old) s = Some ls" "st_heads s1 = st_heads s"
      "st_dirs s1 = (st_dirs s)(?c := AList.update (log_name new) ls (AList.delete (log_name old) (st_dirs s ?c)))"
      by (auto elim!: rename_log_True)
    with True d h show ?thesis by (auto simp: carried_out_def Let_def)
  next
    case False
    with ms ok d h show ?thesis by (auto simp: carried_out_def Let_def)
  qed
  have first: "carried_out env old new p s s'" using step ih(2) [OF new] carried_out_local(2) [of s' p s2] by simp
  have rest: "carried_out env old new q s s'" if "q \<in> set plans" for q
  proof -
    have "rp_category q \<in> rp_category ` set plans" using that by blast
    then have "rp_category q \<noteq> ?c" using new by auto
    then have "st_dirs s2 (rp_category q) = st_dirs s (rp_category q)" "st_heads s2 (rp_category q) = st_heads s (rp_category q)"
      using ms d h by simp_all
    from carried_out_local(1) [OF this] ih(1) that show ?thesis by blast
  qed
  have other: "st_dirs s' c = st_dirs s c \<and> st_heads s' c = st_heads s c" if "c \<notin> rp_category ` set (p # plans)" for c
    using ih(2) [of c] that ms d h by simp
  show ?case using first rest other by simp
qed

lemma delete_elem: "x \<in> set (AList.delete k al) \<longleftrightarrow> x \<in> set al \<and> fst x \<noteq> k"
  by (auto simp: AList.delete_eq)

lemma signed_renamed:
  assumes "signed_ok env hs dir" and "\<forall>name\<in>set (map fst dir). is_log name \<longrightarrow> name \<in> range log_name"
    and "map_of hs old = Some head" and "map_of dir (log_name old) = Some ls" and "map_of hs new = None" and "map_of dir (log_name new) = None"
  shows "signed_ok env (AList.update new head (AList.delete old hs)) (AList.update (log_name new) ls (AList.delete (log_name old) dir))"
proof -
  let ?hs = "AList.update new head (AList.delete old hs)" and ?dir = "AList.update (log_name new) ls (AList.delete (log_name old) dir)"
  have names: "name \<in> set (map fst ?dir) \<longleftrightarrow> name = log_name new \<or> name \<in> set (map fst dir) \<and> name \<noteq> log_name old" for name
    unfolding keys_updated by (auto simp: delete_elem)
  have files: "file_ok env ?hs (map_of ?dir) name" if n: "name \<in> set (map fst ?dir)" "is_log name" for name
  proof (cases "name = log_name new")
    case True
    have "log_name old \<in> set (map fst dir)" using assms(4) by (force dest: map_of_SomeD)
    then have "file_ok env hs (map_of dir) (log_name old)" using assms(1) log_is_log unfolding signed_ok_def by blast
    with True assms(3,4) show ?thesis by (simp add: file_ok_def AList.update_conv')
  next
    case False
    then have old: "name \<in> set (map fst dir)" "name \<noteq> log_name old" using n(1) unfolding names by simp_all
    then obtain v where v: "name = log_name v" "v \<noteq> new" "v \<noteq> old" using assms(2) n(2) False by blast
    have "file_ok env hs (map_of dir) name" using assms(1) old(1) n(2) unfolding signed_ok_def by blast
    with v show ?thesis by (simp add: file_ok_def AList.update_conv' AList.delete_conv')
  qed
  have heads: "\<exists>name\<in>set (map fst ?dir). is_log name \<and> entry_username name = v" if h: "(v, h) \<in> set ?hs" "hd_Index h \<noteq> 0" for v h
  proof (cases "v = new")
    case True
    then show ?thesis by (intro bexI [of _ "log_name new"]) (simp, simp add: names del: set_map)
  next
    case False
    then have old: "(v, h) \<in> set hs" "v \<noteq> old" using update_elem [OF h(1)] by (simp_all add: delete_elem)
    then obtain name where n: "name \<in> set (map fst dir)" "is_log name" "entry_username name = v"
      using assms(1) h(2) unfolding signed_ok_def by blast
    then have "name = log_name v" using assms(2) by force
    with n old(2) have "name \<in> set (map fst ?dir)" unfolding names by simp
    with n(2,3) show ?thesis by blast
  qed
  show ?thesis unfolding signed_ok_def using files heads by blast
qed

text \<open>C22: a rename keeps the log verifiable. After \<open>RenameAccount\<close> succeeded on an intact log, in every category the
  log of the new name is the log of the old one, the other logs are as they were, and \<open>VerifyAll\<close> accepts the files.\<close>

theorem rename_keeps_verified:
  assumes "audit_ok env st" and "\<forall>x. length (al_mac env x) = 32" and "RenameAccount env old new st = (st', Inr ())" and "c \<in> set auditCategories"
  shows "audit_ok env st' \<and> logged c new st' = logged c old st \<and>
    (\<forall>u. u \<noteq> old \<longrightarrow> u \<noteq> new \<longrightarrow> logged c u st' = logged c u st)"
proof -
  obtain s r where plan: "plan_rename env old new auditCategories st = (s, r)" by (rule prod.exhaust)
  note fits = plan_rename_fits [OF plan]
  obtain plans where r: "r = Inr plans" and run: "run_plans env old new [] plans s = (st', Inr ())"
    using assms(3) plan by (cases r) (auto simp: RenameAccount_def split: if_split_asm)
  have cats: "map rp_category plans = auditCategories" and keep: "st_dirs s = st_dirs st" "st_heads s = st_heads st"
    and pf: "\<forall>p\<in>set plans. plan_fits env old new p st" using fits r unfolding only_read_def by blast+
  have carried: "\<forall>p\<in>set plans. carried_out env old new p st st'"
    using run_plans_done [OF run] cats categories_distinct carried_out_local(1) [of s _ st] keep by simp
  have each: "intact env c st' \<and> (\<forall>name\<in>set (map fst (st_dirs st' c)). is_log name \<longrightarrow> name \<in> range log_name) \<and>
      logged c new st' = logged c old st \<and> (\<forall>u. u \<noteq> old \<longrightarrow> u \<noteq> new \<longrightarrow> logged c u st' = logged c u st)"
    if c: "c \<in> set auditCategories" for c
  proof -
    have "c \<in> rp_category ` set plans" using c cats by (metis set_map)
    then obtain p where p: "p \<in> set plans" "rp_category p = c" by blast
    let ?hs = "rp_oldHeads p"
    note pf = pf [THEN bspec, OF p(1), unfolded plan_fits_def Let_def p(2)]
    note carried = carried [THEN bspec, OF p(1), unfolded carried_out_def Let_def p(2)]
    have plain: "\<forall>name\<in>set (map fst (st_dirs st c)). is_log name \<longrightarrow> name \<in> range log_name"
      using assms(1) c unfolding audit_ok_def plain_names_def by blast
    have f: "open_heads env c (st_heads st c) = Inr ?hs" "map_of ?hs new = None" "log_file c (log_name new) st = None"
      using pf by simp_all
    have "intact env c st" using assms(1) c by (simp add: audit_ok_def verified_iff)
    then have signed: "signed_ok env ?hs (st_dirs st c)" using f(1) unfolding intact_def by simp
    show ?thesis
    proof (cases "rp_moveFile p")
      case True
      then obtain head where head: "map_of ?hs old = Some head" "rp_newHeads p = AList.update new head (AList.delete old ?hs)"
        using pf by auto
      obtain ls where ls: "log_file c (log_name old) st = Some ls"
          "st_dirs st' c = AList.update (log_name new) ls (AList.delete (log_name old) (st_dirs st c))"
        using carried True by auto
      have "st_heads st' c = Some (HeadsDocument (heads_document env c (rp_newHeads p)))"
        using carried head by simp
      then have "open_heads env c (st_heads st' c) = Inr (rp_newHeads p)" using open_heads_document [OF assms(2)] by simp
      moreover have "signed_ok env (rp_newHeads p) (st_dirs st' c)"
        unfolding head(2) ls(2) by (rule signed_renamed [OF signed plain head(1) _ f(2)]) (use ls(1) f(3) in \<open>simp_all add: log_file_def\<close>)
      ultimately have "intact env c st'" unfolding intact_def by blast
      moreover have "\<forall>name\<in>set (map fst (st_dirs st' c)). is_log name \<longrightarrow> name \<in> range log_name"
        using plain unfolding ls(2) keys_updated by (auto simp: delete_elem simp del: set_map) (auto simp: delete_elem)
      moreover have "logged c new st' = logged c old st" "\<forall>u. u \<noteq> old \<longrightarrow> u \<noteq> new \<longrightarrow> logged c u st' = logged c u st"
        using ls by (simp_all add: logged_def log_file_def AList.update_conv' AList.delete_conv')
      ultimately show ?thesis by blast
    next
      case False
      then have same: "st_dirs st' c = st_dirs st c" "rp_newHeads p = ?hs" and none: "log_file c (log_name old) st = None"
        using carried pf by simp_all
      have "open_heads env c (st_heads st' c) = Inr ?hs"
        using carried f(1) same(2) open_heads_document [OF assms(2)] by (auto split: if_split_asm)
      with signed same plain f(3) none show ?thesis by (auto simp: intact_def logged_def log_file_def)
    qed
  qed
  have "audit_ok env st'" unfolding audit_ok_def verified_iff plain_names_def using each by blast
  with each [OF assms(4)] show ?thesis by blast
qed

section \<open>Witnesses\<close>

text \<open>A log with one event of the user \<open>ops\<close>; the MAC of the example keeps the last bytes of its message.\<close>

definition sample_audit :: audit_env where
  "sample_audit = \<lparr>al_mac = (\<lambda>x. take 32 (rev x @ replicate 32 0)), al_event = (\<lambda>event. Some (ev_Event event)), al_heads = (\<lambda>key category hs. []), al_now = 5\<rparr>"

definition no_head :: auditChainHead where
  "no_head = \<lparr>hd_Index = 0, hd_HMAC = []\<rparr>"

definition first_line :: auditLine where
  "first_line = next_line sample_audit no_head ''LOGIN''"

definition first_head :: auditChainHead where
  "first_head = \<lparr>hd_Index = ln_Index first_line, hd_HMAC = ln_HMAC first_line\<rparr>"

definition sample_log :: audit_state where
  "sample_log = \<lparr>st_dirs = (\<lambda>c. [])(''access'' := [(log_name ''ops'', [LogLine first_line])]),
     st_heads = (\<lambda>c. None)(''access'' \<mapsto> HeadsDocument (heads_document sample_audit ''access'' [(''ops'', first_head)])), st_faults = []\<rparr>"

definition sample_logout :: auditEvent where
  "sample_logout = \<lparr>ev_Timestamp = 0, ev_Event = ''logout'', ev_ActorID = ''u1'', ev_ActorUsername = '' ops'', ev_SessionID = [], ev_IP = [], ev_UserAgent = [],
     ev_Severity = [], ev_Details = []\<rparr>"

lemma sample_mac: "\<forall>x. length (al_mac sample_audit x) = 32"
  by (simp add: sample_audit_def min_def)

lemma sample_fields: "al_event sample_audit event = Some (ev_Event event)" "al_now sample_audit = 5"
  by (simp_all add: sample_audit_def)

lemma first_verifies: "verify_lines sample_audit 1 [] [LogLine first_line] = Inr first_head" "verify_lines sample_audit 1 [] [BlankLine, LogLine first_line] = Inr first_head"
  using verify_append [of sample_audit 1 "[]" "[]" no_head "''LOGIN''"] by (simp_all add: no_head_def first_line_def first_head_def)

lemma sample_ok: "audit_ok sample_audit sample_log"
proof -
  have "signed_ok sample_audit (AList.update ''ops'' first_head []) (AList.update (log_name ''ops'') ([] @ [LogLine first_line]) [])"
    unfolding first_head_def by (rule signed_append [where head = no_head and p = "''LOGIN''"]) (simp_all add: signed_ok_def no_head_def first_line_def)
  then have "intact sample_audit ''access'' sample_log"
    using open_heads_document [OF sample_mac] by (simp add: intact_def sample_log_def)
  moreover have "intact sample_audit c sample_log" if "c \<noteq> ''access''" for c
    using that by (simp add: intact_def sample_log_def open_heads_def signed_ok_def)
  ultimately have "verified sample_audit sample_log" unfolding verified_iff by metis
  then show ?thesis by (simp add: audit_ok_def plain_names_def sample_log_def)
qed

lemma sample_heads:
  "open_heads sample_audit ''access'' (Some (HeadsDocument (heads_document sample_audit ''access'' hs))) = Inr hs"
  by (rule open_heads_document [OF sample_mac])

lemma same_head_refl [simp]: "same_head h h"
  by (simp add: same_head_def)

lemma sample_append: "\<exists>st'. Append sample_audit ''access'' sample_logout sample_log = (st', Inr ())"
proof -
  have t: "toLower (trimSpace ''access'') = ''access''" "trimSpace '' ops'' = ''ops''" "validUsername ''ops''" "toUpper (trimSpace ''logout'') = ''LOGOUT''"
    by code_simp+
  show ?thesis
    by (simp add: Append_def clean_event_def sample_logout_def t auditCategories_def sample_fields append_locked_def verifyFileLocked_def
        readHeadsLocked_def sample_log_def log_file_def sample_heads first_verifies append_line_def put_log_def writeHeadsLocked_def Let_def
        del: verify_lines.simps)
qed

theorem append_extends_verified_log_witness:
  "logged ''access'' ''ops'' (fst (Append sample_audit ''access'' sample_logout sample_log)) = [''LOGIN'', ''LOGOUT'']"
proof -
  obtain st' where a: "Append sample_audit ''access'' sample_logout sample_log = (st', Inr ())" using sample_append ..
  have t: "toLower (trimSpace ''access'') = ''access''" "trimSpace '' ops'' = ''ops''" "validUsername ''ops''" "toUpper (trimSpace ''logout'') = ''LOGOUT''"
    by code_simp+
  have e: "ev_ActorUsername (clean_event sample_audit sample_logout) = ''ops''" "al_event sample_audit (clean_event sample_audit sample_logout) = Some ''LOGOUT''"
    by (simp_all add: clean_event_def sample_logout_def sample_fields t)
  have "logged ''access'' ''ops'' sample_log = [''LOGIN'']"
    by (simp add: logged_def log_file_def sample_log_def first_line_def next_line_def Let_def)
  with append_extends_verified_log [OF sample_ok sample_mac a] show ?thesis by (simp add: a e t)
qed

theorem verified_log_unique_witness:
  "payloads [LogLine first_line] = payloads [BlankLine, LogLine first_line] \<or>
    (\<exists>x\<in>set (chain_messages sample_audit 1 [] (payloads [LogLine first_line])).
       \<exists>y\<in>set (chain_messages sample_audit 1 [] (payloads [BlankLine, LogLine first_line])). x \<noteq> y \<and> al_mac sample_audit x = al_mac sample_audit y)"
  by (rule verified_log_unique [OF sample_mac first_verifies same_head_refl]) simp_all

lemma names_ok: "validUsername ''ops''" "validUsername ''desk''"
  by code_simp+

lemmas rename_simps = RenameAccount_def names_ok auditCategories_def plan_category_def next_fault_def sample_log_def log_file_def
  readHeadsLocked_def sample_heads verifyFileLocked_def first_verifies Let_def rename_log_def writeHeadsLocked_def rolled_back_def undo_plan_def

lemma no_heads [simp]: "open_heads env c None = Inr []"
  by (simp add: open_heads_def)

theorem rename_keeps_verified_witness:
  "logged ''access'' ''desk'' (fst (RenameAccount sample_audit ''ops'' ''desk'' sample_log)) = [''LOGIN'']"
proof -
  have "\<exists>st'. RenameAccount sample_audit ''ops'' ''desk'' sample_log = (st', Inr ())" by (simp add: rename_simps del: verify_lines.simps)
  then obtain st' where r: "RenameAccount sample_audit ''ops'' ''desk'' sample_log = (st', Inr ())" ..
  have "logged ''access'' ''ops'' sample_log = [''LOGIN'']"
    by (simp add: logged_def log_file_def sample_log_def first_line_def next_line_def Let_def)
  with rename_keeps_verified [OF sample_ok sample_mac r, of "''access''"] show ?thesis by (simp add: r auditCategories_def)
qed

theorem failed_rename_undone_witness:
  "log_file ''access'' (log_name ''ops'') (fst (RenameAccount sample_audit ''ops'' ''desk'' (sample_log\<lparr>st_faults := replicate 11 Fine @ [Fails]\<rparr>))) =
   Some [LogLine first_line]"
proof -
  let ?s = "sample_log\<lparr>st_faults := replicate 11 Fine @ [Fails]\<rparr>"
  have "\<exists>st'. RenameAccount sample_audit ''ops'' ''desk'' ?s = (st', Inl (AuditError ''write audit integrity signature''))"
    by (simp add: rename_simps numeral_eq_Suc del: verify_lines.simps)
  then obtain st' where r: "RenameAccount sample_audit ''ops'' ''desk'' ?s = (st', Inl (AuditError ''write audit integrity signature''))" ..
  from failed_rename_undone [OF r _ _ sample_mac] show ?thesis by (simp add: r) (simp add: log_file_def sample_log_def)
qed

text \<open>The rollback misses a checkpoint that was replaced although its operation failed: the heads of the first
  category stay under the new name while the file is moved back, and the log does not verify any more.\<close>

theorem late_checkpoint_breaks_log:
  "\<exists>st'. RenameAccount sample_audit ''ops'' ''desk'' (sample_log\<lparr>st_faults := replicate 11 Fine @ [Late]\<rparr>) =
      (st', Inl (AuditError ''write audit integrity signature'')) \<and>
    audit_ok sample_audit sample_log \<and> \<not> verified sample_audit st'"
proof -
  let ?s = "sample_log\<lparr>st_faults := replicate 11 Fine @ [Late]\<rparr>"
  let ?hs = "[(''desk'', first_head)]"
  obtain st' e where r: "RenameAccount sample_audit ''ops'' ''desk'' ?s = (st', e)" by (rule prod.exhaust)
  have e: "e = Inl (AuditError ''write audit integrity signature'')"
    using arg_cong [OF r, of snd] by (simp add: rename_simps numeral_eq_Suc del: verify_lines.simps)
  have h: "st_heads st' ''access'' = Some (HeadsDocument (heads_document sample_audit ''access'' ?hs))"
    using arg_cong [OF r, of "\<lambda>x. st_heads (fst x) ''access''"] by (simp add: rename_simps numeral_eq_Suc del: verify_lines.simps)
  have d: "map fst (st_dirs st' ''access'') = [log_name ''ops'']"
    using arg_cong [OF r, of "\<lambda>x. map fst (st_dirs (fst x) ''access'')"] by (simp add: rename_simps numeral_eq_Suc del: verify_lines.simps)
  have "\<not> signed_ok sample_audit ?hs (st_dirs st' ''access'')"
    unfolding signed_ok_def d by (simp add: file_ok_def)
  then have "\<not> intact sample_audit ''access'' st'" by (simp add: intact_def h sample_heads)
  then have "\<not> verified sample_audit st'" unfolding verified_iff by (auto simp: auditCategories_def)
  with r e sample_ok show ?thesis by simp
qed

end
