(* ===== verification/Same_Origination.thy ===== *)
theory Same_Origination
  imports Go_Values "HOL-Library.Char_ord" "HOL-Library.List_Lexorder"
begin

text \<open>
  Alerts that an operator originates on the web panel, \<open>internal/webgateway/same_gateway.go\<close> and the helpers of
  \<open>panel_state.go\<close> and \<open>templates.go\<close>: the fields of a command, the expansion of location codes, and the request
  that is given to the SAME generator.
  \<^item> The configuration and the table of location names are files: the record \<open>same_config\<close> has what was read
    from them. \<open>sc_number\<close> is the conversion of a JSON number to an integer.
  \<^item> The closure \<open>add\<close> of \<open>expandSameLocationsForFeeds\<close> keeps a set and a list with the same elements; the model
    keeps the list.
\<close>

section \<open>Fields of a command\<close>

definition stringValue :: "message \<Rightarrow> string \<Rightarrow> string" where
  "stringValue message key = (case msg_get message key of StrV s \<Rightarrow> s | _ \<Rightarrow> [])"

definition mapFromAny :: "any \<Rightarrow> message" where
  "mapFromAny v = (case v of ObjV kvs \<Rightarrow> kvs | _ \<Rightarrow> [])"

definition stringFromMap :: "message \<Rightarrow> string \<Rightarrow> string" where
  "stringFromMap source key = (case msg_get source key of NilV \<Rightarrow> [] | v \<Rightarrow> trimSpace (sprint v))"

definition stringPayload :: "message \<Rightarrow> string \<Rightarrow> string \<Rightarrow> string" where
  "stringPayload payload key fallback =
     (case msg_get payload key of
        NilV \<Rightarrow> fallback
      | v \<Rightarrow> if trimSpace (sprint v) = [] then fallback else trimSpace (sprint v))"

definition parseIntText :: "string \<Rightarrow> int \<Rightarrow> int" where
  "parseIntText raw fallback = (case atoi (trimSpace raw) of None \<Rightarrow> fallback | Some v \<Rightarrow> v)"

definition intPayload :: "(string \<Rightarrow> int) \<Rightarrow> message \<Rightarrow> string \<Rightarrow> int \<Rightarrow> int" where
  "intPayload number payload key fallback =
     (case msg_get payload key of
        NumV n \<Rightarrow> number n
      | StrV s \<Rightarrow> parseIntText s fallback
      | _ \<Rightarrow> fallback)"

definition intFromMap :: "(string \<Rightarrow> int) \<Rightarrow> message \<Rightarrow> string \<Rightarrow> int \<Rightarrow> int" where
  "intFromMap number source key fallback =
     (case msg_get source key of
        NumV n \<Rightarrow> number n
      | StrV s \<Rightarrow> parseIntText s fallback
      | _ \<Rightarrow> fallback)"

definition web_xmlBool :: "string \<Rightarrow> bool \<Rightarrow> bool" where
  "web_xmlBool raw fallback =
     (let text = toLower (trimSpace raw)
      in if text \<in> {''1'', ''true'', ''yes'', ''on'', ''enabled''} then True
         else if text \<in> {''0'', ''false'', ''no'', ''off'', ''disabled''} then False
         else fallback)"

definition boolPayload :: "message \<Rightarrow> string \<Rightarrow> bool \<Rightarrow> bool" where
  "boolPayload payload key fallback =
     (case msg_get payload key of
        BoolV b \<Rightarrow> b
      | StrV s \<Rightarrow> web_xmlBool s fallback
      | _ \<Rightarrow> fallback)"

definition anySlice :: "any \<Rightarrow> any list" where
  "anySlice v = (case v of ArrV items \<Rightarrow> items | _ \<Rightarrow> [])"

definition web_stringListAny :: "any \<Rightarrow> string list" where
  "web_stringListAny v = filter (\<lambda>text. text \<noteq> []) (map (\<lambda>item. trimSpace (sprint item)) (anySlice v))"

definition web_uniqueStrings :: "string list \<Rightarrow> string list" where
  "web_uniqueStrings values = collect_unique (\<lambda>v. if trimSpace v = [] then None else Some (trimSpace v)) id [] values"

section \<open>Location codes\<close>

definition trim_quotes :: "string \<Rightarrow> string" where
  "trim_quotes s =
     (let cut = dropWhile (\<lambda>c. c = CHR 0x22 \<or> c = CHR 0x27 \<or> c = CHR '' '') in rev (cut (rev (cut s))))"

definition cleanLocationCode :: "string \<Rightarrow> string" where
  "cleanLocationCode raw =
     (let cleaned = filter is_digit (trim_quotes (toUpper (trimSpace raw)))
      in if length cleaned = 5 then CHR ''0'' # cleaned
         else if length cleaned \<noteq> 6 then []
         else cleaned)"

definition wildcardLocationPrefix :: "string \<Rightarrow> string" where
  "wildcardLocationPrefix raw =
     (let text = toUpper (trimSpace raw)
      in if CHR ''*'' \<notin> set text then []
         else
           (let prefix = filter is_digit (takeWhile (\<lambda>c. c \<noteq> CHR ''*'') text)
            in if 1 \<le> length prefix \<and> length prefix < 6 then prefix else []))"

definition alertWildcardCoverageIDs :: "string \<Rightarrow> string list \<Rightarrow> string list" where
  "alertWildcardCoverageIDs raw clcNames =
     (let prefix = wildcardLocationPrefix raw
      in if prefix = [] then []
         else sort (filter (\<lambda>code. code \<noteq> [] \<and> hasPrefix code prefix) (map cleanLocationCode clcNames)))"

definition alertWildcardSubregions :: "string \<Rightarrow> string list \<Rightarrow> string list" where
  "alertWildcardSubregions raw clcNames =
     (let code = cleanLocationCode raw
      in if length code \<noteq> 6 \<or> \<not> hasSuffix code ''00'' then []
         else sort (filter (\<lambda>c. c \<noteq> [] \<and> c \<noteq> code \<and> hasPrefix c (take 4 code)) (map cleanLocationCode clcNames)))"

definition expandedCoverageRegionIDs :: "string \<Rightarrow> string list \<Rightarrow> string list" where
  "expandedCoverageRegionIDs raw clcNames =
     (if wildcardLocationPrefix raw \<noteq> [] then alertWildcardCoverageIDs raw clcNames
      else if cleanLocationCode raw = [] then []
      else [cleanLocationCode raw])"

definition stringSlicePayload :: "message \<Rightarrow> string \<Rightarrow> string list" where
  "stringSlicePayload payload key =
     (let clean = (\<lambda>texts. filter (\<lambda>code. code \<noteq> []) (map cleanLocationCode texts));
          listed = clean (map sprint (anySlice (msg_get payload key)));
          values = web_uniqueStrings
            (if listed \<noteq> [] then listed else clean (splitOn CHR '','' (trimSpace (sprint (msg_get payload key)))))
      in if ''000000'' \<in> set values then [''000000''] else sort values)"

record feed_coverage =
  fc_ID :: string
  fc_Regions :: "(string \<times> string list) list"

record same_config =
  sc_clcNames :: "string list"
  sc_feeds :: "feed_coverage list option"
  sc_callsign :: "string \<Rightarrow> string"
  sc_number :: "string \<Rightarrow> int"

definition add_location :: "string list \<Rightarrow> string \<Rightarrow> string list" where
  "add_location out raw =
     (let code = cleanLocationCode raw
      in if code = [] then out
         else if code = ''000000'' then [''000000'']
         else if ''000000'' \<in> set out \<or> code \<in> set out then out
         else out @ [code])"

definition add_wildcards :: "string list \<Rightarrow> string list \<Rightarrow> string \<Rightarrow> string list" where
  "add_wildcards clcNames out location =
     foldl add_location out (alertWildcardCoverageIDs location clcNames @ alertWildcardSubregions location clcNames)"

definition add_parent :: "string list \<Rightarrow> string list \<Rightarrow> string list \<Rightarrow> string \<Rightarrow> string list" where
  "add_parent clcNames subregions out parent =
     (if parent \<in> set out then foldl add_location out (alertWildcardSubregions parent clcNames @ subregions) else out)"

definition add_region :: "string list \<Rightarrow> string list \<Rightarrow> string \<times> string list \<Rightarrow> string list" where
  "add_region clcNames out region =
     (case region of (regionID, subregions) \<Rightarrow>
        foldl (add_parent clcNames subregions) out (expandedCoverageRegionIDs regionID clcNames))"

definition wanted_feeds :: "string list \<Rightarrow> feed_coverage list \<Rightarrow> feed_coverage list" where
  "wanted_feeds feedIDs feeds =
     (let wanted = filter (\<lambda>i. i \<noteq> []) (map trimSpace feedIDs)
      in filter (\<lambda>feed. wanted = [] \<or> trimSpace (fc_ID feed) \<in> set wanted) feeds)"

definition expandSameLocationsForFeeds :: "same_config \<Rightarrow> string list \<Rightarrow> string list \<Rightarrow> string list" where
  "expandSameLocationsForFeeds cfg feedIDs locations =
     (let out = foldl add_location [] locations
      in if out = [] then []
         else
           (let out = foldl (add_wildcards (sc_clcNames cfg)) out locations
            in sort (case sc_feeds cfg of
                 None \<Rightarrow> out
               | Some feeds \<Rightarrow>
                   foldl (add_region (sc_clcNames cfg)) out (concat (map fc_Regions (wanted_feeds feedIDs feeds))))))"

definition sameFeedIDsFromPayload :: "message \<Rightarrow> string list" where
  "sameFeedIDsFromPayload payload =
     (let feedIDs = web_stringListAny (msg_get payload ''feed_ids''); feedID = trimSpace (stringPayload payload ''feed_id'' [])
      in web_uniqueStrings (if feedID \<noteq> [] then feedIDs @ [feedID] else feedIDs))"

section \<open>Durations\<close>

definition clampInt :: "int \<Rightarrow> int \<Rightarrow> int \<Rightarrow> int" where
  "clampInt value minValue maxValue = (if value < minValue then minValue else if value > maxValue then maxValue else value)"

text \<open>The verb \<open>%02d\<close> on the numbers that occur.\<close>

definition two_digits :: "int \<Rightarrow> string" where
  "two_digits v = (if 0 \<le> v \<and> v < 10 then CHR ''0'' # itoaInt v else itoaInt v)"

definition sameDuration :: "same_config \<Rightarrow> message \<Rightarrow> string" where
  "sameDuration cfg payload =
     (let raw = trimSpace (stringPayload payload ''duration'' [])
      in if length raw = 4 \<and> list_all is_digit raw then raw
         else two_digits (clampInt (intPayload (sc_number cfg) payload ''duration_hours'' 0) 0 99) @
              two_digits (clampInt (intPayload (sc_number cfg) payload ''duration_minutes'' 15) 0 59))"

definition durationFromTemplate :: "same_config \<Rightarrow> any \<Rightarrow> string" where
  "durationFromTemplate cfg v =
     (let source = mapFromAny v
      in if source = [] then []
         else two_digits (clampInt (intFromMap (sc_number cfg) source ''hr'' 0) 0 99) @
              two_digits (clampInt (intFromMap (sc_number cfg) source ''min'' 15) 0 59))"

definition web_normalizeSAMEDuration :: "string \<Rightarrow> string" where
  "web_normalizeSAMEDuration raw =
     (let digits = filter is_digit raw
      in if length digits \<ge> 4 then take 4 digits else replicate (4 - length digits) (CHR ''0'') @ digits)"

section \<open>Requests\<close>

record web_sameRequest =
  wr_Originator :: string
  wr_OriginatorName :: string
  wr_Event :: string
  wr_Locations :: "string list"
  wr_Duration :: string
  wr_Callsign :: string
  wr_Tone :: string
  wr_UserID :: string
  wr_User :: string
  wr_Session :: string
  wr_IP :: string

definition same_request :: "message \<Rightarrow> string \<Rightarrow> string list \<Rightarrow> string \<Rightarrow> string \<Rightarrow> string \<Rightarrow> web_sameRequest" where
  "same_request payload event locations duration callsign tone =
     \<lparr>wr_Originator = toUpper (trimSpace (stringPayload payload ''originator'' ''WXR'')),
      wr_OriginatorName = firstNonBlank [stringPayload payload ''originator_name'' [], stringPayload payload ''same_originator_name'' []],
      wr_Event = event, wr_Locations = locations, wr_Duration = duration, wr_Callsign = callsign, wr_Tone = tone,
      wr_UserID = stringPayload payload ''originated_by_user_id'' [],
      wr_User = stringPayload payload ''originated_by_username'' [],
      wr_Session = stringPayload payload ''originated_by_session_id'' [],
      wr_IP = stringPayload payload ''originated_from_ip'' []\<rparr>"

definition buildSameRequest :: "same_config \<Rightarrow> message \<Rightarrow> string + web_sameRequest" where
  "buildSameRequest cfg payload =
     (let locations = stringSlicePayload payload ''locations'';
          tone = toUpper (trimSpace (stringPayload payload ''tone_type'' ''WXR''))
      in if locations = [] then Inl ''at least one SAME location is required''
         else Inr (same_request payload
                (toUpper (trimSpace (stringPayload payload ''event'' ''RWT'')))
                (expandSameLocationsForFeeds cfg (sameFeedIDsFromPayload payload) locations)
                (sameDuration cfg payload)
                (firstNonBlank [stringPayload payload ''sender_id'' [], stringPayload payload ''same_callsign'' [],
                                sc_callsign cfg (stringPayload payload ''feed_id'' [])])
                (if tone = [] then ''WXR'' else tone)))"

definition templateLocationIDs :: "any \<Rightarrow> string list" where
  "templateLocationIDs v =
     concat (map (\<lambda>item. case item of
         StrV loc \<Rightarrow> if trimSpace loc \<noteq> [] then [trimSpace loc] else []
       | ObjV loc \<Rightarrow> (let i = trimSpace (sprint (msg_get loc ''id'')) in if i \<noteq> [] \<and> i \<noteq> ''<nil>'' then [i] else [])
       | _ \<Rightarrow> []) (anySlice v))"

definition buildTemplateSameRequest :: "same_config \<Rightarrow> message \<Rightarrow> message \<Rightarrow> string + web_sameRequest" where
  "buildTemplateSameRequest cfg template payload =
     (let same = mapFromAny (msg_get template ''same'');
          event = toUpper (firstNonBlank [stringPayload payload ''event_code'' [], stringFromMap template ''sameEvent'',
                                          stringFromMap same ''event'']);
          listed = templateLocationIDs (msg_get same ''locations'');
          locations = (if listed = [] then stringSlicePayload payload ''locations'' else listed);
          expire = stringFromMap template ''sameExpire'';
          duration = (if expire = [] then durationFromTemplate cfg (msg_get same ''duration'') else expire);
          content = mapFromAny (msg_get same ''content'');
          sender = firstNonBlank [stringPayload payload ''sender_id'' [], stringPayload payload ''same_callsign'' [],
                                  stringFromMap same ''sender_id'']
      in if event = [] then Inl ''template SAME event is required''
         else if locations = [] then Inl ''template has no SAME locations''
         else Inr (same_request payload event
                (web_uniqueStrings (expandSameLocationsForFeeds cfg (sameFeedIDsFromPayload payload) locations))
                (web_normalizeSAMEDuration (if duration = [] then ''0015'' else duration))
                (if sender = [] then sc_callsign cfg (stringPayload payload ''feed_id'' []) else sender)
                (toUpper (firstNonBlank [stringPayload payload ''tone_type'' [], stringFromMap content ''attention_tone'', ''WXR'']))))"

text \<open>The test without a template is for the first enabled feeds, up to the first that has locations.\<close>

fun test_feed :: "message list \<Rightarrow> string \<Rightarrow> string \<times> string list" where
  "test_feed [] feedID = (feedID, [])"
| "test_feed (feed # feeds) feedID =
     (if msg_get feed ''enabled'' \<noteq> BoolV True then test_feed feeds feedID
      else
        (let feedID = (if feedID = [] then stringValue feed ''id'' else feedID);
             listed = anySlice (msg_get feed ''same_locations'');
             codes = (if listed = [] then anySlice (msg_get feed ''clc_codes'') else listed)
         in if codes = [] then test_feed feeds feedID
            else (feedID, map (\<lambda>code. trimSpace (sprint code)) codes)))"

definition default_test_request :: "same_config \<Rightarrow> message list \<Rightarrow> message \<Rightarrow> string + web_sameRequest" where
  "default_test_request cfg feeds payload =
     (case test_feed feeds [] of
        (feedID, locations) \<Rightarrow>
          if locations = [] then Inl ''no configured feed locations are available for SAME test generation''
          else Inr (same_request payload
                 (toUpper (trimSpace (stringPayload payload ''event_code'' ''RWT'')))
                 (web_uniqueStrings locations) ''0015''
                 (firstNonBlank [stringPayload payload ''sender_id'' [], sc_callsign cfg feedID]) ''WXR''))"

definition generateSameTest :: "same_config \<Rightarrow> string + message list \<Rightarrow> message \<Rightarrow> string + web_sameRequest" where
  "generateSameTest cfg summaries payload =
     (case msg_get payload ''template'' of
        ObjV template \<Rightarrow> buildTemplateSameRequest cfg template payload
      | _ \<Rightarrow> (case summaries of Inl e \<Rightarrow> Inl e | Inr feeds \<Rightarrow> default_test_request cfg feeds payload))"

section \<open>Expanded locations\<close>

definition location_code :: "string \<Rightarrow> bool" where
  "location_code code \<longleftrightarrow> length code = 6 \<and> list_all is_digit code"

text \<open>What \<open>add\<close> keeps: codes of six digits, each once, and the code of the whole country only alone.\<close>

definition locations_ok :: "string list \<Rightarrow> bool" where
  "locations_ok out \<longleftrightarrow> distinct out \<and> list_all location_code out \<and> (''000000'' \<in> set out \<longrightarrow> out = [''000000''])"

lemma clean_code_valid: "cleanLocationCode raw \<noteq> [] \<Longrightarrow> location_code (cleanLocationCode raw)"
  by (auto simp: cleanLocationCode_def location_code_def Let_def list_all_iff is_digit_def char_between_def split: if_splits)

lemma add_location_ok: "locations_ok out \<Longrightarrow> locations_ok (add_location out raw)"
  using clean_code_valid [of raw]
  by (auto simp: add_location_def locations_ok_def Let_def location_code_def is_digit_def char_between_def)

lemma add_location_from: "code \<in> set (add_location out raw) \<Longrightarrow> code \<in> set out \<or> code = cleanLocationCode raw \<and> code \<noteq> []"
  by (auto simp: add_location_def Let_def split: if_splits)

text \<open>A code is covered by a list that has it or is the whole country.\<close>

definition covered_by :: "string \<Rightarrow> string list \<Rightarrow> bool" where
  "covered_by code out \<longleftrightarrow> code \<in> set out \<or> out = [''000000'']"

lemma add_location_covers:
  "locations_ok out \<Longrightarrow> cleanLocationCode raw \<noteq> [] \<Longrightarrow> covered_by (cleanLocationCode raw) (add_location out raw)"
  by (auto simp: add_location_def covered_by_def locations_ok_def Let_def)

lemma add_location_keeps: "locations_ok out \<Longrightarrow> covered_by code out \<Longrightarrow> covered_by code (add_location out raw)"
  by (auto simp: add_location_def covered_by_def locations_ok_def Let_def)

text \<open>\<open>grows U\<close>: what a step of the expansion keeps, when everything it adds is in \<open>U\<close>.\<close>

definition grows :: "string set \<Rightarrow> string list \<Rightarrow> string list \<Rightarrow> bool" where
  "grows U out out' \<longleftrightarrow> locations_ok out \<longrightarrow>
     locations_ok out' \<and> set out' \<subseteq> set out \<union> U \<and> (\<forall>code. covered_by code out \<longrightarrow> covered_by code out')"

lemma grows_refl [simp]: "grows U out out"
  by (simp add: grows_def)

lemma grows_trans: "grows U a b \<Longrightarrow> grows U b c \<Longrightarrow> grows U a c"
  by (auto simp: grows_def)

lemma grows_add: "cleanLocationCode raw \<in> U \<or> cleanLocationCode raw = [] \<Longrightarrow> grows U out (add_location out raw)"
  unfolding grows_def by (auto intro: add_location_ok add_location_keeps dest!: add_location_from)

lemma grows_fold: "(\<And>x out. x \<in> set xs \<Longrightarrow> grows U out (f out x)) \<Longrightarrow> grows U out (foldl f out xs)"
proof (induction xs arbitrary: out)
  case (Cons x xs)
  have "grows U out (f out x)" "grows U (f out x) (foldl f (f out x) xs)" using Cons by auto
  then show ?case by (auto intro: grows_trans)
qed simp

lemmas grows_adds = grows_fold [of _ _ add_location, OF grows_add]

lemma digit_solid: "is_digit c \<Longrightarrow> solid c"
  by (auto simp: is_digit_def char_between_def solid_def space1_def)

lemma cut_digits: "list_all is_digit s \<Longrightarrow> trim_quotes s = s"
proof -
  have cut: "dropWhile (\<lambda>c. c = CHR 0x22 \<or> c = CHR 0x27 \<or> c = CHR '' '') t = t" if "list_all is_digit t" for t
    using that by (cases t) (auto simp: is_digit_def char_between_def)
  assume "list_all is_digit s"
  then show ?thesis by (simp add: trim_quotes_def Let_def cut)
qed

lemma upper_digits: "list_all is_digit s \<Longrightarrow> toUpper s = s"
  by (induction s) (auto simp: toUpper_def upper_char_def is_digit_def char_between_def)

lemma clean_code_again: "location_code code \<Longrightarrow> cleanLocationCode code = code"
proof -
  assume code: "location_code code"
  then have digits: "list_all is_digit code" "length code = 6" by (simp_all add: location_code_def)
  then have "trimSpace code = code" by (auto intro!: trimSpace_solid simp: list_all_iff digit_solid)
  with digits show ?thesis
    by (simp add: cleanLocationCode_def upper_digits cut_digits filter_id_conv list_all_iff)
qed

lemma clean_clean: "cleanLocationCode (cleanLocationCode raw) = cleanLocationCode raw"
proof (cases "cleanLocationCode raw = []")
  case True
  then show ?thesis by (simp add: cleanLocationCode_def trim_quotes_def)
next
  case False
  then show ?thesis by (intro clean_code_again clean_code_valid)
qed

section \<open>The expansion\<close>

lemma wildcards_from:
  "code \<in> set (alertWildcardCoverageIDs raw names @ alertWildcardSubregions raw names) \<Longrightarrow>
   cleanLocationCode code \<in> cleanLocationCode ` set names"
  by (auto simp: alertWildcardCoverageIDs_def alertWildcardSubregions_def Let_def clean_clean split: if_splits)

lemma grows_wildcards: "cleanLocationCode ` set names \<subseteq> U \<Longrightarrow> grows U out (add_wildcards names out location)"
  unfolding add_wildcards_def by (rule grows_adds) (use wildcards_from in blast)

lemma grows_parent:
  assumes "cleanLocationCode ` (set names \<union> set subregions) \<subseteq> U"
  shows "grows U out (add_parent names subregions out parent)"
proof -
  have "cleanLocationCode x \<in> U" if "x \<in> set (alertWildcardSubregions parent names @ subregions)" for x
    using that wildcards_from [of x parent names] assms by auto
  then show ?thesis unfolding add_parent_def by (auto simp del: foldl_append intro!: grows_adds)
qed

lemma grows_region:
  "cleanLocationCode ` (set names \<union> set (snd region)) \<subseteq> U \<Longrightarrow> grows U out (add_region names out region)"
  by (auto simp: add_region_def split: prod.split intro!: grows_fold grows_parent)

text \<open>Everything the expansion may add: what was asked for, the table, and the configured subregions.\<close>

definition known_places :: "same_config \<Rightarrow> string list \<Rightarrow> string list \<Rightarrow> string list" where
  "known_places cfg feedIDs locations =
     locations @ sc_clcNames cfg @
     (case sc_feeds cfg of None \<Rightarrow> [] | Some feeds \<Rightarrow> concat (map snd (concat (map fc_Regions (wanted_feeds feedIDs feeds)))))"

lemma sorted_locations_ok: "locations_ok out \<Longrightarrow> locations_ok (sort out)"
  by (auto simp: locations_ok_def list_all_iff)

lemma covered_sorted: "covered_by code out \<Longrightarrow> covered_by code (sort out)"
  by (auto simp: covered_by_def)

lemma first_locations:
  "locations_ok (foldl add_location [] locations)" (is ?ok)
  "l \<in> set locations \<Longrightarrow> cleanLocationCode l \<noteq> [] \<Longrightarrow> covered_by (cleanLocationCode l) (foldl add_location [] locations)"
  "foldl add_location [] locations = [] \<longleftrightarrow> (\<forall>l\<in>set locations. cleanLocationCode l = [])"
proof (induction locations rule: rev_induct)
  case Nil
  { case 1 show ?case by (simp add: locations_ok_def)
  next case 2 then show ?case by simp
  next case 3 show ?case by simp }
next
  case (snoc x xs)
  { case 1 show ?case using snoc.IH(1) by (simp add: add_location_ok)
  next case 2 then show ?case using snoc.IH by (auto intro: add_location_keeps add_location_covers)
  next case 3 show ?case using snoc.IH(3) by (auto simp: add_location_def Let_def) }
qed

lemma first_from: "set (foldl add_location [] locations) \<subseteq> cleanLocationCode ` set locations"
  by (induction locations rule: rev_induct) (auto dest!: add_location_from)

lemma expansion_grows:
  assumes "foldl add_location [] locations \<noteq> []"
  shows "\<exists>out. grows (cleanLocationCode ` set (known_places cfg feedIDs locations)) (foldl add_location [] locations) out \<and>
           expandSameLocationsForFeeds cfg feedIDs locations = sort out"
proof -
  let ?U = "cleanLocationCode ` set (known_places cfg feedIDs locations)"
  let ?out1 = "foldl (add_wildcards (sc_clcNames cfg)) (foldl add_location [] locations) locations"
  have names: "cleanLocationCode ` set (sc_clcNames cfg) \<subseteq> ?U" by (auto simp: known_places_def)
  have first: "grows ?U (foldl add_location [] locations) ?out1"
    by (rule grows_fold) (rule grows_wildcards [OF names])
  show ?thesis
  proof (cases "sc_feeds cfg")
    case None
    then show ?thesis using first assms by (auto simp: expandSameLocationsForFeeds_def)
  next
    case (Some feeds)
    let ?regions = "concat (map fc_Regions (wanted_feeds feedIDs feeds))"
    have "grows ?U ?out1 (foldl (add_region (sc_clcNames cfg)) ?out1 ?regions)"
    proof (rule grows_fold, rule grows_region)
      fix region assume "region \<in> set ?regions"
      then have "set (snd region) \<subseteq> set (known_places cfg feedIDs locations)"
        using Some by (auto simp: known_places_def)
      then show "cleanLocationCode ` (set (sc_clcNames cfg) \<union> set (snd region)) \<subseteq> ?U" using names by blast
    qed
    then show ?thesis using first assms Some by (auto simp: expandSameLocationsForFeeds_def intro: grows_trans)
  qed
qed

text \<open>C27: the expanded locations of an originated alert are well formed and complete: codes of six digits in ascending order
  without repetition, the code of the whole country only alone; every valid code that was asked for is covered, and
  nothing is added that is neither asked for nor in the table of names nor a configured subregion. They are empty
  exactly if no valid code was asked for.\<close>

theorem expanded_locations_valid:
  "let out = expandSameLocationsForFeeds cfg feedIDs locations
   in sorted out \<and> locations_ok out \<and>
      (\<forall>l\<in>set locations. cleanLocationCode l \<noteq> [] \<longrightarrow> covered_by (cleanLocationCode l) out) \<and>
      set out \<subseteq> cleanLocationCode ` set (known_places cfg feedIDs locations) \<and>
      (out = [] \<longleftrightarrow> (\<forall>l\<in>set locations. cleanLocationCode l = []))"
proof (cases "foldl add_location [] locations = []")
  case True
  then show ?thesis
    using first_locations(3) [of locations] by (simp add: expandSameLocationsForFeeds_def locations_ok_def)
next
  case False
  let ?first = "foldl add_location [] locations"
  obtain out where grown: "grows (cleanLocationCode ` set (known_places cfg feedIDs locations)) ?first out"
    and result: "expandSameLocationsForFeeds cfg feedIDs locations = sort out"
    using expansion_grows [OF False] by blast
  note ok = first_locations(1) [of locations]
  have origin: "set ?first \<subseteq> cleanLocationCode ` set (known_places cfg feedIDs locations)"
    using first_from [of locations] by (auto simp: known_places_def)
  have out: "locations_ok out" "set out \<subseteq> set ?first \<union> cleanLocationCode ` set (known_places cfg feedIDs locations)"
    "\<And>code. covered_by code ?first \<Longrightarrow> covered_by code out"
    using grown ok by (auto simp: grows_def)
  obtain code where "code \<in> set ?first" using False by (cases ?first) auto
  then have "out \<noteq> []" using out(3) [of code] by (auto simp: covered_by_def)
  then have "sort out \<noteq> []" by (metis set_empty set_sort)
  then show ?thesis
    using out origin False first_locations(2) [of _ locations] first_locations(3) [of locations]
    by (auto simp: result Let_def sorted_locations_ok covered_sorted)
qed

definition sample_same_config :: same_config where
  "sample_same_config =
     \<lparr>sc_clcNames = [''061100'', ''61120'', ''061110'', ''062100''], sc_feeds = Some [\<lparr>fc_ID = ''a'', fc_Regions = [(''061100'', [''061190''])]\<rparr>],
      sc_callsign = (\<lambda>feed. ''HAZE''), sc_number = (\<lambda>n. 0)\<rparr>"

lemma sample_expansion:
  "expandSameLocationsForFeeds sample_same_config [] [''61100'', ''none''] = [''061100'', ''061110'', ''061120'', ''061190'']"
  by code_simp

theorem expanded_locations_valid_witness:
  "covered_by (cleanLocationCode ''61100'') [''061100'', ''061110'', ''061120'', ''061190''] \<and> cleanLocationCode ''61100'' = ''061100'' \<and>
   locations_ok [''061100'', ''061110'', ''061120'', ''061190'']"
proof -
  have code: "cleanLocationCode ''61100'' = ''061100''" by code_simp
  show ?thesis
    using expanded_locations_valid [where cfg = sample_same_config and feedIDs = "[]" and locations = "[''61100'', ''none'']"]
    by (simp add: sample_expansion code Let_def)
qed

end
