(* ===== verification/Web_Command.thy ===== *)
theory Web_Command
  imports Web_Login Same_Origination Cap_Same
begin

text \<open>
  The commands of the web panel in account mode: \<open>handleCommand\<close> in \<open>internal/webgateway/server.go\<close> with everything that
  decides whether a command is executed, \<open>account_policy.go\<close>, \<open>account_audit.go\<close>, and the archive functions of
  \<open>alerts_archive.go\<close> the policy reads.
  \<^item> What executes a command, \<open>executeCommand\<close>, is the argument \<open>exec\<close>.
  \<^item> The archive is the list of its records, active ones first, then expired, then rejected. The entries of the
    event mapping file are those of \<open>Cap_Same\<close>.
  \<^item> A payload is a decoded JSON object, which \<open>cloneMap\<close> copies unchanged; \<open>nil\<close> is the empty object.
\<close>

section \<open>Commands\<close>

datatype commandError = CmdAuth authError | CmdError string

definition archiveActionBroadcasts :: "message \<Rightarrow> bool" where
  "archiveActionBroadcasts payload \<longleftrightarrow>
     toLower (trimSpace (stringValue payload ''action'')) \<in>
       {''rebroadcast'', ''force_broadcast'', ''rebroadcast_without_same'', ''force_broadcast_without_same''}"

definition open_commands :: "string list" where
  "open_commands =
     [''state'', ''health'', ''same.event_codes'', ''same.location_names'', ''same.templates.get'',
      ''same.intro'', ''same.generate'', ''same.test'', ''same.air'', ''alert.broadcast'', ''alert.preview'',
      ''profile.get'', ''profile.password.change'', ''profile.sessions'', ''profile.session.revoke'']"

definition nonAdminCommandAllowed :: "string \<Rightarrow> message \<Rightarrow> account \<Rightarrow> bool" where
  "nonAdminCommandAllowed command payload a =
     (if command \<in> set open_commands then True
      else if command \<in> {''alerts.archive.get'', ''logs.list'', ''logs.tail''} then ac_CanViewLogs a
      else if command = ''alerts.archive.action'' then
        ac_CanViewLogs a \<and>
        (archiveActionBroadcasts payload \<or> toLower (trimSpace (stringValue payload ''action'')) = ''preview_same'')
      else False)"

definition isOriginationExecution :: "string \<Rightarrow> message \<Rightarrow> bool" where
  "isOriginationExecution command payload =
     (if command \<in> {''same.test'', ''same.air'', ''alert.broadcast''} then True
      else if command = ''playlist.insert'' then equalFold (stringValue payload ''kind'') ''same''
      else if command = ''alerts.archive.action'' then archiveActionBroadcasts payload
      else False)"

definition usesOriginationPolicy :: "string \<Rightarrow> message \<Rightarrow> bool" where
  "usesOriginationPolicy command payload \<longleftrightarrow>
     isOriginationExecution command payload \<or> command = ''same.generate'' \<or> command = ''alert.preview'' \<or>
     command = ''alerts.archive.action'' \<and> equalFold (stringValue payload ''action'') ''preview_same''"

definition accountCommandName :: "string \<Rightarrow> bool" where
  "accountCommandName command \<longleftrightarrow> hasPrefix command ''accounts.'' \<or> hasPrefix command ''profile.''"

definition panel_mutations :: "string list" where
  "panel_mutations =
     [''daemon.settings.save'', ''daemon.service.control'', ''dictionary.save'', ''tts.save'',
      ''feeds.save'', ''feeds.control'', ''bulletins.save'', ''bulletins.import'', ''bulletins.upload_audio'',
      ''cgen.scenes.save'', ''cgen.scenes.delete'', ''cgen.save'', ''cgen.action'',
      ''playlist.control'', ''playlist.insert'', ''alerts.archive.action'', ''automations.put'', ''same.templates.put'',
      ''lead_statements.save'',
      ''operator_breakin.upload_preroll'', ''operator_breakin.generate_tone'', ''operator_breakin.start'',
      ''operator_breakin.chunk'', ''operator_breakin.finish'', ''operator_breakin.url'', ''operator_breakin.cancel'']"

definition auditedWebpanelMutation :: "string \<Rightarrow> message \<Rightarrow> bool" where
  "auditedWebpanelMutation command payload \<longleftrightarrow>
     \<not> accountCommandName command \<and> \<not> isOriginationExecution command payload \<and> command \<in> set panel_mutations"

section \<open>The archive\<close>

record archiveCAPRecord =
  av_ID :: string
  av_FeedID :: string
  av_Identifier :: string
  av_Sender :: string
  av_Infos :: "(string \<times> alertInfo) list"

definition findArchiveAlert :: "archiveCAPRecord list \<Rightarrow> string \<Rightarrow> string \<Rightarrow> archiveCAPRecord option" where
  "findArchiveAlert records i feedID =
     map_option (\<lambda>record. if av_FeedID record = [] then record\<lparr>av_FeedID := feedID\<rparr> else record)
       (find (\<lambda>record. (av_ID record = i \<or> av_Identifier record = i) \<and> (feedID = [] \<or> av_FeedID record = feedID)) records)"

definition chooseArchiveInfo :: "archiveCAPRecord \<Rightarrow> alertInfo" where
  "chooseArchiveInfo record =
     (case find (\<lambda>(language, info). hasPrefix (toLower (trimSpace language)) ''en'') (av_Infos record) of
        Some (language, info) \<Rightarrow> info
      | None \<Rightarrow>
          (case av_Infos record of
             (language, info) # rest \<Rightarrow> info
           | [] \<Rightarrow> \<lparr>ai_Event = [], ai_Headline = [], ai_EventCodes = [], ai_Parameters = []\<rparr>))"

definition eas_originator :: "namedText \<Rightarrow> string option" where
  "eas_originator parameter =
     (let code = toUpper (trimSpace (nt_Value parameter))
      in if equalFold (trimSpace (nt_Name parameter)) ''eas-org'' \<and> code \<in> set allowedOriginatorCodes then Some code else None)"

definition weather_layer :: "namedText \<Rightarrow> bool" where
  "weather_layer parameter \<longleftrightarrow>
     (let name = toLower (trimSpace (nt_Name parameter))
      in hasPrefix name ''layer:ec-msc-smc'' \<or> containsStr name ''cap-cp'')"

definition archiveRecordOriginator :: "archiveCAPRecord \<Rightarrow> string" where
  "archiveRecordOriginator record =
     (let parameters = concat (map ai_Parameters (chooseArchiveInfo record # map snd (av_Infos record)));
          sender = toLower (trimSpace (av_Sender record))
      in case List.map_filter eas_originator parameters of
           code # rest \<Rightarrow> code
         | [] \<Rightarrow>
             if list_ex weather_layer parameters then ''WXR''
             else if list_ex (containsStr sender) [''canada'', ''cap-pac'', ''weather.gov'', ''nws'', ''noaa''] then ''WXR''
             else ''CIV'')"

type_synonym archive = "archiveCAPRecord list \<times> (string \<times> string) list option"

definition archiveRecordEvent :: "(string \<times> string) list option \<Rightarrow> archiveCAPRecord \<Rightarrow> string" where
  "archiveRecordEvent naads record = toUpper (trimSpace (er_Event (ResolveEvent naads (chooseArchiveInfo record))))"

section \<open>The origination policy\<close>

definition policy_event :: "message \<Rightarrow> string" where
  "policy_event payload = firstNonBlank [stringValue payload ''same_event'', stringValue payload ''event'', stringValue payload ''event_code'']"

definition set_event :: "string \<Rightarrow> message \<Rightarrow> message" where
  "set_event code out = msg_set ''event_code'' (StrV code) (msg_set ''same_event'' (StrV code) (msg_set ''event'' (StrV code) out))"

definition template_defaults :: "message \<Rightarrow> message" where
  "template_defaults out =
     (case msg_get out ''template'' of
        ObjV template \<Rightarrow>
          (let same = mapFromAny (msg_get template ''same'');
               out = (if trimSpace (stringValue out ''originator'') = []
                      then msg_set ''originator'' (StrV (toUpper (firstNonBlank [stringFromMap same ''originator'', ''WXR'']))) out
                      else out);
               code = toUpper (firstNonBlank [stringFromMap same ''event'', stringValue template ''sameEvent''])
           in if trimSpace (policy_event out) = [] \<and> code \<noteq> [] then set_event code out else out)
      | _ \<Rightarrow> out)"

definition archive_defaults :: "(string \<times> string) list option \<Rightarrow> archiveCAPRecord \<Rightarrow> message \<Rightarrow> message" where
  "archive_defaults naads record out =
     (let originator = StrV (archiveRecordOriginator record);
          out = msg_set ''same_originator'' originator (msg_set ''originator'' originator out);
          code = archiveRecordEvent naads record
      in if code \<noteq> [] then set_event code out else out)"

definition prepareAccountOriginationPolicyPayload :: "archive \<Rightarrow> string \<Rightarrow> message \<Rightarrow> authError + message" where
  "prepareAccountOriginationPolicyPayload archive command payload =
     (let out = (if command = ''same.test'' then template_defaults payload else payload);
          action = toLower (trimSpace (stringValue out ''action''))
      in if command \<noteq> ''alerts.archive.action'' then Inr out
         else if \<not> archiveActionBroadcasts out \<and> action \<noteq> ''preview_same'' then Inr out
         else
           (case findArchiveAlert (fst archive) (trimSpace (stringValue out ''id'')) (trimSpace (stringValue out ''feed_id'')) of
              None \<Rightarrow> Inl (AuthError ''archive_alert_not_found'' ''The archived alert was not found.'' 404)
            | Some record \<Rightarrow> Inr (archive_defaults (snd archive) record out)))"

definition force_sender :: "account \<Rightarrow> message \<Rightarrow> message" where
  "force_sender a out =
     (if ac_ForceSenderID a
      then msg_set ''same_callsign'' (StrV (ac_SenderID a)) (msg_set ''sender_id'' (StrV (ac_SenderID a)) out) else out)"

definition forced_name :: "identity \<Rightarrow> string" where
  "forced_name identity =
     (let a = id_Account identity
      in ac_OriginatorNameText a @ (if ac_IncludeIPInBrackets a then '' ['' @ as_IP (id_Session identity) @ '']'' else []))"

definition force_name :: "identity \<Rightarrow> message \<Rightarrow> message" where
  "force_name identity out =
     (if ac_ForceOriginatorName (id_Account identity)
      then msg_set ''same_originator_name'' (StrV (forced_name identity)) (msg_set ''originator_name'' (StrV (forced_name identity)) out)
      else out)"

definition set_originated_by :: "identity \<Rightarrow> message \<Rightarrow> message" where
  "set_originated_by identity out =
     msg_set ''originated_from_ip'' (StrV (as_IP (id_Session identity)))
       (msg_set ''originated_by_session_id'' (StrV (as_ID (id_Session identity)))
         (msg_set ''originated_by_username'' (StrV (ac_Username (id_Account identity)))
           (msg_set ''originated_by_user_id'' (StrV (ac_ID (id_Account identity))) out)))"

definition policy_originator :: "message \<Rightarrow> string" where
  "policy_originator out =
     (let default = (if map_of out ''same_event'' \<noteq> None \<or> stringValue out ''audio_mode'' \<noteq> [] then ''EAS'' else ''WXR'')
      in toUpper (trimSpace (firstNonBlank [stringValue out ''originator'', stringValue out ''same_originator'', default])))"

definition applyAccountOriginationPolicy :: "message \<Rightarrow> identity \<Rightarrow> authError + message" where
  "applyAccountOriginationPolicy payload identity =
     (let a = id_Account identity;
          originator = policy_originator payload;
          eventCode = toUpper (trimSpace (policy_event payload))
      in if originator \<notin> set (ac_AllowedOriginators a)
         then Inl (AuthError ''originator_forbidden'' (''Originator '' @ originator @ '' is not permitted for this account.'') 403)
         else if eventCode \<noteq> [] \<and> list_ex (\<lambda>blocked. equalFold blocked eventCode) (ac_BlockedEventCodes a)
         then Inl (AuthError ''event_code_forbidden'' (''SAME event code '' @ eventCode @ '' is blocked for this account.'') 403)
         else Inr (set_originated_by identity (force_name identity (force_sender a
                (msg_set ''same_originator'' (StrV originator) (msg_set ''originator'' (StrV originator) payload))))))"

definition origination_policy ::
  "auth_env \<Rightarrow> archive \<Rightarrow> identity \<Rightarrow> string \<Rightarrow> message \<Rightarrow> 's gateway \<Rightarrow> 's gateway \<times> (authError + message)" where
  "origination_policy env archive identity command payload g =
     (if \<not> usesOriginationPolicy command payload then (g, Inr payload)
      else
        (case prepareAccountOriginationPolicyPayload archive command payload of
           Inl e \<Rightarrow> (g, Inl e)
         | Inr payload \<Rightarrow>
             (case AllowOrigination env identity g of
                (g, Some e) \<Rightarrow> (g, Inl e)
              | (g, None) \<Rightarrow> (g, applyAccountOriginationPolicy payload identity))))"

section \<open>Audit records of commands\<close>

definition auditSeverity :: "string \<Rightarrow> string" where
  "auditSeverity event = (if containsStr (toUpper event) ''FAILED'' then ''error'' else ''info'')"

definition origination_details :: "string \<Rightarrow> message \<Rightarrow> message \<Rightarrow> message" where
  "origination_details command payload result =
     (let details = foldl (\<lambda>out (key, v). msg_set key v out) []
            [(''command'', StrV command),
             (''event_type'', StrV (toUpper (policy_event payload))),
             (''originator'', StrV (toUpper (firstNonBlank [stringValue payload ''originator'', stringValue payload ''same_originator'']))),
             (''sender_id'', StrV (firstNonBlank [stringValue payload ''sender_id'', stringValue payload ''same_callsign''])),
             (''originator_name'', StrV (firstNonBlank [stringValue payload ''originator_name'', stringValue payload ''same_originator_name''])),
             (''locations'', msg_get payload ''locations''), (''feed_id'', msg_get payload ''feed_id''),
             (''feed_ids'', msg_get payload ''feed_ids''), (''alert_id'', msg_get payload ''alert_id'')]
      in foldl (\<lambda>out key. case map_of result key of None \<Rightarrow> out | Some v \<Rightarrow> msg_set key v out) details
           [''header'', ''queue_id'', ''alert_id'', ''feed_id'', ''feeds_aired'', ''feed_ids'', ''scheduled'', ''schedule_at'',
            ''event_type'', ''originator'', ''sender_id'', ''error''])"

definition secret_key :: "string \<Rightarrow> bool" where
  "secret_key key \<longleftrightarrow> list_ex (containsStr (toLower (trimSpace key)))
     [''password'', ''secret'', ''token'', ''authorization'', ''cookie'', ''credential'', ''private_key'', ''api_key'', ''apikey'', ''dsn'']"

definition bulky_key :: "string \<Rightarrow> bool" where
  "bulky_key key \<longleftrightarrow> list_ex (containsStr (toLower (trimSpace key))) [''audio_base64'', ''audio_bytes'', ''cap_xml'']"

text \<open>\<open>sanitizedAuditValue\<close> with the loops over the entries of an object and over the first items of a list.\<close>

fun sanitizedAuditValue :: "string \<Rightarrow> any \<Rightarrow> nat \<Rightarrow> any"
  and sanitized_entries :: "message \<Rightarrow> nat \<Rightarrow> message"
  and sanitized_items :: "string \<Rightarrow> nat \<Rightarrow> any list \<Rightarrow> nat \<Rightarrow> any list" where
  "sanitizedAuditValue key v depth =
     (if secret_key key then StrV ''[REDACTED]''
      else if bulky_key key then StrV ''[OMITTED BINARY OR CAP CONTENT]''
      else if depth > 4 then StrV ''[MAX DEPTH]''
      else (case v of
          ObjV typed \<Rightarrow> ObjV (sanitized_entries typed (depth + 1))
        | ArrV typed \<Rightarrow> ArrV (sanitized_items key 50 typed (depth + 1))
        | StrV typed \<Rightarrow> StrV (if length typed > 512 then take 512 typed @ '' [TRUNCATED]'' else typed)
        | _ \<Rightarrow> v))"
| "sanitized_entries [] depth = []"
| "sanitized_entries ((key, v) # rest) depth = (key, sanitizedAuditValue key v depth) # sanitized_entries rest depth"
| "sanitized_items key 0 items depth = []"
| "sanitized_items key (Suc n) [] depth = []"
| "sanitized_items key (Suc n) (v # rest) depth = sanitizedAuditValue key v depth # sanitized_items key n rest depth"

declare sanitizedAuditValue.simps [simp del]

definition sanitizedAuditMap :: "message \<Rightarrow> nat \<Rightarrow> message" where
  "sanitizedAuditMap source depth = (if depth > 4 then [] else sanitized_entries source (depth + 1))"

definition mutation_details :: "string \<Rightarrow> message \<Rightarrow> message" where
  "mutation_details command payload =
     (let details = msg_set ''payload'' (ObjV (sanitizedAuditMap payload 0)) (msg_set ''command'' (StrV command) []);
          action = trimSpace (stringValue payload ''action'')
      in if action \<noteq> [] then msg_set ''action'' (StrV action) details else details)"

definition auditOrigination :: "identity \<Rightarrow> string \<Rightarrow> 's gateway \<Rightarrow> 's gateway \<times> bool" where
  "auditOrigination identity event g =
     (if \<not> ac_LoggingEnabled (id_Account identity) then (g, True)
      else audit_append ''alerts'' event (ac_ID (id_Account identity)) (as_ID (id_Session identity)) g)"

definition auditWebpanel :: "identity \<Rightarrow> string \<Rightarrow> 's gateway \<Rightarrow> 's gateway \<times> bool" where
  "auditWebpanel identity action g =
     (if \<not> ac_LoggingEnabled (id_Account identity) then (g, True)
      else audit_append ''webpanel'' action (ac_ID (id_Account identity)) (as_ID (id_Session identity)) g)"

section \<open>The command handler\<close>

definition audit_if :: "bool \<Rightarrow> ('s gateway \<Rightarrow> 's gateway \<times> bool) \<Rightarrow> 's gateway \<Rightarrow> 's gateway \<times> bool" where
  "audit_if b record g = (if b then record g else (g, True))"

definition record_failed :: "any \<Rightarrow> any" where
  "record_failed result =
     (case result of ObjV kvs \<Rightarrow> ObjV (msg_set ''audit_status'' (StrV ''completion_record_failed'') kvs) | _ \<Rightarrow> result)"

type_synonym 's executor = "string \<Rightarrow> message \<Rightarrow> 's gateway \<Rightarrow> 's gateway \<times> (commandError + any)"

definition audited_command ::
  "'s executor \<Rightarrow> identity \<Rightarrow> string \<Rightarrow> message \<Rightarrow> 's gateway \<Rightarrow> 's gateway \<times> (commandError + any)" where
  "audited_command exec identity command payload g =
     (let orig = isOriginationExecution command payload;
          change = auditedWebpanelMutation command payload
      in case audit_if orig (auditOrigination identity ''ALERT_ORIGINATION_REQUESTED'') g of
           (g, False) \<Rightarrow> (g, Inl (CmdError ''alert audit integrity failure''))
         | (g, True) \<Rightarrow>
             (case audit_if change (auditWebpanel identity ''WEBPANEL_MUTATION_REQUESTED'') g of
                (g, False) \<Rightarrow> (g, Inl (CmdError ''web panel audit integrity failure''))
              | (g, True) \<Rightarrow>
                  (case exec command payload g of
                     (g, Inl e) \<Rightarrow>
                       (let g = fst (audit_if orig (auditOrigination identity ''ALERT_ORIGINATION_FAILED'') g)
                        in (fst (audit_if change (auditWebpanel identity ''WEBPANEL_MUTATION_FAILED'') g), Inl e))
                   | (g, Inr result) \<Rightarrow>
                       (case audit_if orig (auditOrigination identity ''ALERT_ORIGINATION_ACCEPTED'') g of
                          (g, False) \<Rightarrow> (g, Inr (record_failed result))
                        | (g, True) \<Rightarrow>
                            (case audit_if change (auditWebpanel identity ''WEBPANEL_MUTATION_COMPLETED'') g of
                               (g, False) \<Rightarrow> (g, Inr (record_failed result))
                             | (g, True) \<Rightarrow> (g, Inr result))))))"

definition command_refused :: "identity \<Rightarrow> string \<Rightarrow> message \<Rightarrow> authError option" where
  "command_refused identity command payload =
     (if id_PasswordChangeRequired identity \<and> command \<noteq> ''profile.password.change'' \<and> command \<noteq> ''profile.get''
      then Some (AuthError ''password_change_required'' ''Password change is required before using the panel.'' 403)
      else if \<not> ac_IsAdmin (id_Account identity) \<and> \<not> nonAdminCommandAllowed command payload (id_Account identity)
      then Some (AuthError ''command_forbidden'' (''Account is not authorized for command '' @ quoted command @ ''.'') 403)
      else None)"

definition handleCommand ::
  "auth_env \<Rightarrow> 's sessionRegistry \<Rightarrow> archive \<Rightarrow> 's executor \<Rightarrow> request \<Rightarrow> string \<Rightarrow> message \<Rightarrow> 's gateway \<Rightarrow>
   's gateway \<times> (commandError + any)" where
  "handleCommand env R archive exec request command payload g =
     (case Authenticate env R request g of
        (g, Inl e) \<Rightarrow> (g, Inl (CmdAuth e))
      | (g, Inr identity) \<Rightarrow>
          (case command_refused identity command payload of
             Some e \<Rightarrow> (g, Inl (CmdAuth e))
           | None \<Rightarrow>
               (case origination_policy env archive identity command payload g of
                  (g, Inl e) \<Rightarrow> (g, Inl (CmdAuth e))
                | (g, Inr payload) \<Rightarrow> audited_command exec identity command payload g)))"

section \<open>What the policy lets through\<close>

lemma stringValue_set [simp]:
  "stringValue (msg_set key v out) k = (if k = key then (case v of StrV s \<Rightarrow> s | _ \<Rightarrow> []) else stringValue out k)"
  by (simp add: stringValue_def msg_get_set)

lemma policy_event_set:
  "key \<notin> {''same_event'', ''event'', ''event_code''} \<Longrightarrow> policy_event (msg_set key v out) = policy_event out"
  by (auto simp: policy_event_def)

text \<open>A payload that obeys the policy of an account.\<close>

definition permitted :: "identity \<Rightarrow> message \<Rightarrow> bool" where
  "permitted identity p \<longleftrightarrow>
     (let a = id_Account identity; originator = stringValue p ''originator''
      in ac_AllowOrigination a \<and>
         originator \<in> set (ac_AllowedOriginators a) \<and> toUpper (trimSpace originator) = originator \<and> originator \<noteq> [] \<and>
         stringValue p ''same_originator'' = originator \<and>
         (policy_event p \<noteq> [] \<longrightarrow> \<not> list_ex (\<lambda>blocked. equalFold blocked (policy_event p)) (ac_BlockedEventCodes a)) \<and>
         (ac_ForceSenderID a \<longrightarrow>
            stringValue p ''sender_id'' = ac_SenderID a \<and> stringValue p ''same_callsign'' = ac_SenderID a) \<and>
         (ac_ForceOriginatorName a \<longrightarrow>
            stringValue p ''originator_name'' = forced_name identity \<and>
            stringValue p ''same_originator_name'' = forced_name identity) \<and>
         stringValue p ''originated_by_user_id'' = ac_ID a \<and>
         stringValue p ''originated_by_username'' = ac_Username a \<and>
         stringValue p ''originated_by_session_id'' = as_ID (id_Session identity) \<and>
         stringValue p ''originated_from_ip'' = as_IP (id_Session identity))"

lemma lower_upper_char: "lower_char (upper_char c) = lower_char c"
  by (auto simp: lower_char_def upper_char_def Let_def of_char_char_of_small)

lemma equalFold_upper: "equalFold a (toUpper b) = equalFold a b"
  by (simp add: equalFold_def toLower_def toUpper_def comp_def lower_upper_char)

lemma stage_fields:
  assumes "key \<in> {''originator'', ''same_originator'', ''same_event'', ''event'', ''event_code''}"
  shows "stringValue (set_originated_by identity (force_name identity (force_sender a out))) key = stringValue out key"
  using assms by (elim insertE emptyE) (simp_all add: set_originated_by_def force_name_def force_sender_def)

lemma default_texts: "trimSpace ''EAS'' = ''EAS''" "trimSpace ''WXR'' = ''WXR''"
  by code_simp+

lemma policy_result:
  assumes "applyAccountOriginationPolicy payload identity = Inr p" and "ac_AllowOrigination (id_Account identity)"
  shows "permitted identity p"
proof -
  let ?a = "id_Account identity"
  let ?o = "policy_originator payload"
  let ?out = "msg_set ''same_originator'' (StrV ?o) (msg_set ''originator'' (StrV ?o) payload)"
  have trimmed: "trimSpace (policy_event payload) = policy_event payload" by (simp add: policy_event_def)
  have allowed: "?o \<in> set (ac_AllowedOriginators ?a)"
    and blocked: "policy_event payload \<noteq> [] \<longrightarrow> \<not> list_ex (\<lambda>blocked. equalFold blocked (policy_event payload)) (ac_BlockedEventCodes ?a)"
    and p: "p = set_originated_by identity (force_name identity (force_sender ?a ?out))"
    using assms(1) by (auto simp: applyAccountOriginationPolicy_def Let_def trimmed equalFold_upper split: if_split_asm)
  have upper: "toUpper (trimSpace ?o) = ?o" by (simp add: policy_originator_def Let_def)
  have nonempty: "?o \<noteq> []" 
    by (auto simp: policy_originator_def Let_def firstNonBlank_Nil_iff default_texts)
  have originator: "stringValue p ''originator'' = ?o" "stringValue p ''same_originator'' = ?o"
    unfolding p by (simp_all add: stage_fields)
  have event: "policy_event p = policy_event payload"
    unfolding p policy_event_def by (simp add: stage_fields)
  have sender: "ac_ForceSenderID ?a \<Longrightarrow> stringValue p ''sender_id'' = ac_SenderID ?a \<and> stringValue p ''same_callsign'' = ac_SenderID ?a"
    unfolding p by (simp add: set_originated_by_def force_name_def force_sender_def)
  have name: "ac_ForceOriginatorName ?a \<Longrightarrow>
      stringValue p ''originator_name'' = forced_name identity \<and> stringValue p ''same_originator_name'' = forced_name identity"
    unfolding p by (simp add: set_originated_by_def force_name_def)
  have user: "stringValue p ''originated_by_user_id'' = ac_ID ?a" "stringValue p ''originated_by_username'' = ac_Username ?a"
    "stringValue p ''originated_by_session_id'' = as_ID (id_Session identity)"
    "stringValue p ''originated_from_ip'' = as_IP (id_Session identity)"
    unfolding p by (simp_all add: set_originated_by_def)
  show ?thesis
    unfolding permitted_def Let_def originator event
    using assms(2) allowed blocked upper nonempty sender name user by blast
qed

lemma AllowOrigination_allowed: "AllowOrigination env identity g = (g', None) \<Longrightarrow> ac_AllowOrigination (id_Account identity)"
  by (auto simp: AllowOrigination_def Let_def split: if_split_asm)

lemma origination_permitted:
  "origination_policy env archive identity command payload g = (g', Inr p) \<Longrightarrow> usesOriginationPolicy command payload \<Longrightarrow>
   permitted identity p"
  by (auto simp: origination_policy_def split: sum.split_asm prod.split_asm option.split_asm
      intro: policy_result AllowOrigination_allowed)

lemma audited_command_exec:
  "(\<And>g'. exec command p g' = exec' command p g') \<Longrightarrow> audited_command exec identity command p g = audited_command exec' identity command p g"
  by (simp add: audited_command_def)

text \<open>C18: an alert is originated only as the account allows it. A command under the origination policy is executed, if at all,
  with a payload that obeys the policy of the account of the request: whatever the command does with other
  payloads makes no difference.\<close>

theorem originated_alert_permitted:
  assumes "Authenticate env R request g = (g1, Inr identity)" and "usesOriginationPolicy command payload"
    and "\<And>p g'. permitted identity p \<Longrightarrow> exec command p g' = exec' command p g'"
  shows "handleCommand env R archive exec request command payload g = handleCommand env R archive exec' request command payload g"
proof (cases "origination_policy env archive identity command payload g1")
  case (Pair g2 r)
  show ?thesis
  proof (cases r)
    case (Inr p)
    then have "permitted identity p" using origination_permitted [OF _ assms(2)] Pair by blast
    then have "audited_command exec identity command p g2 = audited_command exec' identity command p g2"
      by (intro audited_command_exec assms(3))
    then show ?thesis using assms(1) Pair Inr by (simp add: handleCommand_def split: option.split)
  qed (use assms(1) Pair in \<open>simp add: handleCommand_def split: option.split\<close>)
qed

lemma payload_text:
  assumes "trimSpace (stringValue p key) \<noteq> []"
  shows "stringPayload p key fallback = trimSpace (stringValue p key)"
  using assms by (simp add: stringPayload_def stringValue_def split: any.splits)

lemma same_request_fields [simp]:
  "wr_Event (same_request p event locations duration callsign tone) = event"
  "wr_Callsign (same_request p event locations duration callsign tone) = callsign"
  "wr_Originator (same_request p event locations duration callsign tone) = toUpper (trimSpace (stringPayload p ''originator'' ''WXR''))"
  "wr_OriginatorName (same_request p event locations duration callsign tone) =
     firstNonBlank [stringPayload p ''originator_name'' [], stringPayload p ''same_originator_name'' []]"
  "wr_User (same_request p event locations duration callsign tone) = stringPayload p ''originated_by_username'' []"
  by (simp_all add: same_request_def)

text \<open>The request for the payload \<open>p\<close>, of \<open>same.air\<close> and \<open>same.generate\<close> or of \<open>same.test\<close>; \<open>key\<close> is the field from which
  it takes its event code.\<close>

definition requested :: "same_config \<Rightarrow> string + message list \<Rightarrow> message \<Rightarrow> string \<Rightarrow> web_sameRequest \<Rightarrow> bool" where
  "requested cfg summaries p key req \<longleftrightarrow>
     key = ''event'' \<and> buildSameRequest cfg p = Inr req \<or> key = ''event_code'' \<and> generateSameTest cfg summaries p = Inr req"

lemma request_built: "(if bad then Inl e else Inr req0) = Inr req \<Longrightarrow> req = req0"
  by (simp split: if_split_asm)

lemma request_built2: "(if bad then Inl e else if worse then Inl d else Inr req0) = Inr req \<Longrightarrow> req = req0"
  by (simp split: if_split_asm)

lemma requestI:
  assumes "trimSpace (stringValue p key) \<noteq> [] \<longrightarrow> event = toUpper (trimSpace (stringValue p key))"
    and "trimSpace (stringValue p ''sender_id'') \<noteq> [] \<longrightarrow> callsign = trimSpace (stringValue p ''sender_id'')"
    and "req = same_request p event locations duration callsign tone"
  shows "\<exists>event locations duration callsign tone. req = same_request p event locations duration callsign tone \<and>
    (trimSpace (stringValue p key) \<noteq> [] \<longrightarrow> event = toUpper (trimSpace (stringValue p key))) \<and>
    (trimSpace (stringValue p ''sender_id'') \<noteq> [] \<longrightarrow> callsign = trimSpace (stringValue p ''sender_id''))"
  using assms by blast

lemma requested_from:
  assumes "requested cfg summaries p key req"
  shows "\<exists>event locations duration callsign tone. req = same_request p event locations duration callsign tone \<and>
    (trimSpace (stringValue p key) \<noteq> [] \<longrightarrow> event = toUpper (trimSpace (stringValue p key))) \<and>
    (trimSpace (stringValue p ''sender_id'') \<noteq> [] \<longrightarrow> callsign = trimSpace (stringValue p ''sender_id''))"
  using assms unfolding requested_def
proof (elim disjE conjE)
  assume "key = ''event''" and built: "buildSameRequest cfg p = Inr req"
  then show ?thesis
    by (intro requestI [OF _ _ built [unfolded buildSameRequest_def Let_def, THEN request_built]]) (simp_all add: payload_text)
next
  assume key: "key = ''event_code''" and test: "generateSameTest cfg summaries p = Inr req"
  show ?thesis
  proof (cases "\<exists>template. msg_get p ''template'' = ObjV template")
    case True
    then obtain template where built: "buildTemplateSameRequest cfg template p = Inr req"
      using test by (auto simp: generateSameTest_def)
    show ?thesis
      by (intro requestI [OF _ _ built [unfolded buildTemplateSameRequest_def Let_def, THEN request_built2]]) (simp_all add: key payload_text)
  next
    case False
    then obtain feeds where built: "default_test_request cfg feeds p = Inr req"
      using test by (auto simp: generateSameTest_def split: any.split_asm sum.split_asm)
    obtain feedID locations where feed: "test_feed feeds [] = (feedID, locations)" by (cases "test_feed feeds []")
    show ?thesis
      by (intro requestI [OF _ _ built [unfolded default_test_request_def feed prod.case, THEN request_built]])
        (simp_all add: key payload_text)
  qed
qed

text \<open>C23: the SAME request of a permitted payload carries an originator the account may use, the forced sender and originator
  name, and the user it was originated by; its event code is not blocked, provided it was given in the field
  the request reads and in the field the policy reads alike.\<close>

theorem same_request_obeys_policy:
  assumes "permitted identity p" and "requested cfg summaries p key req"
  defines "a \<equiv> id_Account identity"
  shows "wr_Originator req \<in> set (ac_AllowedOriginators a) \<and>
    (ac_ForceSenderID a \<and> trimSpace (ac_SenderID a) \<noteq> [] \<longrightarrow> wr_Callsign req = trimSpace (ac_SenderID a)) \<and>
    (ac_ForceOriginatorName a \<and> trimSpace (forced_name identity) \<noteq> [] \<longrightarrow> wr_OriginatorName req = trimSpace (forced_name identity)) \<and>
    (trimSpace (ac_Username a) \<noteq> [] \<longrightarrow> wr_User req = trimSpace (ac_Username a)) \<and>
    (trimSpace (stringValue p key) \<noteq> [] \<and> policy_event p = trimSpace (stringValue p key) \<longrightarrow>
       \<not> list_ex (\<lambda>blocked. equalFold blocked (wr_Event req)) (ac_BlockedEventCodes a))"
proof -
  obtain event locations duration callsign tone where
    req: "req = same_request p event locations duration callsign tone"
    and event: "trimSpace (stringValue p key) \<noteq> [] \<longrightarrow> event = toUpper (trimSpace (stringValue p key))"
    and sender: "trimSpace (stringValue p ''sender_id'') \<noteq> [] \<longrightarrow> callsign = trimSpace (stringValue p ''sender_id'')"
    using requested_from [OF assms(2)] by blast
  have originator: "wr_Originator req = stringValue p ''originator''"
  proof -
    have "toUpper (trimSpace (stringValue p ''originator'')) = stringValue p ''originator''" "stringValue p ''originator'' \<noteq> []"
      using assms(1) by (simp_all add: permitted_def Let_def)
    moreover from this have "trimSpace (stringValue p ''originator'') \<noteq> []" by auto
    ultimately show ?thesis by (simp add: req payload_text)
  qed
  have "\<not> list_ex (\<lambda>blocked. equalFold blocked (wr_Event req)) (ac_BlockedEventCodes a)"
    if "trimSpace (stringValue p key) \<noteq> []" "policy_event p = trimSpace (stringValue p key)"
  proof -
    have "policy_event p \<noteq> [] \<longrightarrow> \<not> list_ex (\<lambda>blocked. equalFold blocked (policy_event p)) (ac_BlockedEventCodes a)"
      using assms(1) unfolding permitted_def Let_def a_def by blast
    with that show ?thesis using event by (simp add: req equalFold_upper)
  qed
  moreover have "wr_Originator req \<in> set (ac_AllowedOriginators a)"
    using assms(1) originator unfolding permitted_def Let_def a_def by simp
  moreover have "ac_ForceSenderID a \<and> trimSpace (ac_SenderID a) \<noteq> [] \<longrightarrow> wr_Callsign req = trimSpace (ac_SenderID a)"
    using assms(1) sender unfolding permitted_def Let_def a_def by (simp add: req)
  moreover have "ac_ForceOriginatorName a \<and> trimSpace (forced_name identity) \<noteq> [] \<longrightarrow> wr_OriginatorName req = trimSpace (forced_name identity)"
    using assms(1) unfolding permitted_def Let_def a_def by (simp add: req payload_text)
  moreover have "trimSpace (ac_Username a) \<noteq> [] \<longrightarrow> wr_User req = trimSpace (ac_Username a)"
    using assms(1) unfolding permitted_def Let_def a_def by (simp add: req payload_text)
  ultimately show ?thesis by blast
qed

text \<open>C24: a blocked event code can be broadcast. The policy looks at \<open>same_event\<close> before \<open>event\<close>, the request is made from
  \<open>event\<close>: with a code in \<open>same_event\<close> that is not blocked, a payload passes the policy whatever code is in \<open>event\<close>,
  and the request has that code.\<close>

theorem blocked_event_broadcast:
  assumes "msg_get payload ''originator'' = StrV originator" and "toUpper (trimSpace originator) = originator" and "originator \<noteq> []"
    and "originator \<in> set (ac_AllowedOriginators (id_Account identity))"
    and "trimSpace (stringValue payload ''same_event'') \<noteq> []"
    and "\<not> list_ex (\<lambda>blocked. equalFold blocked (trimSpace (stringValue payload ''same_event''))) (ac_BlockedEventCodes (id_Account identity))"
    and "trimSpace (stringValue payload ''event'') \<noteq> []" and "stringSlicePayload payload ''locations'' \<noteq> []"
  shows "\<exists>p req. applyAccountOriginationPolicy payload identity = Inr p \<and> buildSameRequest cfg p = Inr req \<and>
    wr_Event req = toUpper (trimSpace (stringValue payload ''event''))"
proof -
  let ?a = "id_Account identity"
  have given: "stringValue payload ''originator'' = originator" using assms(1) by (simp add: stringValue_def)
  have "trimSpace originator \<noteq> []" using assms(2,3) by auto
  then have "policy_originator payload = originator" using assms(2) by (simp add: policy_originator_def Let_def given)
  moreover have "policy_event payload = trimSpace (stringValue payload ''same_event'')" using assms(5) by (simp add: policy_event_def)
  ultimately obtain p where
    p: "applyAccountOriginationPolicy payload identity = Inr p"
    and form: "p = set_originated_by identity (force_name identity (force_sender ?a
        (msg_set ''same_originator'' (StrV originator) (msg_set ''originator'' (StrV originator) payload))))"
    using assms(4,6) by (simp add: applyAccountOriginationPolicy_def equalFold_upper)
  have event: "stringValue p ''event'' = stringValue payload ''event''" unfolding form by (simp add: stage_fields)
  have "msg_get p ''locations'' = msg_get payload ''locations''"
    unfolding form by (simp add: set_originated_by_def force_name_def force_sender_def msg_get_set)
  then have "stringSlicePayload p ''locations'' = stringSlicePayload payload ''locations''" by (simp only: stringSlicePayload_def)
  then have "stringSlicePayload p ''locations'' \<noteq> []" using assms(8) by simp
  then obtain req where "buildSameRequest cfg p = Inr req" "wr_Event req = toUpper (trimSpace (stringPayload p ''event'' ''RWT''))"
    by (simp add: buildSameRequest_def)
  then show ?thesis using p event assms(7) by (auto simp: payload_text)
qed

section \<open>Audit records\<close>

text \<open>A payload with every secret taken out, at any depth.\<close>

fun without_secrets :: "string \<Rightarrow> any \<Rightarrow> any"
  and entries_without_secrets :: "message \<Rightarrow> message" where
  "without_secrets key v =
     (if secret_key key then NilV
      else (case v of
          ObjV kvs \<Rightarrow> ObjV (entries_without_secrets kvs)
        | ArrV items \<Rightarrow> ArrV (map (without_secrets key) items)
        | _ \<Rightarrow> v))"
| "entries_without_secrets [] = []"
| "entries_without_secrets ((key, v) # rest) = (key, without_secrets key v) # entries_without_secrets rest"

declare without_secrets.simps [simp del]

lemma without_value:
  "secret_key key \<Longrightarrow> without_secrets key v = NilV"
  "\<not> secret_key key \<Longrightarrow> without_secrets key (ObjV kvs) = ObjV (entries_without_secrets kvs)"
  "\<not> secret_key key \<Longrightarrow> without_secrets key (ArrV items) = ArrV (map (without_secrets key) items)"
  "\<not> secret_key key \<Longrightarrow> without_secrets key (StrV s) = StrV s"
  "\<not> secret_key key \<Longrightarrow> without_secrets key (NumV s) = NumV s"
  "\<not> secret_key key \<Longrightarrow> without_secrets key (BoolV b) = BoolV b"
  "\<not> secret_key key \<Longrightarrow> without_secrets key NilV = NilV"
  by (simp_all add: without_secrets.simps [of key v] without_secrets.simps [of key "ObjV kvs"]
      without_secrets.simps [of key "ArrV items"] without_secrets.simps [of key "StrV s"] without_secrets.simps [of key "NumV s"]
      without_secrets.simps [of key "BoolV b"] without_secrets.simps [of key NilV])

lemma sanitized_without_secrets:
  "sanitizedAuditValue key (without_secrets key v) depth = sanitizedAuditValue key v depth"
  "sanitized_entries (entries_without_secrets kvs) depth = sanitized_entries kvs depth"
  "sanitized_items key n (map (without_secrets key) items) depth = sanitized_items key n items depth"
proof (induction key v depth and kvs depth and key n items depth rule: sanitizedAuditValue_sanitized_entries_sanitized_items.induct)
  case (1 key v depth)
  then show ?case
    by (cases v; cases "secret_key key"; simp add: without_value sanitizedAuditValue.simps [of key])
qed auto

lemma action_plain: "\<not> secret_key ''action''"
  by code_simp

lemma action_kept: "stringValue (entries_without_secrets payload) ''action'' = stringValue payload ''action''"
proof (induction payload)
  case (Cons kv payload)
  obtain key v where "kv = (key, v)" by (cases kv)
  then show ?case
    using Cons action_plain by (cases v) (auto simp: stringValue_def msg_get_def without_value)
qed simp

text \<open>\<open>audit_bounded k\<close>: at most \<open>k\<close> levels of objects and lists, texts of at most 524 bytes, lists of at most 50 items.\<close>

fun audit_bounded :: "nat \<Rightarrow> any \<Rightarrow> bool" where
  "audit_bounded (Suc k) (ArrV items) = (length items \<le> 50 \<and> (\<forall>v\<in>set items. audit_bounded k v))"
| "audit_bounded (Suc k) (ObjV kvs) = (\<forall>kv\<in>set kvs. audit_bounded k (snd kv))"
| "audit_bounded k (StrV s) = (length s \<le> 524)"
| "audit_bounded k v = (case v of ArrV items \<Rightarrow> False | ObjV kvs \<Rightarrow> False | _ \<Rightarrow> True)"

lemma sanitized_bounded:
  "depth \<le> 5 \<Longrightarrow> audit_bounded (5 - depth) (sanitizedAuditValue key v depth)"
  "depth \<le> 5 \<Longrightarrow> \<forall>kv\<in>set (sanitized_entries kvs depth). audit_bounded (5 - depth) (snd kv)"
  "depth \<le> 5 \<Longrightarrow> length (sanitized_items key n items depth) \<le> n \<and> (\<forall>v\<in>set (sanitized_items key n items depth). audit_bounded (5 - depth) v)"
proof (induction key v depth and kvs depth and key n items depth rule: sanitizedAuditValue_sanitized_entries_sanitized_items.induct)
  case (1 key v depth)
  then show ?case
    by (cases v) (auto simp: sanitizedAuditValue.simps [of key] Suc_diff_le [of "Suc depth" 5, simplified])
qed auto

text \<open>C25: the audit record of a change to the panel has no secrets: payloads that differ only in values under keys that name a secret
  give the same record. Of the payload the record keeps at most five levels, no text value of more than 524 bytes
  and no list of more than 50 items; the number of entries of an object, the length of their keys and the copy of
  the action beside the payload are not limited.\<close>

theorem audit_record_hides_secrets:
  assumes "entries_without_secrets payload = entries_without_secrets payload'"
  shows "mutation_details command payload = mutation_details command payload' \<and>
    audit_bounded 5 (ObjV (sanitizedAuditMap payload 0))"
proof
  have "sanitized_entries payload 1 = sanitized_entries payload' 1"
    using sanitized_without_secrets(2) [of payload 1] sanitized_without_secrets(2) [of payload' 1] assms by simp
  moreover have "stringValue payload ''action'' = stringValue payload' ''action''"
    using action_kept [of payload] action_kept [of payload'] assms by simp
  ultimately show "mutation_details command payload = mutation_details command payload'"
    by (simp add: mutation_details_def sanitizedAuditMap_def)
  show "audit_bounded 5 (ObjV (sanitizedAuditMap payload 0))"
    using sanitized_bounded(2) [of 1 payload] by (simp add: sanitizedAuditMap_def eval_nat_numeral)
qed

section \<open>Recorded before executed\<close>

lemma AllowOrigination_keeps:
  assumes "AllowOrigination env identity g = (g', r)"
  shows "gw_auditFails g' = gw_auditFails g \<and> gw_users g' = gw_users g \<and> gw_sessions g' = gw_sessions g"
  using assms
  by (auto simp: AllowOrigination_def rate_call_def Let_def split: if_split_asm prod.split_asm list.split_asm sum.split_asm)

lemma policy_keys:
  assumes "key \<in> {''action'', ''kind''}"
  shows "key \<noteq> ''originator''" "key \<noteq> ''same_originator''" "key \<noteq> ''event''" "key \<noteq> ''same_event''" "key \<noteq> ''event_code''"
    "key \<noteq> ''sender_id''" "key \<noteq> ''same_callsign''" "key \<noteq> ''originator_name''" "key \<noteq> ''same_originator_name''"
    "key \<noteq> ''originated_by_user_id''" "key \<noteq> ''originated_by_username''" "key \<noteq> ''originated_by_session_id''"
    "key \<noteq> ''originated_from_ip''"
  using assms by auto

lemma prepared_keeps:
  assumes "prepareAccountOriginationPolicyPayload archive command payload = Inr p" and "key \<in> {''action'', ''kind''}"
  shows "stringValue p key = stringValue payload key"
proof -
  note keys = policy_keys [OF assms(2)]
  have same: "stringValue (set_event code out) key = stringValue out key" for code out
    by (simp add: set_event_def keys)
  have test: "stringValue (template_defaults payload) key = stringValue payload key"
    by (cases "msg_get payload ''template''") (simp_all add: template_defaults_def Let_def same keys)
  have archived: "stringValue (archive_defaults naads r out) key = stringValue out key" for naads r out
    by (simp add: archive_defaults_def Let_def same keys)
  show ?thesis
    using assms(1) test archived
    by (auto simp: prepareAccountOriginationPolicyPayload_def Let_def split: if_split_asm option.split_asm)
qed

lemma applied_keeps:
  assumes "applyAccountOriginationPolicy payload identity = Inr p" and "key \<in> {''action'', ''kind''}"
  shows "stringValue p key = stringValue payload key"
proof -
  note keys = policy_keys [OF assms(2)]
  obtain o1 o2 where "p = set_originated_by identity (force_name identity (force_sender (id_Account identity)
      (msg_set ''same_originator'' (StrV o1) (msg_set ''originator'' (StrV o2) payload))))"
    using assms(1) unfolding applyAccountOriginationPolicy_def Let_def by (auto split: if_split_asm)
  then show ?thesis by (simp add: set_originated_by_def force_name_def force_sender_def keys)
qed

lemma policy_keeps:
  assumes "origination_policy env archive identity command payload g = (g', Inr p)"
  shows "isOriginationExecution command p = isOriginationExecution command payload \<and>
    auditedWebpanelMutation command p = auditedWebpanelMutation command payload"
proof -
  have "stringValue p key = stringValue payload key" if "key \<in> {''action'', ''kind''}" for key
    using assms prepared_keeps [OF _ that] applied_keeps [OF _ that]
    by (auto simp: origination_policy_def split: if_split_asm sum.split_asm prod.split_asm option.split_asm)
  then show ?thesis by (simp add: isOriginationExecution_def archiveActionBroadcasts_def auditedWebpanelMutation_def)
qed

lemma policy_gateway:
  "origination_policy env archive identity command payload g = (g', r) \<Longrightarrow>
   gw_auditFails g' = gw_auditFails g \<and> gw_users g' = gw_users g \<and> gw_sessions g' = gw_sessions g"
  by (auto simp: origination_policy_def split: if_split_asm sum.split_asm prod.split_asm option.split_asm dest: AllowOrigination_keeps)

text \<open>C26: a command that must be recorded is not executed unrecorded. When the record of an origination or of a change to the panel
  cannot be written, the command fails without being executed, and accounts and sessions stay as they were.\<close>

theorem unrecorded_command_not_executed:
  assumes "Authenticate env R request g = (g1, Inr identity)" and "ac_LoggingEnabled (id_Account identity)"
    and "isOriginationExecution command payload \<or> auditedWebpanelMutation command payload"
    and "gw_auditFails g1 = True # fails"
  shows "\<exists>g' e. gw_users g' = gw_users g1 \<and> gw_sessions g' = gw_sessions g1 \<and>
    (\<forall>exec. handleCommand env R archive exec request command payload g = (g', Inl e))"
proof -
  let ?refused = "command_refused identity command payload"
  obtain g2 r where policy: "origination_policy env archive identity command payload g1 = (g2, r)"
    by (cases "origination_policy env archive identity command payload g1")
  note kept = policy_gateway [OF policy]
  consider e where "?refused = Some e" | e where "?refused = None" "r = Inl e" | p where "?refused = None" "r = Inr p"
    by (cases r; cases ?refused) auto
  then show ?thesis
  proof cases
    case 1
    then show ?thesis using assms(1) by (auto simp: handleCommand_def)
  next
    case 2
    then have "handleCommand env R archive exec request command payload g = (g2, Inl (CmdAuth e))" for exec
      using assms(1) policy by (simp add: handleCommand_def)
    then show ?thesis using kept by blast
  next
    case 3
    have must: "isOriginationExecution command p \<or> auditedWebpanelMutation command p"
      using policy_keeps [of env archive identity command payload g1 g2 p] policy 3 assms(3) by simp
    let ?g3 = "g2\<lparr>gw_auditFails := fails\<rparr>"
    have fails: "audit_append category event actor session g2 = (?g3, False)" for category event actor session
      using kept assms(4) by (simp add: audit_append_def)
    have "audited_command exec identity command p g2 =
        (?g3, Inl (CmdError (if isOriginationExecution command p then ''alert audit integrity failure'' else ''web panel audit integrity failure'')))"
      for exec
      using must assms(2)
      by (cases "isOriginationExecution command p") (simp_all add: audited_command_def Let_def audit_if_def auditOrigination_def auditWebpanel_def fails)
    then have "handleCommand env R archive exec request command payload g =
        (?g3, Inl (CmdError (if isOriginationExecution command p then ''alert audit integrity failure'' else ''web panel audit integrity failure'')))"
      for exec
      using assms(1) policy 3 by (simp add: handleCommand_def)
    then show ?thesis using kept by (intro exI [of _ ?g3]) auto
  qed
qed

section \<open>Witnesses\<close>

definition desk_identity :: identity where
  "desk_identity =
     \<lparr>id_Account = sample_account, id_Session = sample_session\<lparr>as_IP := ''192.0.2.7''\<rparr>, id_PasswordChangeRequired = False, id_RawSessionID = ''sid''\<rparr>"

lemma desk_authenticated:
  "\<exists>g1. Authenticate web_env (memorySessionRegistry (ae_hash web_env)) client_request (sample_gateway\<lparr>gw_auditFails := fails\<rparr>) =
     (g1, Inr desk_identity) \<and> gw_auditFails g1 = fails \<and> gw_users g1 = sample_users"
  by (simp add: Authenticate_def web_env_def client_request_facts sample_claims_def authenticate_session_def
      memorySessionRegistry_def memory_Get_def cleanupLocked_def sample_gateway_def sample_session_def Let_def
      authenticate_account_def db_read_def db_def sample_ByID desk_identity_def)
     (simp add: sample_account_def second_def passwordExpired_def minute_def)

definition refusing :: "'s executor" where
  "refusing command p g = (g, if permitted desk_identity p then Inr NilV else Inl (CmdError ''not permitted''))"

theorem originated_alert_permitted_witness:
  "handleCommand web_env (memorySessionRegistry (ae_hash web_env)) ([], None) (\<lambda>command p g. (g, Inr NilV)) client_request ''same.air''
     [(''originator'', StrV ''CIV'')] (sample_gateway\<lparr>gw_auditFails := []\<rparr>) =
   handleCommand web_env (memorySessionRegistry (ae_hash web_env)) ([], None) refusing client_request ''same.air''
     [(''originator'', StrV ''CIV'')] (sample_gateway\<lparr>gw_auditFails := []\<rparr>)"
proof -
  obtain g1 where accepted: "Authenticate web_env (memorySessionRegistry (ae_hash web_env)) client_request
      (sample_gateway\<lparr>gw_auditFails := []\<rparr>) = (g1, Inr desk_identity)"
    using desk_authenticated by blast
  show ?thesis
    by (rule originated_alert_permitted [OF accepted])
      (simp_all add: usesOriginationPolicy_def isOriginationExecution_def refusing_def)
qed

definition air_payload :: message where
  "air_payload = [(''event'', StrV ''TOR''), (''locations'', ArrV [StrV ''061100'']), (''originator'', StrV ''WXR''), (''same_event'', StrV ''RWT'')]"

lemma air_texts:
  "stringValue air_payload ''originator'' = ''WXR''" "trimSpace (stringValue air_payload ''same_event'') = ''RWT''"
  "trimSpace (stringValue air_payload ''event'') = ''TOR''" "stringSlicePayload air_payload ''locations'' = [''061100'']"
  "toUpper (trimSpace ''WXR'') = ''WXR''" "toUpper ''TOR'' = ''TOR''" "msg_get air_payload ''originator'' = StrV ''WXR''"
  "equalFold ''TOR'' ''TOR''" "\<not> equalFold ''TOR'' ''RWT''"
  by code_simp+

theorem blocked_event_broadcast_witness:
  "let identity = desk_identity\<lparr>id_Account := sample_account\<lparr>ac_BlockedEventCodes := [''TOR'']\<rparr>\<rparr>
   in \<exists>p req. applyAccountOriginationPolicy air_payload identity = Inr p \<and> buildSameRequest sample_same_config p = Inr req \<and>
        wr_Event req \<in> set (ac_BlockedEventCodes (id_Account identity))"
  using blocked_event_broadcast [of air_payload "''WXR''" "desk_identity\<lparr>id_Account := sample_account\<lparr>ac_BlockedEventCodes := [''TOR'']\<rparr>\<rparr>"
      sample_same_config]
  by (simp add: air_texts Let_def) (auto simp: sample_account_def)

lemma air_permitted:
  "case applyAccountOriginationPolicy air_payload desk_identity of Inl e \<Rightarrow> False
   | Inr p \<Rightarrow> \<not> list_ex (\<lambda>e. buildSameRequest sample_same_config p = Inl e) [''at least one SAME location is required'']"
  by code_simp

lemma build_fails: "buildSameRequest cfg p = Inl e \<Longrightarrow> e = ''at least one SAME location is required''"
  by (simp add: buildSameRequest_def Let_def split: if_split_asm)

theorem same_request_obeys_policy_witness:
  "\<exists>p req. applyAccountOriginationPolicy air_payload desk_identity = Inr p \<and> buildSameRequest sample_same_config p = Inr req \<and>
     wr_Originator req = ''WXR'' \<and> wr_User req = ''ops''"
proof -
  obtain p req where p: "applyAccountOriginationPolicy air_payload desk_identity = Inr p" "buildSameRequest sample_same_config p = Inr req"
    using air_permitted build_fails by (auto split: sum.split_asm) (metis sum.exhaust)
  have "permitted desk_identity p"
    by (rule policy_result [OF p(1)]) (simp add: desk_identity_def sample_account_def)
  from same_request_obeys_policy [OF this, of sample_same_config "Inl []" "''event''" req] p
  show ?thesis by (auto simp: requested_def desk_identity_def sample_account_def trimSpace_solid solid_def space1_def)
qed

theorem audit_record_hides_secrets_witness:
  "mutation_details ''tts.save'' [(''api_key'', StrV ''k1''), (''voice'', StrV ''en'')] =
   mutation_details ''tts.save'' [(''api_key'', StrV ''k2''), (''voice'', StrV ''en'')]"
proof -
  have "secret_key ''api_key''" by code_simp
  then show ?thesis
    using audit_record_hides_secrets [of "[(''api_key'', StrV ''k1''), (''voice'', StrV ''en'')]" "[(''api_key'', StrV ''k2''), (''voice'', StrV ''en'')]"]
    by (simp add: without_value)
qed

theorem unrecorded_command_not_executed_witness:
  "\<exists>g' e. gw_users g' = sample_users \<and>
     (\<forall>exec. handleCommand web_env (memorySessionRegistry (ae_hash web_env)) ([], None) exec client_request ''same.air'' air_payload
        (sample_gateway\<lparr>gw_auditFails := [True]\<rparr>) = (g', Inl e))"
proof -
  obtain g1 where accepted: "Authenticate web_env (memorySessionRegistry (ae_hash web_env)) client_request
      (sample_gateway\<lparr>gw_auditFails := [True]\<rparr>) = (g1, Inr desk_identity)" "gw_auditFails g1 = [True]" "gw_users g1 = sample_users"
    using desk_authenticated by blast
  show ?thesis
    using unrecorded_command_not_executed [OF accepted(1), of "''same.air''" air_payload "[]" "([], None)"] accepted(2,3)
    by (simp add: isOriginationExecution_def desk_identity_def sample_account_def) blast
qed

text \<open>An action with spaces around it is previewed without the policy, although \<open>nonAdminCommandAllowed\<close> trims it.\<close>

lemma padded_preview_skips_policy:
  "ac_CanViewLogs a \<Longrightarrow> nonAdminCommandAllowed ''alerts.archive.action'' [(''action'', StrV '' preview_same '')] a \<and>
     \<not> usesOriginationPolicy ''alerts.archive.action'' [(''action'', StrV '' preview_same '')]"
proof -
  assume "ac_CanViewLogs a"
  moreover have "toLower (trimSpace (stringValue [(''action'', StrV '' preview_same '')] ''action'')) = ''preview_same''"
    "\<not> usesOriginationPolicy ''alerts.archive.action'' [(''action'', StrV '' preview_same '')]"
    by code_simp+
  ultimately show ?thesis by (simp add: nonAdminCommandAllowed_def open_commands_def)
qed

end
