(* ===== verification/Account_Commands.thy ===== *)
theory Account_Commands
  imports Web_Command
begin

text \<open>
  The account commands of the web panel, \<open>accountCommand\<close> in \<open>internal/webgateway/accounts_commands.go\<close>, with every change
  they make to accounts, sessions, limits and the audit log.
  \<^item> The mutation lock is not part of the state: requests that do not take it, such as sign-ins, run between the
    calls to the database (\<open>gw_script\<close>).
  \<^item> Renaming the audit log succeeds or fails as \<open>gw_auditFails\<close> says; \<open>Audit_Log\<close> has what it does. The records kept
    by the gateway name an actor by identifier, so a rename leaves them as they are.
  \<^item> The list of accounts is answered together with the settings of the sign-in, which are left out.
  \<^item> The steps that many commands share (administrator check, lookup of the target, the record before and the record
    after the change) are functions that take the rest of the command.
\<close>

section \<open>Data\<close>

datatype accountError =
    AccAuth authError
  | AccStore storeError
  | AccRegistry registryError
  | AccError string

datatype accountResult =
    AccountList "account list"
  | AccountSessions account "activeSession list"
  | AccountResult account
  | Updated
  | RevokedResult
  | DeletedResult
  | ProfileResult account activeSession bool
  | SessionList "activeSession list"

text \<open>A result, and whether the record of its completion was written (\<open>accountMutationAuditWarning\<close> if not).\<close>

type_synonym 's outcome = "'s gateway \<times> (accountError + accountResult \<times> bool)"

section \<open>Policies\<close>

definition field_text :: "message \<Rightarrow> string \<Rightarrow> string \<Rightarrow> string" where
  "field_text payload key old = (case map_of payload key of None \<Rightarrow> old | Some v \<Rightarrow> trimSpace (sprint v))"

definition list_field_of :: "message \<Rightarrow> string \<Rightarrow> string list \<Rightarrow> string list" where
  "list_field_of payload key old = (case map_of payload key of None \<Rightarrow> old | Some v \<Rightarrow> web_stringListAny v)"

definition accountPolicyFromPayload :: "(string \<Rightarrow> int) \<Rightarrow> account \<Rightarrow> message \<Rightarrow> account" where
  "accountPolicyFromPayload number a payload =
     a\<lparr>ac_Username := field_text payload ''username'' (ac_Username a),
       ac_SenderID := field_text payload ''sender_id'' (ac_SenderID a),
       ac_ForceSenderID := boolPayload payload ''force_sender_id'' (ac_ForceSenderID a),
       ac_AllowOrigination := boolPayload payload ''allow_origination'' (ac_AllowOrigination a),
       ac_AllowedOriginators := list_field_of payload ''allowed_originators'' (ac_AllowedOriginators a),
       ac_BlockedEventCodes := list_field_of payload ''blocked_event_codes'' (ac_BlockedEventCodes a),
       ac_ForceOriginatorName := boolPayload payload ''force_originator_name'' (ac_ForceOriginatorName a),
       ac_OriginatorNameText := field_text payload ''originator_name_text'' (ac_OriginatorNameText a),
       ac_IncludeIPInBrackets := boolPayload payload ''include_ip_in_brackets'' (ac_IncludeIPInBrackets a),
       ac_CanViewLogs := boolPayload payload ''can_view_logs'' (ac_CanViewLogs a),
       ac_AllowPersistentSessions := boolPayload payload ''allow_persistent_sessions'' (ac_AllowPersistentSessions a),
       ac_PasswordExpiryDays := intPayload number payload ''password_expiry_days'' (ac_PasswordExpiryDays a),
       ac_AllowUserPasswordChange := boolPayload payload ''allow_user_pw_change'' (ac_AllowUserPasswordChange a),
       ac_LoggingEnabled := boolPayload payload ''logging_enabled'' (ac_LoggingEnabled a),
       ac_IsAdmin := boolPayload payload ''is_admin'' (ac_IsAdmin a),
       ac_CIDRWhitelist := list_field_of payload (if map_of payload ''cidr_allowlist'' \<noteq> None then ''cidr_allowlist'' else ''cidr_whitelist'')
         (ac_CIDRWhitelist a)\<rparr>"

definition accountPolicyAuditView :: "account \<Rightarrow> message" where
  "accountPolicyAuditView a =
     (let texts = (\<lambda>ts. ArrV (map StrV ts))
      in [(''username'', StrV (ac_Username a)), (''sender_id'', StrV (ac_SenderID a)),
          (''force_sender_id'', BoolV (ac_ForceSenderID a)), (''allow_origination'', BoolV (ac_AllowOrigination a)),
          (''allowed_originators'', texts (ac_AllowedOriginators a)), (''blocked_event_codes'', texts (ac_BlockedEventCodes a)),
          (''force_originator_name'', BoolV (ac_ForceOriginatorName a)), (''originator_name_text'', StrV (ac_OriginatorNameText a)),
          (''include_ip_in_brackets'', BoolV (ac_IncludeIPInBrackets a)), (''can_view_logs'', BoolV (ac_CanViewLogs a)),
          (''allow_persistent_sessions'', BoolV (ac_AllowPersistentSessions a)),
          (''password_expiry_days'', NumV (itoaInt (ac_PasswordExpiryDays a))),
          (''allow_user_pw_change'', BoolV (ac_AllowUserPasswordChange a)), (''logging_enabled'', BoolV (ac_LoggingEnabled a)),
          (''account_locked'', BoolV (ac_AccountLocked a)), (''mfa_enabled'', BoolV (ac_MFAEnabled a)),
          (''is_admin'', BoolV (ac_IsAdmin a)), (''cidr_allowlist'', texts (ac_CIDRWhitelist a))])"

definition changed_fields :: "account \<Rightarrow> account \<Rightarrow> string list" where
  "changed_fields before after =
     sort (map fst (filter (\<lambda>(key, v). sprint (msg_get (accountPolicyAuditView before) key) \<noteq> sprint v) (accountPolicyAuditView after)))"

section \<open>Steps of a command\<close>

definition admin_only :: "identity \<Rightarrow> ('s gateway \<Rightarrow> 's outcome) \<Rightarrow> 's gateway \<Rightarrow> 's outcome" where
  "admin_only actor rest g =
     (if \<not> ac_IsAdmin (id_Account actor) then (g, Inl (AccError ''administrator permission is required'')) else rest g)"

definition with_store :: "'s gateway \<times> (storeError + 'a) \<Rightarrow> ('a \<Rightarrow> 's gateway \<Rightarrow> 's outcome) \<Rightarrow> 's outcome" where
  "with_store call rest = (case call of (g, Inl e) \<Rightarrow> (g, Inl (AccStore e)) | (g, Inr x) \<Rightarrow> rest x g)"

definition with_target :: "message \<Rightarrow> (account \<Rightarrow> 's gateway \<Rightarrow> 's outcome) \<Rightarrow> 's gateway \<Rightarrow> 's outcome" where
  "with_target payload rest g = with_store (db_read (ByID (stringValue payload ''id'')) g) rest"

definition with_sessions :: "auth_env \<Rightarrow> 's sessionRegistry \<Rightarrow> string \<Rightarrow> (activeSession list \<Rightarrow> 's gateway \<Rightarrow> 's outcome) \<Rightarrow> 's gateway \<Rightarrow> 's outcome" where
  "with_sessions env R userID rest g =
     (case ListSessions env R userID g of (g, Inl e) \<Rightarrow> (g, Inl (AccRegistry e)) | (g, Inr sessions) \<Rightarrow> rest sessions g)"

definition recorded_first :: "identity \<Rightarrow> string \<Rightarrow> ('s gateway \<Rightarrow> 's outcome) \<Rightarrow> 's gateway \<Rightarrow> 's outcome" where
  "recorded_first actor event rest g =
     (case auditWebpanel actor event g of
        (g, False) \<Rightarrow> (g, Inl (AccError ''web panel audit integrity failure''))
      | (g, True) \<Rightarrow> rest g)"

definition completed :: "identity \<Rightarrow> string \<Rightarrow> accountResult \<Rightarrow> 's gateway \<Rightarrow> 's outcome" where
  "completed actor event result g = (case auditWebpanel actor event g of (g, ok) \<Rightarrow> (g, Inr (result, ok)))"

definition with_hash :: "auth_env \<Rightarrow> string \<Rightarrow> (string \<Rightarrow> 's gateway \<Rightarrow> 's outcome) \<Rightarrow> 's gateway \<Rightarrow> 's outcome" where
  "with_hash env password rest g =
     (case hashPassword (ae_passwords env) password of Inl e \<Rightarrow> (g, Inl (AccError e)) | Inr hash \<Rightarrow> rest hash g)"

definition revoking :: "auth_env \<Rightarrow> 's sessionRegistry \<Rightarrow> string \<Rightarrow> ('s gateway \<Rightarrow> 's outcome) \<Rightarrow> 's gateway \<Rightarrow> 's outcome" where
  "revoking env R userID rest g =
     (case RevokeUser env R userID g of (g, Some e) \<Rightarrow> (g, Inl (AccStore e)) | (g, None) \<Rightarrow> rest g)"

definition requireAnotherAdministrator :: "auth_env \<Rightarrow> 's sessionRegistry \<Rightarrow> string \<Rightarrow> ('s gateway \<Rightarrow> 's outcome) \<Rightarrow> 's gateway \<Rightarrow> 's outcome" where
  "requireAnotherAdministrator env R excludedID rest g =
     with_store (ListAccounts env R g) (\<lambda>accounts g.
       if list_ex (\<lambda>a. ac_ID a \<noteq> excludedID \<and> ac_IsAdmin a \<and> \<not> ac_AccountLocked a) accounts then rest g
       else (g, Inl (AccError ''at least one other unlocked administrator account is required'')))"

definition audit_rename :: "'s gateway \<Rightarrow> 's gateway \<times> bool" where
  "audit_rename g = (case gw_auditFails g of [] \<Rightarrow> (g, True) | b # rest \<Rightarrow> (g\<lparr>gw_auditFails := rest\<rparr>, \<not> b))"

section \<open>Commands on accounts\<close>

definition fresh_account :: account where
  "fresh_account =
     \<lparr>ac_ID = [], ac_Username = [], ac_SenderID = [], ac_ForceSenderID = False, ac_LastIP = [], ac_LastLoginAt = 0,
      ac_PasswordChangedAt = 0, ac_AllowOrigination = False, ac_AllowedOriginators = [], ac_BlockedEventCodes = [],
      ac_ForceOriginatorName = False, ac_OriginatorNameText = [], ac_IncludeIPInBrackets = False, ac_CanViewLogs = False,
      ac_AllowPersistentSessions = True, ac_PasswordExpiryDays = 90, ac_AllowUserPasswordChange = True, ac_LoggingEnabled = True,
      ac_AccountLocked = False, ac_FailedLoginAttempts = 0, ac_MFAEnabled = False, ac_MFAConfigured = False, ac_IsAdmin = False,
      ac_CIDRWhitelist = [], ac_CreatedAt = 0, ac_UpdatedAt = 0, ac_passwordHash = [], ac_mfaSecret = [], ac_mfaLastStep = 0,
      ac_authVersion = 0, ac_failedLoginWindowStartedAt = 0\<rparr>"

definition store_Create :: "auth_env \<Rightarrow> account \<Rightarrow> string \<Rightarrow> 's gateway \<Rightarrow> 's gateway \<times> (storeError + unit)" where
  "store_Create env a hash g =
     (case ae_uuid env of
        None \<Rightarrow> (g, Inl (case validateAccount a of Inl e \<Rightarrow> e | Inr b \<Rightarrow> StoreError ''random identifier'' []))
      | Some uuid \<Rightarrow> db (Create uuid (ae_now env) a hash) g)"

definition accounts_list :: "auth_env \<Rightarrow> 's sessionRegistry \<Rightarrow> identity \<Rightarrow> 's gateway \<Rightarrow> 's outcome" where
  "accounts_list env R actor =
     admin_only actor (\<lambda>g. with_store (ListAccounts env R g) (\<lambda>accounts g. (g, Inr (AccountList accounts, True))))"

definition accounts_get :: "auth_env \<Rightarrow> 's sessionRegistry \<Rightarrow> identity \<Rightarrow> message \<Rightarrow> 's gateway \<Rightarrow> 's outcome" where
  "accounts_get env R actor payload =
     admin_only actor (with_target payload (\<lambda>a. with_sessions env R (ac_ID a) (\<lambda>sessions g.
       (g, Inr (AccountSessions a sessions, True)))))"

definition accounts_create :: "auth_env \<Rightarrow> (string \<Rightarrow> int) \<Rightarrow> identity \<Rightarrow> message \<Rightarrow> 's gateway \<Rightarrow> 's outcome" where
  "accounts_create env number actor payload =
     admin_only actor
       (let a = accountPolicyFromPayload number fresh_account payload
        in with_hash env (stringValue payload ''password'') (\<lambda>hash. recorded_first actor ''ACCOUNT_CREATE_REQUESTED'' (\<lambda>g.
             with_store (store_Create env a hash g) (\<lambda>_ g.
             with_store (db_read (ByUsername (ac_Username a)) g) (\<lambda>created.
             completed actor ''ACCOUNT_CREATED'' (AccountResult created))))))"

text \<open>\<open>Save\<close> with the rename of the audit log around it: a failed \<open>Save\<close> undoes the rename.\<close>

definition save_renamed :: "auth_env \<Rightarrow> bool \<Rightarrow> account \<Rightarrow> ('s gateway \<Rightarrow> 's outcome) \<Rightarrow> 's gateway \<Rightarrow> 's outcome" where
  "save_renamed env renamed a rest g =
     (case (if renamed then audit_rename g else (g, True)) of
        (g, False) \<Rightarrow> (g, Inl (AccError ''rename audit log''))
      | (g, True) \<Rightarrow>
          (case db (Save (ae_now env) a) g of
             (g, Inl e) \<Rightarrow> (if renamed then fst (audit_rename g) else g, Inl (AccStore e))
           | (g, Inr _) \<Rightarrow> rest g))"

definition accounts_update :: "auth_env \<Rightarrow> 's sessionRegistry \<Rightarrow> (string \<Rightarrow> int) \<Rightarrow> identity \<Rightarrow> message \<Rightarrow> 's gateway \<Rightarrow> 's outcome" where
  "accounts_update env R number actor payload =
     admin_only actor (with_target payload (\<lambda>before g.
       case validateAccount (accountPolicyFromPayload number before payload) of
         Inl e \<Rightarrow> (g, Inl (AccStore e))
       | Inr a \<Rightarrow>
           recorded_first actor ''ACCOUNT_POLICY_UPDATE_REQUESTED''
             ((if ac_IsAdmin before \<and> \<not> ac_IsAdmin a then requireAnotherAdministrator env R (ac_ID a) else (\<lambda>rest. rest))
               (save_renamed env (ac_Username before \<noteq> ac_Username a) a (\<lambda>g.
                  completed actor ''ACCOUNT_POLICY_UPDATED'' (AccountResult a) (PurgeUserSessionLeases R (ac_ID a) g)))) g))"

text \<open>The change of a password, of MFA or of a lock, then the end of all sessions.\<close>

definition changed_by_admin ::
  "auth_env \<Rightarrow> 's sessionRegistry \<Rightarrow> identity \<Rightarrow> string \<Rightarrow> string \<Rightarrow> (users \<Rightarrow> users \<times> (storeError + unit)) \<Rightarrow> account \<Rightarrow> 's gateway \<Rightarrow> 's outcome" where
  "changed_by_admin env R actor first_event done_event op a =
     recorded_first actor first_event (\<lambda>g.
       with_store (db op g) (\<lambda>_ g.
       revoking env R (ac_ID a) (completed actor done_event Updated) (ResetLoginLimits (ac_Username a) (ac_LastIP a) g)))"

definition accounts_password_reset :: "auth_env \<Rightarrow> 's sessionRegistry \<Rightarrow> identity \<Rightarrow> message \<Rightarrow> 's gateway \<Rightarrow> 's outcome" where
  "accounts_password_reset env R actor payload =
     admin_only actor (with_target payload (\<lambda>a. with_hash env (stringValue payload ''password'') (\<lambda>hash.
       changed_by_admin env R actor ''PASSWORD_RESET_REQUESTED_BY_ADMIN'' ''PASSWORD_RESET_BY_ADMIN''
         (SetPassword (ae_now env) (ac_ID a) hash) a)))"

definition accounts_mfa_reset :: "auth_env \<Rightarrow> 's sessionRegistry \<Rightarrow> identity \<Rightarrow> message \<Rightarrow> 's gateway \<Rightarrow> 's outcome" where
  "accounts_mfa_reset env R actor payload =
     admin_only actor (with_target payload (\<lambda>a.
       changed_by_admin env R actor ''MFA_RESET_REQUESTED_BY_ADMIN'' ''MFA_RESET_BY_ADMIN'' (SetMFA (ae_now env) (ac_ID a) [] False) a))"

definition accounts_unlock :: "auth_env \<Rightarrow> 's sessionRegistry \<Rightarrow> identity \<Rightarrow> message \<Rightarrow> 's gateway \<Rightarrow> 's outcome" where
  "accounts_unlock env R actor payload =
     admin_only actor (with_target payload (\<lambda>a.
       changed_by_admin env R actor ''ACCOUNT_UNLOCK_REQUESTED'' ''ACCOUNT_UNLOCKED'' (Unlock (ae_now env) (ac_ID a)) a))"

definition revoke_owned ::
  "auth_env \<Rightarrow> 's sessionRegistry \<Rightarrow> identity \<Rightarrow> string \<Rightarrow> string \<Rightarrow> string \<Rightarrow> string \<Rightarrow> string \<Rightarrow> 's gateway \<Rightarrow> 's outcome" where
  "revoke_owned env R actor missing first_event done_event userID sessionID =
     with_sessions env R userID (\<lambda>sessions g.
       if \<not> list_ex (\<lambda>session. as_ID session = sessionID) sessions then (g, Inl (AccError missing))
       else recorded_first actor first_event (\<lambda>g.
         case RevokeSession R sessionID g of
           (g, Some e) \<Rightarrow> (g, Inl (AccRegistry e))
         | (g, None) \<Rightarrow> completed actor done_event RevokedResult g) g)"

definition accounts_sessions_revoke :: "auth_env \<Rightarrow> 's sessionRegistry \<Rightarrow> identity \<Rightarrow> message \<Rightarrow> 's gateway \<Rightarrow> 's outcome" where
  "accounts_sessions_revoke env R actor payload =
     admin_only actor (with_target payload (\<lambda>a.
       revoke_owned env R actor ''session was not found for the selected account'' ''SESSION_REVOCATION_REQUESTED_BY_ADMIN''
         ''SESSION_REVOKED_BY_ADMIN'' (ac_ID a) (stringValue payload ''session_id'')))"

definition accounts_sessions_revoke_all :: "auth_env \<Rightarrow> 's sessionRegistry \<Rightarrow> identity \<Rightarrow> message \<Rightarrow> 's gateway \<Rightarrow> 's outcome" where
  "accounts_sessions_revoke_all env R actor payload =
     admin_only actor (with_target payload (\<lambda>a.
       recorded_first actor ''ALL_SESSIONS_REVOCATION_REQUESTED_BY_ADMIN''
         (revoking env R (ac_ID a) (completed actor ''ALL_SESSIONS_REVOKED_BY_ADMIN'' RevokedResult))))"

definition accounts_delete :: "auth_env \<Rightarrow> 's sessionRegistry \<Rightarrow> identity \<Rightarrow> message \<Rightarrow> 's gateway \<Rightarrow> 's outcome" where
  "accounts_delete env R actor payload =
     admin_only actor (\<lambda>g.
       if stringValue payload ''confirmation'' \<noteq> ''DELETE'' then (g, Inl (AccError ''type DELETE to confirm account deletion''))
       else with_target payload (\<lambda>a g.
         if ac_ID a = ac_ID (id_Account actor) then (g, Inl (AccError ''the active administrator account cannot delete itself''))
         else (if ac_IsAdmin a then requireAnotherAdministrator env R (ac_ID a) else (\<lambda>rest. rest))
           (recorded_first actor ''ACCOUNT_DELETE_REQUESTED''
             (revoking env R (ac_ID a) (\<lambda>g.
                with_store (db (store_Delete (ac_ID a)) g) (\<lambda>_. completed actor ''ACCOUNT_DELETED'' DeletedResult)))) g) g)"

section \<open>Commands on the own profile\<close>

definition profile_get :: "identity \<Rightarrow> 's gateway \<Rightarrow> 's outcome" where
  "profile_get actor g =
     (g, Inr (ProfileResult (id_Account actor) (id_Session actor) (id_PasswordChangeRequired actor), True))"

definition profile_sessions :: "auth_env \<Rightarrow> 's sessionRegistry \<Rightarrow> identity \<Rightarrow> 's gateway \<Rightarrow> 's outcome" where
  "profile_sessions env R actor =
     with_sessions env R (ac_ID (id_Account actor)) (\<lambda>sessions g. (g, Inr (SessionList sessions, True)))"

definition profile_session_revoke :: "auth_env \<Rightarrow> 's sessionRegistry \<Rightarrow> identity \<Rightarrow> message \<Rightarrow> 's gateway \<Rightarrow> 's outcome" where
  "profile_session_revoke env R actor payload =
     revoke_owned env R actor ''session was not found'' ''SESSION_REVOCATION_REQUESTED_BY_USER'' ''SESSION_REVOKED_BY_USER''
       (ac_ID (id_Account actor)) (stringValue payload ''session_id'')"

definition store_password :: "auth_env \<Rightarrow> account \<Rightarrow> string \<Rightarrow> ('s gateway \<Rightarrow> 's outcome) \<Rightarrow> 's gateway \<Rightarrow> 's outcome" where
  "store_password env a hash rest g =
     (case db (SetPasswordIfAuthVersion (ae_now env) (ac_ID a) hash (ac_authVersion a)) g of
        (g, Inl VersionChanged) \<Rightarrow>
          (g, Inl (AccAuth (AuthError ''session_changed'' ''The account changed while the password update was in progress. Sign in again.'' 409)))
      | (g, Inl e) \<Rightarrow> (g, Inl (AccStore e))
      | (g, Inr _) \<Rightarrow> rest g)"

definition profile_password_change :: "auth_env \<Rightarrow> 's sessionRegistry \<Rightarrow> identity \<Rightarrow> message \<Rightarrow> 's gateway \<Rightarrow> 's outcome" where
  "profile_password_change env R actor payload g =
     (let a = id_Account actor
      in if \<not> ac_AllowUserPasswordChange a
         then (g, Inl (AccAuth (AuthError ''password_change_forbidden'' ''This account is not allowed to change its password.'' 403)))
         else
           (case verifyPassword (ae_passwords env) (ac_passwordHash a) (stringValue payload ''current_password'') of
              Inl e \<Rightarrow> (g, Inl (AccError e))
            | Inr False \<Rightarrow> (g, Inl (AccError ''current password is incorrect''))
            | Inr True \<Rightarrow>
                with_hash env (stringValue payload ''new_password'') (\<lambda>hash.
                  recorded_first actor ''PASSWORD_CHANGE_REQUESTED_BY_USER'' (store_password env a hash (\<lambda>g.
                    revoking env R (ac_ID a) (completed actor ''PASSWORD_CHANGED_BY_USER'' Updated)
                      (ResetLoginLimits (ac_Username a) (as_IP (id_Session actor)) g)))) g))"

section \<open>The dispatcher\<close>

definition serializedAccountMutation :: "string \<Rightarrow> bool" where
  "serializedAccountMutation command \<longleftrightarrow> command \<in>
     {''accounts.create'', ''accounts.update'', ''accounts.password.reset'', ''accounts.mfa.reset'',
      ''accounts.unlock'', ''accounts.sessions.revoke'', ''accounts.sessions.revoke_all'', ''accounts.delete'',
      ''profile.password.change''}"

definition account_dispatch ::
  "auth_env \<Rightarrow> 's sessionRegistry \<Rightarrow> (string \<Rightarrow> int) \<Rightarrow> identity \<Rightarrow> string \<Rightarrow> message \<Rightarrow> 's gateway \<Rightarrow> 's outcome" where
  "account_dispatch env R number actor command payload =
     (if command = ''accounts.list'' then accounts_list env R actor
      else if command = ''accounts.get'' then accounts_get env R actor payload
      else if command = ''accounts.create'' then accounts_create env number actor payload
      else if command = ''accounts.update'' then accounts_update env R number actor payload
      else if command = ''accounts.password.reset'' then accounts_password_reset env R actor payload
      else if command = ''accounts.mfa.reset'' then accounts_mfa_reset env R actor payload
      else if command = ''accounts.unlock'' then accounts_unlock env R actor payload
      else if command = ''accounts.sessions.revoke'' then accounts_sessions_revoke env R actor payload
      else if command = ''accounts.sessions.revoke_all'' then accounts_sessions_revoke_all env R actor payload
      else if command = ''accounts.delete'' then accounts_delete env R actor payload
      else if command = ''profile.get'' then profile_get actor
      else if command = ''profile.sessions'' then profile_sessions env R actor
      else if command = ''profile.session.revoke'' then profile_session_revoke env R actor payload
      else if command = ''profile.password.change'' then profile_password_change env R actor payload
      else (\<lambda>g. (g, Inl (AccError (''unsupported account command '' @ quoted command)))))"

definition accountCommand ::
  "auth_env \<Rightarrow> 's sessionRegistry \<Rightarrow> (string \<Rightarrow> int) \<Rightarrow> request \<Rightarrow> string \<Rightarrow> message \<Rightarrow> 's gateway \<Rightarrow> 's outcome" where
  "accountCommand env R number request command payload g =
     (case Authenticate env R request g of
        (g, Inl e) \<Rightarrow> (g, Inl (AccAuth e))
      | (g, Inr actor) \<Rightarrow> account_dispatch env R number actor command payload g)"

text \<open>\<open>executeCommand\<close>: account commands here, everything else is the argument \<open>others\<close>. \<open>encode\<close> renders a result and
  \<open>describe\<close> an error for the client.\<close>

definition executeCommand ::
  "auth_env \<Rightarrow> 's sessionRegistry \<Rightarrow> (string \<Rightarrow> int) \<Rightarrow> (accountResult \<Rightarrow> any) \<Rightarrow> (accountError \<Rightarrow> commandError) \<Rightarrow> 's executor \<Rightarrow> request \<Rightarrow> 's executor" where
  "executeCommand env R number encode describe others request command payload g =
     (if accountCommandName command then
        (case accountCommand env R number request command payload g of
           (g, Inl e) \<Rightarrow> (g, Inl (describe e))
         | (g, Inr (result, recorded)) \<Rightarrow> (g, Inr (if recorded then encode result else record_failed (encode result))))
      else others command payload g)"

section \<open>Runs of the gateway\<close>

definition script_calls :: "'s gateway \<Rightarrow> storeCall list" where
  "script_calls g = concat (map fst (gw_script g))"

text \<open>\<open>gw_runs P g g'\<close>: between the two states the table was changed only by calls of other requests and by calls with
  \<open>P\<close>, and the audit log only grew.\<close>

definition gw_runs :: "(storeCall \<Rightarrow> bool) \<Rightarrow> 's gateway \<Rightarrow> 's gateway \<Rightarrow> bool" where
  "gw_runs P g g' \<longleftrightarrow>
     (\<exists>calls. gw_users g' = store_run calls (gw_users g) \<and> (\<forall>call\<in>set calls. P call \<or> call \<in> set (script_calls g))) \<and>
     set (script_calls g') \<subseteq> set (script_calls g) \<and> (\<exists>es. gw_audit g' = gw_audit g @ es)"

lemma store_run_append: "store_run (c1 @ c2) us = store_run c2 (store_run c1 us)"
  by (simp add: store_run_def)

lemma runs_same:
  "gw_users g' = gw_users g \<Longrightarrow> gw_script g' = gw_script g \<Longrightarrow> gw_audit g' = gw_audit g @ es \<Longrightarrow> gw_runs P g g'"
  unfolding gw_runs_def script_calls_def by (intro conjI exI [of _ "[]"] exI [of _ es]) simp_all

lemma runs_refl [simp]: "gw_runs P g g"
  by (rule runs_same [of _ _ "[]"]) simp_all

lemma runs_trans:
  assumes "gw_runs P g g1" and "gw_runs P g1 g2"
  shows "gw_runs P g g2"
proof -
  obtain c1 e1 where 1: "gw_users g1 = store_run c1 (gw_users g)" "\<forall>call\<in>set c1. P call \<or> call \<in> set (script_calls g)"
      "set (script_calls g1) \<subseteq> set (script_calls g)" "gw_audit g1 = gw_audit g @ e1"
    using assms(1) unfolding gw_runs_def by blast
  obtain c2 e2 where 2: "gw_users g2 = store_run c2 (gw_users g1)" "\<forall>call\<in>set c2. P call \<or> call \<in> set (script_calls g1)"
      "set (script_calls g2) \<subseteq> set (script_calls g1)" "gw_audit g2 = gw_audit g1 @ e2"
    using assms(2) unfolding gw_runs_def by blast
  have "gw_users g2 = store_run (c1 @ c2) (gw_users g)" using 1(1) 2(1) by (simp add: store_run_append)
  moreover have "\<forall>call\<in>set (c1 @ c2). P call \<or> call \<in> set (script_calls g)" using 1(2,3) 2(2) by auto
  ultimately show ?thesis unfolding gw_runs_def using 1(3,4) 2(3,4) by (metis append_assoc subset_trans)
qed

lemma runs_mono: "gw_runs P g g' \<Longrightarrow> (\<And>call. P call \<Longrightarrow> Q call) \<Longrightarrow> gw_runs Q g g'"
  unfolding gw_runs_def by blast

text \<open>An operation on the table that is made of calls with \<open>P\<close>.\<close>

definition made_of :: "(storeCall \<Rightarrow> bool) \<Rightarrow> (users \<Rightarrow> users \<times> 'r) \<Rightarrow> bool" where
  "made_of P op \<longleftrightarrow> (\<forall>us. \<exists>calls. fst (op us) = store_run calls us \<and> (\<forall>call\<in>set calls. P call))"

lemma made_ofI: "(\<And>us. fst (op us) = store_call call us) \<Longrightarrow> P call \<Longrightarrow> made_of P op"
  unfolding made_of_def by (intro allI exI [of _ "[call]"]) (simp add: store_run_def)

lemma made_of_read [simp]: "made_of P (\<lambda>us. (us, op us))"
  unfolding made_of_def by (intro allI exI [of _ "[]"]) simp

lemma runs_db:
  assumes "made_of P op"
  shows "gw_runs P g (fst (db op g))"
proof (cases "gw_script g")
  case Nil
  obtain calls where "fst (op (gw_users g)) = store_run calls (gw_users g)" "\<forall>call\<in>set calls. P call"
    using assms unfolding made_of_def by blast
  then show ?thesis using Nil
    by (auto simp: gw_runs_def db_def script_calls_def split: prod.split intro!: exI [of _ calls])
next
  case (Cons step script)
  obtain others fails where step: "step = (others, fails)" by (cases step)
  obtain calls where calls: "fst (op (store_run others (gw_users g))) = store_run calls (store_run others (gw_users g))" "\<forall>call\<in>set calls. P call"
    using assms unfolding made_of_def by blast
  let ?ran = "if fails then others else others @ calls"
  have "gw_users (fst (db op g)) = store_run ?ran (gw_users g)"
    using calls(1) by (cases "op (store_run others (gw_users g))") (simp add: db_def Cons step Let_def store_run_append)
  moreover have "\<forall>call\<in>set ?ran. P call \<or> call \<in> set (script_calls g)"
    using calls(2) by (auto simp: script_calls_def Cons step)
  moreover have "gw_audit (fst (db op g)) = gw_audit g"
    by (simp add: db_def Cons step Let_def split: prod.split)
  ultimately show ?thesis
    unfolding gw_runs_def by (auto simp: script_calls_def db_script Cons intro!: exI [of _ ?ran])
qed

lemma runs_read: "gw_runs P g (fst (db_read op g))"
  by (simp add: db_read_def runs_db)

lemma runs_audit: "gw_runs P g (fst (audit_append category event actor session g))"
  by (auto simp: audit_append_def intro!: runs_same split: list.split bool.split)

lemma runs_webpanel: "gw_runs P g (fst (auditWebpanel actor event g))"
  by (simp add: auditWebpanel_def runs_audit)

lemma runs_purge: "gw_runs P g (purgeUserSessionLeases R i g)"
proof (cases "sr_DeleteUser R i (gw_sessions g)")
  case (Pair ss e)
  have "gw_runs P g (g\<lparr>gw_sessions := ss\<rparr>)" by (rule runs_same [of _ _ "[]"]) simp_all
  then show ?thesis
    using Pair runs_audit runs_trans by (auto simp: purgeUserSessionLeases_def access_log_def split: option.split) blast
qed

lemma runs_limits: "gw_runs P g (ResetLoginLimits username addr g)"
  by (rule runs_same [of _ _ "[]"]) (simp_all add: ResetLoginLimits_def Let_def)

lemma runs_sessions: "gw_runs P g (g\<lparr>gw_sessions := ss\<rparr>)"
  by (rule runs_same [of _ _ "[]"]) simp_all

lemma runs_list_sessions: "gw_runs P g (fst (ListSessions env R userID g))"
  by (auto simp: ListSessions_def runs_sessions split: prod.split)

lemma runs_revoke_session: "gw_runs P g (fst (RevokeSession R digest g))"
  by (auto simp: RevokeSession_def runs_sessions split: prod.split)

lemma runs_revoke_user:
  assumes "\<And>now. P (DoBump now i)"
  shows "gw_runs P g (fst (RevokeUser env R i g))"
proof -
  obtain g1 r1 where 1: "db_read (ByID i) g = (g1, r1)" by fastforce
  obtain g2 r2 where 2: "db (BumpAuthVersion (ae_now env) i) g1 = (g2, r2)" by fastforce
  have "gw_runs P g g1" using runs_read [of P g "ByID i"] 1 by simp
  moreover have "gw_runs P g1 g2"
    using runs_db [OF made_ofI [of _ "DoBump (ae_now env) i"], of "BumpAuthVersion (ae_now env) i" P g1] assms 2 by simp
  ultimately have "gw_runs P g g2" by (rule runs_trans)
  then show ?thesis
    using runs_trans [OF _ runs_purge] by (auto simp: RevokeUser_def 1 2 split: sum.split)
qed

text \<open>The one change that no one asked for: the end of a lock that is over.\<close>

definition auto_unlock :: "storeCall \<Rightarrow> bool" where
  "auto_unlock call \<longleftrightarrow> (\<exists>now i v at. call = DoUnlockIf now i v at)"

lemma runs_lock_policy: "gw_runs auto_unlock g (fst (applyAccountLockPolicy env R a g))"
proof (cases "ac_AccountLocked a \<and> lock_over env a")
  case True
  let ?op = "UnlockLockedIfAuthVersion (ae_now env) (ac_ID a) (ac_authVersion a) (ae_now env)"
  obtain g1 r where call: "db ?op g = (g1, r)" by fastforce
  have 1: "gw_runs auto_unlock g g1"
    using runs_db [OF made_ofI [of ?op "DoUnlockIf (ae_now env) (ac_ID a) (ac_authVersion a) (ae_now env)" auto_unlock], of g] call
    by (auto simp: auto_unlock_def)
  let ?g2 = "purgeUserSessionLeases R (ac_ID a) (ResetLoginLimits (ac_Username a) [] g1)"
  have 2: "gw_runs auto_unlock g ?g2" by (rule runs_trans [OF 1 runs_trans [OF runs_limits runs_purge]])
  obtain g3 ok where append: "audit_append ''access'' ''ACCOUNT_LOCK_AUTO_CLEARED'' (ac_ID a) [] ?g2 = (g3, ok)" by fastforce
  have 3: "gw_runs auto_unlock g g3"
    using runs_trans [OF 2 runs_audit [of auto_unlock ?g2 "''access''" "''ACCOUNT_LOCK_AUTO_CLEARED''" "ac_ID a" "[]"]] append by simp
  show ?thesis
    using True 1 runs_trans [OF 1 runs_read [of _ _ "ByID (ac_ID a)"]] 3 runs_trans [OF 3 runs_read [of _ _ "ByID (ac_ID a)"]]
    by (simp add: applyAccountLockPolicy_def call append split: sum.split bool.split)
qed (auto simp: applyAccountLockPolicy_def)

lemma runs_lock_policies: "gw_runs auto_unlock g (fst (lock_policies env R as g))"
proof (induction as arbitrary: g)
  case (Cons a as)
  obtain g1 r where 1: "(if ac_AccountLocked a then applyAccountLockPolicy env R a g else (g, Inr a)) = (g1, r)" by fastforce
  have "gw_runs auto_unlock g g1" using runs_lock_policy [of g env R a] 1 by (auto split: if_split_asm)
  then show ?case using runs_trans [OF _ Cons.IH [of g1]] 1 by (auto split: sum.split prod.split)
qed simp

lemma runs_ListAccounts: "gw_runs auto_unlock g (fst (ListAccounts env R g))"
proof -
  obtain g1 r where 1: "db_read List g = (g1, r)" by fastforce
  have "gw_runs auto_unlock g g1" using runs_read [of auto_unlock g List] 1 by simp
  then show ?thesis using runs_trans [OF _ runs_lock_policies] by (auto simp: ListAccounts_def 1 split: sum.split)
qed

lemma runs_access: "gw_runs P g g1 \<Longrightarrow> gw_runs P g (access_log event actor session g1)"
  by (simp add: access_log_def runs_trans [OF _ runs_audit])

lemma runs_forget: "gw_runs P g (forget R raw g)"
  by (simp add: forget_def runs_sessions)

lemma runs_limiter: "gw_runs P g (g\<lparr>gw_expiryLimiter := ws\<rparr>)"
  by (rule runs_same [of _ _ "[]"]) simp_all

lemma runs_expired: "gw_runs P g (auditExpiredSession env raw g)"
proof -
  have read: "gw_runs P g (fst (db_read op (g\<lparr>gw_expiryLimiter := ws\<rparr>)))" for op ws
    by (rule runs_trans [OF runs_limiter runs_read])
  show ?thesis
    unfolding auditExpiredSession_def Let_def
    by (auto split: option.split prod.split sum.split simp: runs_limiter intro!: runs_access) (metis read fst_conv)+
qed

lemma runs_account: "gw_runs P g (fst (authenticate_account env R raw userID version session g))"
proof -
  obtain g1 r where 1: "db_read (ByID userID) g = (g1, r)" by fastforce
  have read: "gw_runs P g g1" using runs_read [of P g "ByID userID"] 1 by simp
  note after = runs_trans [OF read runs_forget] runs_trans [OF read runs_sessions]
  show ?thesis
    by (cases r) (auto simp: authenticate_account_def 1 read after Let_def split: storeError.split option.split prod.split)
qed

lemma runs_Authenticate: "gw_runs P g (fst (Authenticate env R request g))"
proof -
  have session: "gw_runs P g (fst (authenticate_session env R request raw userID tokenIP version g))" for raw userID tokenIP version
  proof -
    obtain ss r where got: "sr_Get R (ae_now env) raw (gw_sessions g) = (ss, r)" by fastforce
    let ?g = "g\<lparr>gw_sessions := ss\<rparr>"
    have 1: "gw_runs P g ?g" by (rule runs_sessions)
    note after = runs_access [OF runs_trans [OF 1 runs_forget]] runs_trans [OF 1 runs_account]
    show ?thesis
      by (cases r) (auto simp: authenticate_session_def got Let_def 1 after split: registryError.split)
  qed
  show ?thesis
    by (auto simp: Authenticate_def runs_expired session split: option.split)
qed

section \<open>Rules for commands\<close>

text \<open>The state after a call to the database that only reads: other requests may have run before it.\<close>

definition after_read :: "'s gateway \<Rightarrow> 's gateway" where
  "after_read g =
     (case gw_script g of
        [] \<Rightarrow> g
      | (others, fails) # script \<Rightarrow> g\<lparr>gw_users := store_run others (gw_users g), gw_script := script\<rparr>)"

lemma db_read_state: "fst (db_read op g) = after_read g"
  by (auto simp: db_read_def db_def after_read_def Let_def split: list.split prod.split)

lemma runs_after_read: "gw_runs P g (after_read g)"
  using runs_read [of P g "\<lambda>us. Inr ()"] by (simp add: db_read_state)

text \<open>What a rule about commands promises: \<open>rel g out\<close> relates the state before a command and its outcome. It holds when a
  command is refused after harmless changes, and harmless changes may precede a command; reading, listing sessions and
  writing the log of the panel are harmless.\<close>

locale command_rule =
  fixes harmless :: "'s gateway \<Rightarrow> 's gateway \<Rightarrow> bool" and rel :: "'s gateway \<Rightarrow> 's outcome \<Rightarrow> bool"
    and env :: auth_env and R :: "'s sessionRegistry"
  assumes refused: "harmless g g' \<Longrightarrow> rel g (g', Inl e)"
    and preceded: "harmless g g1 \<Longrightarrow> rel g1 out \<Longrightarrow> rel g out"
    and unchanged: "harmless g g"
    and after_read: "harmless g (after_read g)"
    and sessions_listed: "harmless g (fst (ListSessions env R userID g))"
    and panel_log: "harmless g (fst (auditWebpanel actor event g))"
begin

lemma rejected: "rel g (g, Inl e)"
  by (rule refused [OF unchanged])

lemma admin: "(\<And>g. rel g (rest g)) \<Longrightarrow> rel g (admin_only actor rest g)"
  by (simp add: admin_only_def rejected)

lemma store:
  assumes "harmless g (fst call)" and "\<And>x g1. call = (g1, Inr x) \<Longrightarrow> rel g1 (rest x g1)"
  shows "rel g (with_store call rest)"
proof (cases call)
  case (Pair g1 r)
  have 1: "harmless g g1" using assms(1) Pair by simp
  then show ?thesis
    using assms(2) Pair by (cases r) (simp_all add: with_store_def refused preceded [OF 1])
qed

lemma read: "harmless g (fst (db_read op g))"
  by (simp add: db_read_state after_read)

lemma target:
  assumes "\<And>a g1. ByID (stringValue payload ''id'') (gw_users g1) = Inr a \<Longrightarrow> rel g1 (rest a g1)"
  shows "rel g (with_target payload rest g)"
  unfolding with_target_def
  by (rule store [OF read]) (rule assms, rule db_read_result)

lemma listing: "(\<And>sessions g1. rel g1 (rest sessions g1)) \<Longrightarrow> rel g (with_sessions env R userID rest g)"
  using refused [OF sessions_listed [of g userID]] preceded [OF sessions_listed [of g userID]]
  by (auto simp: with_sessions_def split: prod.split sum.split)

lemma hashed: "(\<And>hash g. rel g (rest hash g)) \<Longrightarrow> rel g (with_hash env password rest g)"
  by (simp add: with_hash_def rejected split: sum.split)

lemma noted: "(\<And>g1. rel g1 (rest g1)) \<Longrightarrow> rel g (recorded_first actor event rest g)"
  using refused [OF panel_log [of g actor event]] preceded [OF panel_log [of g actor event]]
  by (auto simp: recorded_first_def split: prod.split bool.split)

lemma dispatch:
  assumes "rel g (accounts_list env R actor g)" and "rel g (accounts_get env R actor payload g)"
    and "rel g (accounts_create env number actor payload g)" and "rel g (accounts_update env R number actor payload g)"
    and "rel g (accounts_password_reset env R actor payload g)" and "rel g (accounts_mfa_reset env R actor payload g)"
    and "rel g (accounts_unlock env R actor payload g)" and "rel g (accounts_sessions_revoke env R actor payload g)"
    and "rel g (accounts_sessions_revoke_all env R actor payload g)" and "rel g (accounts_delete env R actor payload g)"
    and "rel g (profile_get actor g)" and "rel g (profile_sessions env R actor g)"
    and "rel g (profile_session_revoke env R actor payload g)" and "rel g (profile_password_change env R actor payload g)"
  shows "rel g (account_dispatch env R number actor command payload g)"
  using assms by (simp add: account_dispatch_def rejected)

end

text \<open>Rule 1: all calls of the command have \<open>P\<close>.\<close>

definition only_calls :: "(storeCall \<Rightarrow> bool) \<Rightarrow> 's gateway \<Rightarrow> 's outcome \<Rightarrow> bool" where
  "only_calls P g out \<longleftrightarrow> gw_runs P g (fst out)"

interpretation calls: command_rule "gw_runs P" "only_calls P" env R for P env R
  by unfold_locales
    (auto simp: only_calls_def runs_after_read runs_list_sessions runs_webpanel intro: runs_trans)

lemma calls_limits: "only_calls P (ResetLoginLimits username addr g) out \<Longrightarrow> only_calls P g out"
  by (rule calls.preceded [OF runs_limits])

lemma calls_store:
  "made_of P op \<Longrightarrow> (\<And>x g. only_calls P g (rest x g)) \<Longrightarrow> only_calls P g (with_store (db op g) rest)"
  by (rule calls.store [OF runs_db])

lemma calls_revoking:
  assumes "\<And>now. P (DoBump now i)" and "\<And>g. only_calls P g (rest g)"
  shows "only_calls P g (revoking env R i rest g)"
proof (cases "RevokeUser env R i g")
  case (Pair g1 r)
  have 1: "gw_runs P g g1" using runs_revoke_user [of P i g env R, OF assms(1)] Pair by simp
  then show ?thesis
    using assms(2) Pair by (cases r) (simp_all add: revoking_def calls.refused calls.preceded [OF 1])
qed

lemma calls_completed [simp]: "only_calls P g (completed actor event result g)"
  using runs_webpanel [of P g actor event] by (auto simp: completed_def only_calls_def split: prod.split)

lemma calls_revoked:
  "only_calls P g1 (case RevokeSession R sessionID g1 of
     (g, Some e) \<Rightarrow> (g, Inl (AccRegistry e)) | (g, None) \<Rightarrow> completed actor event RevokedResult g)"
  using calls.refused [OF runs_revoke_session [of P g1 R sessionID]] calls.preceded [OF runs_revoke_session [of P g1 R sessionID] calls_completed]
  by (auto split: prod.split option.split)

lemma calls_owned: "only_calls P g (revoke_owned env R actor missing e1 e2 userID sessionID g)"
  unfolding revoke_owned_def by (rule calls.listing) (auto intro!: calls.noted calls_revoked calls.refused)

text \<open>The calls with which a user changes the own account.\<close>

definition own_call :: "string \<Rightarrow> storeCall \<Rightarrow> bool" where
  "own_call i call \<longleftrightarrow> (\<exists>now hash v. call = DoSetPasswordIf now i hash v) \<or> (\<exists>now. call = DoBump now i)"

lemma calls_store_password:
  assumes "\<And>now hash v. P (DoSetPasswordIf now (ac_ID a) hash v)" and "\<And>g. only_calls P g (rest g)"
  shows "only_calls P g (store_password env a hash rest g)"
proof -
  let ?op = "SetPasswordIfAuthVersion (ae_now env) (ac_ID a) hash (ac_authVersion a)"
  have "gw_runs P g (fst (db ?op g))"
    by (rule runs_db [OF made_ofI [of _ "DoSetPasswordIf (ae_now env) (ac_ID a) hash (ac_authVersion a)"]]) (simp_all add: assms(1))
  then have 1: "gw_runs P g h" if "db ?op g = (h, r)" for h r using that by simp
  obtain h r where call: "db ?op g = (h, r)" by fastforce
  show ?thesis
  proof (cases r)
    case (Inl e)
    then show ?thesis by (cases e) (simp_all add: store_password_def call calls.refused [OF 1 [OF call]])
  next
    case (Inr x)
    then show ?thesis using calls.preceded [OF 1 [OF call] assms(2)] by (simp add: store_password_def call)
  qed
qed

lemma own_password: "only_calls (own_call (ac_ID (id_Account actor))) g (profile_password_change env R actor payload g)"
proof -
  let ?P = "own_call (ac_ID (id_Account actor))"
  have stored: "only_calls ?P g (store_password env (id_Account actor) hash rest g)" if "\<And>g. only_calls ?P g (rest g)" for hash rest g
    by (rule calls_store_password) (auto simp: own_call_def that)
  have "only_calls ?P g (revoking env R (ac_ID (id_Account actor)) (completed actor event Updated) (ResetLoginLimits u ip g))" for event u ip g
    by (rule calls_limits, rule calls_revoking) (auto simp: own_call_def)
  then show ?thesis
    by (auto simp: profile_password_change_def Let_def split: sum.split bool.split intro!: calls.refused calls.hashed calls.noted stored)
qed

text \<open>C19: whoever is not an administrator changes no account but the own. Whatever command and payload such a user sends,
  every operation on the table of accounts meanwhile is one of another request, or a change of the own password or
  version.\<close>

theorem user_changes_own_account_only:
  assumes "Authenticate env R request g = (g1, Inr actor)" and "\<not> ac_IsAdmin (id_Account actor)"
  shows "gw_runs (own_call (ac_ID (id_Account actor))) g (fst (accountCommand env R number request command payload g))"
proof -
  let ?P = "own_call (ac_ID (id_Account actor))"
  have 1: "gw_runs ?P g g1" using runs_Authenticate [of ?P g env R request] assms(1) by simp
  have refused: "only_calls ?P h (admin_only actor rest h)" for rest h
    using assms(2) by (simp add: admin_only_def calls.refused)
  have read: "only_calls ?P h (h, Inr r)" for h r by (simp add: only_calls_def)
  have "only_calls ?P g1 (account_dispatch env R number actor command payload g1)"
    by (rule calls.dispatch)
      (simp_all add: accounts_list_def accounts_get_def accounts_create_def accounts_update_def accounts_password_reset_def
        accounts_mfa_reset_def accounts_unlock_def accounts_sessions_revoke_def accounts_sessions_revoke_all_def accounts_delete_def
        profile_session_revoke_def profile_sessions_def profile_get_def refused own_password calls_owned read calls.listing)
  then show ?thesis using runs_trans [OF 1] assms(1) by (simp add: accountCommand_def only_calls_def)
qed

section \<open>Recorded before done\<close>

lemma made_ops [simp]:
  "made_of (\<lambda>call. True) (Create uuid now a hash)" "made_of (\<lambda>call. True) (Save now a)" "made_of (\<lambda>call. True) (store_Delete i)"
  "made_of (\<lambda>call. True) (SetPassword now i hash)" "made_of (\<lambda>call. True) (SetMFA now i secret enabled)"
  "made_of (\<lambda>call. True) (Unlock now i)" "made_of (\<lambda>call. True) (SetPasswordIfAuthVersion now i hash v)"
  by (rule made_ofI [of _ "DoCreate uuid now a hash"], simp, simp)
     (rule made_ofI [of _ "DoSave now a"], simp, simp, rule made_ofI [of _ "DoDelete i"], simp, simp,
      rule made_ofI [of _ "DoSetPassword now i hash"], simp, simp, rule made_ofI [of _ "DoSetMFA now i secret enabled"], simp, simp,
      rule made_ofI [of _ "DoUnlock now i"], simp, simp, rule made_ofI [of _ "DoSetPasswordIf now i hash v"], simp, simp)

text \<open>
  What a command does without a record, step by step: calls of other requests come in between, accounts and
  sessions are read, a session is touched (its last-seen time moves to now), logs and limits change, and the lock of an account
  ends, with the leases of its sessions, if the account was read from the table as locked and its lock was
  over. A state is paired with the accounts read so far.
\<close>

inductive quiet_step :: "auth_env \<Rightarrow> 's sessionRegistry \<Rightarrow> account set \<times> 's gateway \<Rightarrow> account set \<times> 's gateway \<Rightarrow> bool"
  for env R where
  other_calls: "quiet_step env R (K, g) (K, after_read g)"
| account_read: "row \<in> set (gw_users g) \<Longrightarrow> scanAccount row = Inr a \<Longrightarrow> quiet_step env R (K, g) (insert a K, g)"
| lock_ended: "a \<in> K \<Longrightarrow> ac_AccountLocked a \<Longrightarrow> lock_over env a \<Longrightarrow>
    quiet_step env R (K, g) (K, g\<lparr>gw_users :=
      fst (UnlockLockedIfAuthVersion (ae_now env) (ac_ID a) (ac_authVersion a) (ae_now env) (gw_users g))\<rparr>)"
| leases_ended: "a \<in> K \<Longrightarrow> ac_AccountLocked a \<Longrightarrow> lock_over env a \<Longrightarrow>
    quiet_step env R (K, g) (K, g\<lparr>gw_sessions := fst (sr_DeleteUser R (ac_ID a) (gw_sessions g))\<rparr>)"
| session_read: "quiet_step env R (K, g) (K, g\<lparr>gw_sessions := fst (sr_Get R (ae_now env) raw (gw_sessions g))\<rparr>)"
| session_touched:
    "quiet_step env R (K, g) (K, g\<lparr>gw_sessions := fst (sr_Touch R (ae_now env) raw (ae_now env) (gw_sessions g))\<rparr>)"
| sessions_listed: "quiet_step env R (K, g) (K, g\<lparr>gw_sessions := fst (sr_ListUser R (ae_now env) userID (gw_sessions g))\<rparr>)"
| noted: "gw_users g' = gw_users g \<Longrightarrow> gw_sessions g' = gw_sessions g \<Longrightarrow> gw_script g' = gw_script g \<Longrightarrow>
    gw_audit g' = gw_audit g @ es \<Longrightarrow> quiet_step env R (K, g) (K, g')"

definition quiet_from :: "auth_env \<Rightarrow> 's sessionRegistry \<Rightarrow> account set \<Rightarrow> 's gateway \<Rightarrow> 's gateway \<Rightarrow> bool" where
  "quiet_from env R K g g' \<longleftrightarrow> (\<exists>K'. (quiet_step env R)\<^sup>*\<^sup>* (K, g) (K', g'))"

lemma quiet_step_more:
  assumes "quiet_step env R (K, g) (K', g')" and "K \<subseteq> M"
  shows "\<exists>M'. K' \<subseteq> M' \<and> M \<subseteq> M' \<and> quiet_step env R (M, g) (M', g')"
  using assms
proof (cases rule: quiet_step.cases)
  case (account_read row a)
  then show ?thesis using assms(2) by (intro exI [of _ "insert a M"]) (auto intro: quiet_step.account_read)
qed (use assms(2) in \<open>auto intro: quiet_step.intros\<close>)

lemma quiet_steps_more:
  assumes "(quiet_step env R)\<^sup>*\<^sup>* (K, g) (K', g')" and "K \<subseteq> M"
  shows "\<exists>M'. K' \<subseteq> M' \<and> M \<subseteq> M' \<and> (quiet_step env R)\<^sup>*\<^sup>* (M, g) (M', g')"
  using assms(1)
proof (induction rule: rtranclp_induct2)
  case refl
  with assms(2) show ?case by blast
next
  case (step K1 g1 K2 g2)
  then show ?case by (meson quiet_step_more order_trans rtranclp.rtrancl_into_rtrancl)
qed

lemma quiet_trans: "quiet_from env R K g g1 \<Longrightarrow> quiet_from env R K g1 g2 \<Longrightarrow> quiet_from env R K g g2"
proof -
  assume "quiet_from env R K g g1" and second: "quiet_from env R K g1 g2"
  then obtain K1 where first: "(quiet_step env R)\<^sup>*\<^sup>* (K, g) (K1, g1)" by (auto simp: quiet_from_def)
  from quiet_steps_more [OF first order_refl] obtain M where "K \<subseteq> M" "(quiet_step env R)\<^sup>*\<^sup>* (K, g) (M, g1)" by blast
  with second show ?thesis unfolding quiet_from_def by (meson quiet_steps_more rtranclp_trans)
qed

lemma quiet_one: "quiet_step env R (K, g) (K', g') \<Longrightarrow> quiet_from env R K g g'"
  unfolding quiet_from_def by blast

lemma quiet_same:
  "gw_users g' = gw_users g \<Longrightarrow> gw_sessions g' = gw_sessions g \<Longrightarrow> gw_script g' = gw_script g \<Longrightarrow>
   gw_audit g' = gw_audit g @ es \<Longrightarrow> quiet_from env R K g g'"
  by (rule quiet_one [OF quiet_step.noted])

lemma quiet_refl [simp]: "quiet_from env R K g g"
  by (rule quiet_same [of _ _ "[]"]) simp_all

lemma quiet_after_read: "quiet_from env R K g (after_read g)"
  by (rule quiet_one [OF quiet_step.other_calls])

lemma quiet_read: "quiet_from env R K g (fst (db_read op g))"
  by (simp add: db_read_state quiet_after_read)

lemma quiet_append: "quiet_from env R K g (fst (audit_append category event actor session g))"
  by (auto simp: audit_append_def intro!: quiet_same split: list.split bool.split)

lemma quiet_limits: "quiet_from env R K g (ResetLoginLimits username addr g)"
  by (rule quiet_same [of _ _ "[]"]) (simp_all add: ResetLoginLimits_def Let_def)

lemma quiet_list_sessions: "quiet_from env R K g (fst (ListSessions env R userID g))"
  using quiet_one [OF quiet_step.sessions_listed [of env R K g userID]] by (simp add: ListSessions_def case_prod_beta)

lemma db_state:
  "fst (db op g) = after_read g \<or> fst (db op g) = (after_read g)\<lparr>gw_users := fst (op (gw_users (after_read g)))\<rparr>"
  by (auto simp: db_def after_read_def Let_def split: list.split prod.split)

lemma quiet_lock_policy:
  assumes "a \<in> K"
  shows "quiet_from env R K g (fst (applyAccountLockPolicy env R a g))"
proof (cases "ac_AccountLocked a \<and> lock_over env a")
  case True
  let ?op = "UnlockLockedIfAuthVersion (ae_now env) (ac_ID a) (ac_authVersion a) (ae_now env)"
  obtain g1 r where call: "db ?op g = (g1, r)" by fastforce
  note ended = quiet_one [OF quiet_step.lock_ended [OF assms conjunct1 [OF True] conjunct2 [OF True]]]
  have 1: "quiet_from env R K g g1"
    using db_state [of ?op g] quiet_after_read quiet_trans [OF quiet_after_read ended] call by auto
  let ?g1 = "ResetLoginLimits (ac_Username a) [] g1"
  note purged = quiet_one [OF quiet_step.leases_ended [OF assms conjunct1 [OF True] conjunct2 [OF True], of R ?g1]]
  have 2: "quiet_from env R K g1 (purgeUserSessionLeases R (ac_ID a) ?g1)"
    using quiet_trans [OF quiet_limits purged] quiet_trans [OF quiet_trans [OF quiet_limits purged] quiet_append]
    by (auto simp: purgeUserSessionLeases_def access_log_def split: prod.split option.split)
  obtain g3 ok where append: "audit_append ''access'' ''ACCOUNT_LOCK_AUTO_CLEARED'' (ac_ID a) []
      (purgeUserSessionLeases R (ac_ID a) ?g1) = (g3, ok)" by fastforce
  have "quiet_from env R K g (fst (audit_append ''access'' ''ACCOUNT_LOCK_AUTO_CLEARED'' (ac_ID a) []
      (purgeUserSessionLeases R (ac_ID a) ?g1)))"
    by (rule quiet_trans [OF 1 quiet_trans [OF 2 quiet_append]])
  then have 3: "quiet_from env R K g g3" by (simp add: append)
  show ?thesis
    using True 1 quiet_trans [OF 1 quiet_read [where op = "ByID (ac_ID a)"]]
      3 quiet_trans [OF 3 quiet_read [where op = "ByID (ac_ID a)"]]
    by (simp add: applyAccountLockPolicy_def call append split: sum.split bool.split)
qed (auto simp: applyAccountLockPolicy_def)

lemma quiet_lock_policies: "set as \<subseteq> K \<Longrightarrow> quiet_from env R K g (fst (lock_policies env R as g))"
proof (induction as arbitrary: g)
  case (Cons a as)
  obtain g1 r where 1: "(if ac_AccountLocked a then applyAccountLockPolicy env R a g else (g, Inr a)) = (g1, r)" by fastforce
  have "quiet_from env R K g g1" using quiet_lock_policy [of a K env R g] Cons.prems 1 by (auto split: if_split_asm)
  with Cons quiet_trans [OF this Cons.IH [of g1]] 1 show ?case by (auto split: sum.split prod.split)
qed simp

lemma scan_rows_read: "scan_rows rows = Inr as \<Longrightarrow> a \<in> set as \<Longrightarrow> \<exists>row\<in>set rows. scanAccount row = Inr a"
  by (induction rows arbitrary: as) (auto split: sum.split_asm)

lemma accounts_read:
  assumes "\<forall>a\<in>set as. \<exists>row\<in>set (gw_users g). scanAccount row = Inr a"
  shows "(quiet_step env R)\<^sup>*\<^sup>* (K, g) (set as \<union> K, g)"
  using assms
proof (induction as)
  case (Cons a as)
  then obtain row where "row \<in> set (gw_users g)" "scanAccount row = Inr a" by auto
  then have "quiet_step env R (set as \<union> K, g) (insert a (set as \<union> K), g)" by (rule quiet_step.account_read)
  with Cons show ?case by (simp add: rtranclp.rtrancl_into_rtrancl)
qed simp

lemma quiet_ListAccounts: "quiet_from env R K g (fst (ListAccounts env R g))"
proof -
  obtain g1 r where 1: "db_read List g = (g1, r)" by fastforce
  have read: "quiet_from env R K g g1" using quiet_read [of env R K g List] 1 by simp
  show ?thesis
  proof (cases r)
    case (Inl e)
    with 1 read show ?thesis by (simp add: ListAccounts_def)
  next
    case (Inr as)
    have "scan_rows (sort_key (\<lambda>row. toLower (ac_Username row)) (gw_users g1)) = Inr as"
      using db_read_result [of List g g1 as] 1 Inr by (simp add: List_def)
    then have "\<forall>a\<in>set as. \<exists>row\<in>set (gw_users g1). scanAccount row = Inr a" using scan_rows_read by fastforce
    from accounts_read [OF this] quiet_lock_policies [of as "set as \<union> K" env R g1]
    have "quiet_from env R K g1 (fst (lock_policies env R as g1))"
      unfolding quiet_from_def by (meson rtranclp_trans Un_upper1)
    with 1 Inr read show ?thesis by (auto simp: ListAccounts_def intro: quiet_trans)
  qed
qed

text \<open>A request that is authenticated reads its session and its account and touches the session.\<close>

lemma quiet_Authenticate:
  assumes "Authenticate env R request g = (g1, Inr actor)"
  shows "quiet_from env R K g g1"
proof -
  from assms obtain raw userID tokenIP version where
    "authenticate_session env R request raw userID tokenIP version g = (g1, Inr actor)"
    by (auto simp: Authenticate_def split: if_split_asm option.split_asm prod.split_asm)
  then obtain session where account: "authenticate_account env R raw userID version session
      (g\<lparr>gw_sessions := fst (sr_Get R (ae_now env) raw (gw_sessions g))\<rparr>) = (g1, Inr actor)"
    by (auto simp: authenticate_session_def Let_def split: if_split_asm prod.split_asm sum.split_asm registryError.split_asm)
  let ?g = "g\<lparr>gw_sessions := fst (sr_Get R (ae_now env) raw (gw_sessions g))\<rparr>"
  note read = quiet_trans [OF quiet_one [OF quiet_step.session_read [of env R K g raw]] quiet_read [of env R K ?g "ByID userID"]]
  from account have "g1 = fst (db_read (ByID userID) ?g) \<or>
      g1 = (fst (db_read (ByID userID) ?g))\<lparr>gw_sessions :=
        fst (sr_Touch R (ae_now env) raw (ae_now env) (gw_sessions (fst (db_read (ByID userID) ?g))))\<rparr>"
    by (auto simp: authenticate_account_def Let_def
        split: if_split_asm prod.split_asm sum.split_asm option.split_asm storeError.split_asm)
  then show ?thesis
    using read quiet_trans [OF read quiet_one [OF quiet_step.session_touched]] by auto
qed

text \<open>Rule 2: the command does no more than that, or there is a new record of the actor in the log of the panel.\<close>

definition recorded_before :: "auth_env \<Rightarrow> 's sessionRegistry \<Rightarrow> identity \<Rightarrow> 's gateway \<Rightarrow> 's outcome \<Rightarrow> bool" where
  "recorded_before env R actor g out \<longleftrightarrow>
     quiet_from env R {} g (fst out) \<or>
     (\<exists>es event. gw_audit (fst out) = gw_audit g @ es \<and>
        (''webpanel'', event, ac_ID (id_Account actor), as_ID (id_Session actor)) \<in> set es)"

lemma quiet_step_log: "quiet_step env R x y \<Longrightarrow> \<exists>es. gw_audit (snd y) = gw_audit (snd x) @ es"
  by (induction rule: quiet_step.induct) (auto simp: after_read_def split: list.split)

lemma quiet_log: "quiet_from env R K g g' \<Longrightarrow> \<exists>es. gw_audit g' = gw_audit g @ es"
proof -
  have "(quiet_step env R)\<^sup>*\<^sup>* x y \<Longrightarrow> \<exists>es. gw_audit (snd y) = gw_audit (snd x) @ es" for x y
    by (induction rule: rtranclp_induct) (auto dest!: quiet_step_log)
  then show "quiet_from env R K g g' \<Longrightarrow> \<exists>es. gw_audit g' = gw_audit g @ es"
    unfolding quiet_from_def by (metis snd_conv)
qed

lemma recorded_preceded:
  assumes "quiet_from env R {} g g1" and "recorded_before env R actor g1 out"
  shows "recorded_before env R actor g out"
proof -
  obtain e1 where e1: "gw_audit g1 = gw_audit g @ e1" using quiet_log [OF assms(1)] by blast
  from assms(2) consider "quiet_from env R {} g1 (fst out)"
    | es event where "gw_audit (fst out) = gw_audit g1 @ es"
        "(''webpanel'', event, ac_ID (id_Account actor), as_ID (id_Session actor)) \<in> set es"
    unfolding recorded_before_def by blast
  then show ?thesis
  proof cases
    case 1
    then show ?thesis using quiet_trans [OF assms(1)] unfolding recorded_before_def by blast
  next
    case 2
    then have "gw_audit (fst out) = gw_audit g @ (e1 @ es)" using e1 by simp
    with 2(2) show ?thesis unfolding recorded_before_def by fastforce
  qed
qed

interpretation recorded: command_rule "quiet_from env R {}" "recorded_before env R actor" env R for env R actor
proof unfold_locales
  show "quiet_from env R {} g g1 \<Longrightarrow> recorded_before env R actor g1 out \<Longrightarrow> recorded_before env R actor g out"
    for g g1 out by (rule recorded_preceded)
qed (auto simp: recorded_before_def quiet_after_read quiet_list_sessions auditWebpanel_def quiet_append)

lemma recorded_noted:
  assumes "ac_LoggingEnabled (id_Account actor)" and "\<And>g. only_calls (\<lambda>call. True) g (rest g)"
  shows "recorded_before env R actor g (recorded_first actor event rest g)"
proof (cases "auditWebpanel actor event g")
  case (Pair g1 ok)
  show ?thesis
  proof (cases ok)
    case True
    then have "gw_audit g1 = gw_audit g @ [(''webpanel'', event, ac_ID (id_Account actor), as_ID (id_Session actor))]"
      using Pair assms(1) by (auto simp: auditWebpanel_def audit_append_def split: list.split_asm bool.split_asm)
    moreover obtain es where "gw_audit (fst (rest g1)) = gw_audit g1 @ es"
      using assms(2) [of g1] unfolding only_calls_def gw_runs_def by blast
    ultimately show ?thesis using Pair True unfolding recorded_before_def recorded_first_def by auto
  next
    case False
    then show ?thesis
      using Pair recorded.refused [OF recorded.panel_log [of env R g actor event]] by (simp add: recorded_first_def)
  qed
qed

lemma any_revoking: "(\<And>g. only_calls (\<lambda>call. True) g (rest g)) \<Longrightarrow> only_calls (\<lambda>call. True) g (revoking env R i rest g)"
  by (rule calls_revoking) simp_all

lemma any_another:
  "(\<And>g. only_calls (\<lambda>call. True) g (rest g)) \<Longrightarrow> only_calls (\<lambda>call. True) g (requireAnotherAdministrator env R i rest g)"
  unfolding requireAnotherAdministrator_def
  by (rule calls.store [OF runs_mono [OF runs_ListAccounts]]) (simp_all add: calls.refused)

lemma recorded_another:
  "(\<And>g. recorded_before env R actor g (rest g)) \<Longrightarrow> recorded_before env R actor g (requireAnotherAdministrator env R i rest g)"
  unfolding requireAnotherAdministrator_def
  by (rule recorded.store [OF quiet_ListAccounts]) (simp add: recorded.rejected)

lemma runs_rename: "gw_runs P g (fst (audit_rename g))"
  by (auto simp: audit_rename_def intro!: runs_same [of _ _ "[]"] split: list.split)

lemma any_renamed:
  assumes "\<And>g. only_calls (\<lambda>call. True) g (rest g)"
  shows "only_calls (\<lambda>call. True) g (save_renamed env renamed a rest g)"
proof -
  let ?T = "\<lambda>call. True"
  obtain g1 ok where renaming: "(if renamed then audit_rename g else (g, True)) = (g1, ok)" by fastforce
  have 1: "gw_runs ?T g g1" using runs_rename [of ?T g] renaming by (auto split: if_split_asm)
  obtain g2 r where saving: "db (Save (ae_now env) a) g1 = (g2, r)" by fastforce
  have 2: "gw_runs ?T g g2" using runs_trans [OF 1 runs_db [of ?T "Save (ae_now env) a" g1]] saving by simp
  have 3: "gw_runs ?T g (fst (audit_rename g2))" by (rule runs_trans [OF 2 runs_rename])
  show ?thesis
  proof (cases r)
    case (Inl e)
    then show ?thesis using 1 2 3 by (simp add: only_calls_def save_renamed_def renaming saving split: bool.split)
  next
    case (Inr x)
    then show ?thesis
      using calls.refused [OF 1] calls.preceded [OF 2 assms] by (simp add: save_renamed_def renaming saving split: bool.split)
  qed
qed

lemma any_ended:
  "only_calls (\<lambda>call. True) g (revoking env R i (completed actor event Updated) (ResetLoginLimits username addr g))"
  by (rule calls_limits, rule any_revoking) simp

lemma any_purged: "only_calls (\<lambda>call. True) g (completed actor event result (PurgeUserSessionLeases R i g))"
  unfolding PurgeUserSessionLeases_def by (rule calls.preceded [OF runs_trans [OF runs_read runs_purge] calls_completed])

lemma any_changed:
  assumes "made_of (\<lambda>call. True) op"
  shows "only_calls (\<lambda>call. True) g (with_store (db op g) (\<lambda>_ g.
      revoking env R i (completed actor event Updated) (ResetLoginLimits username addr g)))"
  by (rule calls_store [OF assms any_ended])

lemma recorded_changed:
  assumes "ac_LoggingEnabled (id_Account actor)" and "made_of (\<lambda>call. True) op"
  shows "recorded_before env R actor g (changed_by_admin env R actor e1 e2 op a g)"
  unfolding changed_by_admin_def by (rule recorded_noted [OF assms(1) any_changed [OF assms(2)]])

lemma recorded_owned:
  assumes "ac_LoggingEnabled (id_Account actor)"
  shows "recorded_before env R actor g (revoke_owned env R actor missing e1 e2 userID sessionID g)"
proof -
  have inner: "only_calls (\<lambda>call. True) g1 (case RevokeSession R sessionID g1 of
      (g, Some e) \<Rightarrow> (g, Inl (AccRegistry e)) | (g, None) \<Rightarrow> completed actor e2 RevokedResult g)" for g1
    by (rule calls_revoked)
  show ?thesis
    unfolding revoke_owned_def
    by (rule recorded.listing) (auto intro!: recorded.rejected recorded_noted [OF assms] inner)
qed

lemma any_store_Create: "gw_runs (\<lambda>call. True) g (fst (store_Create env a hash g))"
  by (auto simp: store_Create_def runs_db split: option.split)

text \<open>C20: no command changes an account or a session without a record of it. For an actor whose actions are logged, a command
  either leaves a new record of the actor in the log of the panel, or it does nothing but read, touch
  sessions (their last-seen time moves to now) and end locks, with the sessions behind them, that had run out when the account was read; calls of other
  requests come in between as they like. The log may fail at any time, so a record written only after the change is not
  enough.\<close>

theorem account_change_recorded_first:
  assumes "Authenticate env R request g = (g1, Inr actor)" and "ac_LoggingEnabled (id_Account actor)"
  shows "recorded_before env R actor g (accountCommand env R number request command payload g)"
proof -
  note logged = assms(2)
  note 1 = quiet_Authenticate [OF assms(1), of "{}"]
  have read: "recorded_before env R actor h (h, Inr r)" for h r by (simp add: recorded_before_def)
  have list: "recorded_before env R actor g1 (accounts_list env R actor g1)"
    unfolding accounts_list_def by (rule recorded.admin, rule recorded.store [OF quiet_ListAccounts], rule read)
  have get: "recorded_before env R actor g1 (accounts_get env R actor payload g1)"
    unfolding accounts_get_def by (rule recorded.admin, rule recorded.target, rule recorded.listing, rule read)
  have create: "recorded_before env R actor g1 (accounts_create env number actor payload g1)"
    unfolding accounts_create_def Let_def
    by (rule recorded.admin, rule recorded.hashed, rule recorded_noted [OF logged], rule calls.store [OF any_store_Create],
        rule calls.store [OF runs_read], rule calls_completed)
  have update: "recorded_before env R actor g1 (accounts_update env R number actor payload g1)"
    unfolding accounts_update_def
    by (rule recorded.admin, rule recorded.target)
      (auto split: sum.split intro!: recorded.rejected recorded_noted [OF logged] any_another any_renamed any_purged)
  have reset: "recorded_before env R actor g1 (accounts_password_reset env R actor payload g1)"
    unfolding accounts_password_reset_def
    by (rule recorded.admin, rule recorded.target, rule recorded.hashed, rule recorded_changed [OF logged]) simp
  have mfa: "recorded_before env R actor g1 (accounts_mfa_reset env R actor payload g1)"
    unfolding accounts_mfa_reset_def by (rule recorded.admin, rule recorded.target, rule recorded_changed [OF logged]) simp
  have unlock: "recorded_before env R actor g1 (accounts_unlock env R actor payload g1)"
    unfolding accounts_unlock_def by (rule recorded.admin, rule recorded.target, rule recorded_changed [OF logged]) simp
  have revoke: "recorded_before env R actor g1 (accounts_sessions_revoke env R actor payload g1)"
    unfolding accounts_sessions_revoke_def by (rule recorded.admin, rule recorded.target, rule recorded_owned [OF logged])
  have revoke_all: "recorded_before env R actor g1 (accounts_sessions_revoke_all env R actor payload g1)"
    unfolding accounts_sessions_revoke_all_def
    by (rule recorded.admin, rule recorded.target, rule recorded_noted [OF logged], rule any_revoking) simp
  have delete: "recorded_before env R actor g1 (accounts_delete env R actor payload g1)"
  proof -
    have erase: "only_calls (\<lambda>call. True) h (revoking env R i (\<lambda>g. with_store (db (store_Delete i) g) (\<lambda>_. completed actor ''ACCOUNT_DELETED'' DeletedResult)) h)"
      for h i
      by (rule any_revoking, rule calls_store) simp_all
    show ?thesis
      unfolding accounts_delete_def
      by (rule recorded.admin) (auto intro!: recorded.rejected recorded.target recorded_another recorded_noted [OF logged] erase)
  qed
  have password: "recorded_before env R actor g1 (profile_password_change env R actor payload g1)"
    by (auto simp: profile_password_change_def Let_def split: sum.split bool.split
        intro!: recorded.rejected recorded.hashed recorded_noted [OF logged] calls_store_password any_ended)
  have "recorded_before env R actor g1 (account_dispatch env R number actor command payload g1)"
    by (rule recorded.dispatch [OF list get create update reset mfa unlock revoke revoke_all delete])
      (simp_all add: profile_get_def read profile_sessions_def recorded.listing profile_session_revoke_def recorded_owned logged password)
  then show ?thesis using recorded_preceded [OF 1] assms(1) by (simp add: accountCommand_def)
qed

section \<open>Sessions end\<close>

text \<open>No other request creates an account \<open>i\<close>, and the versions of that account are at least \<open>v\<close>.\<close>

definition versions_from :: "string \<Rightarrow> int \<Rightarrow> 's gateway \<Rightarrow> bool" where
  "versions_from i v g \<longleftrightarrow> meanwhile i g \<and> (\<forall>row\<in>set (gw_users g). ac_ID row = i \<longrightarrow> v \<le> ac_authVersion row)"

lemma meanwhile_calls: "meanwhile i g \<longleftrightarrow> (\<forall>call\<in>set (script_calls g). \<not> creates i call)"
  by (auto simp: meanwhile_def script_calls_def)

lemma versions_runs:
  assumes "gw_runs (\<lambda>call. \<not> creates i call) g g'" and "versions_from i v g"
  shows "versions_from i v g'"
proof -
  obtain calls where calls: "gw_users g' = store_run calls (gw_users g)" "\<forall>call\<in>set calls. \<not> creates i call \<or> call \<in> set (script_calls g)"
      "set (script_calls g') \<subseteq> set (script_calls g)"
    using assms(1) unfolding gw_runs_def by blast
  have quiet: "\<forall>call\<in>set (script_calls g). \<not> creates i call" using assms(2) by (simp add: versions_from_def meanwhile_calls)
  have "\<forall>row\<in>set (store_run calls (gw_users g)). ac_ID row = i \<longrightarrow> v \<le> ac_authVersion row"
    by (rule run_at_least) (use assms(2) calls(2) quiet in \<open>auto simp: versions_from_def\<close>)
  then show ?thesis using calls(1,3) quiet by (auto simp: versions_from_def meanwhile_calls)
qed

text \<open>Rule 3: a command that succeeds raises the versions of the account \<open>i\<close>.\<close>

definition raises :: "string \<Rightarrow> int \<Rightarrow> 's gateway \<Rightarrow> 's outcome \<Rightarrow> bool" where
  "raises i v g out \<longleftrightarrow> (case snd out of Inl e \<Rightarrow> True | Inr r \<Rightarrow> versions_from i v g \<longrightarrow> versions_from i (v + 1) (fst out))"

interpretation raising: command_rule "gw_runs (\<lambda>call. \<not> creates i call)" "raises i v" env R for i v env R
  by unfold_locales
    (auto simp: raises_def versions_runs runs_after_read runs_list_sessions runs_webpanel split: sum.split)

lemma raises_revoking:
  "raises i v g (revoking env R i (completed actor event result) g)"
proof (cases "RevokeUser env R i g")
  case (Pair g1 r)
  show ?thesis
  proof (cases r)
    case None
    obtain g2 ok where audit: "auditWebpanel actor event g1 = (g2, ok)" by fastforce
    have "versions_from i (v + 1) g2" if v: "versions_from i v g"
    proof -
      have "meanwhile i g1"
        using versions_runs [OF runs_revoke_user [of "\<lambda>call. \<not> creates i call" i g env R] v] Pair by (simp add: versions_from_def)
      moreover have "\<forall>row\<in>set (gw_users g1). ac_ID row = i \<longrightarrow> v < ac_authVersion row"
        using RevokeUser_raises [of env R i g g1 v] Pair None v by (simp add: versions_from_def)
      ultimately have "versions_from i (v + 1) g1" by (simp add: versions_from_def add1_zle_eq)
      moreover have "gw_runs (\<lambda>call. \<not> creates i call) g1 g2" using runs_webpanel [of _ g1 actor event] audit by (metis fst_conv)
      ultimately show ?thesis by (rule versions_runs [rotated])
    qed
    then show ?thesis using Pair None audit by (simp add: revoking_def completed_def raises_def)
  qed (use Pair in \<open>simp add: revoking_def raises_def\<close>)
qed

lemma raises_changed:
  assumes "made_of (\<lambda>call. \<not> creates (ac_ID a) call) op"
  shows "raises (ac_ID a) v g (changed_by_admin env R actor e1 e2 op a g)"
  unfolding changed_by_admin_def
  by (rule raising.noted, rule raising.store [OF runs_db [OF assms]], rule raising.preceded [OF runs_limits], rule raises_revoking)

lemma harmless_made:
  "made_of (\<lambda>call. \<not> creates i call) (SetPassword now j hash)" "made_of (\<lambda>call. \<not> creates i call) (SetMFA now j secret enabled)"
  "made_of (\<lambda>call. \<not> creates i call) (Unlock now j)"
  by (rule made_ofI [of _ "DoSetPassword now j hash"], simp, simp)
     (rule made_ofI [of _ "DoSetMFA now j secret enabled"], simp, simp, rule made_ofI [of _ "DoUnlock now j"], simp, simp)

lemma ByID_same: "ByID j us = Inr a \<Longrightarrow> ac_ID a = trimSpace j"
  by (auto simp: ByID_def queryOne_def scanAccount_def split: option.split_asm dest!: find_SomeD)

lemma raises_target:
  assumes "\<And>a g1. raises (ac_ID a) v g1 (rest a g1)"
  shows "raises (trimSpace (stringValue payload ''id'')) v g (with_target payload rest g)"
  by (rule raising.target) (use assms in \<open>simp flip: ByID_same\<close>)

text \<open>C21: a change of credentials by an administrator ends the sessions of the account. After a password or MFA reset, an unlock or
  the revocation of all sessions succeeded, the version of the account is above every version it had before, so that no
  token issued before is accepted; whatever other requests do meanwhile, as long as none creates the account anew.\<close>

theorem reset_ends_sessions:
  assumes "accountCommand env R number request command payload g = (g', Inr r)"
    and "command \<in> {''accounts.password.reset'', ''accounts.mfa.reset'', ''accounts.unlock'', ''accounts.sessions.revoke_all''}"
    and "i = trimSpace (stringValue payload ''id'')" and "versions_from i v g"
  shows "\<forall>row\<in>set (gw_users g'). ac_ID row = i \<longrightarrow> v < ac_authVersion row"
proof -
  obtain g1 actor where auth: "Authenticate env R request g = (g1, Inr actor)"
    and rest: "account_dispatch env R number actor command payload g1 = (g', Inr r)"
    using assms(1) by (auto simp: accountCommand_def split: prod.split_asm sum.split_asm)
  have 1: "versions_from i v g1"
    using versions_runs [OF runs_Authenticate [of "\<lambda>call. \<not> creates i call" g env R request] assms(4)] auth by simp
  have "raises i v g1 (account_dispatch env R number actor command payload g1)"
    using assms(2) unfolding assms(3)
    by (elim insertE emptyE)
      (simp_all add: account_dispatch_def accounts_password_reset_def accounts_mfa_reset_def accounts_unlock_def
        accounts_sessions_revoke_all_def raising.admin raises_target raising.hashed raises_changed harmless_made
        raising.noted raises_revoking)
  then show ?thesis using 1 rest by (auto simp: raises_def versions_from_def)
qed

section \<open>Witnesses\<close>

definition root_env :: auth_env where
  "root_env = web_env\<lparr>ae_token := (\<lambda>now token. if token = ''tok'' then Some (sample_claims\<lparr>tk_Subject := Some ''u0''\<rparr>) else None)\<rparr>"

definition root_session :: activeSession where
  "root_session = sample_session\<lparr>as_IP := ''192.0.2.7'', as_UserID := ''u0''\<rparr>"

definition root_gateway :: "users \<Rightarrow> (storeCall list \<times> bool) list \<Rightarrow> sessions gateway" where
  "root_gateway us script =
     sample_gateway\<lparr>gw_sessions := [(sessionIDDigest (\<lambda>s. [1, 2]) ''sid'', root_session)], gw_users := us, gw_script := script\<rparr>"

definition root_account :: account where
  "root_account = sample_account\<lparr>ac_ID := ''u0'', ac_Username := ''root'', ac_IsAdmin := True\<rparr>"

definition root_identity :: identity where
  "root_identity =
     \<lparr>id_Account = root_account, id_Session = root_session, id_PasswordChangeRequired = False, id_RawSessionID = ''sid''\<rparr>"

lemma root_ByID: "ByID ''u0'' (root_account # us) = Inr root_account"
proof -
  have "trimSpace ''u0'' = ''u0''" "scanAccount root_account = Inr root_account" by code_simp+
  then show ?thesis by (simp add: ByID_def queryOne_def) (simp add: root_account_def)
qed

lemma root_authenticated:
  assumes "script = [] \<and> script' = [] \<or> script = ([], False) # script'"
  shows "Authenticate root_env (memorySessionRegistry (ae_hash root_env)) client_request (root_gateway (root_account # us) script) =
     (root_gateway (root_account # us) script', Inr root_identity)"
  using assms
  by (elim disjE conjE)
    (simp_all add: Authenticate_def root_env_def web_env_def client_request_facts sample_claims_def authenticate_session_def
      memorySessionRegistry_def memory_Get_def cleanupLocked_def root_gateway_def sample_gateway_def root_session_def sample_session_def Let_def
      authenticate_account_def db_read_def db_def root_ByID root_identity_def passwordExpired_def second_def,
     simp_all add: root_account_def sample_account_def minute_def second_def)

theorem user_changes_own_account_only_witness:
  "gw_runs (own_call ''u1'') (sample_gateway\<lparr>gw_auditFails := []\<rparr>)
     (fst (accountCommand web_env (memorySessionRegistry (ae_hash web_env)) (\<lambda>n. 0) client_request ''accounts.delete'' [(''id'', StrV ''u0'')]
        (sample_gateway\<lparr>gw_auditFails := []\<rparr>)))"
proof -
  obtain g1 where accepted: "Authenticate web_env (memorySessionRegistry (ae_hash web_env)) client_request
      (sample_gateway\<lparr>gw_auditFails := []\<rparr>) = (g1, Inr desk_identity)"
    using desk_authenticated by blast
  have actor: "ac_ID (id_Account desk_identity) = ''u1''" "\<not> ac_IsAdmin (id_Account desk_identity)"
    by (simp_all add: desk_identity_def sample_account_def)
  from user_changes_own_account_only [OF accepted actor(2)] show ?thesis unfolding actor(1) .
qed

theorem account_change_recorded_first_witness:
  "recorded_before root_env (memorySessionRegistry (ae_hash root_env)) root_identity (root_gateway (root_account # []) [])
     (accountCommand root_env (memorySessionRegistry (ae_hash root_env)) (\<lambda>n. 0) client_request ''accounts.unlock'' [(''id'', StrV ''u0'')]
        (root_gateway (root_account # []) []))"
  by (rule account_change_recorded_first [OF root_authenticated]) (simp_all add: root_identity_def root_account_def sample_account_def)

lemma unlock_done:
  "case snd (account_dispatch root_env (memorySessionRegistry (ae_hash root_env)) (\<lambda>n. 0) root_identity ''accounts.unlock''
     [(''id'', StrV ''u1'')] (root_gateway [root_account, sample_account] [])) of Inl e \<Rightarrow> False | Inr r \<Rightarrow> True"
  by code_simp

theorem reset_ends_sessions_witness:
  "list_all (\<lambda>row. 1 < ac_authVersion row)
     (filter (\<lambda>row. ac_ID row = ''u1'')
       (gw_users (fst (accountCommand root_env (memorySessionRegistry (ae_hash root_env)) (\<lambda>n. 0) client_request
          ''accounts.unlock'' [(''id'', StrV ''u1'')] (root_gateway [root_account, sample_account] [])))))"
proof -
  let ?R = "memorySessionRegistry (ae_hash root_env)"
  let ?g = "root_gateway [root_account, sample_account] []"
  obtain g' r where dispatch: "account_dispatch root_env ?R (\<lambda>n. 0) root_identity ''accounts.unlock'' [(''id'', StrV ''u1'')] ?g = (g', Inr r)"
    using unlock_done by (auto split: sum.split_asm) (metis prod.collapse)
  then have done_: "accountCommand root_env ?R (\<lambda>n. 0) client_request ''accounts.unlock'' [(''id'', StrV ''u1'')] ?g = (g', Inr r)"
    by (simp add: accountCommand_def root_authenticated [of "[]" "[]"])
  have target: "trimSpace (stringValue [(''id'', StrV ''u1'')] ''id'') = ''u1''" by code_simp
  have "versions_from ''u1'' 1 ?g"
    by (simp add: versions_from_def meanwhile_def root_gateway_def sample_gateway_def root_account_def sample_account_def)
  from reset_ends_sessions [OF done_ _ target [symmetric] this] show ?thesis by (simp add: done_ list_all_iff)
qed

text \<open>An update of a policy undoes the MFA enrollment a user completes meanwhile: \<open>Save\<close> writes back the flag \<open>mfa_enabled\<close>
  that the command read before, without looking at the version of the row.\<close>

definition enrolling :: account where
  "enrolling = sample_account\<lparr>ac_mfaSecret := ''s''\<rparr>"

definition update_during_enrollment :: "sessions outcome" where
  "update_during_enrollment =
     accountCommand root_env (memorySessionRegistry (ae_hash root_env)) (\<lambda>n. 0) client_request ''accounts.update''
       [(''can_view_logs'', BoolV True), (''id'', StrV ''u1'')]
       (root_gateway [root_account, enrolling] [([], False), ([], False), ([DoEnableMFAIf 140 ''u1'' 1], False)])"

lemma update_done:
  "case account_dispatch root_env (memorySessionRegistry (ae_hash root_env)) (\<lambda>n. 0) root_identity ''accounts.update''
       [(''can_view_logs'', BoolV True), (''id'', StrV ''u1'')]
       (root_gateway [root_account, enrolling] [([], False), ([DoEnableMFAIf 140 ''u1'' 1], False)]) of
     (g, r) \<Rightarrow> list_ex (\<lambda>row. ac_ID row = ''u1'' \<and> \<not> ac_MFAEnabled row) (gw_users g) \<and> (case r of Inl e \<Rightarrow> False | Inr x \<Rightarrow> True)"
  by code_simp

theorem concurrent_enrollment_lost:
  "list_ex (\<lambda>row. ac_ID row = ''u1'' \<and> ac_MFAEnabled row) (store_run [DoEnableMFAIf 140 ''u1'' 1] [root_account, enrolling]) \<and>
   list_ex (\<lambda>row. ac_ID row = ''u1'' \<and> \<not> ac_MFAEnabled row) (gw_users (fst update_during_enrollment)) \<and>
   (\<exists>r. snd update_during_enrollment = Inr r)"
proof -
  have same: "update_during_enrollment = account_dispatch root_env (memorySessionRegistry (ae_hash root_env)) (\<lambda>n. 0) root_identity ''accounts.update''
       [(''can_view_logs'', BoolV True), (''id'', StrV ''u1'')]
       (root_gateway [root_account, enrolling] [([], False), ([DoEnableMFAIf 140 ''u1'' 1], False)])"
    unfolding update_during_enrollment_def accountCommand_def by (simp add: root_authenticated)
  have "list_ex (\<lambda>row. ac_ID row = ''u1'' \<and> ac_MFAEnabled row) (store_run [DoEnableMFAIf 140 ''u1'' 1] [root_account, enrolling])"
    by code_simp
  moreover have "list_ex (\<lambda>row. ac_ID row = ''u1'' \<and> \<not> ac_MFAEnabled row) (gw_users (fst update_during_enrollment)) \<and>
      (case snd update_during_enrollment of Inl e \<Rightarrow> False | Inr x \<Rightarrow> True)"
    using update_done unfolding same [symmetric] by (simp add: case_prod_beta)
  ultimately show ?thesis by (auto split: sum.split_asm)
qed

end
