(* ===== verification/Spec2Isabelle.thy ===== *)
theory Spec2Isabelle
  imports Telephone_Audio Planner_Rules Service_Schedule Stranded_Alert Cap_Same Listener_Tracker Same_Request Web_Address Web_Login Audit_Log
    Account_Commands
begin

text \<open>
  Haze Weather Radio is a broadcast automation system for weather radio feeds. Its Go services, all under
  \<open>src/services/go/internal\<close>, exchange JSON messages over an event bus with the Rust playout engine: the
  playlist service plans what every feed plays and prepares it, the tts and ivr services produce and
  deliver speech, the web gateway serves operators and listeners, and \<open>alertmodel\<close>, \<open>capmodel\<close> and \<open>capsame\<close>
  carry the public alerts. This development models the core of these services and proves the properties
  they depend on.

  \<^bold>\<open>Shared base.\<close> \<open>Go_Prelude\<close> has the types of bytes and instants (nanoseconds, 0 is Go's zero time), integer
  and list lemmas, the loop shape \<open>collect_unique\<close> that the source repeats in many packages, and its
  contract, the locale \<open>cleaner\<close>. \<open>Go_Strings\<close> models what is used of the packages \<open>strings\<close> and \<open>strconv\<close>,
  \<open>Go_Values\<close> the decoded JSON messages with the accessors of \<open>playlist/bridge.go\<close>, \<open>Go_Base64\<close> and \<open>Go_Net\<close>
  what is used of \<open>encoding/base64\<close> (with a round trip) and of \<open>net\<close> (addresses, masks and prefixes).

  \<^bold>\<open>Audio.\<close> \<open>Wave_Audio\<close> models the three WAV parsers and the encoders of \<open>playlist/audio.go\<close>, \<open>tts/audio.go\<close> and
  \<open>ivr/audio.go\<close> and the streaming writer with its temporary file; sizes and sample values are machine
  words where they wrap. The properties are the round trips between every writer and every reader, the
  agreement of the parsers, and the one size at which the streaming writer's header wraps.
  \<open>Telephone_Audio\<close> has the mu-law codec, the down-mix and the RTP decoder of \<open>ivr/audio.go\<close>,
  \<open>ivr/sip_media.go\<close> and \<open>ivr/sip.go\<close>: quantization bounds over all samples, exactness of the mean,
  loss concealment and replay protection.

  \<^bold>\<open>The feed planner\<close> (\<open>playlist/service.go\<close>, \<open>playlist/config.go\<close>). \<open>Playlist_Data\<close> holds the planner's record, its
  environment (configuration, clock, and the outcomes of rendering, synthesis and file access, which are
  arguments), the timeline and the invariant \<open>timeline_ok\<close>; the locale \<open>item_source\<close> states what every
  builder of items promises. \<open>Segment_Pool\<close> models the workers that prepare the segments of a product at
  the same time, with their job and result channels: the schedule \<open>env_schedule\<close> is an argument, and every
  schedule runs to its end with the results in the order of the segments. \<open>Product_Build\<close> models all branches
  that turn a rendered product into an item and interprets the locale by each of them. \<open>Feed_Planner\<close> has the operations: rotation, fixed events,
  start-up primer, inserts, playout events, operator control and the priority mode. \<open>Planner_Schedule\<close>
  has the steps of a planner that prepares its items itself, as the source does without worker pools, and
  proves that each of its operations keeps the schedule in order;
  \<open>Planner_Rules\<close> the rules for alerts, fixed events and the rotation.

  \<^bold>\<open>The playlist service\<close> (\<open>playlist/async.go\<close>, \<open>playlist/service.go\<close>). \<open>Preparation\<close> models the worker pools with their
  slots and the result channel, the per-feed preparation state and the backlog of priority alerts with
  tokens and versions; a goroutine is an entry of \<open>co_workers\<close>. \<open>Playlist_Service\<close> has the event loop:
  which feeds an event is for, what each event does, and the inductive relation \<open>service_step\<close> in which
  events, timer ticks, results and worker progress interleave freely. \<open>Service_Invariants\<close> states the locale
  \<open>service_invariant\<close>, the contract of an invariant with the primitive changes of the service, proves once
  that such an invariant holds in every reachable state, and interprets it by the slot accounting,
  the pool sizes and the backlog limit. \<open>Service_Schedule\<close> carries the schedule invariant over to the service:
  the locale \<open>planner_law\<close> is the contract of a law of the single planner with every operation the service
  applies to one, the commit of prepared items with its rebase included; it is interpreted by \<open>timeline_ok\<close> and by
  the law of the modes, and both hold for every feed in every reachable state. \<open>Priority_Alerts\<close> interprets it by the bookkeeping of versions and by
  the statement that earlier requests are void, and derives that a cancelled or superseded alert is
  never committed; it also shows that after an alert was accepted or the result of an alert was handled,
  an alert of an idle feed waits only when the workers or the result slots are exhausted. \<open>Stranded_Alert\<close> shows by a run
  of the service that nothing more holds: the result of a routine preparation frees a slot without looking at the
  backlog, and an alert that waited for it stays there with all workers idle.

  \<^bold>\<open>Alerts.\<close> \<open>Alert_Packet\<close> models the package \<open>alertmodel\<close>: the normal form of a packet, the flat map of older
  services and the merge of both; the locale \<open>cleaner\<close> is interpreted by its four cleaning loops.
  \<open>Cap_Same\<close> models \<open>capsame/event.go\<close> with its table of hazards. \<open>Same_Request\<close> models
  \<open>playlist/same.go\<close>: the request for the SAME generator, its location codes and the concurrent generation
  of its two parts.

  \<^bold>\<open>Web gateway: requests and accounts\<close> (\<open>webgateway\<close>). \<open>Listener_Tracker\<close> models \<open>listener_tracker.go\<close>, refined to the
  multiset of open connections. \<open>Web_Address\<close> derives the address of a client from the peer and the headers of
  trusted proxies and checks it against an allow list. \<open>Rate_Limits\<close> models the sliding-window limiter of
  \<open>account_auth.go\<close>, \<open>Web_Sessions\<close> the contract of a session registry (a locale) and the registry in memory that
  meets it, \<open>Password_Hash\<close> the encoding and verification of Argon2id hashes with the rules for passwords.
  \<open>Account_Store\<close> models the statements of \<open>accounts_store.go\<close> on the table of accounts: every operation with its
  conditions on the version of a row, the lock after failed sign-ins and the guard for the last
  administrator. \<open>Web_Auth\<close> has the state of the gateway (table, sessions, windows, audit log and the script of
  what other requests do meanwhile), \<open>Authenticate\<close> with all its checks, the lock policy and the revocation of
  users; \<open>Web_Login\<close> the sign-in in its stages, MFA enrollment included. A request is interleaved with others:
  between any two of its operations the script \<open>gw_script\<close> may change the table, so that every property of
  these theories holds for every interference that its hypotheses do not exclude. \<open>gw_auditFails\<close> says which
  audit records fail to be written, \<open>gw_rates\<close> what the rate limiter of requests answers.

  \<^bold>\<open>Web gateway: audit log\<close> (\<open>account_audit.go\<close>). \<open>Audit_Log\<close> models the files of a category as lists of lines, the
  head file, the chain of MACs, verification, appending and the renaming of an account, which rewrites all
  categories and rolls back when a step fails; the script \<open>st_faults\<close> decides which file operations fail.
  A verified log has one reading only, appending and renaming keep it verified, and a failed rename whose
  rollback succeeds leaves the files as they were.

  \<^bold>\<open>Web gateway: commands.\<close> \<open>Same_Origination\<close> models the fields of a command, the expansion of location codes over
  the coverage of feeds, and the SAME request (\<open>same_gateway.go\<close>, \<open>templates.go\<close>, parts of \<open>panel_state.go\<close>).
  \<open>Web_Command\<close> has the origination policy (\<open>account_policy.go\<close>), the sanitizing of audit records and
  \<open>handleCommand\<close> in account mode, whose executor is an argument. \<open>Account_Commands\<close> models that executor for the
  commands of \<open>accounts_commands.go\<close>. The locale \<open>command_rule\<close> is the contract of a predicate with the pieces commands
  are built from; it proves the predicate for every command and is interpreted by three of them: which
  operations on the table occur, that a record precedes each change of accounts and sessions, and that versions
  rise. A change without a record is a \<open>quiet_step\<close>: a session is touched, or a lock that is over
  by the clock of the request ends together with the sessions behind it.

  \<^bold>\<open>Conventions.\<close> Fallible code returns a sum or an option with the error texts of the source. Code outside the
  repository (ffmpeg, the RTP and G.722 libraries, \<open>encoding/json\<close> on structured types, SHA, HMAC and
  Argon2id, PASETO tokens, TOTP) and the outcomes of system calls are arguments; where a property needs their documented
  behaviour it is a hypothesis of the theorem. Where Go ranges over a map, the order is an argument or
  the order of an association list that a step may change. The MACs
  of the audit log are assumed to be 32 bytes long and free of collisions on the records compared, and a
  token to be read back by the library that issued it, with its times in whole seconds, from its issue until it expires. The one loop that runs with
  fuel is \<open>tick_loop\<close>: its fuel is \<open>max_queued\<close>, and it is proved that the loop ends by itself within it. Counters of type \<open>uint64\<close> that grow by one per event are natural numbers.

  \<^bold>\<open>Not modelled.\<close> The HTTP and WebSocket handlers of the web gateway other than the command handler, the
  branches of \<open>executeCommand\<close> that only edit files or forward messages, the gateway without accounts, the session
  registry in Redis, the product renderer and data ingest (text templates, floating-point formatting and
  HTTP), SIP and Twilio signalling, the drivers of the speech synthesizers, SQL and file access, the
  resamplers (floating-point), the Rust programs and the browser front end. The manifest lists them by file.
\<close>

end
